(* ===== verification/Getzy_Prelude.thy ===== *)
theory Getzy_Prelude
  imports Main "HOL-Library.Word" "HOL-Library.Signed_Division"
begin

text \<open>
  Shared vocabulary of the development: machine integers as the C++ code has them, byte and
  string types, the rule collections the component theories extend, and the three interfaces
  (locales) that several components implement:
  \<^item> \<open>codec\<close>: a writer and a reader that consume each other's output;
  \<^item> \<open>invariant_machine\<close>: a component driven by a sequence of calls that keeps an invariant;
  \<^item> \<open>one_shot\<close>: an asynchronous operation that completes its handler exactly once.
\<close>

unbundle bit_operations_syntax

named_theorems c_int_simps \<open>range facts about C integers\<close>
named_theorems step_simps \<open>one-step unfolding of component operations\<close>
named_theorems inv_intros \<open>preservation lemmas of component invariants\<close>

type_synonym byte = "8 word"
type_synonym bytes = "byte list"
type_synonym u16 = "16 word"
type_synonym u32 = "32 word"
type_synonym u64 = "64 word"

section \<open>C integers\<close>

text \<open>
  A signed C integer is an \<open>int\<close>. An operation whose mathematical result does not fit is
  undefined behaviour in C++; \<open>c_int\<close> makes it the value \<open>None\<close>. A conversion that the
  implementation defines (modulo \<open>2 ^ n\<close>) is \<open>signed_take_bit\<close>.
\<close>

definition in_int32 :: "int \<Rightarrow> bool" where
  "in_int32 x \<longleftrightarrow> - 2147483648 \<le> x \<and> x \<le> 2147483647"

definition in_int64 :: "int \<Rightarrow> bool" where
  "in_int64 x \<longleftrightarrow> - 9223372036854775808 \<le> x \<and> x \<le> 9223372036854775807"

definition c_int :: "int \<Rightarrow> int option" where
  "c_int x = (if in_int32 x then Some x else None)"

definition c_int64 :: "int \<Rightarrow> int option" where
  "c_int64 x = (if in_int64 x then Some x else None)"

definition to_int32 :: "int \<Rightarrow> int" where
  "to_int32 x = signed_take_bit 31 x"

definition to_int64 :: "int \<Rightarrow> int" where
  "to_int64 x = signed_take_bit 63 x"

lemma c_int_Some [c_int_simps]: "c_int x = Some y \<longleftrightarrow> in_int32 x \<and> y = x"
  by (auto simp: c_int_def)

lemma c_int_None [c_int_simps]: "c_int x = None \<longleftrightarrow> \<not> in_int32 x"
  by (simp add: c_int_def)

lemma c_int64_Some [c_int_simps]: "c_int64 x = Some y \<longleftrightarrow> in_int64 x \<and> y = x"
  by (auto simp: c_int64_def)

lemma to_int32_id [c_int_simps]: "in_int32 x \<Longrightarrow> to_int32 x = x"
  by (simp add: in_int32_def to_int32_def signed_take_bit_int_eq_self)

lemma to_int64_id [c_int_simps]: "in_int64 x \<Longrightarrow> to_int64 x = x"
  by (simp add: in_int64_def to_int64_def signed_take_bit_int_eq_self)

lemma to_int32_range [c_int_simps, intro]: "in_int32 (to_int32 x)"
  using signed_take_bit_int_greater_eq_minus_exp [of 31 x] signed_take_bit_int_less_exp [of 31 x]
  by (simp add: in_int32_def to_int32_def)

section \<open>Lists\<close>

lemma take_append_update:
  "pos < length xs \<Longrightarrow> take (Suc pos) (xs[pos := x]) = take pos xs @ [x]"
  by (simp add: take_Suc_conv_app_nth)

lemma find_inj:
  "distinct (map f xs) \<Longrightarrow> x \<in> set xs \<Longrightarrow> find (\<lambda>y. f y = f x) xs = Some x"
  by (induction xs) auto

lemma nth_update_same_length:
  "j < length xs \<Longrightarrow> xs[i := x] ! j = (if i = j then x else xs ! j)"
  by (cases "i < length xs") (simp_all add: nth_list_update)

section \<open>Interfaces\<close>

text \<open>
  A codec writes a value as a list of symbols; the reader gets the value back from any input
  that starts with what was written, and leaves the rest.
\<close>

locale codec =
  fixes enc :: "'a \<Rightarrow> 'b list"
    and dec :: "'b list \<Rightarrow> ('a \<times> 'b list) option"
  assumes dec_enc: "dec (enc x @ r) = Some (x, r)"
begin

lemma enc_inj: "enc x = enc y \<Longrightarrow> x = y"
  using dec_enc [of x "[]"] dec_enc [of y "[]"] by simp

lemma enc_prefix_free:
  assumes "enc x @ r = enc y @ s"
  shows "x = y \<and> r = s"
proof -
  have "Some (x, r) = Some (y, s)"
    by (rule trans [OF dec_enc [symmetric]]) (simp only: assms dec_enc)
  then show ?thesis by simp
qed

fun dec_many :: "nat \<Rightarrow> 'b list \<Rightarrow> ('a list \<times> 'b list) option" where
  "dec_many 0 bs = Some ([], bs)"
| "dec_many (Suc n) bs =
     (case dec bs of None \<Rightarrow> None
      | Some (x, r) \<Rightarrow> map_option (\<lambda>(xs, q). (x # xs, q)) (dec_many n r))"

lemma dec_many_enc: "dec_many (length xs) (concat (map enc xs) @ r) = Some (xs, r)"
  by (induction xs) (simp_all add: dec_enc)

end

text \<open>
  A component whose operations (named by events) keep an invariant keeps it over every
  sequence of operations.
\<close>

locale invariant_machine =
  fixes step :: "'s \<Rightarrow> 'e \<Rightarrow> 's"
    and inv :: "'s \<Rightarrow> bool"
  assumes inv_step: "inv s \<Longrightarrow> inv (step s e)"
begin

lemma inv_run: "inv s \<Longrightarrow> inv (foldl step s es)"
  by (induction es arbitrary: s) (auto intro: inv_step)

end

text \<open>
  An asynchronous operation: \<open>finished\<close> says that nothing is outstanding any more, \<open>calls\<close>
  counts the completions of the user's handler. The laws say that a finished operation ignores
  further events and that, as long as its invariant holds, a step completes the handler exactly
  when it finishes.
\<close>

locale one_shot =
  fixes step :: "'s \<Rightarrow> 'e \<Rightarrow> 's"
    and inv :: "'s \<Rightarrow> bool"
    and finished :: "'s \<Rightarrow> bool"
    and calls :: "'s \<Rightarrow> nat"
  assumes step_inv: "inv s \<Longrightarrow> inv (step s e)"
    and finished_step: "inv s \<Longrightarrow> finished s \<Longrightarrow> step s e = s"
    and calls_step: "inv s \<Longrightarrow> \<not> finished s \<Longrightarrow>
      calls (step s e) = calls s + (if finished (step s e) then 1 else 0)"

sublocale one_shot \<subseteq> invariant_machine step inv
  by unfold_locales (rule step_inv)

context one_shot
begin

lemma finished_run: "inv s \<Longrightarrow> finished s \<Longrightarrow> foldl step s es = s"
  by (induction es) (simp_all add: finished_step)

lemma calls_run:
  "inv s \<Longrightarrow> \<not> finished s \<Longrightarrow>
   calls (foldl step s es) = calls s + (if finished (foldl step s es) then 1 else 0)"
proof (induction es arbitrary: s)
  case Nil
  then show ?case by simp
next
  case (Cons e es)
  show ?case
  proof (cases "finished (step s e)")
    case True
    with Cons.prems show ?thesis by (simp add: finished_run calls_step step_inv)
  next
    case False
    with Cons show ?thesis by (simp add: calls_step step_inv)
  qed
qed

end

end
