(* ===== verification/Decimal_Text.thy ===== *)
theory Decimal_Text
  imports Getzy_Prelude "HOL-Library.Sublist"
begin

text \<open>
  Decimal numbers as text, and the searches of \<open>std::string\<close> the program uses. \<open>is_digit\<close> is
  \<open>libtorrent/string_util.hpp\<close>'s; \<open>nat_str\<close> and \<open>int_str\<close> are what \<open>printf\<close>'s \<open>%d\<close> and
  \<open>%ld\<close> print; \<open>str_find\<close> is \<open>std::string::find\<close>.
\<close>

section \<open>Characters\<close>

abbreviation dquote :: char where "dquote \<equiv> CHR 0x22"
abbreviation backslash :: char where "backslash \<equiv> CHR 0x5C"
abbreviation newline :: char where "newline \<equiv> CHR 0x0A"
abbreviation carriage :: char where "carriage \<equiv> CHR 0x0D"
abbreviation tabulator :: char where "tabulator \<equiv> CHR 0x09"

abbreviation ord :: "char \<Rightarrow> nat" where "ord c \<equiv> of_char c"

definition is_digit :: "char \<Rightarrow> bool" where
  "is_digit c \<longleftrightarrow> 48 \<le> ord c \<and> ord c \<le> 57"

definition digit_val :: "char \<Rightarrow> nat" where
  "digit_val c = ord c - 48"

definition digit_char :: "nat \<Rightarrow> char" where
  "digit_char d = char_of (48 + d)"

lemma ord_digit_char [simp]: "d < 10 \<Longrightarrow> ord (digit_char d) = 48 + d"
  by (simp add: digit_char_def)

lemma is_digit_digit_char [simp]: "d < 10 \<Longrightarrow> is_digit (digit_char d)"
  by (simp add: is_digit_def)

lemma digit_val_digit_char [simp]: "d < 10 \<Longrightarrow> digit_val (digit_char d) = d"
  by (simp add: digit_val_def)

section \<open>Printing\<close>

fun nat_str :: "nat \<Rightarrow> string" where
  "nat_str n = (if n < 10 then [digit_char n] else nat_str (n div 10) @ [digit_char (n mod 10)])"

declare nat_str.simps [simp del]

definition int_str :: "int \<Rightarrow> string" where
  "int_str i = (if i < 0 then CHR ''-'' # nat_str (nat (- i)) else nat_str (nat i))"

lemma nat_str_digits: "list_all is_digit (nat_str n)"
proof (induction n rule: nat_str.induct)
  case (1 n)
  then show ?case by (subst nat_str.simps) auto
qed

lemma nat_str_nonempty [simp]: "nat_str n \<noteq> []"
  by (subst nat_str.simps) simp

definition digits_val :: "nat \<Rightarrow> string \<Rightarrow> nat" where
  "digits_val acc cs = foldl (\<lambda>v c. v * 10 + digit_val c) acc cs"

lemma digits_val_Nil [simp]: "digits_val acc [] = acc"
  by (simp add: digits_val_def)

lemma digits_val_Cons [simp]: "digits_val acc (c # cs) = digits_val (acc * 10 + digit_val c) cs"
  by (simp add: digits_val_def)

lemma digits_val_snoc [simp]: "digits_val acc (cs @ [c]) = digits_val acc cs * 10 + digit_val c"
  by (simp add: digits_val_def)

lemma digits_val_nat_str [simp]: "digits_val 0 (nat_str n) = n"
proof (induction n rule: nat_str.induct)
  case (1 n)
  then show ?case by (subst nat_str.simps) auto
qed

lemma digits_val_ge: "acc \<le> digits_val acc cs"
proof (induction cs arbitrary: acc)
  case Nil
  then show ?case by simp
next
  case (Cons c cs)
  have "acc \<le> acc * 10 + digit_val c" by simp
  also have "\<dots> \<le> digits_val acc (c # cs)" using Cons.IH by simp
  finally show ?case .
qed

lemma nat_str_inj: "nat_str m = nat_str n \<Longrightarrow> m = n"
  by (metis digits_val_nat_str)

lemma hd_nat_str_digit [simp]: "is_digit (hd (nat_str n))"
  using nat_str_digits [of n] by (cases "nat_str n") auto

lemma nat_str_takeWhile:
  "(r = [] \<or> \<not> is_digit (hd r)) \<Longrightarrow> takeWhile is_digit (nat_str n @ r) = nat_str n \<and>
   dropWhile is_digit (nat_str n @ r) = r"
  using nat_str_digits [of n]
  by (cases r) (auto simp: takeWhile_append2 dropWhile_append2 list_all_iff takeWhile_append dropWhile_append)

section \<open>Searching\<close>

fun str_find :: "string \<Rightarrow> string \<Rightarrow> nat option" where
  "str_find needle [] = (if needle = [] then Some 0 else None)"
| "str_find needle (c # cs) =
     (if prefix needle (c # cs) then Some 0 else map_option Suc (str_find needle cs))"

lemma str_find_Some_prefix: "str_find needle hay = Some p \<Longrightarrow> prefix needle (drop p hay)"
  by (induction needle hay arbitrary: p rule: str_find.induct) (auto split: if_splits)

lemma str_find_le: "str_find needle hay = Some p \<Longrightarrow> p + length needle \<le> length hay"
proof -
  assume a: "str_find needle hay = Some p"
  then have "length needle \<le> length (drop p hay)"
    by (intro prefix_length_le str_find_Some_prefix)
  moreover have "p \<le> length hay"
    using a by (induction needle hay arbitrary: p rule: str_find.induct) (auto split: if_splits)
  ultimately show ?thesis by simp
qed

lemma str_find_prefix: "prefix needle hay \<Longrightarrow> str_find needle hay = Some 0"
  by (cases hay) auto

text \<open>The text after the first occurrence of \<open>needle\<close>.\<close>

definition after_first :: "string \<Rightarrow> string \<Rightarrow> string option" where
  "after_first needle hay =
     map_option (\<lambda>p. drop (p + length needle) hay) (str_find needle hay)"

lemma after_first_Nil [simp]: "needle \<noteq> [] \<Longrightarrow> after_first needle [] = None"
  by (simp add: after_first_def)

lemma after_first_here [simp]: "after_first needle (needle @ r) = Some r"
  by (simp add: after_first_def str_find_prefix)

lemma after_first_skip:
  "\<not> prefix needle (c # cs) \<Longrightarrow> after_first needle (c # cs) = after_first needle cs"
  by (simp add: after_first_def option.map_comp comp_def)

lemma after_first_skip_list:
  "list_all (\<lambda>c. c \<noteq> hd needle) a \<Longrightarrow> needle \<noteq> [] \<Longrightarrow>
   after_first needle (a @ b) = after_first needle b"
proof (induction a)
  case Nil
  then show ?case by simp
next
  case (Cons c a)
  then have "\<not> prefix needle (c # a @ b)" by (cases needle) auto
  with Cons show ?case by (simp add: after_first_skip)
qed

section \<open>Lengths and separators\<close>

lemma length_nat_str: "n < 10 ^ Suc k \<Longrightarrow> length (nat_str n) \<le> Suc k"
proof (induction k arbitrary: n)
  case 0
  then show ?case by (subst nat_str.simps) simp
next
  case (Suc k)
  show ?case
  proof (cases "n < 10")
    case True
    then show ?thesis by (subst nat_str.simps) simp
  next
    case False
    have "n div 10 < 10 ^ Suc k" using Suc.prems by (simp add: less_mult_imp_div_less)
    with Suc.IH [of "n div 10"] False show ?thesis by (subst nat_str.simps) simp
  qed
qed

lemma length_int_str:
  assumes "\<bar>i\<bar> < 10 ^ Suc k"
  shows "length (int_str i) \<le> Suc (Suc k)"
proof -
  have "nat \<bar>i\<bar> < 10 ^ Suc k" using assms by (simp add: nat_less_iff)
  then have "length (nat_str (nat \<bar>i\<bar>)) \<le> Suc k" by (rule length_nat_str)
  then show ?thesis by (auto simp: int_str_def)
qed

lemma length_int_str32: "in_int32 i \<Longrightarrow> length (int_str i) \<le> 11"
  using length_int_str [of i 9] by (auto simp: in_int32_def)

lemma length_int_str64: "in_int64 i \<Longrightarrow> length (int_str i) \<le> 20"
  using length_int_str [of i 18] by (auto simp: in_int64_def)

lemma nat_str_sep:
  assumes "\<not> is_digit c" "nat_str m @ c # x = nat_str n @ c # y"
  shows "m = n \<and> x = y"
proof -
  have
    "takeWhile is_digit (nat_str m @ c # x) = nat_str m \<and> dropWhile is_digit (nat_str m @ c # x) = c # x"
    "takeWhile is_digit (nat_str n @ c # y) = nat_str n \<and> dropWhile is_digit (nat_str n @ c # y) = c # y"
    by (intro nat_str_takeWhile disjI2; simp add: assms(1))+
  with assms(2) have "nat_str m = nat_str n" "c # x = c # y" by metis+
  then show ?thesis by (simp add: nat_str_inj)
qed

lemma nat_str_no_minus: "nat_str n \<noteq> CHR ''-'' # x"
  using nat_str_digits [of n] by (auto simp: is_digit_def)

lemma int_str_sep:
  assumes "\<not> is_digit c"
  shows "int_str i @ c # x = int_str j @ c # y \<longleftrightarrow> i = j \<and> x = y"
proof
  assume eq: "int_str i @ c # x = int_str j @ c # y"
  have no: "nat_str n @ z \<noteq> CHR ''-'' # w" for n z w
    using nat_str_no_minus [of n] by (cases "nat_str n") auto
  from eq no no [symmetric] have "i < 0 \<longleftrightarrow> j < 0" by (auto simp: int_str_def split: if_splits)
  with eq show "i = j \<and> x = y"
    by (auto simp: int_str_def split: if_splits dest!: nat_str_sep [OF assms])
qed simp

lemma int_str_inj: "int_str i = int_str j \<longleftrightarrow> i = j"
  using int_str_sep [of "CHR '',''" i "[]" j "[]"] by (simp add: is_digit_def)

end
