(* ===== verification/Json_Text.thy ===== *)
theory Json_Text
  imports Decimal_Text
begin

text \<open>
  The hand-written JSON helpers of \<open>jni/torrent_bridge.cpp\<close>: \<open>jsonEscape\<close> for the texts the
  bridge prints, and \<open>jsonExtractString\<close>, \<open>jsonExtractInt\<close>, \<open>jsonExtractBool\<close> for the settings
  object it receives. A \<open>std::string\<close> is its list of bytes. Signed overflow in
  \<open>jsonExtractInt\<close> is undefined behaviour and is the value \<open>None\<close> here.

  The specification side is a flat object of string, integer and boolean fields, printed without
  blanks (\<open>json_object\<close>). A string literal is the list of its characters and escapes, so that the
  object stands for whatever printer the client has and whichever escapes that one chooses; the
  theorems say what each extractor finds in it, and when that is what the literal means.
\<close>

section \<open>The helpers\<close>

fun json_escape_char :: "char \<Rightarrow> string" where
  "json_escape_char c =
     (if c = dquote then [backslash, dquote]
      else if c = backslash then [backslash, backslash]
      else if c = newline then [backslash, CHR ''n'']
      else if c = carriage then [backslash, CHR ''r'']
      else if c = tabulator then [backslash, CHR ''t'']
      else [c])"

fun json_escape_loop :: "string \<Rightarrow> string \<Rightarrow> string" where
  "json_escape_loop out [] = out"
| "json_escape_loop out (c # raw) = json_escape_loop (out @ json_escape_char c) raw"

definition jsonEscape :: "string \<Rightarrow> string" where
  "jsonEscape raw = json_escape_loop [] raw"

definition json_key :: "string \<Rightarrow> string" where
  "json_key key = [dquote] @ key @ [dquote, CHR '':'']"

text \<open>The loop of \<open>jsonExtractString\<close>, over the characters from \<open>pos\<close> on.\<close>

fun extract_string_loop :: "string \<Rightarrow> string \<Rightarrow> string" where
  "extract_string_loop result [] = result"
| "extract_string_loop result (c # cs) =
     (if c = dquote then result
      else if c = backslash
      then (case cs of
              [] \<Rightarrow> extract_string_loop (result @ [c]) cs
            | d # ds \<Rightarrow>
                if d = dquote then extract_string_loop (result @ [dquote]) ds
                else if d = backslash then extract_string_loop (result @ [backslash]) ds
                else if d = CHR ''n'' then extract_string_loop (result @ [newline]) ds
                else extract_string_loop (result @ [c]) cs)
      else extract_string_loop (result @ [c]) cs)"

definition jsonExtractString :: "string \<Rightarrow> string \<Rightarrow> string" where
  "jsonExtractString json key =
     (let search = json_key key @ [dquote] in
      case str_find search json of
        None \<Rightarrow> ''''
      | Some pos \<Rightarrow> extract_string_loop '''' (drop (pos + length search) json))"

definition is_blank :: "char \<Rightarrow> bool" where
  "is_blank c \<longleftrightarrow> c = CHR '' '' \<or> c = tabulator"

text \<open>The digit loop: \<open>val = val * 10 + (c - '0')\<close> on a 32-bit \<open>int\<close>.\<close>

fun extract_int_loop :: "int \<Rightarrow> string \<Rightarrow> int option" where
  "extract_int_loop val [] = Some val"
| "extract_int_loop val (c # cs) =
     (if is_digit c
      then (case c_int (val * 10) of
              None \<Rightarrow> None
            | Some m \<Rightarrow>
                (case c_int (m + int (digit_val c)) of
                   None \<Rightarrow> None
                 | Some v \<Rightarrow> extract_int_loop v cs))
      else Some val)"

definition jsonExtractInt :: "string \<Rightarrow> string \<Rightarrow> int \<Rightarrow> int option" where
  "jsonExtractInt json key defaultVal =
     (let search = json_key key in
      case str_find search json of
        None \<Rightarrow> Some defaultVal
      | Some pos \<Rightarrow>
          (let rest = dropWhile is_blank (drop (pos + length search) json);
               negative = (rest \<noteq> [] \<and> hd rest = CHR ''-'');
               digits = (if negative then tl rest else rest)
           in case extract_int_loop 0 digits of
                None \<Rightarrow> None
              | Some val \<Rightarrow> Some (if negative then - val else val)))"

definition jsonExtractBool :: "string \<Rightarrow> string \<Rightarrow> bool \<Rightarrow> bool" where
  "jsonExtractBool json key defaultVal =
     (let search = json_key key in
      case str_find search json of
        None \<Rightarrow> defaultVal
      | Some pos \<Rightarrow>
          (let rest = dropWhile is_blank (drop (pos + length search) json)
           in if take 4 rest = ''true'' then True
              else if take 5 rest = ''false'' then False
              else defaultVal))"

section \<open>Escaping and unescaping\<close>

lemma json_escape_loop_acc: "json_escape_loop out raw = out @ concat (map json_escape_char raw)"
  by (induction raw arbitrary: out) (simp_all del: json_escape_char.simps)

lemma jsonEscape_Nil [simp]: "jsonEscape [] = []"
  by (simp add: jsonEscape_def)

lemma jsonEscape_Cons [simp]: "jsonEscape (c # cs) = json_escape_char c @ jsonEscape cs"
  by (simp add: jsonEscape_def json_escape_loop_acc del: json_escape_char.simps)

text \<open>
  What reading an escaped text back gives: the reader has no case for the escapes of carriage
  return and tabulator, so these come back as a backslash and a letter.
\<close>

fun reread_char :: "char \<Rightarrow> string" where
  "reread_char c =
     (if c = carriage then [backslash, CHR ''r'']
      else if c = tabulator then [backslash, CHR ''t'']
      else [c])"

definition reread :: "string \<Rightarrow> string" where
  "reread s = concat (map reread_char s)"

lemma length_reread: "length s \<le> length (reread s)"
  by (induction s) (auto simp: reread_def)

lemma reread_id_iff: "reread s = s \<longleftrightarrow> carriage \<notin> set s \<and> tabulator \<notin> set s"
proof (induction s)
  case (Cons c s)
  have "length (reread s) \<noteq> length s - 1" if "s \<noteq> []"
    using length_reread [of s] that by (cases s) auto
  moreover have "[CHR ''r''] @ reread s \<noteq> s" "[CHR ''t''] @ reread s \<noteq> s"
    using length_reread [of s] by (metis append_Cons append_Nil length_Cons not_less_eq_eq order_refl)+
  ultimately show ?case using Cons by (auto simp: reread_def)
qed (simp add: reread_def)

lemma reread_id: "carriage \<notin> set s \<Longrightarrow> tabulator \<notin> set s \<Longrightarrow> reread s = s"
  by (simp add: reread_id_iff)

text \<open>
  A JSON string literal: characters that stand for themselves, and a backslash with the character that
  follows it. The four digits of a \<open>\u\<close> escape are characters after it.
\<close>

datatype json_token = Raw char | Esc char

fun token_text :: "json_token \<Rightarrow> string" where
  "token_text (Raw c) = [c]"
| "token_text (Esc d) = [backslash, d]"

definition tokens_text :: "json_token list \<Rightarrow> string" where
  "tokens_text ts = concat (map token_text ts)"

definition json_escapes :: "char set" where
  "json_escapes = {dquote, backslash, CHR ''/'', CHR ''b'', CHR ''f'', CHR ''n'', CHR ''r'', CHR ''t'', CHR ''u''}"

fun token_ok :: "json_token \<Rightarrow> bool" where
  "token_ok (Raw c) \<longleftrightarrow> c \<noteq> dquote \<and> c \<noteq> backslash"
| "token_ok (Esc d) \<longleftrightarrow> d \<in> json_escapes"

text \<open>What JSON means by a literal without \<open>\u\<close>, and what \<open>jsonExtractString\<close> makes of one.\<close>

fun meant_char :: "json_token \<Rightarrow> char" where
  "meant_char (Raw c) = c"
| "meant_char (Esc d) =
     (if d = CHR ''n'' then newline
      else if d = CHR ''r'' then carriage
      else if d = CHR ''t'' then tabulator
      else if d = CHR ''b'' then CHR 0x08
      else if d = CHR ''f'' then CHR 0x0C
      else d)"

definition json_meaning :: "json_token list \<Rightarrow> string" where
  "json_meaning ts = map meant_char ts"

fun read_token :: "json_token \<Rightarrow> string" where
  "read_token (Raw c) = [c]"
| "read_token (Esc d) =
     (if d = dquote \<or> d = backslash then [d] else if d = CHR ''n'' then [newline] else [backslash, d])"

definition read_back :: "json_token list \<Rightarrow> string" where
  "read_back ts = concat (map read_token ts)"

definition known_escapes :: "json_token list \<Rightarrow> bool" where
  "known_escapes ts \<longleftrightarrow> list_all (\<lambda>t. \<forall>d. t = Esc d \<longrightarrow> d = dquote \<or> d = backslash \<or> d = CHR ''n'') ts"

lemma tokens_text_simps [simp]: "tokens_text [] = []" "tokens_text (t # ts) = token_text t @ tokens_text ts"
  by (simp_all add: tokens_text_def)

lemma extract_string_loop_tokens:
  "list_all token_ok ts \<Longrightarrow> extract_string_loop result (tokens_text ts @ dquote # r) = result @ read_back ts"
proof (induction ts arbitrary: result)
  case (Cons t ts)
  then show ?case by (cases t) (auto simp: read_back_def json_escapes_def)
qed (simp add: read_back_def)

text \<open>It reads what is meant exactly when only the three escapes occur that it knows.\<close>

lemma length_read_back: "length ts \<le> length (read_back ts)"
  "length (read_back ts) = length ts \<Longrightarrow> known_escapes ts"
proof -
  have "length ts \<le> length (read_back ts) \<and> (length (read_back ts) = length ts \<longrightarrow> known_escapes ts)"
  proof (induction ts)
    case (Cons t ts)
    then show ?case by (cases t) (auto simp: read_back_def known_escapes_def)
  qed (simp add: read_back_def known_escapes_def)
  then show "length ts \<le> length (read_back ts)" "length (read_back ts) = length ts \<Longrightarrow> known_escapes ts" by blast+
qed

lemma known_read_back: "known_escapes ts \<Longrightarrow> read_back ts = json_meaning ts"
proof (induction ts)
  case (Cons t ts)
  then show ?case by (cases t) (auto simp: read_back_def known_escapes_def json_meaning_def)
qed (simp add: read_back_def json_meaning_def)

lemma read_back_meaning: "read_back ts = json_meaning ts \<longleftrightarrow> known_escapes ts"
  using known_read_back length_read_back(2) [of ts] by (auto simp: json_meaning_def)

text \<open>\<open>jsonEscape\<close> is one such printer.\<close>

definition escape_token :: "char \<Rightarrow> json_token" where
  "escape_token c =
     (if c = dquote \<or> c = backslash then Esc c
      else if c = newline then Esc (CHR ''n'')
      else if c = carriage then Esc (CHR ''r'')
      else if c = tabulator then Esc (CHR ''t'')
      else Raw c)"

lemma jsonEscape_tokens: "jsonEscape s = tokens_text (map escape_token s)"
  by (induction s) (auto simp: escape_token_def)

lemma escape_tokens_ok: "list_all token_ok (map escape_token s)"
  by (auto simp: list_all_iff escape_token_def json_escapes_def)

lemma escape_tokens_meaning: "json_meaning (map escape_token s) = s"
  by (induction s) (auto simp: escape_token_def json_meaning_def)

lemma escape_tokens_read: "read_back (map escape_token s) = reread s"
  by (induction s) (auto simp: escape_token_def read_back_def reread_def)

section \<open>Objects as a client prints them\<close>

datatype json_value = JStr "json_token list" | JInt int | JBool bool

fun value_text :: "json_value \<Rightarrow> string" where
  "value_text (JStr ts) = [dquote] @ tokens_text ts @ [dquote]"
| "value_text (JInt i) = int_str i"
| "value_text (JBool b) = (if b then ''true'' else ''false'')"

fun fields_text :: "(string \<times> json_value) list \<Rightarrow> string" where
  "fields_text [] = ''}''"
| "fields_text [(k, v)] = json_key k @ value_text v @ ''}''"
| "fields_text ((k, v) # fs) = json_key k @ value_text v @ '','' @ fields_text fs"

definition json_object :: "(string \<times> json_value) list \<Rightarrow> string" where
  "json_object fs = ''{'' @ fields_text fs"

text \<open>The keys in use are plain names.\<close>

definition plain_char :: "char \<Rightarrow> bool" where
  "plain_char c \<longleftrightarrow> c \<noteq> dquote \<and> c \<noteq> backslash \<and> c \<noteq> CHR '':'' \<and> c \<noteq> CHR '','' \<and> c \<noteq> CHR ''}''"

definition plain_key :: "string \<Rightarrow> bool" where
  "plain_key k \<longleftrightarrow> k \<noteq> [] \<and> list_all plain_char k"

section \<open>Finding a field\<close>

text \<open>
  \<open>needle key z\<close> is what the extractors search for: the quoted key and its colon, then \<open>z\<close>
  (empty, or the opening quote of a string value).
\<close>

definition needle :: "string \<Rightarrow> string \<Rightarrow> string" where
  "needle key z = json_key key @ z"

lemma needle_unfold: "needle key z = dquote # key @ dquote # CHR '':'' # z"
  by (simp add: needle_def json_key_def)

lemma literal_no_key:
  "list_all plain_char key \<Longrightarrow> c \<noteq> CHR '':'' \<Longrightarrow>
   list_all token_ok ts \<Longrightarrow> \<not> prefix (key @ dquote # CHR '':'' # z) (tokens_text ts @ dquote # c # r)"
proof (induction ts arbitrary: key)
  case Nil
  then show ?case by (cases key) (auto simp: plain_char_def)
next
  case (Cons t ts)
  then show ?case by (cases key; cases t) (auto simp: plain_char_def)
qed

definition field_end :: "char \<Rightarrow> bool" where
  "field_end c \<longleftrightarrow> c = CHR '','' \<or> c = CHR ''}''"

lemma skip_plain: "c \<noteq> dquote \<Longrightarrow> after_first (needle key z) (c # r) = after_first (needle key z) r"
  by (simp add: after_first_skip needle_unfold)

lemma skip_plains:
  "list_all (\<lambda>c. c \<noteq> dquote) a \<Longrightarrow>
   after_first (needle key z) (a @ r) = after_first (needle key z) r"
  by (induction a) (simp_all add: skip_plain)

lemma skip_closing_quote:
  "plain_key key \<Longrightarrow> \<not> plain_char c \<Longrightarrow>
   after_first (needle key z) (dquote # c # r) = after_first (needle key z) (c # r)"
  by (rule after_first_skip) (cases key; auto simp: needle_unfold plain_key_def)

lemma field_end_not_plain: "field_end c \<Longrightarrow> \<not> plain_char c \<and> c \<noteq> CHR '':'' \<and> c \<noteq> dquote"
  by (auto simp: field_end_def plain_char_def)

lemma skip_quoted_tail:
  assumes "plain_key key" "field_end c" "list_all token_ok ts"
  shows "after_first (needle key z) (dquote # tokens_text ts @ dquote # c # r) =
    after_first (needle key z) (tokens_text ts @ dquote # c # r)"
  using assms literal_no_key [of key c ts z r] field_end_not_plain [of c]
  by (simp add: after_first_skip needle_unfold plain_key_def)

lemma skip_literal:
  assumes "plain_key key" "field_end c" "list_all token_ok ts"
  shows "after_first (needle key z) (tokens_text ts @ dquote # c # r) =
    after_first (needle key z) (c # r)"
  using assms(3)
proof (induction ts)
  case Nil
  with assms show ?case by (simp add: skip_closing_quote field_end_not_plain)
next
  case (Cons t ts)
  with assms show ?case
    by (cases t) (auto simp: skip_plain skip_quoted_tail json_escapes_def)
qed

text \<open>A value, when its literals are well-formed.\<close>

fun value_ok :: "json_value \<Rightarrow> bool" where
  "value_ok (JStr ts) \<longleftrightarrow> list_all token_ok ts"
| "value_ok (JInt i) \<longleftrightarrow> True"
| "value_ok (JBool b) \<longleftrightarrow> True"

lemma digit_not_dquote: "list_all is_digit ds \<Longrightarrow> list_all (\<lambda>c. c \<noteq> dquote) ds"
  by (induction ds) (auto simp: is_digit_def)

lemma int_str_no_dquote: "list_all (\<lambda>c. c \<noteq> dquote) (int_str i)"
  by (auto simp: int_str_def digit_not_dquote nat_str_digits)

lemma skip_value:
  assumes "plain_key key" "field_end c" "value_ok v"
  shows "after_first (needle key z) (value_text v @ c # r) = after_first (needle key z) r"
proof -
  have c: "after_first (needle key z) (c # r) = after_first (needle key z) r"
    using assms by (simp add: skip_plain field_end_not_plain)
  show ?thesis
  proof (cases v)
    case (JStr s)
    with assms c show ?thesis by (simp add: skip_quoted_tail skip_literal)
  next
    case (JInt i)
    with c show ?thesis by (simp add: skip_plains int_str_no_dquote)
  next
    case (JBool b)
    have "list_all (\<lambda>c. c \<noteq> dquote) (value_text v)" using JBool by simp
    with c show ?thesis by (simp add: skip_plains del: value_text.simps)
  qed
qed

lemma plain_no_dquote: "list_all plain_char k \<Longrightarrow> list_all (\<lambda>c. c \<noteq> dquote) k"
  by (induction k) (auto simp: plain_char_def)

lemma key_prefix_iff:
  "list_all plain_char key \<Longrightarrow> list_all plain_char k \<Longrightarrow>
   prefix (key @ dquote # y) (k @ dquote # w) \<longleftrightarrow> key = k \<and> prefix y w"
proof (induction key arbitrary: k)
  case Nil
  then show ?case by (cases k) (auto simp: plain_char_def)
next
  case (Cons x key)
  then show ?case by (cases k) (auto simp: plain_char_def)
qed

lemma skip_key:
  assumes "plain_key key" "plain_key k" "\<not> (key = k \<and> prefix z w)"
  shows "after_first (needle key z) (json_key k @ w) = after_first (needle key z) w"
proof -
  have "after_first (needle key z) (json_key k @ w) =
      after_first (needle key z) (k @ dquote # CHR '':'' # w)"
    using assms
    by (simp add: json_key_def after_first_skip needle_unfold key_prefix_iff plain_key_def)
  also have "\<dots> = after_first (needle key z) (dquote # CHR '':'' # w)"
    using assms(2) by (simp add: skip_plains plain_no_dquote plain_key_def)
  also have "\<dots> = after_first (needle key z) w"
    using assms(1) by (simp add: skip_closing_quote skip_plain plain_char_def)
  finally show ?thesis .
qed

lemma hit_key: "after_first (needle key z) (json_key key @ z @ w) = Some w"
  using after_first_here [of "needle key z" w] by (simp add: needle_def)

text \<open>Which field the search for \<open>needle key z\<close> stops at.\<close>

definition find_field :: "string \<Rightarrow> string \<Rightarrow> (string \<times> json_value) list \<Rightarrow> json_value option" where
  "find_field key z fs = map_option snd (find (\<lambda>(k, v). k = key \<and> prefix z (value_text v)) fs)"

definition fields_rest :: "(string \<times> json_value) list \<Rightarrow> string" where
  "fields_rest fs = (if fs = [] then '''' else fields_text fs)"

lemma fields_text_Cons:
  "\<exists>c. field_end c \<and>
    fields_text ((k, v) # fs) = json_key k @ value_text v @ c # fields_rest fs"
  by (cases fs) (auto simp: field_end_def fields_rest_def)

lemma value_text_nonempty [simp]: "value_text v \<noteq> []"
  by (cases v) (auto simp: int_str_def)

lemma prefix_value:
  "z = [] \<or> z = [dquote] \<Longrightarrow> prefix z (value_text v @ w) \<longleftrightarrow> prefix z (value_text v)"
  by (cases "value_text v") auto

lemma after_first_fields:
  assumes "plain_key key" "list_all (\<lambda>(k, v). plain_key k \<and> value_ok v) fs" "z = [] \<or> z = [dquote]"
  shows "(case find_field key z fs of
      None \<Rightarrow> after_first (needle key z) (fields_rest fs) = None
    | Some v \<Rightarrow> \<exists>c r. field_end c \<and> after_first (needle key z) (fields_rest fs) =
        Some (drop (length z) (value_text v) @ c # r))"
  using assms(2)
proof (induction fs)
  case Nil
  then show ?case by (simp add: find_field_def fields_rest_def needle_unfold)
next
  case (Cons f fs)
  obtain k v where f: "f = (k, v)" by fastforce
  obtain c where c: "field_end c" and
    t: "fields_rest (f # fs) = json_key k @ value_text v @ c # fields_rest fs"
    using fields_text_Cons [of k v fs] by (auto simp: f fields_rest_def)
  show ?case
  proof (cases "key = k \<and> prefix z (value_text v)")
    case True
    then have "value_text v = z @ drop (length z) (value_text v)"
      by (auto simp: prefix_def)
    then have "after_first (needle key z) (fields_rest (f # fs)) =
        Some (drop (length z) (value_text v) @ c # fields_rest fs)"
      using True hit_key [of key z "drop (length z) (value_text v) @ c # fields_rest fs"]
      by (metis t append.assoc)
    with True c show ?thesis by (auto simp: f find_field_def)
  next
    case False
    then have "\<not> (key = k \<and> prefix z (value_text v @ c # fields_rest fs))"
      using assms(3) by (simp add: prefix_value)
    with Cons.prems assms(1) c
    have 1: "after_first (needle key z) (fields_rest (f # fs)) =
        after_first (needle key z) (fields_rest fs)"
      by (simp add: t [unfolded f] f skip_key skip_value)
    have 2: "find_field key z (f # fs) = find_field key z fs"
      using False by (auto simp: f find_field_def)
    show ?thesis
      unfolding 1 2 using Cons by simp
  qed
qed

lemma after_first_object:
  assumes "plain_key key" "list_all (\<lambda>(k, v). plain_key k \<and> value_ok v) fs" "z = [] \<or> z = [dquote]"
  shows "(case find_field key z fs of
      None \<Rightarrow> after_first (needle key z) (json_object fs) = None
    | Some v \<Rightarrow> \<exists>c r. field_end c \<and> after_first (needle key z) (json_object fs) =
        Some (drop (length z) (value_text v) @ c # r))"
proof (cases "fs = []")
  case True
  then show ?thesis
    by (simp add: find_field_def json_object_def skip_plain) (simp add: needle_unfold)
next
  case False
  then have "after_first (needle key z) (json_object fs) = after_first (needle key z) (fields_rest fs)"
    by (simp add: json_object_def skip_plain fields_rest_def)
  then show ?thesis using after_first_fields [OF assms] by (simp split: option.splits)
qed

text \<open>The extractors in terms of the text after the key.\<close>

lemma jsonExtractString_after:
  "jsonExtractString json key =
     (case after_first (needle key [dquote]) json of
        None \<Rightarrow> '''' | Some rest \<Rightarrow> extract_string_loop '''' rest)"
  by (simp add: jsonExtractString_def after_first_def needle_def Let_def split: option.split)

definition int_at :: "string \<Rightarrow> int option" where
  "int_at rest =
     (let r = dropWhile is_blank rest; negative = (r \<noteq> [] \<and> hd r = CHR ''-'')
      in map_option (\<lambda>v. if negative then - v else v)
           (extract_int_loop 0 (if negative then tl r else r)))"

lemma jsonExtractInt_after:
  "jsonExtractInt json key d =
     (case after_first (needle key []) json of None \<Rightarrow> Some d | Some rest \<Rightarrow> int_at rest)"
  by (auto simp: jsonExtractInt_def after_first_def needle_def int_at_def Let_def split: option.split)

lemma jsonExtractBool_after:
  "jsonExtractBool json key d =
     (case after_first (needle key []) json of
        None \<Rightarrow> d
      | Some rest \<Rightarrow> (let r = dropWhile is_blank rest in
          if take 4 r = ''true'' then True else if take 5 r = ''false'' then False else d))"
  by (simp add: jsonExtractBool_def after_first_def needle_def Let_def split: option.split)

section \<open>Values of fields\<close>

lemma extract_int_loop_digits:
  assumes "list_all is_digit ds" "r = [] \<or> \<not> is_digit (hd r)" "in_int32 (int v)"
  shows "extract_int_loop (int v) (ds @ r) = c_int (int (digits_val v ds))"
  using assms(1,3)
proof (induction ds arbitrary: v)
  case Nil
  with assms(2) show ?case by (cases r) (auto simp: c_int_def)
next
  case (Cons c ds)
  have ge: "v * 10 + digit_val c \<le> digits_val v (c # ds)"
    using digits_val_ge [of "v * 10 + digit_val c" ds] by simp
  show ?case
  proof (cases "in_int32 (int (v * 10 + digit_val c))")
    case True
    then have "in_int32 (int v * 10)" by (simp add: in_int32_def)
    with True Cons Cons.IH [of "v * 10 + digit_val c"] show ?thesis
      by (simp add: c_int_def)
  next
    case False
    with ge have "\<not> in_int32 (int (digits_val v (c # ds)))" by (simp add: in_int32_def)
    with False Cons.prems show ?thesis
      by (auto simp: c_int_def split: option.split)
  qed
qed

lemma field_end_not_digit: "field_end c \<Longrightarrow> \<not> is_digit c"
  by (auto simp: field_end_def is_digit_def)

lemma digit_not_blank: "is_digit c \<Longrightarrow> \<not> is_blank c \<and> c \<noteq> CHR ''-''"
  by (auto simp: is_digit_def is_blank_def)

lemma extract_nat_str:
  assumes "field_end c"
  shows "extract_int_loop 0 (nat_str n @ c # r) = c_int (int n)"
  using extract_int_loop_digits [of "nat_str n" "c # r" 0] assms
  by (simp add: nat_str_digits field_end_not_digit in_int32_def)

lemma int_at_int_str:
  assumes "field_end c"
  shows "int_at (int_str i @ c # r) = map_option (\<lambda>v. if i < 0 then - v else v) (c_int \<bar>i\<bar>)"
proof (cases "i < 0")
  case True
  then show ?thesis
    using extract_nat_str [OF assms, of "nat (- i)" r]
    by (simp add: int_at_def int_str_def is_blank_def)
next
  case False
  obtain d ds where ds: "nat_str (nat i) = d # ds" by (cases "nat_str (nat i)") auto
  then have d: "\<not> is_blank d \<and> d \<noteq> CHR ''-''"
    using nat_str_digits [of "nat i"] by (simp add: digit_not_blank)
  show ?thesis
    using False d extract_nat_str [OF assms, of "nat i" r]
    by (simp add: int_at_def int_str_def ds)
qed

text \<open>Which integer the extractor reads from a field of any type.\<close>

fun int_of_value :: "json_value \<Rightarrow> int option" where
  "int_of_value (JInt i) = (if \<bar>i\<bar> \<le> 2147483647 then Some i else None)"
| "int_of_value (JStr s) = Some 0"
| "int_of_value (JBool b) = Some 0"

lemma int_at_value:
  assumes "field_end c"
  shows "int_at (value_text v @ c # r) = int_of_value v"
proof (cases v)
  case (JInt i)
  with assms show ?thesis by (auto simp: int_at_int_str c_int_def in_int32_def)
next
  case (JStr s)
  then show ?thesis by (simp add: int_at_def is_blank_def is_digit_def)
next
  case (JBool b)
  then show ?thesis by (simp add: int_at_def is_blank_def is_digit_def)
qed

fun bool_of_value :: "bool \<Rightarrow> json_value \<Rightarrow> bool" where
  "bool_of_value d (JBool b) = b"
| "bool_of_value d (JInt i) = d"
| "bool_of_value d (JStr s) = d"

lemma bool_at_value:
  "(let r = dropWhile is_blank (value_text v @ w) in
      if take 4 r = ''true'' then True else if take 5 r = ''false'' then False else d)
   = bool_of_value d v"
proof (cases v)
  case (JInt i)
  obtain x xs where xs: "int_str i = x # xs" by (cases "int_str i") (auto simp: int_str_def split: if_splits)
  have "list_all (\<lambda>c. is_digit c \<or> c = CHR ''-'') (int_str i)"
    using nat_str_digits by (auto simp: int_str_def list_all_iff)
  then have "is_digit x \<or> x = CHR ''-''" by (simp add: xs)
  then have "\<not> is_blank x \<and> x \<noteq> CHR ''t'' \<and> x \<noteq> CHR ''f''"
    by (auto simp: is_digit_def is_blank_def)
  with JInt xs show ?thesis by (simp add: Let_def)
qed (simp_all add: is_blank_def Let_def)

lemma find_field_any: "find_field key [] fs = map_of fs key"
  by (induction fs) (auto simp: find_field_def)

lemma find_field_string:
  assumes "distinct (map fst fs)"
  shows "find_field key [dquote] fs =
    (case map_of fs key of Some (JStr s) \<Rightarrow> Some (JStr s) | _ \<Rightarrow> None)"
  using assms
proof (induction fs)
  case Nil
  then show ?case by (simp add: find_field_def)
next
  case (Cons f fs)
  obtain k v where f: "f = (k, v)" by fastforce
  have num: "int_str i \<noteq> dquote # zs" for i zs
    using int_str_no_dquote [of i] by auto
  have pre: "prefix [dquote] (value_text v) \<longleftrightarrow> (\<exists>s. v = JStr s)"
    using num by (cases v) (auto simp: prefix_def)
  show ?case
  proof (cases "k = key")
    case True
    then have "map_of fs key = None" using Cons.prems f by (auto simp: map_of_eq_None_iff)
    with Cons have "find_field key [dquote] fs = None" by simp
    with True pre show ?thesis by (cases v) (auto simp: f find_field_def)
  next
    case False
    with Cons show ?thesis by (simp add: f find_field_def)
  qed
qed

section \<open>What the bridge reads from the client's settings object\<close>

definition flat_object :: "(string \<times> json_value) list \<Rightarrow> bool" where
  "flat_object fs \<longleftrightarrow> list_all (\<lambda>(k, v). plain_key k \<and> value_ok v) fs \<and> distinct (map fst fs)"

definition str_field :: "(string \<times> json_value) list \<Rightarrow> string \<Rightarrow> string" where
  "str_field fs key = (case map_of fs key of Some (JStr ts) \<Rightarrow> read_back ts | _ \<Rightarrow> '''')"

definition int_field :: "(string \<times> json_value) list \<Rightarrow> string \<Rightarrow> int \<Rightarrow> int option" where
  "int_field fs key d = (case map_of fs key of None \<Rightarrow> Some d | Some v \<Rightarrow> int_of_value v)"

definition bool_field :: "(string \<times> json_value) list \<Rightarrow> string \<Rightarrow> bool \<Rightarrow> bool" where
  "bool_field fs key d = (case map_of fs key of None \<Rightarrow> d | Some v \<Rightarrow> bool_of_value d v)"

lemma string_of_object:
  assumes "plain_key key" "flat_object fs"
  shows "jsonExtractString (json_object fs) key = str_field fs key"
proof (cases "find_field key [dquote] fs")
  case None
  then have "after_first (needle key [dquote]) (json_object fs) = None"
    using after_first_object [of key fs "[dquote]"] assms by (simp add: flat_object_def)
  with None show ?thesis
    using find_field_string [of fs key] assms(2)
    by (cases "map_of fs key")
      (simp_all add: jsonExtractString_after str_field_def flat_object_def split: json_value.splits)
next
  case (Some v)
  then obtain ts where ts: "map_of fs key = Some (JStr ts)" "v = JStr ts"
    using find_field_string [of fs key] assms(2)
    by (auto simp: flat_object_def split: option.splits json_value.splits)
  with Some obtain c r where
    "after_first (needle key [dquote]) (json_object fs) = Some (tokens_text ts @ dquote # c # r)"
    using after_first_object [of key fs "[dquote]"] assms by (auto simp: flat_object_def)
  moreover have "list_all token_ok ts"
    using map_of_SomeD [OF ts(1)] assms(2) by (auto simp: flat_object_def list_all_iff)
  ultimately show ?thesis using ts
    by (simp add: jsonExtractString_after extract_string_loop_tokens str_field_def)
qed

lemma int_bool_of_object:
  assumes "plain_key key" "flat_object fs"
  shows "jsonExtractInt (json_object fs) key d = int_field fs key d
    \<and> jsonExtractBool (json_object fs) key b = bool_field fs key b"
proof (cases "map_of fs key")
  case None
  then show ?thesis
    using after_first_object [of key fs "[]"] assms
    by (simp add: find_field_any jsonExtractInt_after jsonExtractBool_after flat_object_def
        int_field_def bool_field_def)
next
  case (Some v)
  with after_first_object [of key fs "[]"] assms obtain c r where
    "field_end c" "after_first (needle key []) (json_object fs) = Some (value_text v @ c # r)"
    by (auto simp: find_field_any flat_object_def)
  with Some show ?thesis
    by (simp only: jsonExtractInt_after jsonExtractBool_after option.case int_at_value
        bool_at_value int_field_def bool_field_def)
qed

lemma int_of_object:
  "plain_key key \<Longrightarrow> flat_object fs \<Longrightarrow> jsonExtractInt (json_object fs) key d = int_field fs key d"
  by (simp add: int_bool_of_object)

lemma bool_of_object:
  "plain_key key \<Longrightarrow> flat_object fs \<Longrightarrow> jsonExtractBool (json_object fs) key b = bool_field fs key b"
  by (simp add: int_bool_of_object)

lemmas of_object = string_of_object int_of_object bool_of_object

text \<open>
  C6. \<open>jsonExtractString\<close> on an object with distinct plain keys, whatever escapes its printer uses,
  returns the string field of that key as \<open>read_back\<close> says: the escapes of quote, backslash and newline
  are undone and every other one stays as a backslash and its character; it returns the empty string when
  there is no such string field, and nothing that another field's value contains is taken for the key. It
  is what the literal means exactly when no other escape occurs: not for \<open>\/\<close>, which the client's
  printer writes for every slash. On what \<open>jsonEscape\<close> prints it gives the text back unless that has a
  carriage return or a tabulator.
\<close>

theorem extract_string_of_object:
  assumes "plain_key key" "flat_object fs"
  shows "jsonExtractString (json_object fs) key =
      (case map_of fs key of Some (JStr ts) \<Rightarrow> read_back ts | _ \<Rightarrow> '''')
    \<and> (\<forall>ts. map_of fs key = Some (JStr ts) \<longrightarrow>
        (jsonExtractString (json_object fs) key = json_meaning ts) = known_escapes ts)
    \<and> (\<forall>s. map_of fs key = Some (JStr (map escape_token s)) \<longrightarrow> carriage \<notin> set s \<longrightarrow> tabulator \<notin> set s \<longrightarrow>
        value_text (JStr (map escape_token s)) = [dquote] @ jsonEscape s @ [dquote] \<and>
        jsonExtractString (json_object fs) key = s)"
  using string_of_object [OF assms]
  by (auto simp: str_field_def read_back_meaning escape_tokens_read reread_id jsonEscape_tokens)

text \<open>
  \<open>jsonExtractInt\<close> and \<open>jsonExtractBool\<close> on such an object return the field's number or
  boolean and the default when there is no field of that key. A field of another type reads as
  0 and as the default respectively; a number outside \<open>-2147483647 to 2147483647\<close> overflows the
  \<open>int\<close> the digits are summed up in (\<open>None\<close>).
\<close>

lemma extract_int_bool_of_object:
  assumes "plain_key key" "flat_object fs"
  shows "jsonExtractInt (json_object fs) key d =
      (case map_of fs key of None \<Rightarrow> Some d | Some v \<Rightarrow> int_of_value v)
    \<and> jsonExtractBool (json_object fs) key b =
      (case map_of fs key of None \<Rightarrow> b | Some v \<Rightarrow> bool_of_value b v)"
  using int_bool_of_object [OF assms] by (simp add: int_field_def bool_field_def)

text \<open>A path printed with \<open>\/\<close> comes back with the backslashes; a text with quotes and colons does not mislead.\<close>

theorem extract_string_of_object_witness:
  "let fs = [(''a'', JStr [Esc dquote, Raw CHR ''b'', Esc dquote, Raw CHR '':'', Esc dquote]),
       (''n'', JInt 5), (''b'', JStr [Esc CHR ''/'', Raw CHR ''x''])]
   in jsonExtractString (json_object fs) ''b'' = [backslash, CHR ''/'', CHR ''x''] \<and>
      jsonExtractString (json_object fs) ''b'' \<noteq> ''/x'' \<and>
      jsonExtractString (json_object fs) ''a'' = [dquote, CHR ''b'', dquote, CHR '':'', dquote]"
proof -
  let ?fs = "[(''a'', JStr [Esc dquote, Raw CHR ''b'', Esc dquote, Raw CHR '':'', Esc dquote]),
       (''n'', JInt 5), (''b'', JStr [Esc CHR ''/'', Raw CHR ''x''])]"
  have fs: "flat_object ?fs" "plain_key ''b''" "plain_key ''a''"
    by (simp_all add: flat_object_def plain_key_def plain_char_def json_escapes_def)
  show ?thesis
    using extract_string_of_object [OF fs(2,1)] extract_string_of_object [OF fs(3,1)]
    by (simp add: read_back_def)
qed

end
