(* ===== verification/Byte_IO.thy ===== *)
theory Byte_IO
  imports Getzy_Prelude
begin

text \<open>
  \<open>libtorrent/io.hpp\<close> and \<open>libtorrent/aux_/io.hpp\<close>: reading and writing fixed-width integers
  in network byte order. The readers walk an input iterator, here the list of bytes that are
  still ahead of it; reading past the end is \<open>None\<close>. The writers put bytes through an output
  iterator; the code uses them with \<open>char*\<close> cursors into a sized buffer (\<open>cursor\<close>, where a
  write past the end is \<open>None\<close>) and with \<open>back_inserter\<close>s. What both iterators promise is the
  interface \<open>output_iterator\<close>.
\<close>

section \<open>Readers\<close>

text \<open>The loop of \<open>read_impl\<close>: shift the accumulator and OR the next byte in.\<close>

fun read_loop :: "nat \<Rightarrow> 'a::len word \<Rightarrow> bytes \<Rightarrow> ('a word \<times> bytes) option" where
  "read_loop 0 ret bs = Some (ret, bs)"
| "read_loop (Suc n) ret [] = None"
| "read_loop (Suc n) ret (b # bs) = read_loop n (push_bit 8 ret OR ucast b) bs"

definition read_impl :: "nat \<Rightarrow> bytes \<Rightarrow> ('a::len word \<times> bytes) option" where
  "read_impl sizeof_T start = read_loop sizeof_T 0 start"

text \<open>The one-byte overloads do not shift.\<close>

fun read_uint8 :: "bytes \<Rightarrow> (byte \<times> bytes) option" where
  "read_uint8 [] = None"
| "read_uint8 (b # bs) = Some (b, bs)"

definition read_int8 :: "bytes \<Rightarrow> (int \<times> bytes) option" where
  "read_int8 start = map_option (\<lambda>(b, r). (sint b, r)) (read_uint8 start)"

definition read_uint16 :: "bytes \<Rightarrow> (u16 \<times> bytes) option" where
  "read_uint16 start = read_impl 2 start"

definition read_int16 :: "bytes \<Rightarrow> (int \<times> bytes) option" where
  "read_int16 start = map_option (\<lambda>(w, r). (sint (w :: u16), r)) (read_impl 2 start)"

definition read_uint32 :: "bytes \<Rightarrow> (u32 \<times> bytes) option" where
  "read_uint32 start = read_impl 4 start"

definition read_int32 :: "bytes \<Rightarrow> (int \<times> bytes) option" where
  "read_int32 start = map_option (\<lambda>(w, r). (sint (w :: u32), r)) (read_impl 4 start)"

definition read_uint64 :: "bytes \<Rightarrow> (u64 \<times> bytes) option" where
  "read_uint64 start = read_impl 8 start"

definition read_int64 :: "bytes \<Rightarrow> (int \<times> bytes) option" where
  "read_int64 start = map_option (\<lambda>(w, r). (sint (w :: u64), r)) (read_impl 8 start)"

section \<open>Writers\<close>

text \<open>
  The loop of \<open>write_impl\<close>: from the most significant byte down, store
  \<open>(val >> (i * 8)) & 0xff\<close> through the output iterator, whose \<open>*start = b; ++start\<close> is the
  argument \<open>put\<close>.
\<close>

fun write_loop :: "(byte \<Rightarrow> 'o \<Rightarrow> 'o option) \<Rightarrow> nat \<Rightarrow> 'a::len word \<Rightarrow> 'o \<Rightarrow> 'o option" where
  "write_loop put 0 val start = Some start"
| "write_loop put (Suc i) val start =
     (case put (ucast (drop_bit (i * 8) val AND 255)) start of
        None \<Rightarrow> None
      | Some start' \<Rightarrow> write_loop put i val start')"

definition write_impl ::
  "(byte \<Rightarrow> 'o \<Rightarrow> 'o option) \<Rightarrow> nat \<Rightarrow> 'a::len word \<Rightarrow> 'o \<Rightarrow> 'o option" where
  "write_impl put sizeof_T val start = write_loop put sizeof_T val start"

definition write_uint8 :: "(byte \<Rightarrow> 'o \<Rightarrow> 'o option) \<Rightarrow> byte \<Rightarrow> 'o \<Rightarrow> 'o option" where
  "write_uint8 put val start = write_impl put 1 val start"

definition write_uint16 :: "(byte \<Rightarrow> 'o \<Rightarrow> 'o option) \<Rightarrow> u16 \<Rightarrow> 'o \<Rightarrow> 'o option" where
  "write_uint16 put val start = write_impl put 2 val start"

definition write_uint32 :: "(byte \<Rightarrow> 'o \<Rightarrow> 'o option) \<Rightarrow> u32 \<Rightarrow> 'o \<Rightarrow> 'o option" where
  "write_uint32 put val start = write_impl put 4 val start"

definition write_uint64 :: "(byte \<Rightarrow> 'o \<Rightarrow> 'o option) \<Rightarrow> u64 \<Rightarrow> 'o \<Rightarrow> 'o option" where
  "write_uint64 put val start = write_impl put 8 val start"

text \<open>
  The signed adaptors \<open>write_intN\<close> convert to the signed type, whose bits are those of the
  word.
\<close>

definition write_int8 :: "(byte \<Rightarrow> 'o \<Rightarrow> 'o option) \<Rightarrow> int \<Rightarrow> 'o \<Rightarrow> 'o option" where
  "write_int8 put val start = write_impl put 1 (word_of_int val :: byte) start"

definition write_int16 :: "(byte \<Rightarrow> 'o \<Rightarrow> 'o option) \<Rightarrow> int \<Rightarrow> 'o \<Rightarrow> 'o option" where
  "write_int16 put val start = write_impl put 2 (word_of_int val :: u16) start"

definition write_int32 :: "(byte \<Rightarrow> 'o \<Rightarrow> 'o option) \<Rightarrow> int \<Rightarrow> 'o \<Rightarrow> 'o option" where
  "write_int32 put val start = write_impl put 4 (word_of_int val :: u32) start"

definition write_int64 :: "(byte \<Rightarrow> 'o \<Rightarrow> 'o option) \<Rightarrow> int \<Rightarrow> 'o \<Rightarrow> 'o option" where
  "write_int64 put val start = write_impl put 8 (word_of_int val :: u64) start"

text \<open>\<open>write_string\<close> copies the characters one after the other.\<close>

fun write_string :: "(byte \<Rightarrow> 'o \<Rightarrow> 'o option) \<Rightarrow> bytes \<Rightarrow> 'o \<Rightarrow> 'o option" where
  "write_string put [] out = Some out"
| "write_string put (c # cs) out =
     (case put c out of None \<Rightarrow> None | Some out' \<Rightarrow> write_string put cs out')"

section \<open>Output iterators\<close>

text \<open>\<open>std::back_inserter\<close> of a byte vector.\<close>

definition put_back :: "byte \<Rightarrow> bytes \<Rightarrow> bytes option" where
  "put_back b out = Some (out @ [b])"

text \<open>A \<open>char*\<close> into a buffer of fixed size.\<close>

record cursor =
  cbuf :: bytes
  cpos :: nat

definition put_ptr :: "byte \<Rightarrow> cursor \<Rightarrow> cursor option" where
  "put_ptr b c =
     (if cpos c < length (cbuf c)
      then Some (c\<lparr>cbuf := (cbuf c)[cpos c := b], cpos := Suc (cpos c)\<rparr>)
      else None)"

definition cwritten :: "cursor \<Rightarrow> bytes" where
  "cwritten c = take (cpos c) (cbuf c)"

definition croom :: "cursor \<Rightarrow> nat \<Rightarrow> bool" where
  "croom c n \<longleftrightarrow> cpos c + n \<le> length (cbuf c)"

text \<open>The bytes a \<open>sizeof_T\<close>-byte integer occupies in network order.\<close>

fun be_bytes :: "nat \<Rightarrow> 'a::len word \<Rightarrow> bytes" where
  "be_bytes 0 val = []"
| "be_bytes (Suc i) val = ucast (drop_bit (i * 8) val AND 255) # be_bytes i val"

lemma length_be_bytes [simp]: "length (be_bytes n val) = n"
  by (induction n) auto

lemma write_loop_string: "write_loop put i val out = write_string put (be_bytes i val) out"
  by (induction i arbitrary: out) (auto split: option.split)

lemma write_uint_strings:
  "write_uint8 put v8 = write_string put (be_bytes 1 v8)"
  "write_uint16 put v16 = write_string put (be_bytes 2 v16)"
  "write_uint32 put v32 = write_string put (be_bytes 4 v32)"
  "write_uint64 put v64 = write_string put (be_bytes 8 v64)"
  by (rule ext, simp only: write_uint8_def write_uint16_def write_uint32_def write_uint64_def
      write_impl_def write_loop_string)+

text \<open>
  What the writers rely on: \<open>room o n\<close> says the iterator takes \<open>n\<close> more bytes, and each byte
  it takes is appended to what it has \<open>written\<close>.
\<close>

locale output_iterator =
  fixes put :: "byte \<Rightarrow> 'o \<Rightarrow> 'o option"
    and written :: "'o \<Rightarrow> bytes"
    and room :: "'o \<Rightarrow> nat \<Rightarrow> bool"
  assumes put_room: "room out (Suc n) \<Longrightarrow>
    \<exists>out'. put b out = Some out' \<and> written out' = written out @ [b] \<and> room out' n"
begin

lemma write_string_writes:
  "room out (length cs + n) \<Longrightarrow>
   \<exists>out'. write_string put cs out = Some out' \<and> written out' = written out @ cs \<and> room out' n"
proof (induction cs arbitrary: out)
  case Nil
  then show ?case by simp
next
  case (Cons c cs)
  then obtain o1 where "put c out = Some o1" "written o1 = written out @ [c]"
    "room o1 (length cs + n)"
    using put_room [of out "length cs + n" c] by auto
  with Cons.IH [of o1] show ?case by auto
qed

lemma write_impl_writes:
  "room out (k + n) \<Longrightarrow>
   \<exists>out'. write_impl put k val out = Some out' \<and>
     written out' = written out @ be_bytes k val \<and> room out' n"
  using write_string_writes [of out "be_bytes k val" n]
  by (simp add: write_impl_def write_loop_string)

end

interpretation vec: output_iterator put_back "\<lambda>out. out" "\<lambda>_ _. True"
  by unfold_locales (simp add: put_back_def)

interpretation ptr: output_iterator put_ptr cwritten croom
  by unfold_locales (auto simp: put_ptr_def cwritten_def croom_def take_append_update)

lemma write_string_append:
  "write_string put (xs @ ys) out = Option.bind (write_string put xs out) (write_string put ys)"
  by (induction xs arbitrary: out) (auto split: option.split)

lemma write_string_ptr_length:
  "write_string put_ptr xs c = Some c' \<Longrightarrow> length (cbuf c') = length (cbuf c) \<and> cpos c' = cpos c + length xs"
  by (induction xs arbitrary: c) (auto simp: put_ptr_def split: option.splits if_splits)

section \<open>Round trips\<close>

lemma and_255: "w AND 255 = take_bit 8 (w :: 'a::len word)"
  by (simp add: take_bit_eq_mask mask_eq_exp_minus_1)

lemma be_bytes_1 [simp]: "be_bytes (Suc 0) (b :: byte) = [b]"
  by (simp add: and_255 take_bit_word_eq_self)

lemma byte_mask_bit:
  fixes w :: "'a::len word"
  shows "bit (ucast (w AND 255) :: byte) n \<longleftrightarrow> n < 8 \<and> bit w n"
  by (auto simp: and_255 bit_simps dest: bit_imp_le_length)

lemma read_loop_be_bytes:
  fixes val acc :: "'a::len word"
  shows "read_loop i acc (be_bytes i val @ r) =
    Some (push_bit (8 * i) acc OR take_bit (8 * i) val, r)"
proof (induction i arbitrary: acc)
  case 0
  then show ?case by simp
next
  case (Suc i)
  have "push_bit (8 * i) (push_bit 8 acc OR ucast (ucast (drop_bit (i * 8) val AND 255) :: byte))
      OR take_bit (8 * i) val = push_bit (8 * Suc i) acc OR take_bit (8 * Suc i) val"
    (is "?l = ?r")
  proof (rule bit_word_eqI)
    fix n assume "n < LENGTH('a)"
    then show "bit ?l n = bit ?r n"
      by (auto simp: and_255 bit_simps algebra_simps le_diff_conv2 not_less)
  qed
  then show ?case
    using Suc.IH [of "push_bit 8 acc OR ucast (ucast (drop_bit (i * 8) val AND 255) :: byte)"]
    by simp
qed

lemma read_impl_be_bytes:
  fixes val :: "'a::len word"
  assumes "LENGTH('a) \<le> 8 * k"
  shows "read_impl k (be_bytes k val @ r) = Some (val, r)"
  using assms by (simp add: read_impl_def read_loop_be_bytes take_bit_word_eq_self)

interpretation u8c: codec "be_bytes 1 :: byte \<Rightarrow> bytes" read_uint8
  by unfold_locales (simp add: and_255 take_bit_word_eq_self)

interpretation u16c: codec "be_bytes 2 :: u16 \<Rightarrow> bytes" read_uint16
  by unfold_locales (simp add: read_uint16_def read_impl_be_bytes)

interpretation u32c: codec "be_bytes 4 :: u32 \<Rightarrow> bytes" read_uint32
  by unfold_locales (simp add: read_uint32_def read_impl_be_bytes)

interpretation u64c: codec "be_bytes 8 :: u64 \<Rightarrow> bytes" read_uint64
  by unfold_locales (simp add: read_uint64_def read_impl_be_bytes)

section \<open>A bounded buffer\<close>

lemma put_ptr_full: "\<not> croom c (Suc n) \<Longrightarrow> (case put_ptr b c of None \<Rightarrow> True | Some c' \<Rightarrow> \<not> croom c' n)"
  by (auto simp: put_ptr_def croom_def)

lemma write_string_full: "\<not> croom c (length cs) \<Longrightarrow> cs \<noteq> [] \<Longrightarrow> write_string put_ptr cs c = None"
proof (induction cs arbitrary: c)
  case Nil
  then show ?case by simp
next
  case (Cons b cs)
  show ?case
  proof (cases "put_ptr b c")
    case None
    then show ?thesis by simp
  next
    case (Some c')
    then have full: "\<not> croom c' (length cs)" using put_ptr_full [of c "length cs" b] Cons.prems by simp
    have "croom c' 0" using Some by (auto simp: put_ptr_def croom_def split: if_splits)
    with full have "cs \<noteq> []" by auto
    with Cons.IH full Some show ?thesis by simp
  qed
qed

text \<open>
  Integers written one after the other into a bounded buffer occupy exactly their widths in
  network byte order, and reading the same widths back gives the values and consumes exactly those
  bytes; a buffer without room for all of them stops the writer.
\<close>

lemma integers_roundtrip:
  fixes c :: cursor
  shows "case Option.bind (Option.bind (Option.bind (write_uint8 put_ptr a c) (write_uint16 put_ptr b))
      (write_uint32 put_ptr d)) (write_uint64 put_ptr e) of
    None \<Rightarrow> \<not> croom c 15
  | Some c' \<Rightarrow> croom c 15 \<and> (\<exists>bs. cwritten c' = cwritten c @ bs \<and> length bs = 15 \<and>
      read_uint8 (bs @ r) = Some (a, drop 1 bs @ r) \<and>
      read_uint16 (drop 1 bs @ r) = Some (b, drop 3 bs @ r) \<and>
      read_uint32 (drop 3 bs @ r) = Some (d, drop 7 bs @ r) \<and>
      read_uint64 (drop 7 bs @ r) = Some (e, r))"
proof -
  let ?s = "be_bytes 1 a @ be_bytes 2 b @ be_bytes 4 d @ be_bytes 8 e"
  have w: "Option.bind (Option.bind (Option.bind (write_uint8 put_ptr a c) (write_uint16 put_ptr b))
      (write_uint32 put_ptr d)) (write_uint64 put_ptr e) = write_string put_ptr ?s c"
    by (simp only: write_uint_strings write_string_append [symmetric] append_assoc)
  have len: "length ?s = 15" by simp
  show ?thesis
  proof (cases "croom c 15")
    case False
    with write_string_full [of c ?s] len show ?thesis unfolding w by auto
  next
    case True
    with ptr.write_string_writes [of c ?s 0] len obtain c' where
      c': "write_string put_ptr ?s c = Some c'" "cwritten c' = cwritten c @ ?s" by auto
    have d: "drop 1 ?s = be_bytes 2 b @ be_bytes 4 d @ be_bytes 8 e"
      "drop 3 ?s = be_bytes 4 d @ be_bytes 8 e" "drop 7 ?s = be_bytes 8 e"
      by (simp_all del: be_bytes.simps)
    show ?thesis
      unfolding w c'(1) option.case
      using True len c'(2) u8c.dec_enc [of a "drop 1 ?s @ r"] u16c.dec_enc [of b "drop 3 ?s @ r"]
        u32c.dec_enc [of d "drop 7 ?s @ r"] u64c.dec_enc [of e r]
      by (intro conjI exI [of _ ?s]) (simp_all only: d append_assoc)
  qed
qed

end
