(* ===== verification/Digest.thy ===== *)
theory Digest
  imports Byte_IO
begin

text \<open>
  \<open>libtorrent/sha1_hash.hpp\<close> (\<open>digest32\<close>), \<open>libtorrent/info_hash.hpp\<close> and the byte-order
  helpers of \<open>libtorrent/aux_/byteswap.hpp\<close>. A \<open>digest32\<close> holds \<open>N / 32\<close> words; the bytes
  callers see are the memory of those words, on the little-endian hosts the app is built for
  (arm64-v8a, armeabi-v7a, x86_64). The model keeps the words (\<open>m_number\<close>) and derives the bytes
  (\<open>digest_data\<close>). The number of words is an argument of the constructors; \<open>sha1_size\<close> and
  \<open>sha256_size\<close> are the two instances in use.
\<close>

section \<open>Byte order\<close>

definition swap_byteorder :: "u32 \<Rightarrow> u32" where
  "swap_byteorder x =
     (drop_bit 24 (x AND 0xff000000) OR drop_bit 8 (x AND 0x00ff0000))
     OR (push_bit 8 (x AND 0x0000ff00) OR push_bit 24 (x AND 0x000000ff))"

definition host_to_network :: "u32 \<Rightarrow> u32" where
  "host_to_network x = swap_byteorder x"

definition network_to_host :: "u32 \<Rightarrow> u32" where
  "network_to_host x = swap_byteorder x"

text \<open>The memory of a 32-bit word on a little-endian host.\<close>

definition word_bytes :: "u32 \<Rightarrow> bytes" where
  "word_bytes w =
     [ucast w, ucast (drop_bit 8 w), ucast (drop_bit 16 w), ucast (drop_bit 24 w)]"

definition bytes_word :: "byte \<Rightarrow> byte \<Rightarrow> byte \<Rightarrow> byte \<Rightarrow> u32" where
  "bytes_word b0 b1 b2 b3 =
     (ucast b0 OR push_bit 8 (ucast b1)) OR (push_bit 16 (ucast b2) OR push_bit 24 (ucast b3))"

section \<open>digest32\<close>

type_synonym digest = "u32 list"

definition sha1_size :: nat where "sha1_size = 5"
definition sha256_size :: nat where "sha256_size = 8"

definition digest_clear :: "nat \<Rightarrow> digest" where
  "digest_clear number_size = replicate number_size 0"

definition digest_max :: "nat \<Rightarrow> digest" where
  "digest_max number_size = replicate number_size 0xffffffff"

definition digest_min :: "nat \<Rightarrow> digest" where
  "digest_min number_size = digest_clear number_size"

definition digest_data :: "digest \<Rightarrow> bytes" where
  "digest_data d = concat (map word_bytes d)"

fun words_of :: "bytes \<Rightarrow> digest" where
  "words_of (b0 # b1 # b2 # b3 # bs) = bytes_word b0 b1 b2 b3 # words_of bs"
| "words_of _ = []"

text \<open>\<open>digest32(char const*)\<close>: a null pointer clears, otherwise \<open>size()\<close> bytes are copied.\<close>

definition digest_of_ptr :: "nat \<Rightarrow> bytes option \<Rightarrow> digest" where
  "digest_of_ptr number_size s =
     (case s of None \<Rightarrow> digest_clear number_size
      | Some bs \<Rightarrow> words_of (take (4 * number_size) bs))"

text \<open>\<open>assign(span)\<close> copies at most \<open>size()\<close> bytes over the front of the digest.\<close>

definition digest_assign :: "digest \<Rightarrow> bytes \<Rightarrow> digest" where
  "digest_assign d s =
     (let sl = min (length s) (4 * length d)
      in words_of (take sl s @ drop sl (digest_data d)))"

definition digest_is_all_zeros :: "digest \<Rightarrow> bool" where
  "digest_is_all_zeros d = list_all (\<lambda>v. v = 0) d"

definition digest_eq :: "digest \<Rightarrow> digest \<Rightarrow> bool" where
  "digest_eq d n = list_all2 (=) n d"

definition digest_neq :: "digest \<Rightarrow> digest \<Rightarrow> bool" where
  "digest_neq d n = (\<not> list_all2 (=) n d)"

fun digest_less :: "digest \<Rightarrow> digest \<Rightarrow> bool" where
  "digest_less (x # xs) (y # ys) =
     (let lhs = network_to_host x; rhs = network_to_host y
      in if lhs < rhs then True else if lhs > rhs then False else digest_less xs ys)"
| "digest_less _ _ = False"

definition digest_not :: "digest \<Rightarrow> digest" where
  "digest_not d = map (\<lambda>v. NOT v) d"

definition digest_xor :: "digest \<Rightarrow> digest \<Rightarrow> digest" where
  "digest_xor d n = map2 (\<lambda>a b. a XOR b) d n"

definition digest_and :: "digest \<Rightarrow> digest \<Rightarrow> digest" where
  "digest_and d n = map2 (\<lambda>a b. a AND b) d n"

definition digest_or :: "digest \<Rightarrow> digest \<Rightarrow> digest" where
  "digest_or d n = map2 (\<lambda>a b. a OR b) d n"

definition digest_index :: "digest \<Rightarrow> nat \<Rightarrow> byte option" where
  "digest_index d i =
     (if i < 4 * length d then Some (digest_data d ! i) else None)"

definition digest_to_string :: "digest \<Rightarrow> bytes" where
  "digest_to_string d = digest_data d"

text \<open>\<open>std::hash\<close>: the first eight bytes, as a \<open>size_t\<close>.\<close>

definition digest_hash :: "digest \<Rightarrow> u64" where
  "digest_hash d = ucast (d ! 0) OR push_bit 32 (ucast (d ! 1))"

section \<open>info_hash_t\<close>

datatype protocol_version = V1 | V2

instantiation protocol_version :: linorder
begin

definition less_eq_protocol_version :: "protocol_version \<Rightarrow> protocol_version \<Rightarrow> bool" where
  "less_eq_protocol_version a b \<longleftrightarrow> a = V1 \<or> b = V2"

definition less_protocol_version :: "protocol_version \<Rightarrow> protocol_version \<Rightarrow> bool" where
  "less_protocol_version a b \<longleftrightarrow> a = V1 \<and> b = V2"

instance
proof
  fix x y z :: protocol_version
  show "x < y \<longleftrightarrow> x \<le> y \<and> \<not> y \<le> x"
    by (cases x; cases y) (auto simp: less_eq_protocol_version_def less_protocol_version_def)
  show "x \<le> x"
    by (cases x) (auto simp: less_eq_protocol_version_def)
  show "x \<le> y \<Longrightarrow> y \<le> z \<Longrightarrow> x \<le> z"
    by (cases x; cases y) (auto simp: less_eq_protocol_version_def)
  show "x \<le> y \<Longrightarrow> y \<le> x \<Longrightarrow> x = y"
    by (cases x; cases y) (auto simp: less_eq_protocol_version_def)
  show "x \<le> y \<or> y \<le> x"
    by (cases x; cases y) (auto simp: less_eq_protocol_version_def)
qed

end

record info_hash_t =
  ih_v1 :: digest
  ih_v2 :: digest

definition info_hash_empty :: info_hash_t where
  "info_hash_empty = \<lparr>ih_v1 = digest_clear sha1_size, ih_v2 = digest_clear sha256_size\<rparr>"

definition has_v1 :: "info_hash_t \<Rightarrow> bool" where
  "has_v1 ih = (\<not> digest_is_all_zeros (ih_v1 ih))"

definition has_v2 :: "info_hash_t \<Rightarrow> bool" where
  "has_v2 ih = (\<not> digest_is_all_zeros (ih_v2 ih))"

definition ih_has :: "info_hash_t \<Rightarrow> protocol_version \<Rightarrow> bool" where
  "ih_has ih v = (if v = V1 then has_v1 ih else has_v2 ih)"

definition ih_get :: "info_hash_t \<Rightarrow> protocol_version \<Rightarrow> digest" where
  "ih_get ih v =
     (if v = V1 then ih_v1 ih else digest_of_ptr sha1_size (Some (digest_data (ih_v2 ih))))"

definition ih_get_best :: "info_hash_t \<Rightarrow> digest" where
  "ih_get_best ih = (if has_v2 ih then ih_get ih V2 else ih_v1 ih)"

definition ih_eq :: "info_hash_t \<Rightarrow> info_hash_t \<Rightarrow> bool" where
  "ih_eq lhs rhs \<longleftrightarrow> digest_eq (ih_v1 lhs) (ih_v1 rhs) \<and> digest_eq (ih_v2 lhs) (ih_v2 rhs)"

text \<open>\<open>for_each\<close> as the list of calls it makes, in order.\<close>

definition ih_for_each :: "info_hash_t \<Rightarrow> (digest \<times> protocol_version) list" where
  "ih_for_each ih =
     (if has_v1 ih then [(ih_v1 ih, V1)] else [])
     @ (if has_v2 ih
        then [(digest_of_ptr sha1_size (Some (digest_data (ih_v2 ih))), V2)] else [])"

text \<open>\<open>std::tie\<close> of the two members compares them lexicographically.\<close>

definition ih_less :: "info_hash_t \<Rightarrow> info_hash_t \<Rightarrow> bool" where
  "ih_less a b \<longleftrightarrow>
     digest_less (ih_v1 a) (ih_v1 b)
     \<or> (\<not> digest_less (ih_v1 b) (ih_v1 a) \<and> digest_less (ih_v2 a) (ih_v2 b))"

definition ih_hash :: "info_hash_t \<Rightarrow> u64" where
  "ih_hash k = digest_hash (ih_v1 k) XOR digest_hash (ih_v2 k)"

definition wf_info_hash :: "info_hash_t \<Rightarrow> bool" where
  "wf_info_hash ih \<longleftrightarrow> length (ih_v1 ih) = sha1_size \<and> length (ih_v2 ih) = sha256_size"

section \<open>Words and their bytes\<close>

lemma bit_byte: "bit (b :: byte) n \<Longrightarrow> n < 8"
  by (drule bit_imp_le_length) simp

lemma no_bit_byte: "8 \<le> n \<Longrightarrow> \<not> bit (b :: byte) n"
  using bit_byte [of b n] by auto

lemma bit_bytes_word:
  "bit (bytes_word b0 b1 b2 b3) n \<longleftrightarrow>
    n < 8 \<and> bit b0 n \<or> 8 \<le> n \<and> n < 16 \<and> bit b1 (n - 8) \<or>
    16 \<le> n \<and> n < 24 \<and> bit b2 (n - 16) \<or> 24 \<le> n \<and> n < 32 \<and> bit b3 (n - 24)"
  by (cases "n < 8"; cases "n < 16"; cases "n < 24"; cases "n < 32")
    (simp_all add: bytes_word_def bit_or_iff bit_push_bit_iff bit_ucast_iff no_bit_byte less_diff_conv2)

lemma bytes_word_inverse:
  "bytes_word (ucast w) (ucast (drop_bit 8 w)) (ucast (drop_bit 16 w)) (ucast (drop_bit 24 w)) = w"
proof (rule bit_word_eqI)
  fix n assume "n < LENGTH(32)"
  then show "bit (bytes_word (ucast w) (ucast (drop_bit 8 w)) (ucast (drop_bit 16 w))
      (ucast (drop_bit 24 w))) n = bit w n"
    by (cases "n < 8"; cases "n < 16"; cases "n < 24")
      (simp_all add: bit_bytes_word bit_ucast_iff bit_drop_bit_eq less_diff_conv2)
qed

lemma word_bytes_word: "word_bytes (bytes_word b0 b1 b2 b3) = [b0, b1, b2, b3]"
  unfolding word_bytes_def list.inject
  by (intro conjI refl; rule bit_word_eqI)
    (simp_all add: bit_bytes_word bit_ucast_iff bit_drop_bit_eq)

lemma byte_masks:
  "(0xff000000 :: u32) = push_bit 24 (mask 8)" "(0x00ff0000 :: u32) = push_bit 16 (mask 8)"
  "(0xff00 :: u32) = push_bit 8 (mask 8)" "(0xff :: u32) = mask 8"
  by (simp_all add: mask_eq_exp_minus_1 push_bit_eq_mult)

lemma swap_byteorder_bytes:
  "swap_byteorder w =
    bytes_word (ucast (drop_bit 24 w)) (ucast (drop_bit 16 w)) (ucast (drop_bit 8 w)) (ucast w)"
proof (rule bit_word_eqI)
  fix n assume "n < LENGTH(32)"
  then show "bit (swap_byteorder w) n = bit (bytes_word (ucast (drop_bit 24 w))
      (ucast (drop_bit 16 w)) (ucast (drop_bit 8 w)) (ucast w)) n"
    unfolding swap_byteorder_def byte_masks
    by (cases "n < 8"; cases "n < 16"; cases "n < 24")
      (auto simp: not_less bit_bytes_word bit_ucast_iff bit_drop_bit_eq bit_or_iff bit_and_iff
        bit_push_bit_iff bit_mask_iff)
qed

lemma swap_byteorder_invol [simp]: "swap_byteorder (swap_byteorder w) = w"
proof -
  have "swap_byteorder (bytes_word b0 b1 b2 b3) = bytes_word b3 b2 b1 b0" for b0 b1 b2 b3
    using word_bytes_word [of b0 b1 b2 b3] by (simp add: swap_byteorder_bytes word_bytes_def)
  then show ?thesis
    by (simp only: swap_byteorder_bytes [of w] bytes_word_inverse)
qed

section \<open>Comparison is comparison of the bytes\<close>

lemma unat_byte: "unat (ucast (drop_bit k w) :: byte) = (unat (w::u32) div 2 ^ k) mod 256"
  by (simp add: unsigned_ucast_eq unat_drop_bit_eq take_bit_eq_mod drop_bit_eq_div [where 'a = nat])

lemma nat_digits: "(n::nat) = n mod 256 + 256 * ((n div 256) mod 256) + 65536 * ((n div 65536) mod 256) + 16777216 * (n div 16777216)"
proof -
  have "n div 65536 = n div 256 div 256" "n div 16777216 = n div 65536 div 256"
    by (simp_all add: div_mult2_eq [symmetric])
  then show ?thesis
    using mult_div_mod_eq [of 256 n] mult_div_mod_eq [of 256 "n div 256"] mult_div_mod_eq [of 256 "n div 65536"]
    by linarith
qed

lemma unat_bytes_word:
  "unat (bytes_word b0 b1 b2 b3) =
    unat b0 + 256 * unat b1 + 65536 * unat b2 + 16777216 * unat b3"
proof -
  let ?w = "bytes_word b0 b1 b2 b3"
  have b: "b0 = ucast (drop_bit 0 ?w)" "b1 = ucast (drop_bit 8 ?w)"
    "b2 = ucast (drop_bit 16 ?w)" "b3 = ucast (drop_bit 24 ?w)"
    using word_bytes_word [of b0 b1 b2 b3] by (simp_all add: word_bytes_def)
  have "unat ?w < 2 ^ 32" using unsigned_less [of ?w] by simp
  then have "unat ?w div 16777216 < 256" by simp
  then have u: "unat b0 = unat ?w mod 256" "unat b1 = unat ?w div 256 mod 256"
    "unat b2 = unat ?w div 65536 mod 256" "unat b3 = unat ?w div 16777216"
    using unat_byte [of 0 ?w] unat_byte [of 8 ?w] unat_byte [of 16 ?w] unat_byte [of 24 ?w] b
    by simp_all
  show ?thesis using nat_digits [of "unat ?w"] unfolding u by simp
qed

lemma lex_step:
  fixes K :: nat
  assumes "r1 < K" "r2 < K"
  shows "r1 + K * q1 < r2 + K * q2 \<longleftrightarrow> q1 < q2 \<or> (q1 = q2 \<and> r1 < r2)"
proof (cases q1 q2 rule: linorder_cases)
  case less
  then have "K * Suc q1 \<le> K * q2" by (intro mult_le_mono2) simp
  with assms less show ?thesis by simp
next
  case equal
  then show ?thesis by simp
next
  case greater
  then have "K * Suc q2 \<le> K * q1" by (intro mult_le_mono2) simp
  with assms greater show ?thesis by simp
qed

lemma bytes_word_less:
  "bytes_word b3 b2 b1 b0 < bytes_word c3 c2 c1 c0 \<longleftrightarrow>
    ord_class.lexordp [b0, b1, b2, b3] [c0, c1, c2, c3]"
proof -
  have lt: "unat b < 256" for b :: byte using unsigned_less [of b] by simp
  have r1: "unat b3 + 256 * unat b2 < 65536"
    "unat b3 + 256 * unat b2 + 65536 * unat b1 < 16777216" for b1 b2 b3 :: byte
    using lt [of b1] lt [of b2] lt [of b3] by linarith+
  show ?thesis
    unfolding word_less_nat_alt unat_bytes_word
    by (simp add: lex_step [OF r1(2) r1(2)] lex_step [OF r1(1) r1(1)] lex_step [OF lt lt]
        word_less_nat_alt word_unat_eq_iff)
      (auto simp: not_less order_le_less)
qed
lemma lexordp_blocks:
  "length xs = length ys \<Longrightarrow>
   ord_class.lexordp (xs @ as) (ys @ bs) \<longleftrightarrow>
     ord_class.lexordp xs ys \<or> xs = ys \<and> ord_class.lexordp as (bs :: 'a::linorder list)"
  by (induction xs ys rule: list_induct2) auto

lemma network_to_host_bytes:
  "network_to_host w = bytes_word (word_bytes w ! 3) (word_bytes w ! 2) (word_bytes w ! 1) (word_bytes w ! 0)"
  by (simp add: network_to_host_def swap_byteorder_bytes word_bytes_def)

lemma word_of_word_bytes:
  "bytes_word (word_bytes w ! 0) (word_bytes w ! 1) (word_bytes w ! 2) (word_bytes w ! 3) = w"
  by (simp add: word_bytes_def bytes_word_inverse)

lemma word_bytes_inj: "word_bytes x = word_bytes y \<longleftrightarrow> x = y"
proof
  assume "word_bytes x = word_bytes y"
  then show "x = y"
    using word_of_word_bytes [of x] word_of_word_bytes [of y] by simp
qed simp

lemma network_less:
  "network_to_host x < network_to_host y \<longleftrightarrow> ord_class.lexordp (word_bytes x) (word_bytes y)"
  by (simp add: network_to_host_bytes bytes_word_less word_bytes_def)

lemma network_eq: "network_to_host x = network_to_host y \<longleftrightarrow> x = y"
  by (metis network_to_host_def swap_byteorder_invol)

lemma length_word_bytes [simp]: "length (word_bytes w) = 4"
  by (simp add: word_bytes_def)

lemma digest_data_Nil [simp]: "digest_data [] = []"
  by (simp add: digest_data_def)

lemma digest_data_Cons [simp]: "digest_data (w # d) = word_bytes w @ digest_data d"
  by (simp add: digest_data_def)

lemma length_digest_data [simp]: "length (digest_data d) = 4 * length d"
  by (induction d) auto

lemma digest_less_bytes:
  "length a = length b \<Longrightarrow> digest_less a b \<longleftrightarrow> ord_class.lexordp (digest_data a) (digest_data b)"
proof (induction a b rule: list_induct2)
  case Nil
  then show ?case by simp
next
  case (Cons x xs y ys)
  have "\<not> ord_class.lexordp (word_bytes x) (word_bytes x)"
    by (simp add: network_less [symmetric])
  with Cons show ?case
    by (auto simp: Let_def lexordp_blocks word_bytes_inj network_less [symmetric] not_less
        network_eq order_le_less)
qed

section \<open>Digests and their bytes\<close>

lemma words_of_word_bytes: "words_of (word_bytes w @ bs) = w # words_of bs"
  using word_of_word_bytes [of w] by (simp add: word_bytes_def)

lemma words_of_data [simp]: "words_of (digest_data d) = d"
  by (induction d) (simp_all add: words_of_word_bytes)

lemma data_words_of: "length bs = 4 * n \<Longrightarrow> digest_data (words_of bs) = bs"
proof (induction n arbitrary: bs)
  case 0
  then show ?case by simp
next
  case (Suc n)
  then obtain b0 b1 b2 b3 r where "bs = b0 # b1 # b2 # b3 # r" "length r = 4 * n"
    by (auto simp: numeral_eq_Suc length_Suc_conv)
  with Suc.IH [of r] show ?case by (simp add: word_bytes_word)
qed

lemma length_words_of: "length bs = 4 * n \<Longrightarrow> length (words_of bs) = n"
  using data_words_of [of bs n] length_digest_data [of "words_of bs"] by simp

lemma digest_data_inj: "digest_data a = digest_data b \<longleftrightarrow> a = b"
  by (metis words_of_data)

lemma digest_of_ptr_data:
  "length bs \<ge> 4 * n \<Longrightarrow>
   digest_data (digest_of_ptr n (Some bs)) = take (4 * n) bs \<and>
   length (digest_of_ptr n (Some bs)) = n"
  using data_words_of [of "take (4 * n) bs" n] length_words_of [of "take (4 * n) bs" n]
  by (simp add: digest_of_ptr_def)

lemma digest_data_assign:
  "digest_data (digest_assign d s) = take (4 * length d) s @ drop (length s) (digest_data d)"
proof -
  let ?sl = "min (length s) (4 * length d)"
  have "length (take ?sl s @ drop ?sl (digest_data d)) = 4 * length d" by simp
  then have "digest_data (digest_assign d s) = take ?sl s @ drop ?sl (digest_data d)"
    unfolding digest_assign_def Let_def by (rule data_words_of)
  then show ?thesis by (cases "length s \<le> 4 * length d") (simp_all add: min_def)
qed

lemma word_bytes_xor: "word_bytes (a XOR b) = map2 (XOR) (word_bytes a) (word_bytes b)"
  by (simp add: word_bytes_def)
    (intro conjI; rule bit_word_eqI; simp add: bit_xor_iff bit_ucast_iff bit_drop_bit_eq)

lemma digest_data_xor:
  "length a = length b \<Longrightarrow>
   digest_data (digest_xor a b) = map2 (XOR) (digest_data a) (digest_data b)"
  by (induction a b rule: list_induct2) (simp_all add: digest_xor_def word_bytes_xor zip_append)

lemma digest_eq_iff [simp]: "digest_eq a b \<longleftrightarrow> a = b"
  by (auto simp: digest_eq_def list.rel_eq)

lemma digest_neq_iff [simp]: "digest_neq a b \<longleftrightarrow> a \<noteq> b"
  by (auto simp: digest_neq_def list.rel_eq)

lemma all_zeros_iff: "digest_is_all_zeros d \<longleftrightarrow> d = digest_clear (length d)"
  by (induction d) (auto simp: digest_is_all_zeros_def digest_clear_def)

lemma word_xor_zero: "a XOR b = 0 \<longleftrightarrow> a = (b :: u32)"
proof
  assume "a XOR b = 0"
  then have "(a XOR b) XOR b = b" by simp
  then show "a = b" by (simp add: xor.assoc)
qed simp

lemma digest_xor_zero:
  "length a = length b \<Longrightarrow> digest_is_all_zeros (digest_xor a b) \<longleftrightarrow> a = b"
  by (induction a b rule: list_induct2) (auto simp: digest_xor_def digest_is_all_zeros_def word_xor_zero)

lemma digest_xor_assoc:
  "length a = length b \<Longrightarrow> length b = length c \<Longrightarrow>
   digest_xor (digest_xor a b) c = digest_xor a (digest_xor b c)"
  by (induction a b c rule: list_induct3) (auto simp: digest_xor_def xor.assoc)

lemma digest_xor_commute: "length a = length b \<Longrightarrow> digest_xor a b = digest_xor b a"
  by (induction a b rule: list_induct2) (auto simp: digest_xor_def xor.commute)

section \<open>Properties of digests and info-hashes\<close>

text \<open>
  \<open>digest32::operator<\<close>, which compares the words after byte-swapping them, is the
  lexicographic order of the \<open>N / 8\<close> bytes the digest consists of: a strict total order on the
  digests of one size, compatible with \<open>operator==\<close>.
\<close>

lemma digest_less_is_byte_order:
  assumes "length a = n" "length b = n" "length c = n"
  shows "(digest_less a b \<longleftrightarrow> ord_class.lexordp (digest_data a) (digest_data b))
    \<and> \<not> digest_less a a
    \<and> (digest_less a b \<longrightarrow> digest_less b c \<longrightarrow> digest_less a c)
    \<and> (digest_less a b \<or> digest_eq a b \<or> digest_less b a)"
proof -
  have less: "digest_less x y \<longleftrightarrow> ord_class.lexordp (digest_data x) (digest_data y)"
    if "length x = n" "length y = n" for x y
    using that by (simp add: digest_less_bytes)
  show ?thesis
    using assms lexordp_linear [of "digest_data a" "digest_data b"]
    by (auto simp: less lexordp_irreflexive digest_data_inj intro: lexordp_trans)
qed

text \<open>
  The bytes of a digest: \<open>assign\<close> overwrites exactly the front \<open>min(s.size(), size())\<close> bytes
  and keeps the rest, reading back a digest's own bytes gives the digest, \<open>operator^\<close> is the
  bytewise XOR, and the XOR distance of two digests is zero only when they are equal.
\<close>

lemma digest_bytes_laws:
  assumes "length a = n" "length b = n"
  shows "digest_data (digest_assign a s) = take (4 * n) s @ drop (length s) (digest_data a)
    \<and> digest_of_ptr n (Some (digest_data a @ s)) = a
    \<and> digest_data (digest_xor a b) = map2 (XOR) (digest_data a) (digest_data b)
    \<and> (digest_is_all_zeros (digest_xor a b) \<longleftrightarrow> digest_eq a b)"
  using assms
  by (simp add: digest_data_assign digest_data_xor digest_xor_zero digest_of_ptr_def)

end
