(* ===== verification/Flags.thy ===== *)
theory Flags
  imports Getzy_Prelude
begin

text \<open>
  \<open>libtorrent/flags.hpp\<close> (the strongly typed bit sets \<open>bitfield_flag\<close>, here the machine word
  they wrap), the torrent flags of \<open>libtorrent/torrent_flags.hpp\<close> and the alert categories of
  \<open>libtorrent/alert.hpp\<close>.
\<close>

section \<open>bitfield_flag\<close>

definition flag_bit :: "nat \<Rightarrow> 'a::len word" where
  "flag_bit b = push_bit b 1"

definition flag_none :: "'a::len word" where
  "flag_none = 0"

definition flag_all :: "'a::len word" where
  "flag_all = NOT 0"

definition flag_test :: "'a::len word \<Rightarrow> bool" where
  "flag_test f = (f \<noteq> 0)"

definition flag_or :: "'a::len word \<Rightarrow> 'a word \<Rightarrow> 'a word" where
  "flag_or lhs rhs = lhs OR rhs"

definition flag_and :: "'a::len word \<Rightarrow> 'a word \<Rightarrow> 'a word" where
  "flag_and lhs rhs = lhs AND rhs"

definition flag_xor :: "'a::len word \<Rightarrow> 'a word \<Rightarrow> 'a word" where
  "flag_xor lhs rhs = lhs XOR rhs"

definition flag_not :: "'a::len word \<Rightarrow> 'a word" where
  "flag_not f = NOT f"

type_synonym torrent_flags_t = u64
type_synonym alert_category_t = u32

section \<open>torrent_flags\<close>

definition tf_seed_mode :: "torrent_flags_t" where "tf_seed_mode = flag_bit 0"
definition tf_upload_mode :: "torrent_flags_t" where "tf_upload_mode = flag_bit 1"
definition tf_share_mode :: "torrent_flags_t" where "tf_share_mode = flag_bit 2"
definition tf_apply_ip_filter :: "torrent_flags_t" where "tf_apply_ip_filter = flag_bit 3"
definition tf_paused :: "torrent_flags_t" where "tf_paused = flag_bit 4"
definition tf_auto_managed :: "torrent_flags_t" where "tf_auto_managed = flag_bit 5"
definition tf_duplicate_is_error :: "torrent_flags_t" where "tf_duplicate_is_error = flag_bit 6"
definition tf_update_subscribe :: "torrent_flags_t" where "tf_update_subscribe = flag_bit 7"
definition tf_super_seeding :: "torrent_flags_t" where "tf_super_seeding = flag_bit 8"
definition tf_sequential_download :: "torrent_flags_t" where "tf_sequential_download = flag_bit 9"
definition tf_stop_when_ready :: "torrent_flags_t" where "tf_stop_when_ready = flag_bit 10"
definition tf_override_trackers :: "torrent_flags_t" where "tf_override_trackers = flag_bit 11"
definition tf_override_web_seeds :: "torrent_flags_t" where "tf_override_web_seeds = flag_bit 12"
definition tf_need_save_resume :: "torrent_flags_t" where "tf_need_save_resume = flag_bit 13"
definition tf_pinned :: "torrent_flags_t" where "tf_pinned = flag_bit 14"
definition tf_override_resume_data :: "torrent_flags_t" where "tf_override_resume_data = flag_bit 15"
definition tf_merge_resume_trackers :: "torrent_flags_t" where "tf_merge_resume_trackers = flag_bit 16"
definition tf_use_resume_save_path :: "torrent_flags_t" where "tf_use_resume_save_path = flag_bit 17"
definition tf_merge_resume_http_seeds :: "torrent_flags_t" where "tf_merge_resume_http_seeds = flag_bit 18"
definition tf_disable_dht :: "torrent_flags_t" where "tf_disable_dht = flag_bit 19"
definition tf_disable_lsd :: "torrent_flags_t" where "tf_disable_lsd = flag_bit 20"
definition tf_disable_pex :: "torrent_flags_t" where "tf_disable_pex = flag_bit 21"
definition tf_no_verify_files :: "torrent_flags_t" where "tf_no_verify_files = flag_bit 22"
definition tf_default_dont_download :: "torrent_flags_t" where "tf_default_dont_download = flag_bit 23"
definition tf_i2p_torrent :: "torrent_flags_t" where "tf_i2p_torrent = flag_bit 24"

definition tf_default_flags :: torrent_flags_t where
  "tf_default_flags =
     foldl flag_or tf_update_subscribe
       [tf_auto_managed, tf_paused, tf_apply_ip_filter, tf_need_save_resume,
        tf_pinned, tf_merge_resume_http_seeds, tf_merge_resume_trackers]"

section \<open>Alert categories\<close>

definition alert_error :: "alert_category_t" where "alert_error = flag_bit 0"
definition alert_peer :: "alert_category_t" where "alert_peer = flag_bit 1"
definition alert_port_mapping :: "alert_category_t" where "alert_port_mapping = flag_bit 2"
definition alert_storage :: "alert_category_t" where "alert_storage = flag_bit 3"
definition alert_tracker :: "alert_category_t" where "alert_tracker = flag_bit 4"
definition alert_connect :: "alert_category_t" where "alert_connect = flag_bit 5"
definition alert_status :: "alert_category_t" where "alert_status = flag_bit 6"
definition alert_ip_block :: "alert_category_t" where "alert_ip_block = flag_bit 8"
definition alert_performance_warning :: "alert_category_t" where "alert_performance_warning = flag_bit 9"
definition alert_dht :: "alert_category_t" where "alert_dht = flag_bit 10"
definition alert_stats :: "alert_category_t" where "alert_stats = flag_bit 11"
definition alert_session_log :: "alert_category_t" where "alert_session_log = flag_bit 13"
definition alert_torrent_log :: "alert_category_t" where "alert_torrent_log = flag_bit 14"
definition alert_peer_log :: "alert_category_t" where "alert_peer_log = flag_bit 15"
definition alert_incoming_request :: "alert_category_t" where "alert_incoming_request = flag_bit 16"
definition alert_dht_log :: "alert_category_t" where "alert_dht_log = flag_bit 17"
definition alert_dht_operation :: "alert_category_t" where "alert_dht_operation = flag_bit 18"
definition alert_port_mapping_log :: "alert_category_t" where "alert_port_mapping_log = flag_bit 19"
definition alert_picker_log :: "alert_category_t" where "alert_picker_log = flag_bit 20"
definition alert_file_progress :: "alert_category_t" where "alert_file_progress = flag_bit 21"
definition alert_piece_progress :: "alert_category_t" where "alert_piece_progress = flag_bit 22"
definition alert_upload :: "alert_category_t" where "alert_upload = flag_bit 23"
definition alert_block_progress :: "alert_category_t" where "alert_block_progress = flag_bit 24"

section \<open>Clearing flags\<close>

lemma flag_test_bit: "flag_test (flag_and w (flag_bit n)) \<longleftrightarrow> bit w n"
  by (simp add: flag_test_def flag_and_def flag_bit_def bit_iff_and_push_bit_not_eq_0)

lemma bit_flag_bit: "bit (flag_bit i :: 'a::len word) n \<longleftrightarrow> n = i \<and> i < LENGTH('a)"
  by (auto simp: flag_bit_def bit_simps)

lemma flag_and_not_bit:
  "bit (flag_and f (flag_not (flag_bit i))) n \<longleftrightarrow> n \<noteq> i \<and> bit (f :: 'a::len word) n"
  by (auto simp: flag_and_def flag_not_def bit_and_iff bit_not_iff bit_flag_bit
      dest: bit_imp_le_length)

section \<open>The constants\<close>

definition torrent_flag_list :: "torrent_flags_t list" where
  "torrent_flag_list =
     [tf_seed_mode, tf_upload_mode, tf_share_mode, tf_apply_ip_filter, tf_paused, tf_auto_managed,
      tf_duplicate_is_error, tf_update_subscribe, tf_super_seeding, tf_sequential_download,
      tf_stop_when_ready, tf_override_trackers, tf_override_web_seeds, tf_need_save_resume,
      tf_pinned, tf_override_resume_data, tf_merge_resume_trackers, tf_use_resume_save_path,
      tf_merge_resume_http_seeds, tf_disable_dht, tf_disable_lsd, tf_disable_pex,
      tf_no_verify_files, tf_default_dont_download, tf_i2p_torrent]"

definition alert_category_list :: "alert_category_t list" where
  "alert_category_list =
     [alert_error, alert_peer, alert_port_mapping, alert_storage, alert_tracker, alert_connect,
      alert_status, alert_ip_block, alert_performance_warning, alert_dht, alert_stats,
      alert_session_log, alert_torrent_log, alert_peer_log, alert_incoming_request, alert_dht_log,
      alert_dht_operation, alert_port_mapping_log, alert_picker_log, alert_file_progress,
      alert_piece_progress, alert_upload, alert_block_progress]"

lemma flag_bit_inj:
  assumes "i < LENGTH('a)" "(flag_bit i :: 'a::len word) = flag_bit j"
  shows "i = j"
proof -
  have "bit (flag_bit i :: 'a word) i \<longleftrightarrow> bit (flag_bit j :: 'a word) i"
    using assms(2) by simp
  with assms(1) show ?thesis by (simp add: bit_flag_bit)
qed

lemma distinct_flag_bits:
  "distinct is \<Longrightarrow> list_all (\<lambda>i. i < LENGTH('a)) is \<Longrightarrow>
   distinct (map (flag_bit :: nat \<Rightarrow> 'a::len word) is)"
  by (auto simp: distinct_map inj_on_def list_all_iff dest: flag_bit_inj)

lemma flag_disjoint:
  "i \<noteq> j \<Longrightarrow> flag_and (flag_bit i :: 'a::len word) (flag_bit j) = flag_none"
  by (auto intro!: bit_word_eqI simp: flag_and_def flag_none_def bit_and_iff bit_flag_bit)

lemma map_flag_bits: "list_all (\<lambda>i. i < n) is \<Longrightarrow> list_all (\<lambda>f. \<exists>i. i < n \<and> f = flag_bit i) (map flag_bit is)"
  by (auto simp: list_all_iff)

text \<open>
  The torrent flags and the alert categories are single bits, no two of them the same, so
  that setting or clearing one never touches another; clearing \<open>paused\<close> and \<open>auto_managed\<close> from
  the default flags leaves exactly the other six.
\<close>

lemma flags_are_independent:
  "distinct torrent_flag_list \<and> distinct alert_category_list
   \<and> list_all (\<lambda>f. \<exists>i. i < 64 \<and> f = flag_bit i) torrent_flag_list
   \<and> list_all (\<lambda>f. \<exists>i. i < 32 \<and> f = flag_bit i) alert_category_list
   \<and> flag_and (flag_and tf_default_flags (flag_not tf_paused)) (flag_not tf_auto_managed) =
      foldl flag_or tf_update_subscribe [tf_apply_ip_filter, tf_need_save_resume, tf_pinned,
        tf_merge_resume_http_seeds, tf_merge_resume_trackers]"
proof -
  have t: "torrent_flag_list = map flag_bit [0, 1, 2, 3, 4, 5, 6, 7, 8, 9, 10, 11, 12, 13, 14, 15, 16, 17, 18, 19, 20, 21,
        22, 23, 24]"
    by (simp add: torrent_flag_list_def tf_seed_mode_def tf_upload_mode_def tf_share_mode_def
        tf_apply_ip_filter_def tf_paused_def tf_auto_managed_def tf_duplicate_is_error_def
        tf_update_subscribe_def tf_super_seeding_def tf_sequential_download_def
        tf_stop_when_ready_def tf_override_trackers_def tf_override_web_seeds_def
        tf_need_save_resume_def tf_pinned_def tf_override_resume_data_def
        tf_merge_resume_trackers_def tf_use_resume_save_path_def tf_merge_resume_http_seeds_def
        tf_disable_dht_def tf_disable_lsd_def tf_disable_pex_def tf_no_verify_files_def
        tf_default_dont_download_def tf_i2p_torrent_def)
  have a: "alert_category_list =
      map flag_bit [0, 1, 2, 3, 4, 5, 6, 8, 9, 10, 11, 13, 14, 15, 16, 17, 18, 19, 20, 21, 22, 23,
        24]"
    by (simp add: alert_category_list_def alert_error_def alert_peer_def alert_port_mapping_def
        alert_storage_def alert_tracker_def alert_connect_def alert_status_def alert_ip_block_def
        alert_performance_warning_def alert_dht_def alert_stats_def alert_session_log_def
        alert_torrent_log_def alert_peer_log_def alert_incoming_request_def alert_dht_log_def
        alert_dht_operation_def alert_port_mapping_log_def alert_picker_log_def
        alert_file_progress_def alert_piece_progress_def alert_upload_def alert_block_progress_def)
  have "distinct torrent_flag_list"
    unfolding t by (rule distinct_flag_bits) (simp_all add: list_all_iff)
  moreover have "distinct alert_category_list"
    unfolding a by (rule distinct_flag_bits) (simp_all add: list_all_iff)
  moreover have "list_all (\<lambda>f. \<exists>i. i < 64 \<and> f = flag_bit i) torrent_flag_list"
    unfolding t by (rule map_flag_bits) simp
  moreover have "list_all (\<lambda>f. \<exists>i. i < 32 \<and> f = flag_bit i) alert_category_list"
    unfolding a by (rule map_flag_bits) simp
  moreover have "flag_and (flag_and tf_default_flags (flag_not tf_paused)) (flag_not tf_auto_managed) =
      foldl flag_or tf_update_subscribe [tf_apply_ip_filter, tf_need_save_resume, tf_pinned,
        tf_merge_resume_http_seeds, tf_merge_resume_trackers]"
    by (simp add: tf_default_flags_def tf_paused_def tf_auto_managed_def tf_update_subscribe_def
        tf_apply_ip_filter_def tf_need_save_resume_def tf_pinned_def tf_merge_resume_http_seeds_def
        tf_merge_resume_trackers_def flag_bit_def flag_and_def flag_or_def flag_not_def)
  ultimately show ?thesis by blast
qed

end
