(* ===== verification/Settings_Pack.thy ===== *)
theory Settings_Pack
  imports Getzy_Prelude
begin

text \<open>
  The settings of a libtorrent session: the enumerations of setting names in
  \<open>libtorrent/settings_pack.hpp\<close> (as compiled by the app's \<open>CMakeLists.txt\<close>, that is with
  \<open>TORRENT_ABI_VERSION\<close> 1) and the store they index, \<open>session_settings_single_thread\<close> of
  \<open>libtorrent/aux_/session_settings.hpp\<close>. An enumeration is the list of its names in order; an
  enumerator's value is the type base plus its position. A store access outside its array is
  undefined behaviour and is \<open>None\<close>.
\<close>

section \<open>Enumerations\<close>

definition string_types_1 :: "string list" where
  "string_types_1 =
    [''user_agent'', ''announce_ip'', ''mmap_cache'', ''handshake_client_version'',
     ''outgoing_interfaces'', ''listen_interfaces'']"

definition string_types_2 :: "string list" where
  "string_types_2 =
    [''proxy_hostname'', ''proxy_username'', ''proxy_password'', ''i2p_hostname'',
     ''peer_fingerprint'', ''dht_bootstrap_nodes'', ''max_string_setting_internal'']"

definition string_types :: "string list" where
  "string_types = string_types_1 @ string_types_2"

definition bool_types_1 :: "string list" where
  "bool_types_1 =
    [''allow_multiple_connections_per_ip'', ''ignore_limits_on_local_network'',
     ''send_redundant_have'', ''lazy_bitfields'', ''use_dht_as_fallback'',
     ''upnp_ignore_nonrouters'', ''use_parole_mode'', ''use_read_cache'', ''use_write_cache'',
     ''dont_flush_write_cache'', ''coalesce_reads'', ''coalesce_writes'',
     ''auto_manage_prefer_seeds'', ''dont_count_slow_torrents'', ''close_redundant_connections'',
     ''prioritize_partial_pieces'', ''rate_limit_ip_overhead'', ''announce_to_all_tiers'',
     ''announce_to_all_trackers'', ''prefer_udp_trackers'', ''strict_super_seeding'',
     ''lock_disk_cache'']"

definition bool_types_2 :: "string list" where
  "bool_types_2 =
    [''disable_hash_checks'', ''allow_i2p_mixed'', ''low_prio_disk'', ''volatile_read_cache'',
     ''guided_read_cache'', ''no_atime_storage'', ''incoming_starts_queued_torrents'',
     ''report_true_downloaded'', ''strict_end_game_mode'', ''broadcast_lsd'',
     ''enable_outgoing_utp'', ''enable_incoming_utp'', ''enable_outgoing_tcp'',
     ''enable_incoming_tcp'', ''ignore_resume_timestamps'', ''no_recheck_incomplete_resume'',
     ''anonymous_mode'']"

definition bool_types_3 :: "string list" where
  "bool_types_3 =
    [''report_web_seed_downloads'', ''rate_limit_utp'', ''announce_double_nat'',
     ''seeding_outgoing_connections'', ''no_connect_privileged_ports'', ''smooth_connects'',
     ''always_send_user_agent'', ''apply_ip_filter_to_trackers'', ''use_disk_read_ahead'',
     ''lock_files'', ''contiguous_recv_buffer'', ''ban_web_seeds'',
     ''allow_partial_disk_writes'', ''force_proxy'', ''support_share_mode'',
     ''support_merkle_torrents'', ''report_redundant_bytes'', ''listen_system_port_fallback'',
     ''use_disk_cache_pool'']"

definition bool_types_4 :: "string list" where
  "bool_types_4 =
    [''announce_crypto_support'', ''enable_upnp'', ''enable_natpmp'', ''enable_lsd'',
     ''enable_dht'', ''prefer_rc4'', ''proxy_hostnames'', ''proxy_peer_connections'',
     ''auto_sequential'', ''proxy_tracker_connections'', ''enable_ip_notifier'',
     ''dht_prefer_verified_node_ids'', ''dht_restrict_routing_ips'', ''dht_restrict_search_ips'',
     ''dht_extended_routing_table'', ''dht_aggressive_lookups'', ''dht_privacy_lookups'',
     ''dht_enforce_node_id'', ''dht_ignore_dark_internet'', ''dht_read_only'',
     ''piece_extent_affinity'', ''validate_https_trackers'']"

definition bool_types_5 :: "string list" where
  "bool_types_5 =
    [''ssrf_mitigation'', ''allow_idna'', ''enable_set_file_valid_data'',
     ''socks5_udp_send_local_ep'', ''max_bool_setting_internal'']"

definition bool_types :: "string list" where
  "bool_types = bool_types_1 @ bool_types_2 @ bool_types_3 @ bool_types_4 @ bool_types_5"

definition int_types_1 :: "string list" where
  "int_types_1 =
    [''tracker_completion_timeout'', ''tracker_receive_timeout'', ''stop_tracker_timeout'',
     ''tracker_maximum_response_length'', ''piece_timeout'', ''request_timeout'',
     ''request_queue_time'', ''max_allowed_in_request_queue'', ''max_out_request_queue'',
     ''whole_pieces_threshold'', ''peer_timeout'', ''urlseed_timeout'',
     ''urlseed_pipeline_size'', ''urlseed_wait_retry'', ''file_pool_size'', ''max_failcount'',
     ''min_reconnect_time'', ''peer_connect_timeout'', ''connection_speed'',
     ''inactivity_timeout'', ''unchoke_interval'', ''optimistic_unchoke_interval'', ''num_want'',
     ''initial_picker_threshold'']"

definition int_types_2 :: "string list" where
  "int_types_2 =
    [''allowed_fast_set_size'', ''suggest_mode'', ''max_queued_disk_bytes'',
     ''handshake_timeout'', ''send_buffer_low_watermark'', ''send_buffer_watermark'',
     ''send_buffer_watermark_factor'', ''choking_algorithm'', ''seed_choking_algorithm'',
     ''cache_size'', ''cache_buffer_chunk_size'', ''cache_expiry'', ''disk_io_write_mode'',
     ''disk_io_read_mode'', ''outgoing_port'', ''num_outgoing_ports'', ''peer_dscp'']"

definition int_types_3 :: "string list" where
  "int_types_3 =
    [''active_downloads'', ''active_seeds'', ''active_checking'', ''active_dht_limit'',
     ''active_tracker_limit'', ''active_lsd_limit'', ''active_limit'', ''active_loaded_limit'',
     ''auto_manage_interval'', ''seed_time_limit'', ''auto_scrape_interval'',
     ''auto_scrape_min_interval'', ''max_peerlist_size'', ''max_paused_peerlist_size'',
     ''min_announce_interval'', ''auto_manage_startup'', ''seeding_piece_quota'',
     ''max_rejects'', ''recv_socket_buffer_size'', ''send_socket_buffer_size'',
     ''max_peer_recv_buffer_size'', ''file_checks_delay_per_block'']"

definition int_types_4 :: "string list" where
  "int_types_4 =
    [''read_cache_line_size'', ''write_cache_line_size'', ''optimistic_disk_retry'',
     ''max_suggest_pieces'', ''local_service_announce_interval'', ''dht_announce_interval'',
     ''udp_tracker_token_expiry'', ''default_cache_min_age'', ''num_optimistic_unchoke_slots'',
     ''default_est_reciprocation_rate'', ''increase_est_reciprocation_rate'',
     ''decrease_est_reciprocation_rate'', ''max_pex_peers'', ''tick_interval'',
     ''share_mode_target'', ''upload_rate_limit'', ''download_rate_limit'',
     ''local_upload_rate_limit'', ''local_download_rate_limit'', ''dht_upload_rate_limit'']"

definition int_types_5 :: "string list" where
  "int_types_5 =
    [''unchoke_slots_limit'', ''half_open_limit'', ''connections_limit'', ''connections_slack'',
     ''utp_target_delay'', ''utp_gain_factor'', ''utp_min_timeout'', ''utp_syn_resends'',
     ''utp_fin_resends'', ''utp_num_resends'', ''utp_connect_timeout'', ''utp_delayed_ack'',
     ''utp_loss_multiplier'', ''mixed_mode_algorithm'', ''listen_queue_size'',
     ''torrent_connect_boost'', ''alert_queue_size'', ''max_metadata_size'', ''hashing_threads'',
     ''checking_mem_usage'', ''predictive_piece_announce'']"

definition int_types_6 :: "string list" where
  "int_types_6 =
    [''aio_threads'', ''aio_max'', ''network_threads'', ''ssl_listen'', ''tracker_backoff'',
     ''share_ratio_limit'', ''seed_time_ratio_limit'', ''peer_turnover'',
     ''peer_turnover_cutoff'', ''peer_turnover_interval'', ''connect_seed_every_n_download'',
     ''max_http_recv_buffer_size'', ''max_retry_port_bind'', ''alert_mask'', ''out_enc_policy'',
     ''in_enc_policy'', ''allowed_enc_level'', ''inactive_down_rate'', ''inactive_up_rate'',
     ''proxy_type'', ''proxy_port'', ''i2p_port'', ''cache_size_volatile'']"

definition int_types_7 :: "string list" where
  "int_types_7 =
    [''urlseed_max_request_bytes'', ''web_seed_name_lookup_retry'', ''close_file_interval'',
     ''utp_cwnd_reduce_timer'', ''max_web_seed_connections'', ''resolver_cache_timeout'',
     ''send_not_sent_low_watermark'', ''rate_choker_initial_threshold'', ''upnp_lease_duration'',
     ''max_concurrent_http_announces'', ''dht_max_peers_reply'', ''dht_search_branching'',
     ''dht_max_fail_count'', ''dht_max_torrents'', ''dht_max_dht_items'', ''dht_max_peers'',
     ''dht_max_torrent_search_reply'', ''dht_block_timeout'', ''dht_block_ratelimit'',
     ''dht_item_lifetime'', ''dht_sample_infohashes_interval'',
     ''dht_max_infohashes_sample_count'', ''max_piece_count'', ''metadata_token_limit'',
     ''disk_write_mode'', ''mmap_file_size_cutoff'']"

definition int_types_8 :: "string list" where
  "int_types_8 =
    [''i2p_inbound_quantity'', ''i2p_outbound_quantity'', ''i2p_inbound_length'',
     ''i2p_outbound_length'', ''announce_port'', ''max_int_setting_internal'']"

definition int_types :: "string list" where
  "int_types = int_types_1 @ int_types_2 @ int_types_3 @ int_types_4 @ int_types_5 @ int_types_6 @ int_types_7 @ int_types_8"

definition string_type_base :: int where "string_type_base = 0x0000"
definition int_type_base :: int where "int_type_base = 0x4000"
definition bool_type_base :: int where "bool_type_base = 0x8000"
definition type_mask :: int where "type_mask = 0xc000"
definition index_mask :: int where "index_mask = 0x3fff"

fun index_of :: "'a list \<Rightarrow> 'a \<Rightarrow> nat option" where
  "index_of [] x = None"
| "index_of (y # ys) x = (if x = y then Some 0 else map_option Suc (index_of ys x))"

definition enum_value :: "int \<Rightarrow> string list \<Rightarrow> string \<Rightarrow> int option" where
  "enum_value base names name = map_option (\<lambda>i. base + int i) (index_of names name)"

definition string_setting :: "string \<Rightarrow> int option" where
  "string_setting name = enum_value string_type_base string_types name"

definition int_setting :: "string \<Rightarrow> int option" where
  "int_setting name =
     enum_value int_type_base int_types (if name = ''peer_tos'' then ''peer_dscp'' else name)"

definition bool_setting :: "string \<Rightarrow> int option" where
  "bool_setting name = enum_value bool_type_base bool_types name"

text \<open>The last enumerator of each list marks its end; the counts exclude it.\<close>

definition num_string_settings :: nat where "num_string_settings = length string_types - 1"
definition num_int_settings :: nat where "num_int_settings = length int_types - 1"
definition num_bool_settings :: nat where "num_bool_settings = length bool_types - 1"

section \<open>The store\<close>

record settings_store =
  m_strings :: "string list"
  m_ints :: "int list"
  m_bools :: "bool list"

definition store_set :: "'a list \<Rightarrow> int \<Rightarrow> 'a \<Rightarrow> int \<Rightarrow> 'a list option" where
  "store_set c name val type =
     (if name AND type_mask \<noteq> type then Some c
      else (let index = nat (name AND index_mask)
            in if index < length c then Some (c[index := val]) else None))"

definition store_get :: "'a \<Rightarrow> 'a list \<Rightarrow> int \<Rightarrow> int \<Rightarrow> 'a option" where
  "store_get empty_val c name type =
     (if name AND type_mask \<noteq> type then Some empty_val
      else (let index = nat (name AND index_mask)
            in if index < length c then Some (c ! index) else None))"

definition set_str :: "int \<Rightarrow> string \<Rightarrow> settings_store \<Rightarrow> settings_store option" where
  "set_str name val s =
     map_option (\<lambda>c. s\<lparr>m_strings := c\<rparr>) (store_set (m_strings s) name val string_type_base)"

definition set_int :: "int \<Rightarrow> int \<Rightarrow> settings_store \<Rightarrow> settings_store option" where
  "set_int name val s =
     map_option (\<lambda>c. s\<lparr>m_ints := c\<rparr>) (store_set (m_ints s) name val int_type_base)"

definition set_bool :: "int \<Rightarrow> bool \<Rightarrow> settings_store \<Rightarrow> settings_store option" where
  "set_bool name val s =
     map_option (\<lambda>c. s\<lparr>m_bools := c\<rparr>) (store_set (m_bools s) name val bool_type_base)"

definition get_str :: "settings_store \<Rightarrow> int \<Rightarrow> string option" where
  "get_str s name = store_get '''' (m_strings s) name string_type_base"

definition get_int :: "settings_store \<Rightarrow> int \<Rightarrow> int option" where
  "get_int s name = store_get 0 (m_ints s) name int_type_base"

definition get_bool :: "settings_store \<Rightarrow> int \<Rightarrow> bool option" where
  "get_bool s name = store_get False (m_bools s) name bool_type_base"

definition store_inv :: "settings_store \<Rightarrow> bool" where
  "store_inv s \<longleftrightarrow> length (m_strings s) = num_string_settings
     \<and> length (m_ints s) = num_int_settings \<and> length (m_bools s) = num_bool_settings"

section \<open>Values of enumerators\<close>

lemma index_of_less: "index_of names x = Some i \<Longrightarrow> i < length names \<and> names ! i = x"
  by (induction names arbitrary: i) (auto split: if_splits)

lemma index_of_None: "index_of names x = None \<longleftrightarrow> x \<notin> set names"
  by (induction names) auto

lemma index_of_inj: "index_of names x = Some i \<Longrightarrow> index_of names y = Some i \<Longrightarrow> x = y"
  using index_of_less by metis

lemma and_push_bit: "(x :: int) AND push_bit n y = push_bit n (drop_bit n x AND y)"
  by (rule bit_eqI) (auto simp: bit_and_iff bit_push_bit_iff bit_drop_bit_eq)

lemma and_type_mask: "x AND type_mask = push_bit 14 (x div 16384 AND 3)"
  using and_push_bit [of x 14 3] by (simp add: type_mask_def drop_bit_eq_div push_bit_eq_mult)

lemma and_index_mask: "x AND index_mask = x mod 16384"
proof -
  have m: "index_mask = mask 14" by (simp add: index_mask_def mask_eq_exp_minus_1)
  show ?thesis unfolding m by (simp add: take_bit_eq_mask [symmetric] take_bit_eq_mod)
qed

lemma enum_type_bits:
  assumes "i < 16384" "base = string_type_base \<or> base = int_type_base \<or> base = bool_type_base"
  shows "(base + int i) AND type_mask = base" "nat ((base + int i) AND index_mask) = i"
proof -
  obtain k :: int where k: "base = 16384 * k" "k = 0 \<or> k = 1 \<or> k = 2"
    using assms(2)
    by (auto simp: string_type_base_def int_type_base_def bool_type_base_def)
  have "(base + int i) div 16384 = k" "(base + int i) mod 16384 = int i"
    using assms(1) by (simp_all add: k(1))
  with k show "(base + int i) AND type_mask = base" "nat ((base + int i) AND index_mask) = i"
    by (auto simp: and_type_mask and_index_mask push_bit_eq_mult)
qed

lemma length_enumerations:
  "length string_types = 13" "length int_types = 159" "length bool_types = 85"
  by (simp_all add: string_types_def int_types_def bool_types_def
      string_types_1_def string_types_2_def
      bool_types_1_def bool_types_2_def bool_types_3_def bool_types_4_def bool_types_5_def
      int_types_1_def int_types_2_def int_types_3_def int_types_4_def int_types_5_def
      int_types_6_def int_types_7_def int_types_8_def)

section \<open>Settings by name\<close>

text \<open>
  A setting is named by its enumerator; the three \<open>set_*\<close> functions take the enumerator's value.
  A \<open>settings_pack\<close> is the sequence of the \<open>set_*\<close> calls made on it; \<open>settings_pack::for_each\<close>
  hands the values to the store's \<open>set_*\<close> functions.
\<close>

datatype setting_key = StrKey string | IntKey string | BoolKey string
datatype setting_value = VStr string | VInt int | VBool bool

type_synonym settings_pack = "(setting_key \<times> setting_value) list"

fun set_setting :: "setting_key \<Rightarrow> setting_value \<Rightarrow> settings_store \<Rightarrow> settings_store option" where
  "set_setting (StrKey n) (VStr v) s = Option.bind (string_setting n) (\<lambda>i. set_str i v s)"
| "set_setting (IntKey n) (VInt v) s = Option.bind (int_setting n) (\<lambda>i. set_int i v s)"
| "set_setting (BoolKey n) (VBool v) s = Option.bind (bool_setting n) (\<lambda>i. set_bool i v s)"
| "set_setting _ _ s = None"

fun get_setting :: "settings_store \<Rightarrow> setting_key \<Rightarrow> setting_value option" where
  "get_setting s (StrKey n) = map_option VStr (Option.bind (string_setting n) (get_str s))"
| "get_setting s (IntKey n) = map_option VInt (Option.bind (int_setting n) (get_int s))"
| "get_setting s (BoolKey n) = map_option VBool (Option.bind (bool_setting n) (get_bool s))"

definition str_name :: "string \<Rightarrow> bool" where
  "str_name n \<longleftrightarrow> n \<in> set string_types \<and> n \<noteq> last string_types"

definition int_name :: "string \<Rightarrow> bool" where
  "int_name n \<longleftrightarrow> n \<in> set int_types \<and> n \<noteq> last int_types \<and> n \<noteq> ''peer_tos''"

definition bool_name :: "string \<Rightarrow> bool" where
  "bool_name n \<longleftrightarrow> n \<in> set bool_types \<and> n \<noteq> last bool_types"

fun valid_setting :: "setting_key \<Rightarrow> setting_value \<Rightarrow> bool" where
  "valid_setting (StrKey n) (VStr v) = str_name n"
| "valid_setting (IntKey n) (VInt v) = int_name n"
| "valid_setting (BoolKey n) (VBool v) = bool_name n"
| "valid_setting _ _ = False"

fun valid_key :: "setting_key \<Rightarrow> bool" where
  "valid_key (StrKey n) = str_name n"
| "valid_key (IntKey n) = int_name n"
| "valid_key (BoolKey n) = bool_name n"

text \<open>The calls of a pack, one after the other.\<close>

fun set_many :: "('k \<Rightarrow> 'v \<Rightarrow> 's \<Rightarrow> 's option) \<Rightarrow> ('k \<times> 'v) list \<Rightarrow> 's \<Rightarrow> 's option" where
  "set_many set_key [] s = Some s"
| "set_many set_key ((k, v) # kvs) s = Option.bind (set_key k v s) (set_many set_key kvs)"

definition apply_pack :: "settings_pack \<Rightarrow> settings_store \<Rightarrow> settings_store option" where
  "apply_pack pack s = set_many set_setting pack s"

text \<open>What a store of named values promises.\<close>

locale keyed_store =
  fixes set_key :: "'k \<Rightarrow> 'v \<Rightarrow> 's \<Rightarrow> 's option"
    and get_key :: "'s \<Rightarrow> 'k \<Rightarrow> 'v option"
    and valid :: "'k \<Rightarrow> 'v \<Rightarrow> bool"
    and known :: "'k \<Rightarrow> bool"
    and inv :: "'s \<Rightarrow> bool"
  assumes set_valid: "inv s \<Longrightarrow> valid k v \<Longrightarrow>
    \<exists>s'. set_key k v s = Some s' \<and> inv s' \<and> get_key s' k = Some v \<and>
      (\<forall>k'. known k' \<longrightarrow> k' \<noteq> k \<longrightarrow> get_key s' k' = get_key s k')"
begin

lemma set_many_get:
  "inv s \<Longrightarrow> list_all (\<lambda>(k, v). valid k v) kvs \<Longrightarrow>
   \<exists>s'. set_many set_key kvs s = Some s' \<and> inv s' \<and>
     (\<forall>k. known k \<longrightarrow>
       get_key s' k = (case map_of (rev kvs) k of Some v \<Rightarrow> Some v | None \<Rightarrow> get_key s k))"
proof (induction kvs arbitrary: s)
  case Nil
  then show ?case by simp
next
  case (Cons kv kvs)
  obtain k v where kv: "kv = (k, v)" by fastforce
  with Cons.prems set_valid [of s k v] obtain s1 where
    s1: "set_key k v s = Some s1" "inv s1" "get_key s1 k = Some v"
      "\<forall>k'. known k' \<longrightarrow> k' \<noteq> k \<longrightarrow> get_key s1 k' = get_key s k'" by auto
  from Cons.IH [OF s1(2)] Cons.prems kv obtain s2 where
    s2: "set_many set_key kvs s1 = Some s2" "inv s2" "\<forall>k. known k \<longrightarrow>
       get_key s2 k = (case map_of (rev kvs) k of Some v \<Rightarrow> Some v | None \<Rightarrow> get_key s1 k)"
    by auto
  with s1 show ?case
    by (auto simp: kv map_add_def split: option.split)
qed

end

lemma enum_value_bits:
  assumes "n \<in> set names" "n \<noteq> last names" "length names \<le> 16384"
    "base = string_type_base \<or> base = int_type_base \<or> base = bool_type_base"
  obtains i where "index_of names n = Some i" "i < length names - 1"
    "enum_value base names n = Some (base + int i)"
    "(base + int i) AND type_mask = base" "nat ((base + int i) AND index_mask) = i"
proof -
  obtain i where i: "index_of names n = Some i"
    using assms(1) index_of_None [of names n] by auto
  from index_of_less [OF i] have l: "i < length names" "names ! i = n" by simp_all
  moreover have "i \<noteq> length names - 1"
    using l assms(1,2) last_conv_nth [of names] by (cases "names = []") auto
  ultimately have "i < length names - 1" by simp
  with i l assms(3,4) enum_type_bits [of i base] show thesis
    by (intro that [of i]) (simp_all add: enum_value_def)
qed

lemma store_set_get:
  assumes "i < length c" "(base + int i) AND type_mask = base"
    "nat ((base + int i) AND index_mask) = i"
  shows "store_set c (base + int i) v base = Some (c[i := v])"
    "store_get e (c[i := v]) (base + int i) base = Some v"
    "store_get e c (base + int i) base = Some (c ! i)"
  using assms by (simp_all add: store_set_def store_get_def)

lemma last_names:
  "last string_types = ''max_string_setting_internal''"
  "last int_types = ''max_int_setting_internal''"
  "last bool_types = ''max_bool_setting_internal''"
  by (simp_all add: string_types_def int_types_def bool_types_def string_types_2_def
      int_types_8_def bool_types_5_def)

lemma str_name_iff:
  "str_name n \<longleftrightarrow> n \<noteq> ''max_string_setting_internal'' \<and>
     (n \<in> set string_types_1 \<or> n \<in> set string_types_2)"
  by (simp add: str_name_def last_names) (auto simp: string_types_def)

lemma int_name_iff:
  "int_name n \<longleftrightarrow> n \<noteq> ''max_int_setting_internal'' \<and> n \<noteq> ''peer_tos'' \<and>
     (n \<in> set int_types_1 \<or> n \<in> set int_types_2 \<or> n \<in> set int_types_3 \<or> n \<in> set int_types_4 \<or>
      n \<in> set int_types_5 \<or> n \<in> set int_types_6 \<or> n \<in> set int_types_7 \<or> n \<in> set int_types_8)"
  by (simp add: int_name_def last_names) (auto simp: int_types_def)

lemma bool_name_iff:
  "bool_name n \<longleftrightarrow> n \<noteq> ''max_bool_setting_internal'' \<and>
     (n \<in> set bool_types_1 \<or> n \<in> set bool_types_2 \<or> n \<in> set bool_types_3 \<or> n \<in> set bool_types_4 \<or>
      n \<in> set bool_types_5)"
  by (simp add: bool_name_def last_names) (auto simp: bool_types_def)

text \<open>The settings the bridge sets.\<close>

lemma str_names [simp]:
    "str_name ''listen_interfaces''"
    "str_name ''proxy_hostname''"
    "str_name ''proxy_username''"
    "str_name ''proxy_password''"
  by (simp_all add: str_name_iff string_types_1_def string_types_2_def)

lemma int_names [simp]:
    "int_name ''alert_mask''"
    "int_name ''download_rate_limit''"
    "int_name ''upload_rate_limit''"
    "int_name ''connections_limit''"
    "int_name ''max_out_request_queue''"
    "int_name ''in_enc_policy''"
    "int_name ''out_enc_policy''"
    "int_name ''proxy_type''"
    "int_name ''proxy_port''"
  by (simp_all add: int_name_iff int_types_1_def int_types_4_def int_types_5_def int_types_6_def)

lemma bool_names [simp]:
    "bool_name ''enable_dht''"
    "bool_name ''enable_lsd''"
    "bool_name ''enable_upnp''"
    "bool_name ''enable_natpmp''"
    "bool_name ''enable_outgoing_utp''"
    "bool_name ''enable_incoming_utp''"
  by (simp_all add: bool_name_iff bool_types_2_def bool_types_4_def)

lemma name_bits:
  "str_name n \<Longrightarrow> \<exists>i. index_of string_types n = Some i \<and> i < num_string_settings \<and>
     string_setting n = Some (string_type_base + int i) \<and>
     (string_type_base + int i) AND type_mask = string_type_base \<and>
     nat ((string_type_base + int i) AND index_mask) = i"
  "int_name n \<Longrightarrow> \<exists>i. index_of int_types n = Some i \<and> i < num_int_settings \<and>
     int_setting n = Some (int_type_base + int i) \<and>
     (int_type_base + int i) AND type_mask = int_type_base \<and>
     nat ((int_type_base + int i) AND index_mask) = i"
  "bool_name n \<Longrightarrow> \<exists>i. index_of bool_types n = Some i \<and> i < num_bool_settings \<and>
     bool_setting n = Some (bool_type_base + int i) \<and>
     (bool_type_base + int i) AND type_mask = bool_type_base \<and>
     nat ((bool_type_base + int i) AND index_mask) = i"
  subgoal
    by (rule enum_value_bits [of n string_types string_type_base])
      (auto simp: str_name_def string_setting_def num_string_settings_def length_enumerations)
  subgoal
    by (rule enum_value_bits [of n int_types int_type_base])
      (auto simp: int_name_def int_setting_def num_int_settings_def length_enumerations)
  subgoal
    by (rule enum_value_bits [of n bool_types bool_type_base])
      (auto simp: bool_name_def bool_setting_def num_bool_settings_def length_enumerations)
  done

lemma store_frame [simp]:
  "get_int (s\<lparr>m_strings := x\<rparr>) = get_int s" "get_bool (s\<lparr>m_strings := x\<rparr>) = get_bool s"
  "get_str (s\<lparr>m_ints := y\<rparr>) = get_str s" "get_bool (s\<lparr>m_ints := y\<rparr>) = get_bool s"
  "get_str (s\<lparr>m_bools := z\<rparr>) = get_str s" "get_int (s\<lparr>m_bools := z\<rparr>) = get_int s"
  by (rule ext, simp add: get_str_def get_int_def get_bool_def)+

lemma set_str_valid:
  assumes "store_inv s" "str_name n"
  shows "\<exists>s'. set_setting (StrKey n) (VStr v) s = Some s' \<and> store_inv s' \<and>
    get_setting s' (StrKey n) = Some (VStr v) \<and>
    (\<forall>k'. valid_key k' \<longrightarrow> k' \<noteq> StrKey n \<longrightarrow> get_setting s' k' = get_setting s k')"
proof -
  from name_bits(1) [OF assms(2)] obtain i where i: "index_of string_types n = Some i"
    "i < num_string_settings" "string_setting n = Some (string_type_base + int i)"
    "(string_type_base + int i) AND type_mask = string_type_base"
    "nat ((string_type_base + int i) AND index_mask) = i" by blast
  define s' where "s' = s\<lparr>m_strings := (m_strings s)[i := v]\<rparr>"
  have l: "length (m_strings s) = num_string_settings" using assms(1) by (simp add: store_inv_def)
  have "set_setting (StrKey n) (VStr v) s = Some s'" "get_setting s' (StrKey n) = Some (VStr v)"
    using i l by (simp_all add: set_str_def get_str_def store_set_get s'_def)
  moreover have "store_inv s'" using assms(1) by (simp add: store_inv_def s'_def)
  moreover have "get_setting s' k' = get_setting s k'" if "valid_key k'" "k' \<noteq> StrKey n" for k'
  proof (cases k')
    case (StrKey m)
    with that name_bits(1) [of m] obtain j where j: "index_of string_types m = Some j"
      "j < num_string_settings" "string_setting m = Some (string_type_base + int j)"
      "(string_type_base + int j) AND type_mask = string_type_base"
      "nat ((string_type_base + int j) AND index_mask) = j" by auto
    moreover have "i \<noteq> j" using i(1) j(1) index_of_inj [of string_types n i m] that StrKey by auto
    ultimately show ?thesis using l StrKey by (simp add: get_str_def store_get_def s'_def)
  qed (simp_all add: s'_def)
  ultimately show ?thesis by blast
qed

lemma set_int_valid:
  assumes "store_inv s" "int_name n"
  shows "\<exists>s'. set_setting (IntKey n) (VInt v) s = Some s' \<and> store_inv s' \<and>
    get_setting s' (IntKey n) = Some (VInt v) \<and>
    (\<forall>k'. valid_key k' \<longrightarrow> k' \<noteq> IntKey n \<longrightarrow> get_setting s' k' = get_setting s k')"
proof -
  from name_bits(2) [OF assms(2)] obtain i where i: "index_of int_types n = Some i"
    "i < num_int_settings" "int_setting n = Some (int_type_base + int i)"
    "(int_type_base + int i) AND type_mask = int_type_base"
    "nat ((int_type_base + int i) AND index_mask) = i" by blast
  define s' where "s' = s\<lparr>m_ints := (m_ints s)[i := v]\<rparr>"
  have l: "length (m_ints s) = num_int_settings" using assms(1) by (simp add: store_inv_def)
  have "set_setting (IntKey n) (VInt v) s = Some s'" "get_setting s' (IntKey n) = Some (VInt v)"
    using i l by (simp_all add: set_int_def get_int_def store_set_get s'_def)
  moreover have "store_inv s'" using assms(1) by (simp add: store_inv_def s'_def)
  moreover have "get_setting s' k' = get_setting s k'" if "valid_key k'" "k' \<noteq> IntKey n" for k'
  proof (cases k')
    case (IntKey m)
    with that name_bits(2) [of m] obtain j where j: "index_of int_types m = Some j"
      "j < num_int_settings" "int_setting m = Some (int_type_base + int j)"
      "(int_type_base + int j) AND type_mask = int_type_base"
      "nat ((int_type_base + int j) AND index_mask) = j" by auto
    moreover have "i \<noteq> j" using i(1) j(1) index_of_inj [of int_types n i m] that IntKey by auto
    ultimately show ?thesis using l IntKey by (simp add: get_int_def store_get_def s'_def)
  qed (simp_all add: s'_def)
  ultimately show ?thesis by blast
qed

lemma set_bool_valid:
  assumes "store_inv s" "bool_name n"
  shows "\<exists>s'. set_setting (BoolKey n) (VBool v) s = Some s' \<and> store_inv s' \<and>
    get_setting s' (BoolKey n) = Some (VBool v) \<and>
    (\<forall>k'. valid_key k' \<longrightarrow> k' \<noteq> BoolKey n \<longrightarrow> get_setting s' k' = get_setting s k')"
proof -
  from name_bits(3) [OF assms(2)] obtain i where i: "index_of bool_types n = Some i"
    "i < num_bool_settings" "bool_setting n = Some (bool_type_base + int i)"
    "(bool_type_base + int i) AND type_mask = bool_type_base"
    "nat ((bool_type_base + int i) AND index_mask) = i" by blast
  define s' where "s' = s\<lparr>m_bools := (m_bools s)[i := v]\<rparr>"
  have l: "length (m_bools s) = num_bool_settings" using assms(1) by (simp add: store_inv_def)
  have "set_setting (BoolKey n) (VBool v) s = Some s'" "get_setting s' (BoolKey n) = Some (VBool v)"
    using i l by (simp_all add: set_bool_def get_bool_def store_set_get s'_def)
  moreover have "store_inv s'" using assms(1) by (simp add: store_inv_def s'_def)
  moreover have "get_setting s' k' = get_setting s k'" if "valid_key k'" "k' \<noteq> BoolKey n" for k'
  proof (cases k')
    case (BoolKey m)
    with that name_bits(3) [of m] obtain j where j: "index_of bool_types m = Some j"
      "j < num_bool_settings" "bool_setting m = Some (bool_type_base + int j)"
      "(bool_type_base + int j) AND type_mask = bool_type_base"
      "nat ((bool_type_base + int j) AND index_mask) = j" by auto
    moreover have "i \<noteq> j" using i(1) j(1) index_of_inj [of bool_types n i m] that BoolKey by auto
    ultimately show ?thesis using l BoolKey by (simp add: get_bool_def store_get_def s'_def)
  qed (simp_all add: s'_def)
  ultimately show ?thesis by blast
qed

interpretation settings: keyed_store set_setting get_setting valid_setting valid_key store_inv
proof
  fix s k v
  assume "store_inv s" "valid_setting k v"
  then show "\<exists>s'. set_setting k v s = Some s' \<and> store_inv s' \<and> get_setting s' k = Some v \<and>
      (\<forall>k'. valid_key k' \<longrightarrow> k' \<noteq> k \<longrightarrow> get_setting s' k' = get_setting s k')"
    by (cases k; cases v)
      (simp_all only: valid_setting.simps set_str_valid set_int_valid set_bool_valid)
qed

text \<open>
  Applying a pack of well-typed settings to a session's store never fails and never ignores
  a call: afterwards every setting reads as its last value in the pack, and a setting the pack
  does not mention reads as before.
\<close>

lemma pack_applies_last_write:
  assumes "store_inv s" "list_all (\<lambda>(k, v). valid_setting k v) pack"
  shows "\<exists>s'. apply_pack pack s = Some s' \<and> store_inv s' \<and>
    (\<forall>k. valid_key k \<longrightarrow> get_setting s' k =
      (case map_of (rev pack) k of Some v \<Rightarrow> Some v | None \<Rightarrow> get_setting s k))"
  using settings.set_many_get [OF assms] by (simp only: apply_pack_def)

definition zero_store :: settings_store where
  "zero_store = \<lparr>m_strings = replicate num_string_settings '''',
     m_ints = replicate num_int_settings 0, m_bools = replicate num_bool_settings False\<rparr>"

end
