(* ===== verification/Bridge_Library.thy ===== *)
theory Bridge_Library
  imports Json_Text Digest Flags Settings_Pack "HOL-Library.Monad_Syntax"
begin

text \<open>
  What the bridge (\<open>jni/torrent_bridge.cpp\<close>) uses of libtorrent, whose implementation is the
  prebuilt \<open>torrent-rasterbar\<close> library: its functions are the fields of the record
  \<open>lt_api\<close>, over a session type \<open>'s\<close>, a torrent handle type \<open>'h\<close>, a torrent file type \<open>'x\<close>
  and the rest \<open>'m\<close> of the \<open>add_torrent_params\<close>. Every function is a parameter of the bridge's
  definitions. The data the bridge reads and writes itself (\<open>add_torrent_params\<close>,
  \<open>torrent_status\<close>, the priorities and the enumerations of \<open>settings_pack\<close>) follow the headers.
\<close>

section \<open>Data\<close>

text \<open>\<open>torrent_status::state_t\<close>, with the enumerators of \<open>TORRENT_ABI_VERSION\<close> 1.\<close>

datatype torrent_state =
    queued_for_checking | checking_files | downloading_metadata | downloading
  | finished | seeding | allocating | checking_resume_data

text \<open>A finite non-negative or negative binary floating point value: mantissa and exponent.\<close>

datatype c_float = CFloat int nat

record torrent_status =
  ts_name :: string
  ts_state :: torrent_state
  ts_paused :: bool
  ts_progress :: c_float
  ts_total_download :: int
  ts_total_wanted :: int
  ts_total_wanted_done :: int
  ts_download_rate :: int
  ts_upload_rate :: int
  ts_num_peers :: int
  ts_num_seeds :: int
  ts_queue_position :: int

record ('x, 'm) add_torrent_params =
  atp_ti :: "'x option"
  atp_url :: string
  atp_save_path :: string
  atp_flags :: torrent_flags_t
  atp_other :: 'm

text \<open>Download priorities (\<open>download_priority.hpp\<close>).\<close>

definition dont_download :: nat where "dont_download = 0"
definition default_priority :: nat where "default_priority = 4"
definition low_priority :: nat where "low_priority = 1"
definition top_priority :: nat where "top_priority = 7"

text \<open>\<open>session_handle::delete_files\<close>.\<close>

definition delete_files :: byte where "delete_files = flag_bit 0"

datatype enc_policy = pe_forced | pe_enabled | pe_disabled

fun enc_policy_value :: "enc_policy \<Rightarrow> int" where
  "enc_policy_value pe_forced = 0"
| "enc_policy_value pe_enabled = 1"
| "enc_policy_value pe_disabled = 2"

datatype proxy_type = proxy_none | proxy_socks4 | proxy_socks5 | proxy_socks5_pw
  | proxy_http | proxy_http_pw | proxy_i2p

fun proxy_type_value :: "proxy_type \<Rightarrow> int" where
  "proxy_type_value proxy_none = 0"
| "proxy_type_value proxy_socks4 = 1"
| "proxy_type_value proxy_socks5 = 2"
| "proxy_type_value proxy_socks5_pw = 3"
| "proxy_type_value proxy_http = 4"
| "proxy_type_value proxy_http_pw = 5"
| "proxy_type_value proxy_i2p = 6"

section \<open>The library's functions\<close>

text \<open>An \<open>error_code\<close> is its value; 0 is success.\<close>

type_synonym error_value = int

record ('s, 'h, 'x, 'm) lt_api =
  lt_new_session :: "settings_pack \<Rightarrow> 's"
  lt_pause :: "'s \<Rightarrow> 's"
  lt_resume :: "'s \<Rightarrow> 's"
  lt_default_params :: "('x, 'm) add_torrent_params"
  lt_parse_magnet_uri :: "string \<Rightarrow> ('x, 'm) add_torrent_params \<times> error_value"
  lt_torrent_info :: "string \<Rightarrow> 'x \<times> error_value"
  lt_add_torrent :: "('x, 'm) add_torrent_params \<Rightarrow> 's \<Rightarrow> 'h \<times> error_value \<times> 's"
  lt_get_torrents :: "'s \<Rightarrow> 'h list"
  lt_remove_torrent :: "'h \<Rightarrow> byte \<Rightarrow> 's \<Rightarrow> 's"
  lt_apply_settings :: "settings_pack \<Rightarrow> 's \<Rightarrow> 's"
  lt_is_valid :: "'s \<Rightarrow> 'h \<Rightarrow> bool"
  lt_info_hashes :: "'s \<Rightarrow> 'h \<Rightarrow> info_hash_t"
  lt_handle_pause :: "'h \<Rightarrow> 's \<Rightarrow> 's"
  lt_handle_resume :: "'h \<Rightarrow> 's \<Rightarrow> 's"
  lt_status :: "'s \<Rightarrow> 'h \<Rightarrow> torrent_status"
  lt_torrent_file :: "'s \<Rightarrow> 'h \<Rightarrow> string list option"
  lt_file_priority :: "'h \<Rightarrow> nat \<Rightarrow> nat \<Rightarrow> 's \<Rightarrow> 's"
  lt_to_hex :: "bytes \<Rightarrow> string"

section \<open>printf\<close>

text \<open>\<open>%s\<close> of a \<open>c_str()\<close>: up to the first NUL.\<close>

definition c_str :: "string \<Rightarrow> string" where
  "c_str s = takeWhile (\<lambda>c. c \<noteq> CHR 0x00) s"

text \<open>\<open>%f\<close>: six decimals, the exact value rounded half to even.\<close>

definition round_half_even :: "nat \<Rightarrow> nat \<Rightarrow> nat" where
  "round_half_even m d =
     (let q = m div d; r = m mod d
      in if 2 * r < d then q else if 2 * r > d then q + 1 else q + q mod 2)"

definition pad6 :: "nat \<Rightarrow> string" where
  "pad6 n = replicate (6 - length (nat_str n)) (CHR ''0'') @ nat_str n"

fun printf_f :: "c_float \<Rightarrow> string" where
  "printf_f (CFloat m e) =
     (let q = round_half_even (nat \<bar>m\<bar> * 1000000) (2 ^ e)
      in (if m < 0 then ''-'' else '''') @ nat_str (q div 1000000) @ ''.'' @ pad6 (q mod 1000000))"

text \<open>\<open>snprintf\<close> into a buffer of \<open>n\<close> bytes keeps the first \<open>n - 1\<close> characters.\<close>

definition snprintf :: "nat \<Rightarrow> string \<Rightarrow> string" where
  "snprintf buf_size text = take (buf_size - 1) text"

text \<open>\<open>(long)x\<close> where \<open>long\<close> has \<open>long_bits\<close> bits: 64 on arm64-v8a and x86_64, 32 on armeabi-v7a.\<close>

definition to_long :: "nat \<Rightarrow> int \<Rightarrow> int" where
  "to_long long_bits x = signed_take_bit (long_bits - 1) x"

lemma length_snprintf: "0 < n \<Longrightarrow> length (snprintf n text) < n"
  by (simp add: snprintf_def)

section \<open>A concrete library\<close>

text \<open>
  A session that is the list of its torrents (info hash and status), with the handles being
  positions: the instance of the parameters on which the properties are evaluated.
\<close>

definition sample_hash :: "u32 \<Rightarrow> info_hash_t" where
  "sample_hash w = \<lparr>ih_v1 = [w, 0, 0, 0, 0], ih_v2 = digest_clear sha256_size\<rparr>"

definition sample_status :: "string \<Rightarrow> torrent_status" where
  "sample_status name = \<lparr>ts_name = name, ts_state = downloading, ts_paused = False,
     ts_progress = CFloat 1 1, ts_total_download = 50, ts_total_wanted = 100,
     ts_total_wanted_done = 50, ts_download_rate = 10, ts_upload_rate = 0, ts_num_peers = 2,
     ts_num_seeds = 1, ts_queue_position = 0\<rparr>"

definition hex_digit :: "nat \<Rightarrow> char" where
  "hex_digit n = ''0123456789abcdef'' ! n"

definition hex_text :: "bytes \<Rightarrow> string" where
  "hex_text bs = concat (map (\<lambda>b. [hex_digit (unat b div 16), hex_digit (unat b mod 16)]) bs)"

definition list_api :: "((info_hash_t \<times> torrent_status) list, nat, unit, unit) lt_api" where
  "list_api = \<lparr>
     lt_new_session = (\<lambda>pack. []),
     lt_pause = map (\<lambda>(ih, st). (ih, st\<lparr>ts_paused := True\<rparr>)),
     lt_resume = map (\<lambda>(ih, st). (ih, st\<lparr>ts_paused := False\<rparr>)),
     lt_default_params = \<lparr>atp_ti = None, atp_url = '''', atp_save_path = '''',
       atp_flags = tf_default_flags, atp_other = ()\<rparr>,
     lt_parse_magnet_uri = (\<lambda>uri. (\<lparr>atp_ti = None, atp_url = uri, atp_save_path = '''',
       atp_flags = tf_default_flags, atp_other = ()\<rparr>, 0)),
     lt_torrent_info = (\<lambda>path. ((), 2)),
     lt_add_torrent = (\<lambda>p s. (length s, 0, s @ [(sample_hash (of_nat (length s) + 1),
       (sample_status (atp_url p))\<lparr>ts_paused := (flag_and (atp_flags p) tf_paused \<noteq> 0)\<rparr>)])),
     lt_get_torrents = (\<lambda>s. [0..<length s]),
     lt_remove_torrent = (\<lambda>h options s. take h s @ drop (Suc h) s),
     lt_apply_settings = (\<lambda>pack s. s),
     lt_is_valid = (\<lambda>s h. h < length s),
     lt_info_hashes = (\<lambda>s h. fst (s ! h)),
     lt_handle_pause = (\<lambda>h s. s[h := (fst (s ! h), (snd (s ! h))\<lparr>ts_paused := True\<rparr>)]),
     lt_handle_resume = (\<lambda>h s. s[h := (fst (s ! h), (snd (s ! h))\<lparr>ts_paused := False\<rparr>)]),
     lt_status = (\<lambda>s h. snd (s ! h)),
     lt_torrent_file = (\<lambda>s h. Some [''a'', ''b'']),
     lt_file_priority = (\<lambda>h fi p s. s[h := (fst (s ! h), (snd (s ! h))
       \<lparr>ts_num_seeds := ts_num_seeds (snd (s ! h)) * 10 + int p\<rparr>)]),
     lt_to_hex = hex_text\<rparr>"

lemmas list_api_simps = list_api_def sample_hash_def sample_status_def

section \<open>Hexadecimal text\<close>

text \<open>
  \<open>aux::to_hex\<close> is only declared; \<open>hex.hpp\<close> documents that it "converts (binary) the string to
  hexadecimal representation": two digits per byte, of either case. \<open>is_hex_of\<close> says that of a text.
\<close>

definition hex_value :: "char \<Rightarrow> nat option" where
  "hex_value c =
     (if is_digit c then Some (digit_val c)
      else if c \<in> set ''abcdef'' then Some (of_char c - 87)
      else if c \<in> set ''ABCDEF'' then Some (of_char c - 55)
      else None)"

fun is_hex_of :: "string \<Rightarrow> bytes \<Rightarrow> bool" where
  "is_hex_of [] [] = True"
| "is_hex_of (c # d # cs) (b # bs) \<longleftrightarrow>
     hex_value c = Some (unat b div 16) \<and> hex_value d = Some (unat b mod 16) \<and> is_hex_of cs bs"
| "is_hex_of _ _ = False"

lemma hex_value_digit: "n < 16 \<Longrightarrow> hex_value (hex_digit n) = Some n"
proof -
  have "list_all (\<lambda>n. hex_value (hex_digit n) = Some n) [0..<16]" by code_simp
  then show "n < 16 \<Longrightarrow> hex_value (hex_digit n) = Some n" by (simp add: list_all_iff)
qed

lemma hex_text_is_hex: "is_hex_of (hex_text bs) bs"
proof (induction bs)
  case (Cons b bs)
  have "unat b < 256" using unsigned_less [of b, where ?'a = nat] by simp
  then have "unat b div 16 < 16" by (simp add: less_mult_imp_div_less)
  with Cons show ?case by (simp add: hex_text_def hex_value_digit)
qed (simp add: hex_text_def)

lemma is_hex_of_no_nul: "is_hex_of t bs \<Longrightarrow> CHR 0x00 \<notin> set t"
  by (induction t bs rule: is_hex_of.induct) (auto simp: hex_value_def is_digit_def)

lemma c_str_id: "CHR 0x00 \<notin> set s \<Longrightarrow> c_str s = s"
  by (auto simp: c_str_def takeWhile_eq_all_conv)

end
