(* ===== verification/Bridge_Settings.thy ===== *)
theory Bridge_Settings
  imports Bridge_Library
begin

text \<open>
  \<open>nativeApplySettings\<close> of \<open>jni/torrent_bridge.cpp\<close>, up to the final
  \<open>g_session->apply_settings(pack)\<close>: what it reads from the client's JSON text, the calls it
  makes on the pack and the save path it stores. Signed overflow (in \<open>jsonExtractInt\<close> and in
  \<open>dl * 1024\<close>) is undefined behaviour and makes the result \<open>None\<close>.
\<close>

section \<open>The handler, block by block\<close>

definition bandwidth_calls :: "string \<Rightarrow> settings_pack option" where
  "bandwidth_calls json = do {
     dl \<leftarrow> jsonExtractInt json ''max_download_speed'' 0;
     ul \<leftarrow> jsonExtractInt json ''max_upload_speed'' 0;
     conns \<leftarrow> jsonExtractInt json ''max_connections'' 200;
     dl_limit \<leftarrow> c_int (dl * 1024);
     ul_limit \<leftarrow> c_int (ul * 1024);
     Some [(IntKey ''download_rate_limit'', VInt dl_limit),
           (IntKey ''upload_rate_limit'', VInt ul_limit),
           (IntKey ''connections_limit'', VInt conns)] }"

definition listen_iface :: "int \<Rightarrow> string" where
  "listen_iface port =
     snprintf 64 (''0.0.0.0:'' @ int_str port @ '',[::]:'' @ int_str port)"

definition protocol_calls :: "string \<Rightarrow> settings_pack option" where
  "protocol_calls json = do {
     let dht = jsonExtractBool json ''enable_dht'' True;
     let lsd = jsonExtractBool json ''enable_lsd'' True;
     let upnp = jsonExtractBool json ''enable_upnp'' True;
     let natpmp = jsonExtractBool json ''enable_nat_pmp'' True;
     let pex = jsonExtractBool json ''enable_pex'' True;
     let utp = jsonExtractBool json ''enable_utp'' True;
     let random_port = jsonExtractBool json ''random_port'' True;
     port \<leftarrow> jsonExtractInt json ''listening_port'' 55623;
     Some ([(BoolKey ''enable_outgoing_utp'', VBool utp),
            (BoolKey ''enable_incoming_utp'', VBool utp),
            (BoolKey ''enable_dht'', VBool dht),
            (BoolKey ''enable_lsd'', VBool lsd),
            (BoolKey ''enable_upnp'', VBool upnp),
            (BoolKey ''enable_natpmp'', VBool natpmp),
            (IntKey ''max_out_request_queue'', VInt (if pex then 500 else 50))]
       @ (if random_port
          then [(StrKey ''listen_interfaces'', VStr ''0.0.0.0:0,[::]:0'')]
          else [(StrKey ''listen_interfaces'', VStr (listen_iface port))])) }"

definition enc_of_text :: "string \<Rightarrow> enc_policy" where
  "enc_of_text t =
     (if t = ''forced'' then pe_forced else if t = ''enabled'' then pe_enabled else pe_disabled)"

definition enc_call :: "string \<Rightarrow> enc_policy \<Rightarrow> setting_key \<times> setting_value" where
  "enc_call name p = (IntKey name, VInt (enc_policy_value p))"

definition encryption_calls :: "string \<Rightarrow> settings_pack" where
  "encryption_calls json =
     (let enc_in = jsonExtractString json ''encryption_incoming'';
          enc_out = jsonExtractString json ''encryption_outgoing'';
          enc_level = jsonExtractString json ''encryption_level''
      in (if enc_level = ''forced''
          then [enc_call ''in_enc_policy'' pe_forced, enc_call ''out_enc_policy'' pe_forced]
          else if enc_level = ''enabled'' \<or> enc_level = ''''
          then [enc_call ''in_enc_policy'' pe_enabled, enc_call ''out_enc_policy'' pe_enabled]
          else [enc_call ''in_enc_policy'' pe_disabled, enc_call ''out_enc_policy'' pe_disabled])
         @ (if enc_in \<noteq> '''' then [enc_call ''in_enc_policy'' (enc_of_text enc_in)] else [])
         @ (if enc_out \<noteq> '''' then [enc_call ''out_enc_policy'' (enc_of_text enc_out)] else []))"

definition proxy_of_text :: "string \<Rightarrow> proxy_type" where
  "proxy_of_text t =
     (if t = ''socks4'' then proxy_socks4
      else if t = ''socks5'' then proxy_socks5
      else if t = ''http'' \<or> t = ''https'' then proxy_http
      else proxy_none)"

definition proxy_call :: "proxy_type \<Rightarrow> setting_key \<times> setting_value" where
  "proxy_call p = (IntKey ''proxy_type'', VInt (proxy_type_value p))"

definition proxy_calls :: "string \<Rightarrow> settings_pack option" where
  "proxy_calls json =
     (let proxy_type = jsonExtractString json ''proxy_type''
      in if proxy_type \<noteq> '''' \<and> proxy_type \<noteq> ''none''
         then do {
           let proxy_host = jsonExtractString json ''proxy_host'';
           proxy_port \<leftarrow> jsonExtractInt json ''proxy_port'' 0;
           let proxy_user = jsonExtractString json ''proxy_username'';
           let proxy_pass = jsonExtractString json ''proxy_password'';
           Some ([proxy_call (proxy_of_text proxy_type),
                  (StrKey ''proxy_hostname'', VStr proxy_host),
                  (IntKey ''proxy_port'', VInt proxy_port)]
             @ (if proxy_user \<noteq> '''' then [(StrKey ''proxy_username'', VStr proxy_user)] else [])
             @ (if proxy_pass \<noteq> '''' then [(StrKey ''proxy_password'', VStr proxy_pass)] else [])) }
         else Some [proxy_call proxy_none])"

definition new_save_path :: "string \<Rightarrow> string \<Rightarrow> string" where
  "new_save_path json save_path =
     (let storage_path = jsonExtractString json ''storage_path''
      in if storage_path \<noteq> '''' then storage_path else save_path)"

definition apply_settings_calls :: "string \<Rightarrow> settings_pack option" where
  "apply_settings_calls json = do {
     b \<leftarrow> bandwidth_calls json;
     p \<leftarrow> protocol_calls json;
     x \<leftarrow> proxy_calls json;
     Some (b @ p @ encryption_calls json @ x) }"

section \<open>Every call is well typed\<close>

lemma valid_append [simp]:
  "list_all (\<lambda>(k, v). valid_setting k v) (a @ b) \<longleftrightarrow>
   list_all (\<lambda>(k, v). valid_setting k v) a \<and> list_all (\<lambda>(k, v). valid_setting k v) b"
  by simp

lemma bandwidth_valid:
  "bandwidth_calls json = Some pack \<Longrightarrow> list_all (\<lambda>(k, v). valid_setting k v) pack"
  by (auto simp: bandwidth_calls_def bind_eq_Some_conv)

lemma protocol_valid:
  "protocol_calls json = Some pack \<Longrightarrow> list_all (\<lambda>(k, v). valid_setting k v) pack"
  by (auto simp: protocol_calls_def bind_eq_Some_conv Let_def)

lemma encryption_valid: "list_all (\<lambda>(k, v). valid_setting k v) (encryption_calls json)"
  by (simp add: encryption_calls_def Let_def enc_call_def)

lemma proxy_valid:
  "proxy_calls json = Some pack \<Longrightarrow> list_all (\<lambda>(k, v). valid_setting k v) pack"
  by (auto simp: proxy_calls_def bind_eq_Some_conv Let_def proxy_call_def split: if_splits)

lemma apply_settings_valid:
  "apply_settings_calls json = Some pack \<Longrightarrow> list_all (\<lambda>(k, v). valid_setting k v) pack"
  by (auto simp: apply_settings_calls_def bind_eq_Some_conv bandwidth_valid protocol_valid
      encryption_valid proxy_valid)

section \<open>Reading the client's settings object\<close>

lemma settings_keys [simp]:
  "plain_key ''max_download_speed''" "plain_key ''max_upload_speed''" "plain_key ''max_connections''"
  "plain_key ''enable_dht''" "plain_key ''enable_lsd''" "plain_key ''enable_upnp''"
  "plain_key ''enable_nat_pmp''" "plain_key ''enable_pex''" "plain_key ''enable_utp''"
  "plain_key ''random_port''" "plain_key ''listening_port''" "plain_key ''encryption_incoming''"
  "plain_key ''encryption_outgoing''" "plain_key ''encryption_level''" "plain_key ''proxy_type''"
  "plain_key ''proxy_host''" "plain_key ''proxy_port''" "plain_key ''proxy_username''"
  "plain_key ''proxy_password''" "plain_key ''storage_path''"
  by (simp_all add: plain_key_def plain_char_def)

text \<open>The policy that the level and the field of one direction select.\<close>

definition selected_policy :: "string \<Rightarrow> string \<Rightarrow> enc_policy" where
  "selected_policy level direction =
     enc_of_text (if direction \<noteq> '''' then direction else if level = '''' then ''enabled'' else level)"

definition proxy_in_use :: "(string \<times> json_value) list \<Rightarrow> bool" where
  "proxy_in_use fs \<longleftrightarrow> str_field fs ''proxy_type'' \<noteq> '''' \<and> str_field fs ''proxy_type'' \<noteq> ''none''"

lemma bandwidth_of_object:
  assumes "flat_object fs" "int_field fs ''max_download_speed'' 0 = Some dl"
    "int_field fs ''max_upload_speed'' 0 = Some ul" "int_field fs ''max_connections'' 200 = Some conns"
    "in_int32 (dl * 1024)" "in_int32 (ul * 1024)"
  shows "bandwidth_calls (json_object fs) = Some
    [(IntKey ''download_rate_limit'', VInt (dl * 1024)),
     (IntKey ''upload_rate_limit'', VInt (ul * 1024)), (IntKey ''connections_limit'', VInt conns)]"
  using assms by (simp add: bandwidth_calls_def of_object c_int_def)

lemma protocol_of_object:
  assumes "flat_object fs" "int_field fs ''listening_port'' 55623 = Some port"
  shows "protocol_calls (json_object fs) = Some
    [(BoolKey ''enable_outgoing_utp'', VBool (bool_field fs ''enable_utp'' True)),
     (BoolKey ''enable_incoming_utp'', VBool (bool_field fs ''enable_utp'' True)),
     (BoolKey ''enable_dht'', VBool (bool_field fs ''enable_dht'' True)),
     (BoolKey ''enable_lsd'', VBool (bool_field fs ''enable_lsd'' True)),
     (BoolKey ''enable_upnp'', VBool (bool_field fs ''enable_upnp'' True)),
     (BoolKey ''enable_natpmp'', VBool (bool_field fs ''enable_nat_pmp'' True)),
     (IntKey ''max_out_request_queue'', VInt (if bool_field fs ''enable_pex'' True then 500 else 50)),
     (StrKey ''listen_interfaces'', VStr (if bool_field fs ''random_port'' True
        then ''0.0.0.0:0,[::]:0'' else listen_iface port))]"
  using assms by (simp add: protocol_calls_def of_object Let_def)

lemma level_calls:
  "(if l = ''forced'' then [f pe_forced, g pe_forced]
    else if l = ''enabled'' \<or> l = '''' then [f pe_enabled, g pe_enabled]
    else [f pe_disabled, g pe_disabled]) =
   [f (selected_policy l ''''), g (selected_policy l '''')]"
  by (simp add: selected_policy_def enc_of_text_def)

lemma selected_direction: "d \<noteq> '''' \<Longrightarrow> selected_policy l d = enc_of_text d"
  by (simp add: selected_policy_def)

lemma encryption_last_calls:
  assumes "flat_object fs"
  shows "map_of (rev (encryption_calls (json_object fs))) =
    [IntKey ''in_enc_policy'' \<mapsto> VInt (enc_policy_value (selected_policy
        (str_field fs ''encryption_level'') (str_field fs ''encryption_incoming''))),
     IntKey ''out_enc_policy'' \<mapsto> VInt (enc_policy_value (selected_policy
        (str_field fs ''encryption_level'') (str_field fs ''encryption_outgoing'')))]"
proof -
  have key: "IntKey ''in_enc_policy'' \<noteq> IntKey ''out_enc_policy''" by simp
  show ?thesis
    using assms key
    unfolding encryption_calls_def Let_def level_calls
    by (cases "str_field fs ''encryption_incoming'' = ''''";
        cases "str_field fs ''encryption_outgoing'' = ''''")
      (simp_all add: of_object enc_call_def selected_direction fun_upd_twist)
qed

text \<open>What a settings object asks for about the proxy; user and password only when they are given.\<close>

definition requested_proxy :: "(string \<times> json_value) list \<Rightarrow> settings_pack" where
  "requested_proxy fs =
    [(IntKey ''proxy_type'', VInt (proxy_type_value (proxy_of_text (str_field fs ''proxy_type''))))]
    @ (if proxy_in_use fs
       then [(StrKey ''proxy_hostname'', VStr (str_field fs ''proxy_host'')),
             (IntKey ''proxy_port'', VInt (the (int_field fs ''proxy_port'' 0)))]
         @ (if str_field fs ''proxy_username'' = '''' then []
            else [(StrKey ''proxy_username'', VStr (str_field fs ''proxy_username''))])
         @ (if str_field fs ''proxy_password'' = '''' then []
            else [(StrKey ''proxy_password'', VStr (str_field fs ''proxy_password''))])
       else [])"

lemma proxy_of_object:
  assumes "flat_object fs" "proxy_in_use fs \<Longrightarrow> int_field fs ''proxy_port'' 0 \<noteq> None"
  shows "proxy_calls (json_object fs) = Some (requested_proxy fs)"
proof (cases "proxy_in_use fs")
  case True
  with assms show ?thesis
    by (auto simp: proxy_calls_def of_object Let_def proxy_call_def proxy_in_use_def requested_proxy_def)
next
  case False
  with assms show ?thesis
    by (auto simp: proxy_calls_def of_object Let_def proxy_call_def proxy_in_use_def requested_proxy_def
        proxy_of_text_def)
qed

text \<open>The numbers of a settings object that the handler can compute with.\<close>

definition numbers_in_range :: "(string \<times> json_value) list \<Rightarrow> bool" where
  "numbers_in_range fs \<longleftrightarrow>
     (\<exists>dl ul. int_field fs ''max_download_speed'' 0 = Some dl \<and> in_int32 (dl * 1024) \<and>
        int_field fs ''max_upload_speed'' 0 = Some ul \<and> in_int32 (ul * 1024)) \<and>
     int_field fs ''max_connections'' 200 \<noteq> None \<and> int_field fs ''listening_port'' 55623 \<noteq> None \<and>
     (proxy_in_use fs \<longrightarrow> int_field fs ''proxy_port'' 0 \<noteq> None)"

text \<open>What a settings object asks of the session: every setting of the handler and its value.\<close>

definition requested_main :: "(string \<times> json_value) list \<Rightarrow> settings_pack" where
  "requested_main fs =
    [(IntKey ''download_rate_limit'', VInt (the (int_field fs ''max_download_speed'' 0) * 1024)),
     (IntKey ''upload_rate_limit'', VInt (the (int_field fs ''max_upload_speed'' 0) * 1024)),
     (IntKey ''connections_limit'', VInt (the (int_field fs ''max_connections'' 200))),
     (BoolKey ''enable_outgoing_utp'', VBool (bool_field fs ''enable_utp'' True)),
     (BoolKey ''enable_incoming_utp'', VBool (bool_field fs ''enable_utp'' True)),
     (BoolKey ''enable_dht'', VBool (bool_field fs ''enable_dht'' True)),
     (BoolKey ''enable_lsd'', VBool (bool_field fs ''enable_lsd'' True)),
     (BoolKey ''enable_upnp'', VBool (bool_field fs ''enable_upnp'' True)),
     (BoolKey ''enable_natpmp'', VBool (bool_field fs ''enable_nat_pmp'' True)),
     (IntKey ''max_out_request_queue'', VInt (if bool_field fs ''enable_pex'' True then 500 else 50)),
     (StrKey ''listen_interfaces'', VStr (if bool_field fs ''random_port'' True
        then ''0.0.0.0:0,[::]:0'' else listen_iface (the (int_field fs ''listening_port'' 55623)))),
     (IntKey ''in_enc_policy'', VInt (enc_policy_value (selected_policy
        (str_field fs ''encryption_level'') (str_field fs ''encryption_incoming'')))),
     (IntKey ''out_enc_policy'', VInt (enc_policy_value (selected_policy
        (str_field fs ''encryption_level'') (str_field fs ''encryption_outgoing''))))]"

definition requested_settings :: "(string \<times> json_value) list \<Rightarrow> settings_pack" where
  "requested_settings fs = requested_main fs @ requested_proxy fs"

lemma map_of_rev_distinct: "distinct (map fst xs) \<Longrightarrow> map_of (rev xs) = map_of xs"
proof (induction xs)
  case (Cons x xs)
  obtain k v where x: "x = (k, v)" by fastforce
  with Cons.prems have "map_of xs k = None" by (simp add: map_of_eq_None_iff)
  with Cons x show ?case by (auto simp: map_add_def fun_eq_iff split: option.split)
qed simp

lemma requested_distinct: "distinct (map fst (requested_settings fs))"
  by (auto simp: requested_settings_def requested_main_def requested_proxy_def)

lemma apply_settings_pack:
  assumes "flat_object fs" "numbers_in_range fs"
  shows "\<exists>pack. apply_settings_calls (json_object fs) = Some pack \<and>
    map_of (rev pack) = map_of (requested_settings fs)"
proof -
  from assms(2) obtain dl ul conns port where n:
    "int_field fs ''max_download_speed'' 0 = Some dl" "in_int32 (dl * 1024)"
    "int_field fs ''max_upload_speed'' 0 = Some ul" "in_int32 (ul * 1024)"
    "int_field fs ''max_connections'' 200 = Some conns"
    "int_field fs ''listening_port'' 55623 = Some port"
    by (auto simp: numbers_in_range_def)
  have x: "proxy_calls (json_object fs) = Some (requested_proxy fs)"
    using assms by (intro proxy_of_object) (simp_all add: numbers_in_range_def)
  note b = bandwidth_of_object [OF assms(1) n(1,3,5,2,4)]
  note p = protocol_of_object [OF assms(1) n(6)]
  let ?e = "encryption_calls (json_object fs)"
  obtain bl pl where bp: "bandwidth_calls (json_object fs) = Some bl" "protocol_calls (json_object fs) = Some pl"
    and main: "map_of (rev bl) ++ map_of (rev pl) ++ map_of (rev ?e) = map_of (rev (requested_main fs))"
  proof
    show "map_of (rev
        [(IntKey ''download_rate_limit'', VInt (dl * 1024)),
         (IntKey ''upload_rate_limit'', VInt (ul * 1024)), (IntKey ''connections_limit'', VInt conns)]) ++
       map_of (rev
        [(BoolKey ''enable_outgoing_utp'', VBool (bool_field fs ''enable_utp'' True)),
         (BoolKey ''enable_incoming_utp'', VBool (bool_field fs ''enable_utp'' True)),
         (BoolKey ''enable_dht'', VBool (bool_field fs ''enable_dht'' True)),
         (BoolKey ''enable_lsd'', VBool (bool_field fs ''enable_lsd'' True)),
         (BoolKey ''enable_upnp'', VBool (bool_field fs ''enable_upnp'' True)),
         (BoolKey ''enable_natpmp'', VBool (bool_field fs ''enable_nat_pmp'' True)),
         (IntKey ''max_out_request_queue'', VInt (if bool_field fs ''enable_pex'' True then 500 else 50)),
         (StrKey ''listen_interfaces'', VStr (if bool_field fs ''random_port'' True
            then ''0.0.0.0:0,[::]:0'' else listen_iface port))]) ++ map_of (rev ?e) =
      map_of (rev (requested_main fs))"
      by (simp add: n encryption_last_calls [OF assms(1)] requested_main_def fun_upd_twist)
  qed (rule b, rule p)
  have "map_of (requested_settings fs) = map_of (rev (requested_settings fs))"
    by (rule map_of_rev_distinct [OF requested_distinct, symmetric])
  also have "\<dots> = map_of (rev (requested_main fs)) ++ map_of (rev (requested_proxy fs))"
    by (simp add: requested_settings_def)
  finally show ?thesis
    unfolding apply_settings_calls_def bp x by (simp add: main [symmetric])
qed

lemma after_pack:
  assumes "store_inv s" "apply_settings_calls json = Some pack"
  shows "\<exists>s'. apply_pack pack s = Some s' \<and> store_inv s' \<and>
    (\<forall>k. valid_key k \<longrightarrow> get_setting s' k =
      (case map_of (rev pack) k of Some v \<Rightarrow> Some v | None \<Rightarrow> get_setting s k))"
  using settings.set_many_get [OF assms(1) apply_settings_valid [OF assms(2)]]
  by (simp only: apply_pack_def)

lemma requested_valid: "list_all (valid_key \<circ> fst) (requested_settings fs)"
  by (simp add: requested_settings_def requested_main_def requested_proxy_def)

lemma apply_settings_store:
  assumes "flat_object fs" "numbers_in_range fs" "store_inv s"
  shows "\<exists>pack s'. apply_settings_calls (json_object fs) = Some pack \<and> apply_pack pack s = Some s' \<and>
    store_inv s' \<and> (\<forall>k. valid_key k \<longrightarrow> get_setting s' k =
      (case map_of (requested_settings fs) k of Some v \<Rightarrow> Some v | None \<Rightarrow> get_setting s k))"
proof -
  from apply_settings_pack [OF assms(1,2)] obtain pack where
    p: "apply_settings_calls (json_object fs) = Some pack" and
    m: "map_of (rev pack) = map_of (requested_settings fs)" by blast
  from after_pack [OF assms(3) p] p show ?thesis unfolding m by blast
qed

lemma requested_get:
  assumes "\<forall>k. valid_key k \<longrightarrow> get_setting s' k =
      (case map_of (requested_settings fs) k of Some v \<Rightarrow> Some v | None \<Rightarrow> get_setting s k)"
  shows "list_all (\<lambda>(k, v). get_setting s' k = Some v) (requested_settings fs)"
  using assms requested_valid [of fs] requested_distinct [of fs]
  by (fastforce simp: list_all_iff simp del: get_setting.simps valid_key.simps)


definition example_settings :: "(string \<times> json_value) list" where
  "example_settings = [(''max_download_speed'', JInt 100), (''enable_dht'', JBool False),
     (''random_port'', JBool False), (''listening_port'', JInt 6881),
     (''encryption_level'', JStr (map Raw ''forced'')), (''proxy_type'', JStr (map Raw ''socks5'')),
     (''proxy_host'', JStr (map Raw ''h'')), (''proxy_port'', JInt 1080),
     (''proxy_username'', JStr (map Raw ''me'')), (''proxy_password'', JStr [Esc backslash])]"

lemma raw_text: "read_back (map Raw t) = t"
  by (induction t) (simp_all add: read_back_def)


fun is_JStr :: "json_value \<Rightarrow> bool" where
  "is_JStr (JStr ts) = True"
| "is_JStr (JInt i) = False"
| "is_JStr (JBool b) = False"

lemma string_fields:
  assumes "list_all (is_JStr \<circ> snd) fs"
  shows "int_field fs key d = Some (if map_of fs key = None then d else 0)"
    and "bool_field fs key b = b"
proof -
  have v: "is_JStr v" if "map_of fs key = Some v" for v
    using map_of_SomeD [OF that] assms by (auto simp: list_all_iff)
  show "int_field fs key d = Some (if map_of fs key = None then d else 0)"
    by (auto simp: int_field_def split: option.split dest!: v elim: is_JStr.elims)
  show "bool_field fs key b = b"
    by (auto simp: bool_field_def split: option.split dest!: v elim: is_JStr.elims)
qed

text \<open>
  C36. When every value of the object is a string, as the client's settings map has them, the
  handler succeeds but ignores the numbers and the toggles: both rate limits become 0
  (unlimited), the connection limit 0 when the field is present, the proxy port 0, and the
  toggles and the random port keep their defaults, whatever the strings say.
\<close>

theorem string_settings_are_ignored:
  assumes "flat_object fs" "list_all (is_JStr \<circ> snd) fs" "store_inv s"
  shows "\<exists>pack s'. apply_settings_calls (json_object fs) = Some pack \<and> apply_pack pack s = Some s' \<and>
    list_all (\<lambda>(k, v). get_setting s' k = Some v)
      ([(IntKey ''download_rate_limit'', VInt 0), (IntKey ''upload_rate_limit'', VInt 0),
        (IntKey ''connections_limit'', VInt (if map_of fs ''max_connections'' = None then 200 else 0)),
        (BoolKey ''enable_outgoing_utp'', VBool True), (BoolKey ''enable_incoming_utp'', VBool True),
        (BoolKey ''enable_dht'', VBool True), (BoolKey ''enable_lsd'', VBool True),
        (BoolKey ''enable_upnp'', VBool True), (BoolKey ''enable_natpmp'', VBool True),
        (IntKey ''max_out_request_queue'', VInt 500),
        (StrKey ''listen_interfaces'', VStr ''0.0.0.0:0,[::]:0'')]
       @ (if proxy_in_use fs then [(IntKey ''proxy_port'', VInt 0)] else []))"
proof -
  note sf = string_fields [OF assms(2)]
  have "numbers_in_range fs"
    by (simp add: numbers_in_range_def sf in_int32_def)
  from apply_settings_store [OF assms(1) this assms(3)] obtain pack s' where
    "apply_settings_calls (json_object fs) = Some pack" "apply_pack pack s = Some s'"
    "\<forall>k. valid_key k \<longrightarrow> get_setting s' k =
      (case map_of (requested_settings fs) k of Some v \<Rightarrow> Some v | None \<Rightarrow> get_setting s k)" by blast
  with requested_get [OF this(3)] show ?thesis
    by (intro exI [of _ pack] exI [of _ s'])
      (auto simp: requested_settings_def requested_main_def requested_proxy_def sf simp del: get_setting.simps)
qed

definition client_settings :: "(string \<times> json_value) list" where
  "client_settings = [(''max_download_speed'', JStr (map Raw ''100'')), (''enable_dht'', JStr (map Raw ''false''))]"

theorem string_settings_are_ignored_witness:
  "\<exists>pack s'. apply_settings_calls (json_object client_settings) = Some pack \<and>
    apply_pack pack zero_store = Some s' \<and>
    get_setting s' (IntKey ''download_rate_limit'') = Some (VInt 0) \<and>
    get_setting s' (BoolKey ''enable_dht'') = Some (VBool True)"
proof -
  have "flat_object client_settings" "list_all (is_JStr \<circ> snd) client_settings"
    by (simp_all add: client_settings_def flat_object_def)
  moreover have "store_inv zero_store" by (simp add: zero_store_def store_inv_def)
  ultimately show ?thesis
    using string_settings_are_ignored [of client_settings zero_store]
    by (force simp del: get_setting.simps)
qed

end
