(* ===== verification/Bridge.thy ===== *)
theory Bridge
  imports Bridge_Settings
begin

text \<open>
  The JNI functions of \<open>jni/torrent_bridge.cpp\<close>, one definition per exported function, over the
  bridge's global variables. A Java string is the C string \<open>GetStringUTFChars\<close> gives; the
  \<open>jlong ptr\<close> argument that every function receives and no function reads is the argument
  \<open>ptr\<close> of the calls. The session is the value that the library's functions (\<open>lt_api\<close>) change:
  calls on it are atomic here, and a library call that throws (which ends the process, since the
  bridge catches nothing) is outside the model. The counters \<open>made\<close> and \<open>deleted\<close> record the
  \<open>new\<close> and \<open>delete\<close> expressions executed; the address of a session is the number of its \<open>new\<close>.
\<close>

section \<open>Global state\<close>

record 's bridge =
  g_session :: "(nat \<times> 's) option"
  g_jvm :: "nat option"
  g_save_path :: string
  made :: nat
  deleted :: nat

definition bridge_loaded :: "'s bridge" where
  "bridge_loaded = \<lparr>g_session = None, g_jvm = None, g_save_path = '''', made = 0, deleted = 0\<rparr>"

definition JNI_VERSION_1_6 :: int where "JNI_VERSION_1_6 = 65542"

definition JNI_OnLoad :: "nat \<Rightarrow> 's bridge \<Rightarrow> int \<times> 's bridge" where
  "JNI_OnLoad vm b = (JNI_VERSION_1_6, b\<lparr>g_jvm := Some vm\<rparr>)"

section \<open>Sessions\<close>

definition default_save_path :: string where
  "default_save_path = ''/data/data/com.getzy.getzy/files/Getzy''"

definition delete_session :: "'s bridge \<Rightarrow> 's bridge" where
  "delete_session b = b\<lparr>deleted := deleted b + 1\<rparr>"

definition new_session :: "('s, 'h, 'x, 'm) lt_api \<Rightarrow> settings_pack \<Rightarrow> 's bridge \<Rightarrow> 's bridge" where
  "new_session api pack b =
     b\<lparr>g_session := Some (made b + 1, lt_new_session api pack), made := made b + 1\<rparr>"

definition create_session_pack :: settings_pack where
  "create_session_pack =
     [(IntKey ''alert_mask'', VInt (uint (flag_or alert_status alert_error))),
      (BoolKey ''enable_dht'', VBool True), (BoolKey ''enable_lsd'', VBool True),
      (BoolKey ''enable_upnp'', VBool True), (BoolKey ''enable_natpmp'', VBool True)]"

definition nativeCreateSession ::
    "('s, 'h, 'x, 'm) lt_api \<Rightarrow> string option \<Rightarrow> 's bridge \<Rightarrow> nat \<times> 's bridge" where
  "nativeCreateSession api j_save_path b0 =
     (let b1 = (if g_session b0 \<noteq> None then delete_session b0 else b0);
          b2 = (case j_save_path of None \<Rightarrow> b1 | Some c_path \<Rightarrow> b1\<lparr>g_save_path := c_path\<rparr>);
          b3 = (if g_save_path b2 = [] then b2\<lparr>g_save_path := default_save_path\<rparr> else b2);
          b4 = new_session api create_session_pack b3
      in (made b4, b4))"

definition nativeDestroySession :: "('s, 'h, 'x, 'm) lt_api \<Rightarrow> 's bridge \<Rightarrow> 's bridge" where
  "nativeDestroySession api b =
     (case g_session b of
        None \<Rightarrow> b
      | Some (p, s) \<Rightarrow>
          (let b1 = b\<lparr>g_session := Some (p, lt_pause api s)\<rparr>;
               b2 = delete_session b1
           in b2\<lparr>g_session := None\<rparr>))"

definition with_session :: "('s \<Rightarrow> 's) \<Rightarrow> 's bridge \<Rightarrow> 's bridge" where
  "with_session f b = b\<lparr>g_session := map_option (\<lambda>(p, s). (p, f s)) (g_session b)\<rparr>"

definition nativePauseAll :: "('s, 'h, 'x, 'm) lt_api \<Rightarrow> 's bridge \<Rightarrow> 's bridge" where
  "nativePauseAll api b = (if g_session b = None then b else with_session (lt_pause api) b)"

definition nativeResumeAll :: "('s, 'h, 'x, 'm) lt_api \<Rightarrow> 's bridge \<Rightarrow> 's bridge" where
  "nativeResumeAll api b = (if g_session b = None then b else with_session (lt_resume api) b)"

section \<open>Adding a torrent\<close>

definition starts_with :: "string \<Rightarrow> string \<Rightarrow> bool" where
  "starts_with p s \<longleftrightarrow> str_find p s = Some 0"

text \<open>The parameters the source text selects, and the error code of building them.\<close>

definition source_params ::
    "('s, 'h, 'x, 'm) lt_api \<Rightarrow> string \<Rightarrow> ('x, 'm) add_torrent_params \<times> error_value" where
  "source_params api source =
     (let params = lt_default_params api
      in if starts_with ''magnet:'' source then lt_parse_magnet_uri api source
         else if starts_with ''http://'' source \<or> starts_with ''https://'' source
         then (params\<lparr>atp_url := source\<rparr>, 0)
         else (case lt_torrent_info api source of
                 (ti, ec) \<Rightarrow> (params\<lparr>atp_ti := Some ti\<rparr>, ec)))"

definition prepare_params ::
    "string \<Rightarrow> ('x, 'm) add_torrent_params \<Rightarrow> ('x, 'm) add_torrent_params" where
  "prepare_params save_path params =
     (let p1 = params\<lparr>atp_save_path := save_path\<rparr>;
          p2 = p1\<lparr>atp_flags := flag_and (atp_flags p1) (flag_not tf_paused)\<rparr>
      in p2\<lparr>atp_flags := flag_and (atp_flags p2) (flag_not tf_auto_managed)\<rparr>)"

definition hash_text :: "('s, 'h, 'x, 'm) lt_api \<Rightarrow> info_hash_t \<Rightarrow> string" where
  "hash_text api ih =
     (if has_v1 ih then lt_to_hex api (digest_to_string (ih_v1 ih))
      else if has_v2 ih then lt_to_hex api (digest_to_string (ih_v2 ih))
      else '''')"

definition nativeAddTorrent ::
    "('s, 'h, 'x, 'm) lt_api \<Rightarrow> string \<Rightarrow> 's bridge \<Rightarrow> string \<times> 's bridge" where
  "nativeAddTorrent api source b =
     (case g_session b of
        None \<Rightarrow> ('''', b)
      | Some (p, s) \<Rightarrow>
          (case source_params api source of
             (params, ec) \<Rightarrow>
               if ec \<noteq> 0 then ('''', b)
               else (case lt_add_torrent api (prepare_params (g_save_path b) params) s of
                       (handle, ec, s') \<Rightarrow>
                         (let b' = b\<lparr>g_session := Some (p, s')\<rparr>
                          in if ec \<noteq> 0 then ('''', b')
                             else (c_str (hash_text api (lt_info_hashes api s' handle)), b')))))"

section \<open>Acting on the torrent of a hash\<close>

definition handle_hash :: "('s, 'h, 'x, 'm) lt_api \<Rightarrow> 's \<Rightarrow> 'h \<Rightarrow> string" where
  "handle_hash api s h = hash_text api (lt_info_hashes api s h)"

text \<open>The loop over the handles that acts on the first match and breaks.\<close>

fun act_on_match ::
    "('s, 'h, 'x, 'm) lt_api \<Rightarrow> string \<Rightarrow> ('h \<Rightarrow> 's \<Rightarrow> 's) \<Rightarrow> 'h list \<Rightarrow> 's \<Rightarrow> 's" where
  "act_on_match api target_hash act [] s = s"
| "act_on_match api target_hash act (h # hs) s =
     (if handle_hash api s h = target_hash then act h s
      else act_on_match api target_hash act hs s)"

definition nativeRemoveTorrent :: "('s, 'h, 'x, 'm) lt_api \<Rightarrow> string \<Rightarrow> 's bridge \<Rightarrow> 's bridge" where
  "nativeRemoveTorrent api target_hash b =
     with_session (\<lambda>s. act_on_match api target_hash (\<lambda>h. lt_remove_torrent api h delete_files)
       (lt_get_torrents api s) s) b"

definition nativePauseTorrent :: "('s, 'h, 'x, 'm) lt_api \<Rightarrow> string \<Rightarrow> 's bridge \<Rightarrow> 's bridge" where
  "nativePauseTorrent api target_hash b =
     with_session (\<lambda>s. act_on_match api target_hash (lt_handle_pause api)
       (lt_get_torrents api s) s) b"

definition nativeResumeTorrent :: "('s, 'h, 'x, 'm) lt_api \<Rightarrow> string \<Rightarrow> 's bridge \<Rightarrow> 's bridge" where
  "nativeResumeTorrent api target_hash b =
     with_session (\<lambda>s. act_on_match api target_hash (lt_handle_resume api)
       (lt_get_torrents api s) s) b"

section \<open>File priorities\<close>

text \<open>The loop that marks the selected files, and the loop that sets every priority.\<close>

fun mark_selected :: "string list \<Rightarrow> string list \<Rightarrow> nat list \<Rightarrow> nat list \<Rightarrow> nat list" where
  "mark_selected files selectedPaths [] priorities = priorities"
| "mark_selected files selectedPaths (fi # fis) priorities =
     mark_selected files selectedPaths fis
       (if files ! fi \<in> set selectedPaths then priorities[fi := default_priority] else priorities)"

fun set_priorities ::
    "('s, 'h, 'x, 'm) lt_api \<Rightarrow> 'h \<Rightarrow> nat list \<Rightarrow> nat list \<Rightarrow> 's \<Rightarrow> 's" where
  "set_priorities api h [] priorities s = s"
| "set_priorities api h (fi # fis) priorities s =
     set_priorities api h fis priorities (lt_file_priority api h fi (priorities ! fi) s)"

fun priorities_loop ::
    "('s, 'h, 'x, 'm) lt_api \<Rightarrow> string \<Rightarrow> string list \<Rightarrow> 'h list \<Rightarrow> 's \<Rightarrow> 's" where
  "priorities_loop api target_hash selectedPaths [] s = s"
| "priorities_loop api target_hash selectedPaths (h # hs) s =
     (if \<not> lt_is_valid api s h then priorities_loop api target_hash selectedPaths hs s
      else if handle_hash api s h \<noteq> target_hash
      then priorities_loop api target_hash selectedPaths hs s
      else (case lt_torrent_file api s h of
              None \<Rightarrow> s
            | Some files \<Rightarrow>
                (let numFiles = length files;
                     priorities = mark_selected files selectedPaths [0..<numFiles]
                       (replicate numFiles dont_download)
                 in set_priorities api h [0..<numFiles] priorities s)))"

definition nativeSetFilePriorities ::
    "('s, 'h, 'x, 'm) lt_api \<Rightarrow> string \<Rightarrow> string list \<Rightarrow> 's bridge \<Rightarrow> 's bridge" where
  "nativeSetFilePriorities api target_hash selected b =
     with_session (\<lambda>s. priorities_loop api target_hash selected (lt_get_torrents api s) s) b"

section \<open>Settings\<close>

definition nativeApplySettings ::
    "('s, 'h, 'x, 'm) lt_api \<Rightarrow> string \<Rightarrow> 's bridge \<Rightarrow> 's bridge option" where
  "nativeApplySettings api json b =
     (case g_session b of
        None \<Rightarrow> Some b
      | Some (p, s) \<Rightarrow>
          map_option (\<lambda>pack.
              b\<lparr>g_save_path := new_save_path json (g_save_path b),
                g_session := Some (p, lt_apply_settings api pack s)\<rparr>)
            (apply_settings_calls json))"

end
