(* ===== verification/Bridge_Status.thy ===== *)
theory Bridge_Status
  imports Bridge
begin

text \<open>
  \<open>nativeGetTorrentStatuses\<close> of \<open>jni/torrent_bridge.cpp\<close>: the JSON text of every torrent, printed
  into a buffer of 1536 bytes. \<open>long_bits\<close> is the width of the platform's \<open>long\<close> (32 on
  armeabi-v7a). An entry of an invalid handle stays \<open>null\<close>. The subtraction of the two 64-bit
  totals is \<open>None\<close> when it overflows.
\<close>

section \<open>The text of one torrent\<close>

definition eta_seconds :: "nat \<Rightarrow> torrent_status \<Rightarrow> int option" where
  "eta_seconds long_bits status =
     (if ts_state status = downloading \<and> ts_download_rate status > 0
      then (case c_int64 (ts_total_wanted status - ts_total_wanted_done status) of
              None \<Rightarrow> None
            | Some d \<Rightarrow>
                (let remaining = to_long long_bits d
                 in Some (if remaining > 0 then remaining div ts_download_rate status else -1)))
      else Some (-1))"

definition status_str :: "torrent_status \<Rightarrow> string" where
  "status_str status =
     (if ts_paused status then ''paused''
      else (case ts_state status of
              downloading \<Rightarrow> ''downloading''
            | seeding \<Rightarrow> ''seeding''
            | finished \<Rightarrow> ''finished''
            | checking_files \<Rightarrow> ''checking''
            | downloading_metadata \<Rightarrow> ''downloading''
            | _ \<Rightarrow> ''queued''))"

definition quoted :: "string \<Rightarrow> string" where
  "quoted s = [dquote] @ s @ [dquote]"

definition status_numbers :: "nat \<Rightarrow> torrent_status \<Rightarrow> int \<Rightarrow> string" where
  "status_numbers long_bits status eta =
     json_key ''progress'' @ printf_f (ts_progress status) @ '',''
     @ json_key ''downloaded_bytes'' @ int_str (to_long long_bits (ts_total_download status)) @ '',''
     @ json_key ''total_bytes'' @ int_str (to_long long_bits (ts_total_wanted status)) @ '',''
     @ json_key ''download_speed'' @ int_str (ts_download_rate status) @ '',''
     @ json_key ''upload_speed'' @ int_str (ts_upload_rate status) @ '',''
     @ json_key ''eta'' @ int_str eta @ '',''
     @ json_key ''num_peers'' @ int_str (ts_num_peers status) @ '',''
     @ json_key ''num_seeds'' @ int_str (ts_num_seeds status) @ '',''
     @ json_key ''queue_position'' @ int_str (ts_queue_position status)
     @ ''}''"

definition status_format :: "nat \<Rightarrow> string \<Rightarrow> torrent_status \<Rightarrow> int \<Rightarrow> string" where
  "status_format long_bits info_hash status eta =
     ''{'' @ json_key ''info_hash'' @ quoted (c_str info_hash) @ '',''
     @ json_key ''name'' @ quoted (c_str (jsonEscape (ts_name status))) @ '',''
     @ json_key ''status'' @ quoted (status_str status) @ '',''
     @ status_numbers long_bits status eta"

definition status_buffer :: nat where "status_buffer = 1536"

definition status_text :: "nat \<Rightarrow> string \<Rightarrow> torrent_status \<Rightarrow> string option" where
  "status_text long_bits info_hash status =
     map_option (\<lambda>eta. snprintf status_buffer (status_format long_bits info_hash status eta))
       (eta_seconds long_bits status)"

section \<open>The array\<close>

text \<open>The loop over the handles; \<open>Some None\<close> is an element left \<open>null\<close>.\<close>

fun statuses_loop ::
    "('s, 'h, 'x, 'm) lt_api \<Rightarrow> nat \<Rightarrow> 's \<Rightarrow> 'h list \<Rightarrow> string option list option" where
  "statuses_loop api long_bits s [] = Some []"
| "statuses_loop api long_bits s (h # hs) =
     (if \<not> lt_is_valid api s h
      then map_option (\<lambda>rest. None # rest) (statuses_loop api long_bits s hs)
      else (case status_text long_bits (hash_text api (lt_info_hashes api s h)) (lt_status api s h) of
              None \<Rightarrow> None
            | Some text \<Rightarrow>
                map_option (\<lambda>rest. Some text # rest) (statuses_loop api long_bits s hs)))"

definition nativeGetTorrentStatuses ::
    "('s, 'h, 'x, 'm) lt_api \<Rightarrow> nat \<Rightarrow> 's bridge \<Rightarrow> string option list option" where
  "nativeGetTorrentStatuses api long_bits b =
     (case g_session b of
        None \<Rightarrow> Some []
      | Some (p, s) \<Rightarrow> statuses_loop api long_bits s (lt_get_torrents api s))"

section \<open>Time left\<close>

text \<open>
  Where \<open>long\<close> has 64 bits, the printed time left is \<open>-1\<close> unless the torrent is downloading
  with a positive rate and has bytes left; then it is the number of whole seconds that the rate
  needs for them: enough for \<open>eta\<close> seconds and not for one more.
\<close>

lemma eta_is_whole_seconds:
  assumes "in_int64 (ts_total_wanted st - ts_total_wanted_done st)"
  shows "\<exists>eta. eta_seconds 64 st = Some eta \<and>
    (if ts_state st = downloading \<and> 0 < ts_download_rate st
        \<and> ts_total_wanted_done st < ts_total_wanted st
     then 0 \<le> eta
        \<and> eta * ts_download_rate st \<le> ts_total_wanted st - ts_total_wanted_done st
        \<and> ts_total_wanted st - ts_total_wanted_done st < (eta + 1) * ts_download_rate st
     else eta = -1)"
proof -
  let ?d = "ts_total_wanted st - ts_total_wanted_done st" and ?r = "ts_download_rate st"
  have l: "to_long 64 ?d = ?d"
    using to_int64_id [OF assms] by (simp add: to_long_def to_int64_def)
  have q: "?d div ?r * ?r \<le> ?d \<and> ?d < (?d div ?r + 1) * ?r" if "0 < ?r"
  proof -
    have "?d = ?d div ?r * ?r + ?d mod ?r" by simp
    moreover have "0 \<le> ?d mod ?r" "?d mod ?r < ?r" using that by simp_all
    ultimately show ?thesis unfolding distrib_right by linarith
  qed
  have "0 \<le> ?d div ?r" if "0 < ?r" "0 < ?d"
    using that by (simp add: pos_imp_zdiv_nonneg_iff)
  with q l assms show ?thesis
    by (auto simp: eta_seconds_def c_int64_def)
qed

section \<open>The printed text\<close>

definition long_ok :: "torrent_status \<Rightarrow> bool" where
  "long_ok st \<longleftrightarrow> in_int32 (ts_total_download st) \<and> in_int32 (ts_total_wanted st)"

definition counters_ok :: "torrent_status \<Rightarrow> bool" where
  "counters_ok st \<longleftrightarrow> in_int32 (ts_download_rate st) \<and> in_int32 (ts_upload_rate st) \<and>
     in_int32 (ts_num_peers st) \<and> in_int32 (ts_num_seeds st) \<and> in_int32 (ts_queue_position st)"

lemma to_long_32: "to_long 32 x = to_int32 x"
  by (simp add: to_long_def to_int32_def)

lemma to_long_64: "to_long 64 x = to_int64 x"
  by (simp add: to_long_def to_int64_def)

lemma in_int32_64: "in_int32 x \<Longrightarrow> in_int64 x"
  by (simp add: in_int32_def in_int64_def)

text \<open>
  Where \<open>long\<close> has 32 bits (armeabi-v7a), the printed object is the one a 64-bit platform
  prints exactly when the two sizes fit 32 bits: a torrent of 2 GiB or more is reported with a
  wrapped size.
\<close>

lemma long32_status:
  assumes "in_int64 (ts_total_download st)" "in_int64 (ts_total_wanted st)"
  shows "status_format 32 ih st eta = status_format 64 ih st eta \<longleftrightarrow> long_ok st"
proof -
  have comma: "\<not> is_digit (CHR '','')" by (simp add: is_digit_def)
  have wrap: "to_int32 x = to_int64 x \<longleftrightarrow> in_int32 x" if "in_int64 x" for x
    using that to_int32_range [of x] by (auto simp: to_int32_id to_int64_id)
  show ?thesis
    using assms
    by (auto simp: status_format_def status_numbers_def int_str_sep [OF comma] to_long_32 to_long_64
        long_ok_def wrap int_str_inj)
qed

lemma length_pad6: "n < 1000000 \<Longrightarrow> length (pad6 n) = 6"
  using length_nat_str [of n 5] by (simp add: pad6_def)

lemma round_unit:
  assumes "m \<le> 2 ^ e"
  shows "round_half_even (m * 1000000) (2 ^ e) \<le> 1000000"
proof -
  let ?q = "m * 1000000 div 2 ^ e"
  have "m * 1000000 \<le> 1000000 * 2 ^ e" using assms by simp
  then have "?q \<le> 1000000" by (metis div_le_mono nonzero_mult_div_cancel_right power_not_zero zero_neq_numeral)
  moreover have "m * 1000000 mod 2 ^ e = 0" if "?q = 1000000"
  proof -
    have "m * 1000000 = ?q * 2 ^ e + m * 1000000 mod 2 ^ e"
      by (rule div_mult_mod_eq [symmetric])
    then have "m * 1000000 = 1000000 * 2 ^ e + m * 1000000 mod 2 ^ e" by (simp only: that)
    with \<open>m * 1000000 \<le> 1000000 * 2 ^ e\<close> show ?thesis by linarith
  qed
  ultimately show ?thesis
    by (auto simp: round_half_even_def Let_def le_less)
qed

lemma length_progress:
  assumes "0 \<le> m" "m \<le> 2 ^ e"
  shows "length (printf_f (CFloat m e)) = 8"
proof -
  define q where "q = round_half_even (nat m * 1000000) (2 ^ e)"
  have "nat m \<le> 2 ^ e" using assms by (simp add: nat_le_iff)
  then have q: "q \<le> 1000000" unfolding q_def by (rule round_unit)
  then have "q div 1000000 < 10 ^ Suc 0" by simp
  then have "length (nat_str (q div 1000000)) \<le> Suc 0" by (rule length_nat_str)
  moreover have "nat_str (q div 1000000) \<noteq> []" by simp
  ultimately have "length (nat_str (q div 1000000)) = 1" by (cases "nat_str (q div 1000000)") auto
  moreover have "length (pad6 (q mod 1000000)) = 6" by (rule length_pad6) simp
  ultimately show ?thesis using assms(1) by (simp add: q_def Let_def)
qed

lemma length_c_str: "length (c_str s) \<le> length s"
  by (simp add: c_str_def length_takeWhile_le)

lemma length_status_str: "length (status_str st) \<le> 11"
  by (cases "ts_state st") (simp_all add: status_str_def)

definition progress_ok :: "torrent_status \<Rightarrow> bool" where
  "progress_ok st = (case ts_progress st of CFloat m e \<Rightarrow> 0 \<le> m \<and> m \<le> 2 ^ e)"

lemma length_status_format:
  assumes "counters_ok st" "progress_ok st" "in_int64 eta"
  shows "length (status_format 64 ih st eta) \<le> 304 + length ih + length (jsonEscape (ts_name st))"
proof -
  have p: "length (printf_f (ts_progress st)) = 8"
    using assms(2)
    by (auto simp: progress_ok_def length_progress split: c_float.splits simp del: printf_f.simps)
  have c: "length (int_str (ts_download_rate st)) \<le> 11" "length (int_str (ts_upload_rate st)) \<le> 11"
    "length (int_str (ts_num_peers st)) \<le> 11" "length (int_str (ts_num_seeds st)) \<le> 11"
    "length (int_str (ts_queue_position st)) \<le> 11"
    using assms(1) by (simp_all add: counters_ok_def length_int_str32)
  have l: "in_int64 (to_int64 x)" for x
    using signed_take_bit_int_greater_eq_minus_exp [of 63 x] signed_take_bit_int_less_exp [of 63 x]
    by (simp add: in_int64_def to_int64_def)
  show ?thesis
    using p c length_int_str64 [OF l, of "ts_total_download st"]
      length_int_str64 [OF l, of "ts_total_wanted st"] length_int_str64 [OF assms(3)]
      length_c_str [of ih] length_c_str [of "jsonEscape (ts_name st)"] length_status_str [of st]
    by (simp add: status_format_def status_numbers_def to_long_64 quoted_def json_key_def)
qed

lemma eta_in_int64:
  assumes "eta_seconds 64 st = Some eta"
  shows "in_int64 eta"
proof -
  have "in_int64 (d div r)" if "in_int64 d" "0 < r" "0 < d" for d r :: int
    using that zdiv_mono2 [of d 1 r] pos_imp_zdiv_nonneg_iff [of r d]
    by (auto simp: in_int64_def)
  moreover have "in_int64 (-1)" by (simp add: in_int64_def)
  ultimately show ?thesis
    using assms by (auto simp: eta_seconds_def c_int64_Some to_long_64 to_int64_id Let_def
        split: if_splits option.splits)
qed

text \<open>Which name the text gives back to a reader that looks for the field.\<close>

lemma jsonEscape_no_nul: "CHR 0x00 \<notin> set s \<Longrightarrow> CHR 0x00 \<notin> set (jsonEscape s)"
  by (induction s) auto

text \<open>Hexadecimal text is printed as it is.\<close>

definition hex_char :: "char \<Rightarrow> bool" where
  "hex_char c \<longleftrightarrow> is_digit c \<or> c \<in> set ''abcdef''"

lemma hex_char_plain: "hex_char c \<Longrightarrow> c \<noteq> dquote \<and> c \<noteq> backslash \<and> c \<noteq> CHR 0x00"
  by (auto simp: hex_char_def is_digit_def)

text \<open>
  The object that the text is meant to be: twelve fields in this order. \<open>name\<close> is the literal of the
  torrent's name; everything else has one way to be printed.
\<close>

fun object_rest :: "(string \<times> string) list \<Rightarrow> string" where
  "object_rest [] = ''}''"
| "object_rest ((k, v) # fs) = '','' @ [dquote] @ k @ [dquote] @ '':'' @ v @ object_rest fs"

fun object_text :: "(string \<times> string) list \<Rightarrow> string" where
  "object_text [] = ''{}''"
| "object_text ((k, v) # fs) = ''{'' @ [dquote] @ k @ [dquote] @ '':'' @ v @ object_rest fs"

definition status_fields :: "string \<Rightarrow> json_token list \<Rightarrow> torrent_status \<Rightarrow> int \<Rightarrow> (string \<times> string) list" where
  "status_fields ih name st eta =
     [(''info_hash'', value_text (JStr (map Raw ih))),
      (''name'', value_text (JStr name)),
      (''status'', value_text (JStr (map Raw (status_str st)))),
      (''progress'', printf_f (ts_progress st)),
      (''downloaded_bytes'', value_text (JInt (ts_total_download st))),
      (''total_bytes'', value_text (JInt (ts_total_wanted st))),
      (''download_speed'', value_text (JInt (ts_download_rate st))),
      (''upload_speed'', value_text (JInt (ts_upload_rate st))),
      (''eta'', value_text (JInt eta)),
      (''num_peers'', value_text (JInt (ts_num_peers st))),
      (''num_seeds'', value_text (JInt (ts_num_seeds st))),
      (''queue_position'', value_text (JInt (ts_queue_position st)))]"

lemma tokens_text_raw: "tokens_text (map Raw s) = s"
  by (induction s) auto

lemma format_is_object:
  assumes "list_all hex_char ih" "CHR 0x00 \<notin> set (ts_name st)"
    and "in_int64 (ts_total_download st)" "in_int64 (ts_total_wanted st)"
  shows "status_format 64 ih st eta = object_text (status_fields ih (map escape_token (ts_name st)) st eta)"
proof -
  have "CHR 0x00 \<notin> set ih"
    using assms(1) hex_char_plain [of "CHR 0x00"] by (auto simp: list_all_iff)
  then have ih: "c_str ih = ih" by (rule c_str_id)
  have n: "c_str (jsonEscape (ts_name st)) = jsonEscape (ts_name st)"
    by (rule c_str_id [OF jsonEscape_no_nul [OF assms(2)]])
  show ?thesis
    using assms(3,4)
    by (simp add: status_format_def status_numbers_def status_fields_def json_key_def quoted_def ih n [unfolded jsonEscape_tokens]
        tokens_text_raw to_long_64 to_int64_id jsonEscape_tokens)
qed

lemma name_in_object:
  assumes "list_all hex_char ih" "list_all token_ok name"
  shows "jsonExtractString (object_text (status_fields ih name st eta)) ''name'' = read_back name"
proof -
  define w where "w = object_rest (drop 2 (status_fields ih name st eta))"
  have k: "plain_key ''name''" "plain_key ''info_hash''" by (simp_all add: plain_key_def plain_char_def)
  have fe: "field_end (CHR '','')" by (simp add: field_end_def)
  have v: "value_ok (JStr (map Raw ih))"
    using assms(1) hex_char_plain by (auto simp: list_all_iff)
  let ?n = "needle ''name'' [dquote]" and ?v = "tokens_text name @ dquote # w"
  have "after_first ?n (object_text (status_fields ih name st eta)) = after_first ?n
      (CHR ''{'' # json_key ''info_hash'' @ value_text (JStr (map Raw ih)) @ CHR '','' #
        json_key ''name'' @ [dquote] @ ?v)"
    by (simp add: w_def status_fields_def json_key_def)
  also have "\<dots> = after_first ?n
      (json_key ''info_hash'' @ value_text (JStr (map Raw ih)) @ CHR '','' # json_key ''name'' @ [dquote] @ ?v)"
    by (rule skip_plain) simp
  also have "\<dots> = after_first ?n
      (value_text (JStr (map Raw ih)) @ CHR '','' # json_key ''name'' @ [dquote] @ ?v)"
    by (rule skip_key [OF k]) simp
  also have "\<dots> = after_first ?n (json_key ''name'' @ [dquote] @ ?v)"
    by (rule skip_value [OF k(1) fe v])
  also have "\<dots> = Some ?v" by (rule hit_key)
  finally show ?thesis
    using assms(2) by (simp add: jsonExtractString_after extract_string_loop_tokens)
qed



section \<open>The array\<close>

definition entry_of :: "('s, 'h, 'x, 'm) lt_api \<Rightarrow> nat \<Rightarrow> 's \<Rightarrow> 'h \<Rightarrow> string option \<Rightarrow> bool" where
  "entry_of api lb s h e =
     (if lt_is_valid api s h
      then e = status_text lb (handle_hash api s h) (lt_status api s h) \<and> e \<noteq> None
      else e = None)"

lemma statuses_loop_entries:
  "statuses_loop api lb s hs = Some entries \<Longrightarrow> list_all2 (entry_of api lb s) hs entries"
  by (induction hs arbitrary: entries)
    (auto simp: entry_of_def handle_hash_def split: if_splits option.splits)

lemma length_status_text: "status_text lb ih st = Some t \<Longrightarrow> length t < 1536"
  by (auto simp: status_text_def length_snprintf status_buffer_def)

text \<open>
  The array that \<open>nativeGetTorrentStatuses\<close> returns for a live session has one element per
  torrent handle, in the order of \<open>get_torrents\<close>: \<open>null\<close> exactly for the handles that are not
  valid, and otherwise the text of that torrent, which fits the buffer. Without a session it is
  empty.
\<close>

lemma statuses_one_per_handle:
  assumes "nativeGetTorrentStatuses api lb b = Some entries"
  shows "case g_session b of
      None \<Rightarrow> entries = []
    | Some (p, s) \<Rightarrow> list_all2 (\<lambda>h e. if lt_is_valid api s h
          then e = status_text lb (handle_hash api s h) (lt_status api s h) \<and> e \<noteq> None \<and>
            length (the e) < 1536
          else e = None) (lt_get_torrents api s) entries"
proof (cases "g_session b")
  case None
  with assms show ?thesis by (simp add: nativeGetTorrentStatuses_def)
next
  case (Some ps)
  obtain p s where ps: "ps = (p, s)" by fastforce
  from assms Some have "statuses_loop api lb s (lt_get_torrents api s) = Some entries"
    by (simp add: nativeGetTorrentStatuses_def ps)
  from statuses_loop_entries [OF this] show ?thesis
    by (auto simp: Some ps entry_of_def elim!: list_all2_mono split: if_splits
        simp: length_status_text)
qed

end
