(* ===== verification/Bridge_Machine.thy ===== *)
theory Bridge_Machine
  imports Bridge_Status
begin

text \<open>
  The bridge as the Java side drives it: a sequence of JNI calls on the global state. A call whose
  behaviour C++ leaves undefined (signed overflow in \<open>nativeApplySettings\<close> or
  \<open>nativeGetTorrentStatuses\<close>) ends in \<open>None\<close>. The theorems are the lifetime of the session object,
  the answers without a session, and what each call does to the session.
\<close>

section \<open>Calls\<close>

datatype jni_call =
    OnLoad nat
  | CreateSession "string option"
  | DestroySession nat
  | AddTorrent nat string
  | RemoveTorrent nat string
  | PauseTorrent nat string
  | ResumeTorrent nat string
  | PauseAll nat
  | ResumeAll nat
  | GetTorrentStatuses nat
  | ApplySettings nat string
  | SetFilePriorities nat string "string list"

datatype jni_result =
    Void | JInteger int | JPointer nat | JString string | JArray "string option list"

fun bridge_call ::
    "('s, 'h, 'x, 'm) lt_api \<Rightarrow> nat \<Rightarrow> jni_call \<Rightarrow> 's bridge \<Rightarrow> (jni_result \<times> 's bridge) option" where
  "bridge_call api lb (OnLoad vm) b = (case JNI_OnLoad vm b of (v, b') \<Rightarrow> Some (JInteger v, b'))"
| "bridge_call api lb (CreateSession path) b =
     (case nativeCreateSession api path b of (p, b') \<Rightarrow> Some (JPointer p, b'))"
| "bridge_call api lb (DestroySession ptr) b = Some (Void, nativeDestroySession api b)"
| "bridge_call api lb (AddTorrent ptr source) b =
     (case nativeAddTorrent api source b of (h, b') \<Rightarrow> Some (JString h, b'))"
| "bridge_call api lb (RemoveTorrent ptr h) b = Some (Void, nativeRemoveTorrent api h b)"
| "bridge_call api lb (PauseTorrent ptr h) b = Some (Void, nativePauseTorrent api h b)"
| "bridge_call api lb (ResumeTorrent ptr h) b = Some (Void, nativeResumeTorrent api h b)"
| "bridge_call api lb (PauseAll ptr) b = Some (Void, nativePauseAll api b)"
| "bridge_call api lb (ResumeAll ptr) b = Some (Void, nativeResumeAll api b)"
| "bridge_call api lb (GetTorrentStatuses ptr) b =
     map_option (\<lambda>entries. (JArray entries, b)) (nativeGetTorrentStatuses api lb b)"
| "bridge_call api lb (ApplySettings ptr json) b =
     map_option (Pair Void) (nativeApplySettings api json b)"
| "bridge_call api lb (SetFilePriorities ptr h files) b =
     Some (Void, nativeSetFilePriorities api h files b)"

definition bridge_step ::
    "('s, 'h, 'x, 'm) lt_api \<Rightarrow> nat \<Rightarrow> 's bridge option \<Rightarrow> jni_call \<Rightarrow> 's bridge option" where
  "bridge_step api lb st c =
     (case st of None \<Rightarrow> None | Some b \<Rightarrow> map_option snd (bridge_call api lb c b))"

definition bridge_run ::
    "('s, 'h, 'x, 'm) lt_api \<Rightarrow> nat \<Rightarrow> jni_call list \<Rightarrow> 's bridge option" where
  "bridge_run api lb cs = foldl (bridge_step api lb) (Some bridge_loaded) cs"

section \<open>Lifetime of the session\<close>

definition bridge_inv :: "'s bridge \<Rightarrow> bool" where
  "bridge_inv b =
     (case g_session b of
        None \<Rightarrow> deleted b = made b
      | Some (p, s) \<Rightarrow> p = made b \<and> made b = deleted b + 1 \<and> g_save_path b \<noteq> [])"

lemma bridge_inv_loaded [simp]: "bridge_inv bridge_loaded"
  by (simp add: bridge_inv_def bridge_loaded_def)

lemma bridge_inv_with_session [inv_intros]: "bridge_inv b \<Longrightarrow> bridge_inv (with_session f b)"
  by (auto simp: bridge_inv_def with_session_def split: option.splits)

lemma bridge_inv_create [inv_intros]:
  "bridge_inv b \<Longrightarrow> nativeCreateSession api path b = (p, b') \<Longrightarrow> bridge_inv b'"
  by (auto simp: bridge_inv_def nativeCreateSession_def new_session_def delete_session_def Let_def
      default_save_path_def split: option.splits if_splits)

lemma bridge_inv_destroy [inv_intros]: "bridge_inv b \<Longrightarrow> bridge_inv (nativeDestroySession api b)"
  by (auto simp: bridge_inv_def nativeDestroySession_def delete_session_def Let_def split: option.splits)

lemma bridge_inv_add [inv_intros]:
  "bridge_inv b \<Longrightarrow> nativeAddTorrent api src b = (r, b') \<Longrightarrow> bridge_inv b'"
  by (auto simp: bridge_inv_def nativeAddTorrent_def Let_def split: option.splits prod.splits if_splits)

lemma bridge_inv_settings [inv_intros]:
  "bridge_inv b \<Longrightarrow> nativeApplySettings api json b = Some b' \<Longrightarrow> bridge_inv b'"
  by (auto simp: bridge_inv_def nativeApplySettings_def new_save_path_def Let_def
      split: option.splits if_splits)

lemma bridge_inv_load [inv_intros]: "bridge_inv b \<Longrightarrow> JNI_OnLoad vm b = (v, b') \<Longrightarrow> bridge_inv b'"
  by (auto simp: bridge_inv_def JNI_OnLoad_def split: option.splits)

lemma bridge_call_inv:
  "bridge_inv b \<Longrightarrow> bridge_call api lb c b = Some (r, b') \<Longrightarrow> bridge_inv b'"
  by (cases c) (auto split: prod.splits simp: nativeRemoveTorrent_def nativePauseTorrent_def
      nativeResumeTorrent_def nativePauseAll_def nativeResumeAll_def nativeSetFilePriorities_def
      intro: inv_intros)

definition bridge_ok :: "'s bridge option \<Rightarrow> bool" where
  "bridge_ok st = (case st of None \<Rightarrow> True | Some b \<Rightarrow> bridge_inv b)"

interpretation bridge: invariant_machine "bridge_step api lb" bridge_ok
  for api :: "('s, 'h, 'x, 'm) lt_api" and lb
proof
  fix st :: "'s bridge option" and c
  assume "bridge_ok st"
  then show "bridge_ok (bridge_step api lb st c)"
    by (auto simp: bridge_ok_def bridge_step_def bridge_call_inv split: option.splits)
qed

text \<open>
  C1. After any sequence of JNI calls from loading the library, the session objects allocated
  and not yet deleted are exactly the one that \<open>g_session\<close> points to, or none: no session leaks
  and none is deleted twice. A live session's save path is not empty.
\<close>

theorem session_lifetime:
  "case bridge_run api lb cs of
     None \<Rightarrow> True
   | Some b \<Rightarrow> (case g_session b of
       None \<Rightarrow> deleted b = made b
     | Some (p, s) \<Rightarrow> p = made b \<and> made b = deleted b + 1 \<and> g_save_path b \<noteq> [])"
proof -
  have "bridge_ok (bridge_run api lb cs)"
    unfolding bridge_run_def by (rule bridge.inv_run) (simp add: bridge_ok_def)
  then show ?thesis by (auto simp: bridge_ok_def bridge_inv_def split: option.splits)
qed

section \<open>Without a session\<close>

fun needs_session :: "jni_call \<Rightarrow> bool" where
  "needs_session (OnLoad vm) = False"
| "needs_session (CreateSession path) = False"
| "needs_session _ = True"

fun empty_answer :: "jni_call \<Rightarrow> jni_result" where
  "empty_answer (AddTorrent ptr source) = JString ''''"
| "empty_answer (GetTorrentStatuses ptr) = JArray []"
| "empty_answer _ = Void"

text \<open>
  While there is no session, every call that works on one gives the empty answer of its type
  and leaves the bridge as it is, whatever pointer and texts it is given.
\<close>

lemma calls_without_session:
  assumes "g_session b = None" "needs_session c"
  shows "bridge_call api lb c b = Some (empty_answer c, b)"
proof -
  have w: "with_session f b = b" for f using assms(1) by (simp add: with_session_def)
  show ?thesis
    using assms by (cases c) (simp_all add: w nativeDestroySession_def nativeAddTorrent_def
        nativeRemoveTorrent_def nativePauseTorrent_def nativeResumeTorrent_def nativePauseAll_def
        nativeResumeAll_def nativeGetTorrentStatuses_def nativeApplySettings_def
        nativeSetFilePriorities_def)
qed

section \<open>Creating a session\<close>

lemma create_pack_valid: "list_all (\<lambda>(k, v). valid_setting k v) create_session_pack"
  by (simp add: create_session_pack_def)

lemma notification_mask: "uint (flag_or alert_status alert_error) = 65"
  by (simp add: flag_or_def alert_status_def alert_error_def flag_bit_def)

text \<open>
  \<open>nativeCreateSession\<close> replaces whatever session there was (deleting it) by a new one and
  returns its address; the save path is the given one, else the previous one, else the default.
  The pack the new session starts from is accepted by the settings store, with the status and
  error alerts and DHT, LSD, UPnP and NAT-PMP on.
\<close>

lemma create_session_effect:
  assumes "store_inv st"
  shows "\<exists>p b' st'. nativeCreateSession api path b = (p, b') \<and>
    g_session b' = Some (p, lt_new_session api create_session_pack) \<and>
    made b' = made b + 1 \<and> deleted b' = deleted b + (if g_session b = None then 0 else 1) \<and>
    g_save_path b' = (let given = (case path of Some t \<Rightarrow> t | None \<Rightarrow> g_save_path b)
      in if given = '''' then default_save_path else given) \<and>
    apply_pack create_session_pack st = Some st' \<and>
    get_setting st' (IntKey ''alert_mask'') = Some (VInt 65) \<and>
    list_all (\<lambda>n. get_setting st' (BoolKey n) = Some (VBool True))
      [''enable_dht'', ''enable_lsd'', ''enable_upnp'', ''enable_natpmp'']"
proof -
  from settings.set_many_get [OF assms create_pack_valid] obtain st' where
    st': "apply_pack create_session_pack st = Some st'" "\<forall>k. valid_key k \<longrightarrow> get_setting st' k =
      (case map_of (rev create_session_pack) k of Some v \<Rightarrow> Some v | None \<Rightarrow> get_setting st k)"
    by (auto simp only: apply_pack_def)
  then have "get_setting st' (IntKey ''alert_mask'') = Some (VInt 65)"
    "list_all (\<lambda>n. get_setting st' (BoolKey n) = Some (VBool True))
      [''enable_dht'', ''enable_lsd'', ''enable_upnp'', ''enable_natpmp'']"
    by (simp_all add: create_session_pack_def notification_mask del: get_setting.simps)
  with st'(1) show ?thesis
    by (auto simp: nativeCreateSession_def new_session_def delete_session_def Let_def
        split: option.splits)
qed

section \<open>Adding a torrent\<close>

lemma prepare_params_fields:
  "atp_save_path (prepare_params path params) = path"
  "bit (atp_flags (prepare_params path params)) n \<longleftrightarrow> bit (atp_flags params) n \<and> n \<noteq> 4 \<and> n \<noteq> 5"
  by (auto simp: prepare_params_def Let_def tf_paused_def tf_auto_managed_def flag_and_not_bit)

text \<open>What the call does with parameters \<open>m\<close>, and the text it answers with.\<close>

definition hash_answer :: "info_hash_t \<Rightarrow> string \<Rightarrow> bool" where
  "hash_answer ih t =
     (if \<exists>w \<in> set (ih_v1 ih). w \<noteq> 0 then is_hex_of t (concat (map word_bytes (ih_v1 ih)))
      else if \<exists>w \<in> set (ih_v2 ih). w \<noteq> 0 then is_hex_of t (concat (map word_bytes (ih_v2 ih)))
      else t = '''')"

definition adds_torrent :: "('s, 'h, 'x, 'm) lt_api \<Rightarrow> nat \<Rightarrow> 's \<Rightarrow> 's bridge \<Rightarrow>
    ('x, 'm) add_torrent_params \<Rightarrow> string \<times> 's bridge \<Rightarrow> bool" where
  "adds_torrent api p s b m out \<longleftrightarrow> (\<exists>q h ec s'. lt_add_torrent api q s = (h, ec, s') \<and>
     atp_save_path q = g_save_path b \<and> atp_url q = atp_url m \<and> atp_ti q = atp_ti m \<and>
     atp_other q = atp_other m \<and>
     (\<forall>n. bit (atp_flags q) n \<longleftrightarrow> bit (atp_flags m) n \<and> n \<noteq> 4 \<and> n \<noteq> 5) \<and>
     snd out = b\<lparr>g_session := Some (p, s')\<rparr> \<and>
     (if ec \<noteq> 0 then fst out = '''' else hash_answer (lt_info_hashes api s' h) (fst out)))"

lemma hash_text_answer:
  assumes "\<forall>bs. is_hex_of (lt_to_hex api bs) bs"
  shows "hash_answer ih (c_str (hash_text api ih))"
proof -
  have "c_str (lt_to_hex api bs) = lt_to_hex api bs" for bs
    by (rule c_str_id [OF is_hex_of_no_nul [OF spec [OF assms]]])
  moreover have "c_str '''' = ''''" by (simp add: c_str_def)
  ultimately show ?thesis
    using assms
    by (auto simp: hash_answer_def hash_text_def has_v1_def has_v2_def digest_is_all_zeros_def
        list_all_iff digest_to_string_def digest_data_def)
qed

lemma add_with_params:
  assumes "\<forall>bs. is_hex_of (lt_to_hex api bs) bs" "g_session b = Some (p, s)"
    and "source_params api src = (m, 0)"
  shows "adds_torrent api p s b m (nativeAddTorrent api src b)"
proof -
  let ?q = "prepare_params (g_save_path b) m"
  obtain h ec s' where a: "lt_add_torrent api ?q s = (h, ec, s')" by (metis prod_cases3)
  have "atp_url ?q = atp_url m" "atp_ti ?q = atp_ti m" "atp_other ?q = atp_other m"
    by (simp_all add: prepare_params_def Let_def)
  with a show ?thesis
    using assms(2,3) unfolding adds_torrent_def
    by (intro exI [of _ ?q] exI [of _ h] exI [of _ ec] exI [of _ s'])
      (simp add: nativeAddTorrent_def prepare_params_fields hash_text_answer [OF assms(1)] Let_def)
qed

lemma add_without_params:
  "g_session b = Some (p, s) \<Longrightarrow> source_params api src = (m, ec) \<Longrightarrow> ec \<noteq> 0 \<Longrightarrow>
   nativeAddTorrent api src b = ('''', b)"
  by (simp add: nativeAddTorrent_def)

lemma starts_with_prefix: "starts_with p s \<longleftrightarrow> prefix p s"
  by (cases s) (auto simp: starts_with_def)

text \<open>
  C9. \<open>nativeAddTorrent\<close> with a live session, by the kind of the source text. A text that starts with
  \<open>magnet:\<close> adds what \<open>parse_magnet_uri\<close> makes of it, one that starts with \<open>http://\<close> or
  \<open>https://\<close> adds default parameters with the text as url, and any other text adds default parameters
  with the torrent file of that name. A magnet link or a torrent file that is bad adds nothing: the answer
  is empty and nothing changes. Otherwise exactly one torrent is added, under the current save path, with
  all other parameters as they are except that the flags \<open>paused\<close> (bit 4) and \<open>auto_managed\<close> (bit
  5) are off. The answer is empty when the session reports an error; else it is the v1 hash in
  hexadecimal when that is not all zeros, else the v2 hash when that is not, else empty. The hypothesis on
  \<open>to_hex\<close> is what \<open>hex.hpp\<close> documents.
\<close>

theorem add_torrent_effect:
  assumes "g_session b = Some (p, s)" "\<forall>bs. is_hex_of (lt_to_hex api bs) bs"
  shows "let magnet = prefix ''magnet:'' src; http = prefix ''http://'' src \<or> prefix ''https://'' src;
      out = nativeAddTorrent api src b; defaults = lt_default_params api in
    (magnet \<longrightarrow> (case lt_parse_magnet_uri api src of (m, ec) \<Rightarrow>
      if ec \<noteq> 0 then out = ('''', b) else adds_torrent api p s b m out)) \<and>
    (http \<longrightarrow> adds_torrent api p s b (defaults\<lparr>atp_url := src\<rparr>) out) \<and>
    (\<not> magnet \<and> \<not> http \<longrightarrow> (case lt_torrent_info api src of (ti, ec) \<Rightarrow>
      if ec \<noteq> 0 then out = ('''', b) else adds_torrent api p s b (defaults\<lparr>atp_ti := Some ti\<rparr>) out))"
proof -
  have other: "\<not> (prefix ''magnet:'' src \<and> (prefix ''http://'' src \<or> prefix ''https://'' src))"
    by (cases src) auto
  have src: "source_params api src =
      (if prefix ''magnet:'' src then lt_parse_magnet_uri api src
       else if prefix ''http://'' src \<or> prefix ''https://'' src then ((lt_default_params api)\<lparr>atp_url := src\<rparr>, 0)
       else (case lt_torrent_info api src of (ti, ec) \<Rightarrow> ((lt_default_params api)\<lparr>atp_ti := Some ti\<rparr>, ec)))"
    by (simp only: source_params_def starts_with_prefix Let_def)
  show ?thesis
  proof (cases "source_params api src")
    case (Pair m ec)
    with other src add_with_params [OF assms(2,1), of src m] add_without_params [OF assms(1), of api src m ec]
    show ?thesis
      by (cases "lt_torrent_info api src") (auto simp: Let_def split: if_splits)
  qed
qed

theorem add_torrent_effect_witness:
  "\<exists>q h s'. lt_add_torrent list_api q [] = (h, 0, s') \<and> atp_url q = ''https://x'' \<and>
     \<not> bit (atp_flags q) 4 \<and>
     nativeAddTorrent list_api ''https://x'' (bridge_loaded\<lparr>g_session := Some (1, [])\<rparr>)
       = (''01'' @ replicate 38 (CHR ''0''), bridge_loaded\<lparr>g_session := Some (1, s')\<rparr>)"
proof -
  let ?b = "bridge_loaded\<lparr>g_session := Some (1, [])\<rparr>"
  let ?out = "nativeAddTorrent list_api ''https://x'' ?b"
  have "g_session ?b = Some (1, [])" "\<forall>bs. is_hex_of (lt_to_hex list_api bs) bs"
    by (simp_all add: list_api_def hex_text_is_hex)
  from add_torrent_effect [OF this, of "''https://x''"]
  have "adds_torrent list_api 1 [] ?b ((lt_default_params list_api)\<lparr>atp_url := ''https://x''\<rparr>) ?out"
    by simp
  then obtain q h s' where q: "lt_add_torrent list_api q [] = (h, 0, s')" "atp_url q = ''https://x''"
      "\<not> bit (atp_flags q) 4" "snd ?out = ?b\<lparr>g_session := Some (1, s')\<rparr>"
    by (auto simp: adds_torrent_def list_api_def)
  have "fst ?out = ''01'' @ replicate 38 (CHR ''0'')" by code_simp
  with q show ?thesis by (intro exI [of _ q] exI [of _ h] exI [of _ s']) (simp add: prod_eq_iff)
qed

section \<open>Acting on one torrent\<close>

definition first_match ::
    "('s, 'h, 'x, 'm) lt_api \<Rightarrow> string \<Rightarrow> 's \<Rightarrow> 'h option" where
  "first_match api target s = find (\<lambda>h. handle_hash api s h = target) (lt_get_torrents api s)"

lemma act_on_match_find:
  "act_on_match api target act hs s =
     (case find (\<lambda>h. handle_hash api s h = target) hs of None \<Rightarrow> s | Some h \<Rightarrow> act h s)"
  by (induction hs) simp_all

lemma first_match_unique:
  "distinct (map (handle_hash api s) (lt_get_torrents api s)) \<Longrightarrow> h \<in> set (lt_get_torrents api s) \<Longrightarrow>
   first_match api (handle_hash api s h) s = Some h"
  unfolding first_match_def by (rule find_inj)

text \<open>
  \<open>nativeRemoveTorrent\<close>, \<open>nativePauseTorrent\<close> and \<open>nativeResumeTorrent\<close> act on exactly one
  handle, the first one of \<open>get_torrents\<close> whose hash text is the given one, and on nothing when
  there is none; when the hash texts of the session's torrents are distinct, the hash of any
  torrent selects that torrent. Removing asks for the deletion of its files.
\<close>

lemma act_on_one_torrent:
  assumes "g_session b = Some (p, s)"
  shows "g_session (nativeRemoveTorrent api target b) = Some (p, case first_match api target s of
        None \<Rightarrow> s | Some h \<Rightarrow> lt_remove_torrent api h 1 s)
    \<and> g_session (nativePauseTorrent api target b) = Some (p, case first_match api target s of
        None \<Rightarrow> s | Some h \<Rightarrow> lt_handle_pause api h s)
    \<and> g_session (nativeResumeTorrent api target b) = Some (p, case first_match api target s of
        None \<Rightarrow> s | Some h \<Rightarrow> lt_handle_resume api h s)
    \<and> (distinct (map (handle_hash api s) (lt_get_torrents api s)) \<longrightarrow>
        (\<forall>h \<in> set (lt_get_torrents api s). first_match api (handle_hash api s h) s = Some h))"
proof -
  have "(delete_files :: byte) = 1" by (simp add: delete_files_def flag_bit_def)
  then show ?thesis
    using assms
    by (simp add: nativeRemoveTorrent_def nativePauseTorrent_def nativeResumeTorrent_def
        with_session_def act_on_match_find first_match_def [symmetric] first_match_unique)
qed

section \<open>File priorities\<close>

lemma length_mark_selected [simp]: "length (mark_selected files sel fis ps) = length ps"
  by (induction fis arbitrary: ps) simp_all

lemma mark_selected_nth:
  "i < length ps \<Longrightarrow> mark_selected files sel fis ps ! i =
     (if i \<in> set fis \<and> files ! i \<in> set sel then default_priority else ps ! i)"
  by (induction fis arbitrary: ps) (auto simp: nth_update_same_length)

definition wanted_priority :: "string list \<Rightarrow> string \<Rightarrow> nat" where
  "wanted_priority selected path = (if path \<in> set selected then 4 else 0)"

lemma set_priorities_fold:
  "set_priorities api h fis ps s = fold (\<lambda>fi. lt_file_priority api h fi (ps ! fi)) fis s"
  by (induction fis arbitrary: s) simp_all

lemma set_marked_priorities:
  "set_priorities api h [0..<length files]
     (mark_selected files sel [0..<length files] (replicate (length files) dont_download)) s =
   fold (\<lambda>fi. lt_file_priority api h fi (wanted_priority sel (files ! fi))) [0..<length files] s"
  unfolding set_priorities_fold
  by (rule fold_cong) (simp_all add: mark_selected_nth wanted_priority_def dont_download_def
      default_priority_def)

lemma priorities_loop_find:
  "priorities_loop api target sel hs s =
     (case find (\<lambda>h. lt_is_valid api s h \<and> handle_hash api s h = target) hs of
        None \<Rightarrow> s
      | Some h \<Rightarrow> (case lt_torrent_file api s h of
          None \<Rightarrow> s
        | Some files \<Rightarrow>
            fold (\<lambda>fi. lt_file_priority api h fi (wanted_priority sel (files ! fi)))
              [0..<length files] s))"
  by (induction hs) (auto simp: Let_def set_marked_priorities split: option.split)

text \<open>
  C37. \<open>nativeSetFilePriorities\<close> finds the first valid handle with the given hash; if its
  metadata is there it sets the priority of every file once, in file order, to the default
  priority 4 when the file's path is among the selected ones and to 0 (not downloaded) otherwise.
  In every other case it changes nothing.
\<close>

theorem set_file_priorities_effect:
  assumes "g_session b = Some (p, s)"
  shows "g_session (nativeSetFilePriorities api target selected b) = Some (p,
    case find (\<lambda>h. lt_is_valid api s h \<and> handle_hash api s h = target) (lt_get_torrents api s) of
      None \<Rightarrow> s
    | Some h \<Rightarrow> (case lt_torrent_file api s h of
        None \<Rightarrow> s
      | Some files \<Rightarrow> fold (\<lambda>fi. lt_file_priority api h fi
            (if files ! fi \<in> set selected then 4 else 0)) [0..<length files] s))"
  unfolding nativeSetFilePriorities_def with_session_def priorities_loop_find wanted_priority_def
  using assms by simp

theorem set_file_priorities_effect_witness:
  "g_session (nativeSetFilePriorities list_api '''' [''b'']
     (bridge_loaded\<lparr>g_session := Some (1, [(sample_hash 0, (sample_status ''x'')\<lparr>ts_num_seeds := 0\<rparr>)])\<rparr>))
   = Some (1, [(sample_hash 0, (sample_status ''x'')\<lparr>ts_num_seeds := 4\<rparr>)])"
proof -
  let ?s = "[(sample_hash 0, (sample_status ''x'')\<lparr>ts_num_seeds := 0\<rparr>)]"
  have "handle_hash list_api ?s 0 = ''''"
    by (simp add: handle_hash_def hash_text_def list_api_def sample_hash_def has_v1_def has_v2_def
        digest_is_all_zeros_def digest_clear_def sha256_size_def list_all_iff)
  then have "find (\<lambda>h. lt_is_valid list_api ?s h \<and> handle_hash list_api ?s h = '''')
      (lt_get_torrents list_api ?s) = Some 0"
    by (simp add: list_api_def)
  with set_file_priorities_effect [of "bridge_loaded\<lparr>g_session := Some (1, ?s)\<rparr>" 1 ?s list_api
      "''''" "[''b'']"]
  show ?thesis by (simp add: list_api_def)
qed

end
