(* ===== verification/Socket_IO.thy ===== *)
theory Socket_IO
  imports Byte_IO
begin

text \<open>
  \<open>libtorrent/socket_io.hpp\<close>: addresses and endpoints in their compact byte form. An address is
  a 32-bit IPv4 address or the 16 bytes of an IPv6 one. A \<open>bdecode_node\<close> that
  \<open>read_endpoint_list\<close> is given is \<open>None\<close> when it is no list, and otherwise the list of its
  elements, each the bytes of a string or \<open>None\<close> for an element of another type.
\<close>

section \<open>Addresses and endpoints\<close>

datatype address = IPv4 u32 | IPv6 bytes

record endpoint =
  ep_address :: address
  ep_port :: u16

definition default_endpoint :: endpoint where
  "default_endpoint = \<lparr>ep_address = IPv4 0, ep_port = 0\<rparr>"

fun is_v4 :: "address \<Rightarrow> bool" where
  "is_v4 (IPv4 a) = True"
| "is_v4 (IPv6 bs) = False"

fun wf_address :: "address \<Rightarrow> bool" where
  "wf_address (IPv4 a) = True"
| "wf_address (IPv6 bs) = (length bs = 16)"

fun address_size :: "address \<Rightarrow> nat" where
  "address_size (IPv4 a) = 4"
| "address_size (IPv6 bs) = 16"

fun write_address :: "(byte \<Rightarrow> 'o \<Rightarrow> 'o option) \<Rightarrow> address \<Rightarrow> 'o \<Rightarrow> 'o option" where
  "write_address put (IPv4 a) out = write_uint32 put a out"
| "write_address put (IPv6 bs) out = write_string put bs out"

definition read_v4_address :: "bytes \<Rightarrow> (address \<times> bytes) option" where
  "read_v4_address inp = map_option (\<lambda>(ip, r). (IPv4 ip, r)) (read_uint32 inp)"

fun read_bytes :: "nat \<Rightarrow> bytes \<Rightarrow> (bytes \<times> bytes) option" where
  "read_bytes 0 inp = Some ([], inp)"
| "read_bytes (Suc n) inp =
     (case read_uint8 inp of
        None \<Rightarrow> None
      | Some (b, r) \<Rightarrow> map_option (\<lambda>(bs, q). (b # bs, q)) (read_bytes n r))"

definition read_v6_address :: "bytes \<Rightarrow> (address \<times> bytes) option" where
  "read_v6_address inp = map_option (\<lambda>(bs, r). (IPv6 bs, r)) (read_bytes 16 inp)"

definition write_endpoint :: "(byte \<Rightarrow> 'o \<Rightarrow> 'o option) \<Rightarrow> endpoint \<Rightarrow> 'o \<Rightarrow> 'o option" where
  "write_endpoint put e out =
     (case write_address put (ep_address e) out of
        None \<Rightarrow> None | Some out' \<Rightarrow> write_uint16 put (ep_port e) out')"

definition read_endpoint ::
    "(bytes \<Rightarrow> (address \<times> bytes) option) \<Rightarrow> bytes \<Rightarrow> (endpoint \<times> bytes) option" where
  "read_endpoint read_address inp =
     (case read_address inp of
        None \<Rightarrow> None
      | Some (a, r) \<Rightarrow> map_option (\<lambda>(p, q). (\<lparr>ep_address = a, ep_port = p\<rparr>, q)) (read_uint16 r))"

definition read_v4_endpoint :: "bytes \<Rightarrow> (endpoint \<times> bytes) option" where
  "read_v4_endpoint inp = read_endpoint read_v4_address inp"

definition read_v6_endpoint :: "bytes \<Rightarrow> (endpoint \<times> bytes) option" where
  "read_v6_endpoint inp = read_endpoint read_v6_address inp"

text \<open>
  The loop of \<open>read_endpoint_list\<close>: an element that is no string ends it with what was read so
  far, a short one is skipped, and one of neither length is ignored.
\<close>

fun endpoint_list_loop :: "endpoint list \<Rightarrow> bytes option list \<Rightarrow> endpoint list" where
  "endpoint_list_loop ret [] = ret"
| "endpoint_list_loop ret (None # es) = ret"
| "endpoint_list_loop ret (Some s # es) =
     (if length s < 6 then endpoint_list_loop ret es
      else if length s = 6
      then endpoint_list_loop (case read_v4_endpoint s of Some (e, r) \<Rightarrow> ret @ [e] | None \<Rightarrow> ret) es
      else if length s = 18
      then endpoint_list_loop (case read_v6_endpoint s of Some (e, r) \<Rightarrow> ret @ [e] | None \<Rightarrow> ret) es
      else endpoint_list_loop ret es)"

definition read_endpoint_list :: "bytes option list option \<Rightarrow> endpoint list" where
  "read_endpoint_list n = (case n of None \<Rightarrow> [] | Some es \<Rightarrow> endpoint_list_loop [] es)"

section \<open>Byte form\<close>

fun address_bytes :: "address \<Rightarrow> bytes" where
  "address_bytes (IPv4 a) = be_bytes 4 a"
| "address_bytes (IPv6 bs) = bs"

definition endpoint_bytes :: "endpoint \<Rightarrow> bytes" where
  "endpoint_bytes e = address_bytes (ep_address e) @ be_bytes 2 (ep_port e)"

lemma length_address_bytes [simp]: "wf_address a \<Longrightarrow> length (address_bytes a) = address_size a"
  by (cases a) (simp_all del: be_bytes.simps)

lemma write_address_string: "write_address put a = write_string put (address_bytes a)"
  by (rule ext, cases a) (simp_all add: write_uint_strings del: be_bytes.simps)

lemma write_endpoint_string: "write_endpoint put e = write_string put (endpoint_bytes e)"
  by (rule ext)
    (auto simp: write_endpoint_def write_address_string write_uint_strings endpoint_bytes_def
      write_string_append split: option.split)

lemma read_bytes_append: "read_bytes (length bs) (bs @ r) = Some (bs, r)"
  by (induction bs) simp_all

definition read_any_endpoint :: "endpoint \<Rightarrow> bytes \<Rightarrow> (endpoint \<times> bytes) option" where
  "read_any_endpoint e = (if is_v4 (ep_address e) then read_v4_endpoint else read_v6_endpoint)"

lemma read_endpoint_bytes:
  assumes "wf_address (ep_address e)"
  shows "read_any_endpoint e (endpoint_bytes e @ r) = Some (e, r)"
proof (cases "ep_address e")
  case (IPv4 a)
  then show ?thesis
    using u32c.dec_enc [of a "be_bytes 2 (ep_port e) @ r"] u16c.dec_enc [of "ep_port e" r]
    by (simp add: read_any_endpoint_def read_v4_endpoint_def read_endpoint_def read_v4_address_def
        endpoint_bytes_def del: be_bytes.simps)
next
  case (IPv6 bs)
  with assms have "read_bytes 16 (bs @ be_bytes 2 (ep_port e) @ r) = Some (bs, be_bytes 2 (ep_port e) @ r)"
    using read_bytes_append [of bs] by simp
  with IPv6 show ?thesis
    using u16c.dec_enc [of "ep_port e" r]
    by (simp add: read_any_endpoint_def read_v6_endpoint_def read_endpoint_def read_v6_address_def
        endpoint_bytes_def del: be_bytes.simps)
qed

lemma length_endpoint_bytes:
  "wf_address (ep_address e) \<Longrightarrow> length (endpoint_bytes e) = address_size (ep_address e) + 2"
  by (simp add: endpoint_bytes_def del: be_bytes.simps)

lemma endpoint_list_loop_bytes:
  "list_all (wf_address \<circ> ep_address) es \<Longrightarrow>
   endpoint_list_loop ret (map (Some \<circ> endpoint_bytes) es) = ret @ es"
proof (induction es arbitrary: ret)
  case Nil
  then show ?case by simp
next
  case (Cons e es)
  then have "read_any_endpoint e (endpoint_bytes e) = Some (e, [])"
    using read_endpoint_bytes [of e "[]"] by simp
  with Cons show ?case
    by (cases "ep_address e") (simp_all add: length_endpoint_bytes read_any_endpoint_def)
qed

text \<open>
  An endpoint written in compact form reads back as itself and consumes exactly its bytes, 6
  for IPv4 and 18 for IPv6; a list of such strings is read back completely and in order by
  \<open>read_endpoint_list\<close>.
\<close>

lemma endpoint_roundtrip:
  assumes "wf_address (ep_address e)" "list_all (wf_address \<circ> ep_address) es"
  shows "(\<exists>bs. write_endpoint put_back e out = Some (out @ bs) \<and>
      length bs = (if is_v4 (ep_address e) then 6 else 18) \<and>
      (if is_v4 (ep_address e) then read_v4_endpoint else read_v6_endpoint) (bs @ r) = Some (e, r))
    \<and> read_endpoint_list (Some (map (\<lambda>e. write_endpoint put_back e []) es)) = es"
proof -
  have w: "write_endpoint put_back e out = Some (out @ endpoint_bytes e)" for e out
    using vec.write_string_writes [of "endpoint_bytes e" out]
    by (simp add: write_endpoint_string)
  have "length (endpoint_bytes e) = (if is_v4 (ep_address e) then 6 else 18)"
    using assms(1) by (cases "ep_address e") (simp_all add: length_endpoint_bytes)
  with w read_endpoint_bytes [OF assms(1), of r]
  have 1: "\<exists>bs. write_endpoint put_back e out = Some (out @ bs) \<and>
      length bs = (if is_v4 (ep_address e) then 6 else 18) \<and>
      (if is_v4 (ep_address e) then read_v4_endpoint else read_v6_endpoint) (bs @ r) = Some (e, r)"
    by (simp add: read_any_endpoint_def)
  have "(\<lambda>e. write_endpoint put_back e []) = Some \<circ> endpoint_bytes"
    by (rule ext) (simp add: w)
  with endpoint_list_loop_bytes [OF assms(2), of "[]"] 1 show ?thesis
    by (simp add: read_endpoint_list_def)
qed

end
