(* ===== verification/Proxy_Stream.thy ===== *)
theory Proxy_Stream
  imports Socket_IO "HOL-Library.Monad_Syntax"
begin

text \<open>
  What \<open>socks5_stream\<close>, \<open>http_stream\<close> and \<open>i2p_stream\<close> share: the error codes they report,
  \<open>proxy_base\<close> (\<open>proxy_base.hpp\<close>) and the asynchronous operations of the socket. At most one
  operation is outstanding; \<open>pending\<close> says which one and, in a value \<open>'k\<close> of each stream's own
  type, which of its functions is the completion handler. An \<open>async_read\<close> into the buffer is its
  position and length. The environment answers with a \<open>stream_event\<close>; an event that does not
  answer the outstanding operation changes nothing. \<open>sent\<close> is what was written to the proxy and
  \<open>completions\<close> the error codes the user's handler was called with.

  \<open>Wild\<close> stands for an operation on memory outside the buffer, after which nothing is promised.
\<close>

section \<open>Error codes\<close>

datatype asio_error = no_permission | network_unreachable | host_unreachable | connection_refused
  | timed_out | address_family_not_supported | operation_not_supported | not_connected
  | operation_aborted | broken_pipe | would_block

datatype socks_error_code = socks_no_error | unsupported_version
  | unsupported_authentication_method | unsupported_authentication_version | authentication_error
  | username_required | general_failure | command_not_supported | no_identd | identd_error

datatype i2p_error_code = i2p_no_error | parse_failed | cant_reach_peer | i2p_failure | invalid_key
  | invalid_id | i2p_timeout | key_not_found | duplicated_id | num_errors

datatype error_code = Success | Asio asio_error | Socks socks_error_code | I2P i2p_error_code
  | Other_Error int

text \<open>\<open>if (ec)\<close>\<close>

fun failed :: "error_code \<Rightarrow> bool" where
  "failed Success = False"
| "failed (Asio a) = True"
| "failed (Socks e) = (e \<noteq> socks_no_error)"
| "failed (I2P e) = (e \<noteq> i2p_no_error)"
| "failed (Other_Error n) = (n \<noteq> 0)"

section \<open>State\<close>

datatype 'k pending =
    Idle
  | Resolve
  | Connect endpoint
  | Write bytes 'k
  | Read nat nat 'k
  | Wild

record 'k stream =
  m_hostname :: bytes
  m_port :: int
  m_remote_endpoint :: endpoint
  sock_open :: bool
  m_buffer :: bytes
  pending :: "'k pending"
  sent :: "bytes list"
  completions :: "error_code list"

datatype stream_event =
    Resolved error_code "endpoint list" error_code
  | Connected error_code
  | Written error_code
  | ReadDone error_code bytes

section \<open>proxy_base\<close>

definition set_proxy :: "bytes \<Rightarrow> int \<Rightarrow> ('k, 'z) stream_scheme \<Rightarrow> ('k, 'z) stream_scheme" where
  "set_proxy hostname port s = s\<lparr>m_hostname := hostname, m_port := port\<rparr>"

definition proxy_close :: "('k, 'z) stream_scheme \<Rightarrow> ('k, 'z) stream_scheme" where
  "proxy_close s = s\<lparr>m_remote_endpoint := default_endpoint, sock_open := False\<rparr>"

definition remote_endpoint :: "('k, 'z) stream_scheme \<Rightarrow> endpoint \<times> error_code" where
  "remote_endpoint s = (m_remote_endpoint s, if sock_open s then Success else Asio not_connected)"

text \<open>\<open>std::move(h)(ec)\<close>: the handler is called, and no operation is outstanding any more.\<close>

definition complete :: "error_code \<Rightarrow> ('k, 'z) stream_scheme \<Rightarrow> ('k, 'z) stream_scheme" where
  "complete ec s = s\<lparr>completions := completions s @ [ec], pending := Idle\<rparr>"

text \<open>\<open>handle_error\<close> as a branch: \<open>if (handle_error(e, h)) return; k\<close>.\<close>

definition handle_error ::
    "error_code \<Rightarrow> (('k, 'z) stream_scheme \<Rightarrow> ('k, 'z) stream_scheme) \<Rightarrow>
     ('k, 'z) stream_scheme \<Rightarrow> ('k, 'z) stream_scheme" where
  "handle_error e k s = (if \<not> failed e then k s else proxy_close (complete e s))"

section \<open>Buffers\<close>

definition vec_resize :: "nat \<Rightarrow> bytes \<Rightarrow> bytes" where
  "vec_resize n buf = take n buf @ replicate (n - length buf) 0"

text \<open>Overwrite \<open>buf\<close> from \<open>off\<close> on with what was read.\<close>

definition store_at :: "nat \<Rightarrow> bytes \<Rightarrow> bytes \<Rightarrow> bytes" where
  "store_at off bs buf = take off buf @ bs @ drop (off + length bs) buf"

text \<open>\<open>m_buffer.resize(n); char* p = &m_buffer[0]\<close> and the writes through \<open>p\<close>.\<close>

definition build_message :: "nat \<Rightarrow> (cursor \<Rightarrow> cursor option) \<Rightarrow> bytes \<Rightarrow> bytes option" where
  "build_message n w buf = map_option cbuf (w \<lparr>cbuf = vec_resize n buf, cpos = 0\<rparr>)"

text \<open>\<open>async_write\<close> of the whole buffer with completion \<open>k\<close>; \<open>None\<close> is a write past its end.\<close>

definition send_message ::
    "bytes option \<Rightarrow> 'k \<Rightarrow> ('k, 'z) stream_scheme \<Rightarrow> ('k, 'z) stream_scheme" where
  "send_message msg k s =
     (case msg of
        None \<Rightarrow> s\<lparr>pending := Wild\<rparr>
      | Some b \<Rightarrow> s\<lparr>m_buffer := b, pending := Write b k\<rparr>)"

definition read_buffer :: "nat \<Rightarrow> nat \<Rightarrow> 'k \<Rightarrow> ('k, 'z) stream_scheme \<Rightarrow> ('k, 'z) stream_scheme" where
  "read_buffer off n k s =
     (if off + n \<le> length (m_buffer s) then s\<lparr>pending := Read off n k\<rparr> else s\<lparr>pending := Wild\<rparr>)"

section \<open>Delivering an event\<close>

text \<open>
  The stream's own functions are \<open>name_lookup\<close> (with the result of opening the socket),
  \<open>connected\<close>, and the completion handlers of writes and reads.
\<close>

definition deliver ::
    "(error_code \<Rightarrow> endpoint list \<Rightarrow> error_code \<Rightarrow> ('k, 'z) stream_scheme \<Rightarrow> ('k, 'z) stream_scheme) \<Rightarrow>
     (error_code \<Rightarrow> ('k, 'z) stream_scheme \<Rightarrow> ('k, 'z) stream_scheme) \<Rightarrow>
     ('k \<Rightarrow> error_code \<Rightarrow> ('k, 'z) stream_scheme \<Rightarrow> ('k, 'z) stream_scheme) \<Rightarrow>
     ('k, 'z) stream_scheme \<Rightarrow> stream_event \<Rightarrow> ('k, 'z) stream_scheme" where
  "deliver on_resolve on_connect on_io s ev =
     (case (pending s, ev) of
        (Resolve, Resolved e ips oec) \<Rightarrow> on_resolve e ips oec s
      | (Connect ep, Connected e) \<Rightarrow> on_connect e s
      | (Write b k, Written e) \<Rightarrow>
          on_io k e (s\<lparr>sent := (if failed e then sent s else sent s @ [b])\<rparr>)
      | (Read off n k, ReadDone e bs) \<Rightarrow>
          (if failed e then on_io k e s
           else if length bs = n then on_io k e (s\<lparr>m_buffer := store_at off bs (m_buffer s)\<rparr>)
           else s)
      | _ \<Rightarrow> s)"

text \<open>When an event answers the outstanding operation.\<close>

definition answers :: "'k pending \<Rightarrow> stream_event \<Rightarrow> bool" where
  "answers p ev =
     (case (p, ev) of
        (Resolve, Resolved e ips oec) \<Rightarrow> True
      | (Connect ep, Connected e) \<Rightarrow> True
      | (Write b k, Written e) \<Rightarrow> True
      | (Read off n k, ReadDone e bs) \<Rightarrow> failed e \<or> length bs = n
      | _ \<Rightarrow> False)"

lemma deliver_ignored: "\<not> answers (pending s) ev \<Longrightarrow> deliver f g h s ev = s"
  by (cases "pending s"; cases ev) (auto simp: deliver_def answers_def)

definition finished :: "('k, 'z) stream_scheme \<Rightarrow> bool" where
  "finished s \<longleftrightarrow> pending s = Idle"

section \<open>Facts about buffers\<close>

lemma length_vec_resize [simp]: "length (vec_resize n buf) = n"
  by (simp add: vec_resize_def)

lemma length_store_at [simp]: "off + length bs \<le> length buf \<Longrightarrow> length (store_at off bs buf) = length buf"
  by (simp add: store_at_def)

lemma store_at_all: "length bs = length buf \<Longrightarrow> store_at 0 bs buf = bs"
  by (simp add: store_at_def)

text \<open>A writer that puts exactly \<open>cs\<close> fills a buffer of that length.\<close>

lemma build_message_exact:
  assumes "\<And>c. w c = write_string put_ptr cs c" "length cs = n"
  shows "build_message n w buf = Some cs"
proof -
  let ?c = "\<lparr>cbuf = vec_resize n buf, cpos = 0\<rparr>"
  have "croom ?c (length cs + 0)" by (simp add: croom_def assms(2))
  from ptr.write_string_writes [OF this] obtain c' where
    c': "write_string put_ptr cs ?c = Some c'" "cwritten c' = cwritten ?c @ cs" by blast
  from write_string_ptr_length [OF c'(1)] have "length (cbuf c') = n" "cpos c' = n" using assms(2) by simp_all
  with c'(2) have "cbuf c' = cs" by (simp add: cwritten_def)
  with c'(1) assms(1) show ?thesis by (simp add: build_message_def)
qed

lemma complete_simps [simp]:
  "completions (complete ec s) = completions s @ [ec]" "pending (complete ec s) = Idle"
  "sent (complete ec s) = sent s" "m_buffer (complete ec s) = m_buffer s"
  by (simp_all add: complete_def)

lemma proxy_close_simps [simp]:
  "completions (proxy_close s) = completions s" "pending (proxy_close s) = pending s"
  "sent (proxy_close s) = sent s" "m_buffer (proxy_close s) = m_buffer s"
  by (simp_all add: proxy_close_def)

end
