(* ===== verification/Socks5_Stream.thy ===== *)
theory Socks5_Stream
  imports Proxy_Stream
begin

text \<open>
  \<open>libtorrent/socks5_stream.hpp\<close>: the SOCKS4 and SOCKS5 client. One definition per member
  function; the asynchronous steps are the handlers that \<open>socks5_step\<close> runs when the environment
  completes the outstanding operation. Messages are built with the writers of
  \<open>Byte_IO\<close> through a bounded cursor, so a write past the buffer would be \<open>Wild\<close>.
  \<open>std::size_t\<close> is 64 bits wide.
\<close>

section \<open>State\<close>

datatype socks5_op = Handshake1 | Handshake2 | Handshake3 | Handshake4
  | Connect1 | Connect2 | Connect3

record socks5_stream = "socks5_op stream" +
  m_user :: bytes
  m_password :: bytes
  m_dst_name :: bytes
  m_version :: int
  m_command :: int

definition socks5_connect_cmd :: int where "socks5_connect_cmd = 1"
definition socks5_udp_associate_cmd :: int where "socks5_udp_associate_cmd = 3"

definition socks5_init :: socks5_stream where
  "socks5_init = \<lparr>m_hostname = [], m_port = 0, m_remote_endpoint = default_endpoint,
     sock_open = False, m_buffer = [], pending = Idle, sent = [], completions = [],
     m_user = [], m_password = [], m_dst_name = [], m_version = 5, m_command = socks5_connect_cmd\<rparr>"

definition set_version :: "int \<Rightarrow> socks5_stream \<Rightarrow> socks5_stream" where
  "set_version v s = s\<lparr>m_version := v\<rparr>"

definition set_command :: "int \<Rightarrow> socks5_stream \<Rightarrow> socks5_stream" where
  "set_command c s = s\<lparr>m_command := c\<rparr>"

definition set_username :: "bytes \<Rightarrow> bytes \<Rightarrow> socks5_stream \<Rightarrow> socks5_stream" where
  "set_username user password s = s\<lparr>m_user := user, m_password := password\<rparr>"

definition set_dst_name :: "bytes \<Rightarrow> socks5_stream \<Rightarrow> socks5_stream" where
  "set_dst_name host s =
     (let s1 = s\<lparr>m_dst_name := host\<rparr>
      in if length (m_dst_name s1) > 255
         then s1\<lparr>m_dst_name := vec_resize 255 (m_dst_name s1)\<rparr> else s1)"

definition socks5_close :: "socks5_stream \<Rightarrow> socks5_stream" where
  "socks5_close s = proxy_close (s\<lparr>m_dst_name := []\<rparr>)"

section \<open>Messages\<close>

definition hello_writer :: "bytes \<Rightarrow> cursor \<Rightarrow> cursor option" where
  "hello_writer user p = do {
     p \<leftarrow> write_uint8 put_ptr 5 p;
     if user = [] then do {
       p \<leftarrow> write_uint8 put_ptr 1 p;
       write_uint8 put_ptr 0 p }
     else do {
       p \<leftarrow> write_uint8 put_ptr 2 p;
       p \<leftarrow> write_uint8 put_ptr 0 p;
       write_uint8 put_ptr 2 p } }"

definition auth_writer :: "bytes \<Rightarrow> bytes \<Rightarrow> cursor \<Rightarrow> cursor option" where
  "auth_writer user password p = do {
     p \<leftarrow> write_uint8 put_ptr 1 p;
     p \<leftarrow> write_uint8 put_ptr (of_nat (length user)) p;
     p \<leftarrow> write_string put_ptr user p;
     p \<leftarrow> write_uint8 put_ptr (of_nat (length password)) p;
     write_string put_ptr password p }"

definition connect5_writer :: "int \<Rightarrow> bytes \<Rightarrow> endpoint \<Rightarrow> cursor \<Rightarrow> cursor option" where
  "connect5_writer command dst_name ep p = do {
     p \<leftarrow> write_uint8 put_ptr 5 p;
     p \<leftarrow> write_uint8 put_ptr (of_int command) p;
     p \<leftarrow> write_uint8 put_ptr 0 p;
     p \<leftarrow> (if dst_name \<noteq> [] then do {
            p \<leftarrow> write_uint8 put_ptr 3 p;
            p \<leftarrow> write_uint8 put_ptr (of_nat (length dst_name)) p;
            write_string put_ptr dst_name p }
          else do {
            p \<leftarrow> write_uint8 put_ptr (if is_v4 (ep_address ep) then 1 else 4) p;
            write_address put_ptr (ep_address ep) p });
     write_uint16 put_ptr (ep_port ep) p }"

fun v4_uint :: "address \<Rightarrow> u32" where
  "v4_uint (IPv4 a) = a"
| "v4_uint (IPv6 bs) = 0"

definition connect4_writer :: "int \<Rightarrow> bytes \<Rightarrow> endpoint \<Rightarrow> cursor \<Rightarrow> cursor option" where
  "connect4_writer command user ep p = do {
     p \<leftarrow> write_uint8 put_ptr 4 p;
     p \<leftarrow> write_uint8 put_ptr (of_int command) p;
     p \<leftarrow> write_uint16 put_ptr (ep_port ep) p;
     p \<leftarrow> write_uint32 put_ptr (v4_uint (ep_address ep)) p;
     p \<leftarrow> write_string put_ptr user p;
     write_uint8 put_ptr 0 p }"

section \<open>Connecting\<close>

definition socks_async_connect :: "endpoint \<Rightarrow> socks5_stream \<Rightarrow> socks5_stream" where
  "socks_async_connect ep s = s\<lparr>m_remote_endpoint := ep, pending := Resolve\<rparr>"

definition socks_name_lookup ::
    "error_code \<Rightarrow> endpoint list \<Rightarrow> error_code \<Rightarrow> socks5_stream \<Rightarrow> socks5_stream" where
  "socks_name_lookup e ips open_ec = handle_error e (\<lambda>s.
     (case ips of
        [] \<Rightarrow> s\<lparr>pending := Wild\<rparr>
      | i # _ \<Rightarrow>
          (if \<not> sock_open s
           then handle_error open_ec (\<lambda>s. s\<lparr>sock_open := True, pending := Connect i\<rparr>) s
           else s\<lparr>pending := Connect i\<rparr>)))"

definition socks_connect :: "socks5_stream \<Rightarrow> socks5_stream" where
  "socks_connect s =
     (if m_version s = 5
      then send_message (build_message
             (6 + (if m_dst_name s \<noteq> [] then length (m_dst_name s) + 1
                   else if is_v4 (ep_address (m_remote_endpoint s)) then 4 else 16))
             (connect5_writer (m_command s) (m_dst_name s) (m_remote_endpoint s)) (m_buffer s))
           Connect1 s
      else if m_version s = 4
      then (if \<not> is_v4 (ep_address (m_remote_endpoint s))
            then complete (Asio address_family_not_supported) s
            else send_message (build_message (length (m_user s) + 9)
                   (connect4_writer (m_command s) (m_user s) (m_remote_endpoint s)) (m_buffer s))
                 Connect1 s)
      else complete (Socks unsupported_version) s)"

definition socks_connected :: "error_code \<Rightarrow> socks5_stream \<Rightarrow> socks5_stream" where
  "socks_connected e = handle_error e (\<lambda>s.
     if m_version s = 5
     then send_message (build_message (if m_user s = [] then 3 else 4) (hello_writer (m_user s))
            (m_buffer s)) Handshake1 s
     else if m_version s = 4 then socks_connect s
     else complete (Socks unsupported_version) s)"

definition handshake1 :: "error_code \<Rightarrow> socks5_stream \<Rightarrow> socks5_stream" where
  "handshake1 e = handle_error e (\<lambda>s.
     read_buffer 0 2 Handshake2 (s\<lparr>m_buffer := vec_resize 2 (m_buffer s)\<rparr>))"

definition handshake2 :: "error_code \<Rightarrow> socks5_stream \<Rightarrow> socks5_stream" where
  "handshake2 e = handle_error e (\<lambda>s.
     (case m_buffer s of
        version # method # _ \<Rightarrow>
          (if uint version < m_version s then complete (Socks unsupported_version) s
           else if method = 0 then socks_connect s
           else if method = 2
           then (if m_user s = [] then complete (Socks username_required) s
                 else send_message (build_message (length (m_user s) + length (m_password s) + 3)
                        (auth_writer (m_user s) (m_password s)) (m_buffer s)) Handshake3 s)
           else complete (Socks unsupported_authentication_method) s)
      | _ \<Rightarrow> s\<lparr>pending := Wild\<rparr>))"

definition handshake3 :: "error_code \<Rightarrow> socks5_stream \<Rightarrow> socks5_stream" where
  "handshake3 e = handle_error e (\<lambda>s.
     read_buffer 0 2 Handshake4 (s\<lparr>m_buffer := vec_resize 2 (m_buffer s)\<rparr>))"

definition handshake4 :: "error_code \<Rightarrow> socks5_stream \<Rightarrow> socks5_stream" where
  "handshake4 e = handle_error e (\<lambda>s.
     (case m_buffer s of
        version # status # _ \<Rightarrow>
          (if version \<noteq> 1 then complete (Socks unsupported_authentication_version) s
           else if status \<noteq> 0 then complete (Socks authentication_error) s
           else socks_connect (s\<lparr>m_buffer := []\<rparr>))
      | _ \<Rightarrow> s\<lparr>pending := Wild\<rparr>))"

definition connect1 :: "error_code \<Rightarrow> socks5_stream \<Rightarrow> socks5_stream" where
  "connect1 e = handle_error e (\<lambda>s.
     (let n = (if m_version s = 5 then 10 else if m_version s = 4 then 8 else length (m_buffer s))
      in read_buffer 0 n Connect2 (s\<lparr>m_buffer := vec_resize n (m_buffer s)\<rparr>)))"

text \<open>The error of a SOCKS5 reply and of a SOCKS4 reply.\<close>

definition reply5_error :: "byte \<Rightarrow> error_code" where
  "reply5_error response =
     (if response = 2 then Asio no_permission
      else if response = 3 then Asio network_unreachable
      else if response = 4 then Asio host_unreachable
      else if response = 5 then Asio connection_refused
      else if response = 6 then Asio timed_out
      else if response = 7 then Socks command_not_supported
      else if response = 8 then Asio address_family_not_supported
      else Socks general_failure)"

definition reply4_error :: "byte \<Rightarrow> error_code" where
  "reply4_error response =
     (if response = 91 then Asio connection_refused
      else if response = 92 then Socks no_identd
      else if response = 93 then Socks identd_error
      else Socks general_failure)"

text \<open>
  The rest of the bound address: \<open>m_buffer.resize(m_buffer.size() + extra_bytes)\<close> and a read of
  \<open>extra_bytes\<close> into its end, on \<open>size_t\<close>.
\<close>

definition read_extra :: "u64 \<Rightarrow> socks5_stream \<Rightarrow> socks5_stream" where
  "read_extra extra_bytes s =
     (let sz = of_nat (length (m_buffer s)) + extra_bytes
      in read_buffer (unat (sz - extra_bytes)) (unat extra_bytes) Connect3
           (s\<lparr>m_buffer := vec_resize (unat sz) (m_buffer s)\<rparr>))"

definition connect2 :: "error_code \<Rightarrow> socks5_stream \<Rightarrow> socks5_stream" where
  "connect2 e = handle_error e (\<lambda>s.
     (case m_buffer s of
        version # response # rest \<Rightarrow>
          (if m_version s = 5
           then (if uint version < m_version s then complete (Socks unsupported_version) s
                 else if response \<noteq> 0 then complete (reply5_error response) s
                 else (case rest of
                    reserved # atyp # rest' \<Rightarrow>
                      (if atyp = 1 then complete e (s\<lparr>m_buffer := []\<rparr>)
                       else if atyp = 4 then read_extra 12 s
                       else if atyp = 3
                       then (case rest' of
                               len # _ \<Rightarrow> read_extra (ucast len - 3) s
                             | [] \<Rightarrow> s\<lparr>pending := Wild\<rparr>)
                       else complete (Asio address_family_not_supported) s)
                  | _ \<Rightarrow> s\<lparr>pending := Wild\<rparr>))
           else if m_version s = 4
           then (if version \<noteq> 0 then complete (Socks general_failure) s
                 else if response = 90 then complete e (s\<lparr>m_buffer := []\<rparr>)
                 else complete (reply4_error response) s)
           else s\<lparr>pending := Idle\<rparr>)
      | _ \<Rightarrow> s\<lparr>pending := Wild\<rparr>))"

definition connect3 :: "error_code \<Rightarrow> socks5_stream \<Rightarrow> socks5_stream" where
  "connect3 e = handle_error e (\<lambda>s. complete e (s\<lparr>m_buffer := []\<rparr>))"

section \<open>The stream as a machine\<close>

fun socks_io :: "socks5_op \<Rightarrow> error_code \<Rightarrow> socks5_stream \<Rightarrow> socks5_stream" where
  "socks_io Handshake1 = handshake1"
| "socks_io Handshake2 = handshake2"
| "socks_io Handshake3 = handshake3"
| "socks_io Handshake4 = handshake4"
| "socks_io Connect1 = connect1"
| "socks_io Connect2 = connect2"
| "socks_io Connect3 = connect3"

definition socks5_step :: "socks5_stream \<Rightarrow> stream_event \<Rightarrow> socks5_stream" where
  "socks5_step = deliver socks_name_lookup socks_connected socks_io"

section \<open>The messages byte by byte\<close>

definition hello_bytes :: "bytes \<Rightarrow> bytes" where
  "hello_bytes user = (if user = [] then [5, 1, 0] else [5, 2, 0, 2])"

definition auth_bytes :: "bytes \<Rightarrow> bytes \<Rightarrow> bytes" where
  "auth_bytes user password =
     [1, of_nat (length user)] @ user @ [of_nat (length password)] @ password"

definition connect5_bytes :: "int \<Rightarrow> bytes \<Rightarrow> endpoint \<Rightarrow> bytes" where
  "connect5_bytes command dst_name ep =
     [5, of_int command, 0]
     @ (if dst_name \<noteq> [] then [3, of_nat (length dst_name)] @ dst_name
        else (if is_v4 (ep_address ep) then 1 else 4) # address_bytes (ep_address ep))
     @ be_bytes 2 (ep_port ep)"

definition connect4_bytes :: "int \<Rightarrow> bytes \<Rightarrow> endpoint \<Rightarrow> bytes" where
  "connect4_bytes command user ep =
     [4, of_int command] @ be_bytes 2 (ep_port ep) @ be_bytes 4 (v4_uint (ep_address ep)) @ user @ [0]"

lemmas writer_strings = write_uint_strings write_address_string write_string_append [symmetric]

lemma hello_writer_string: "hello_writer user p = write_string put_ptr (hello_bytes user) p"
  by (simp add: hello_writer_def hello_bytes_def writer_strings del: be_bytes.simps(2) write_string.simps)

lemma auth_writer_string: "auth_writer user password p = write_string put_ptr (auth_bytes user password) p"
  by (simp add: auth_writer_def auth_bytes_def writer_strings del: be_bytes.simps(2) write_string.simps)

lemma connect5_writer_string:
  "connect5_writer command dst ep p = write_string put_ptr (connect5_bytes command dst ep) p"
  by (simp add: connect5_writer_def connect5_bytes_def writer_strings del: be_bytes.simps(2) write_string.simps)

lemma connect4_writer_string:
  "connect4_writer command user ep p = write_string put_ptr (connect4_bytes command user ep) p"
  by (simp add: connect4_writer_def connect4_bytes_def writer_strings del: be_bytes.simps(2) write_string.simps)

lemma messages_fill_buffer:
  "build_message (if user = [] then 3 else 4) (hello_writer user) buf = Some (hello_bytes user)"
  "build_message (length user + length password + 3) (auth_writer user password) buf =
     Some (auth_bytes user password)"
  "wf_address (ep_address ep) \<Longrightarrow>
   build_message (6 + (if dst \<noteq> [] then length dst + 1 else if is_v4 (ep_address ep) then 4 else 16))
     (connect5_writer command dst ep) buf = Some (connect5_bytes command dst ep)"
  "build_message (length user + 9) (connect4_writer command user ep) buf =
     Some (connect4_bytes command user ep)"
proof -
  show "build_message (if user = [] then 3 else 4) (hello_writer user) buf = Some (hello_bytes user)"
    by (rule build_message_exact [OF hello_writer_string]) (simp add: hello_bytes_def)
  show "build_message (length user + length password + 3) (auth_writer user password) buf =
      Some (auth_bytes user password)"
    by (rule build_message_exact [OF auth_writer_string]) (simp add: auth_bytes_def)
  show "build_message (6 + (if dst \<noteq> [] then length dst + 1 else if is_v4 (ep_address ep) then 4 else 16))
     (connect5_writer command dst ep) buf = Some (connect5_bytes command dst ep)"
    if "wf_address (ep_address ep)"
    using that by (intro build_message_exact [OF connect5_writer_string])
      (cases "ep_address ep"; simp add: connect5_bytes_def del: be_bytes.simps(2))
  show "build_message (length user + 9) (connect4_writer command user ep) buf =
      Some (connect4_bytes command user ep)"
    by (rule build_message_exact [OF connect4_writer_string])
      (simp add: connect4_bytes_def del: be_bytes.simps(2))
qed

section \<open>Invariant\<close>

text \<open>
  What holds of the stream between two events: which handshake steps belong to which version, that
  an outstanding read lies within the buffer, and that the last read follows a reply by which the
  proxy \<open>granted\<close> the request.
\<close>

definition granted :: "socks5_stream \<Rightarrow> bytes \<Rightarrow> bool" where
  "granted s reply \<longleftrightarrow>
     m_version s = 5 \<and> 5 \<le> uint (reply ! 0) \<and> reply ! 1 = 0
     \<or> m_version s = 4 \<and> reply ! 0 = 0 \<and> reply ! 1 = 90"

fun op_ok :: "socks5_stream \<Rightarrow> socks5_op pending \<Rightarrow> bool" where
  "op_ok s Idle = True"
| "op_ok s Resolve = True"
| "op_ok s (Connect ep) = True"
| "op_ok s Wild = True"
| "op_ok s (Write b Handshake1) = (m_version s = 5)"
| "op_ok s (Write b Handshake3) = (m_version s = 5)"
| "op_ok s (Write b Connect1) = (m_version s = 4 \<or> m_version s = 5)"
| "op_ok s (Write b k) = False"
| "op_ok s (Read off n Handshake2) = (m_version s = 5 \<and> off = 0 \<and> n = 2 \<and> length (m_buffer s) = 2)"
| "op_ok s (Read off n Handshake4) = (m_version s = 5 \<and> off = 0 \<and> n = 2 \<and> length (m_buffer s) = 2)"
| "op_ok s (Read off n Connect2) =
     (off = 0 \<and> n = length (m_buffer s) \<and>
      (m_version s = 5 \<and> n = 10 \<or> m_version s = 4 \<and> n = 8))"
| "op_ok s (Read off n Connect3) =
     (m_version s = 5 \<and> off = 10 \<and> off + n = length (m_buffer s) \<and> n \<le> 252
      \<and> granted s (m_buffer s))"
| "op_ok s (Read off n k) = False"

definition socks5_inv :: "socks5_stream \<Rightarrow> bool" where
  "socks5_inv s \<longleftrightarrow> wf_address (ep_address (m_remote_endpoint s)) \<and> op_ok s (pending s)"

abbreviation wf_remote :: "socks5_stream \<Rightarrow> bool" where
  "wf_remote s \<equiv> wf_address (ep_address (m_remote_endpoint s))"

definition socks5_calls :: "socks5_stream \<Rightarrow> nat" where
  "socks5_calls s = length (completions s)"

text \<open>A step towards the completion of the handler: at most one call, exactly on finishing.\<close>

definition progress :: "socks5_stream \<Rightarrow> socks5_stream \<Rightarrow> bool" where
  "progress s s' \<longleftrightarrow> socks5_inv s' \<and>
     socks5_calls s' = socks5_calls s + (if finished s' then 1 else 0)"

lemma progress_error:
  "wf_remote s \<Longrightarrow> (\<not> failed e \<Longrightarrow> progress s (k s)) \<Longrightarrow> progress s (handle_error e k s)"
  by (auto simp: progress_def handle_error_def socks5_inv_def proxy_close_def complete_def
      socks5_calls_def finished_def default_endpoint_def)

lemma progress_complete: "wf_remote s \<Longrightarrow> progress s (complete e s)"
  by (simp add: progress_def socks5_inv_def complete_def socks5_calls_def finished_def)

lemma progress_complete_buffer: "wf_remote s \<Longrightarrow> progress s (complete e (s\<lparr>m_buffer := b\<rparr>))"
  by (simp add: progress_def socks5_inv_def complete_def socks5_calls_def finished_def)

lemma progress_wild: "wf_remote s \<Longrightarrow> progress s (s\<lparr>m_buffer := b, pending := Wild\<rparr>)"
  by (simp add: progress_def socks5_inv_def socks5_calls_def finished_def)

lemma progress_send:
  "wf_remote s \<Longrightarrow> (\<And>b. op_ok s (Write b k)) \<Longrightarrow> progress s (send_message m k s)"
  by (cases m; cases k)
    (auto simp: send_message_def progress_def socks5_inv_def socks5_calls_def finished_def)

lemma progress_socks_connect: "wf_remote s \<Longrightarrow> progress s (socks_connect s)"
  by (simp add: socks_connect_def progress_send progress_complete)

lemma progress_buffer: "progress (s\<lparr>m_buffer := b\<rparr>) s' \<Longrightarrow> progress s s'"
  by (simp add: progress_def socks5_calls_def)

lemmas progress_intros =
  progress_error progress_complete progress_complete_buffer progress_wild progress_send
  progress_socks_connect progress_buffer [OF progress_socks_connect]

section \<open>Every handler keeps the invariant\<close>

lemma progress_name_lookup: "wf_remote s \<Longrightarrow> progress s (socks_name_lookup e ips oec s)"
  unfolding socks_name_lookup_def
  by (rule progress_error, assumption, cases ips)
    (auto simp: handle_error_def progress_def socks5_inv_def socks5_calls_def finished_def
      proxy_close_def complete_def default_endpoint_def)

lemma progress_connected: "wf_remote s \<Longrightarrow> progress s (socks_connected e s)"
  unfolding socks_connected_def by (rule progress_error) (auto intro!: progress_intros)

lemma progress_handshake1: "wf_remote s \<Longrightarrow> m_version s = 5 \<Longrightarrow> progress s (handshake1 e s)"
  unfolding handshake1_def
  by (rule progress_error)
    (auto simp: read_buffer_def progress_def socks5_inv_def socks5_calls_def finished_def)

lemma progress_handshake3: "wf_remote s \<Longrightarrow> m_version s = 5 \<Longrightarrow> progress s (handshake3 e s)"
  unfolding handshake3_def
  by (rule progress_error)
    (auto simp: read_buffer_def progress_def socks5_inv_def socks5_calls_def finished_def)

lemma progress_stuck: "wf_remote s \<Longrightarrow> progress s (s\<lparr>pending := Wild\<rparr>)"
  by (simp add: progress_def socks5_inv_def socks5_calls_def finished_def)

lemma progress_handshake2: "wf_remote s \<Longrightarrow> m_version s = 5 \<Longrightarrow> progress s (handshake2 e s)"
  unfolding handshake2_def
  by (rule progress_error)
    (auto intro!: progress_intros progress_stuck split: list.split)

lemma progress_handshake4: "wf_remote s \<Longrightarrow> progress s (handshake4 e s)"
  unfolding handshake4_def
  by (rule progress_error)
    (auto intro!: progress_intros progress_stuck split: list.split)

lemma progress_connect1:
  "wf_remote s \<Longrightarrow> m_version s = 4 \<or> m_version s = 5 \<Longrightarrow> progress s (connect1 e s)"
  unfolding connect1_def
  by (rule progress_error)
    (auto simp: read_buffer_def progress_def socks5_inv_def socks5_calls_def finished_def Let_def)

lemma progress_connect3: "wf_remote s \<Longrightarrow> progress s (connect3 e s)"
  unfolding connect3_def by (rule progress_error) (auto intro!: progress_intros)

lemma unat_byte_less: "unat (b :: byte) < 256"
  using unsigned_less [of b, where ?'a = nat] by simp

lemma unat_ucast_byte [simp]: "unat (ucast (b :: byte) :: u64) = unat b"
  using unat_byte_less [of b] by (simp add: unsigned_ucast_eq take_bit_nat_eq_self)

lemma read_extra_fits:
  assumes "length (m_buffer s) = 10" "unat extra \<le> 252"
  shows "read_extra extra s = s\<lparr>m_buffer := vec_resize (10 + unat extra) (m_buffer s),
    pending := Read 10 (unat extra) Connect3\<rparr>"
proof -
  have "unat (10 + extra) = 10 + unat extra"
    using assms(2) by (subst unat_plus_if_size) (simp add: word_size)
  then show ?thesis using assms(1) by (simp add: read_extra_def read_buffer_def Let_def)
qed

lemma read_extra_short:
  assumes "length (m_buffer s) = 10" "len < (3 :: byte)"
  shows "read_extra (ucast len - 3) s =
    s\<lparr>m_buffer := vec_resize (7 + unat len) (m_buffer s), pending := Wild\<rparr>"
proof -
  have n: "unat len < 3" using assms(2) by (simp add: word_less_nat_alt)
  have "10 + (ucast len - 3 :: u64) = 7 + ucast len" by simp
  moreover have "unat (7 + (ucast len :: u64)) = 7 + unat len"
    using n by (subst unat_plus_if_size) (simp add: word_size)
  ultimately have "unat (10 + (ucast len - 3 :: u64)) = 7 + unat len" by simp
  then show ?thesis using assms(1) n by (simp add: read_extra_def read_buffer_def Let_def)
qed

lemma unat_name_extra:
  assumes "\<not> len < (3 :: byte)"
  shows "unat (ucast len - 3 :: u64) = unat len - 3"
proof -
  have "3 \<le> unat len" using assms by (simp add: word_less_nat_alt not_less)
  then have "(3 :: u64) \<le> ucast len" by (simp add: word_le_nat_alt)
  then have "unat (ucast len - 3 :: u64) = unat (ucast len :: u64) - unat (3 :: u64)"
    by (rule unat_sub)
  then show ?thesis by simp
qed

lemma byte_extra_bound: "unat (len :: byte) - 3 \<le> 252"
  using unat_byte_less [of len] by simp

lemma nth_vec_resize [simp]: "i < length buf \<Longrightarrow> i < n \<Longrightarrow> vec_resize n buf ! i = buf ! i"
  by (simp add: vec_resize_def nth_append)

lemma granted_resize [simp]:
  "length buf = 10 \<Longrightarrow> 2 \<le> k \<Longrightarrow> granted s (vec_resize k buf) \<longleftrightarrow> granted s buf"
  by (simp add: granted_def)

lemma granted_fields [simp]:
  "granted (s\<lparr>m_buffer := b\<rparr>) = granted s" "granted (s\<lparr>pending := p\<rparr>) = granted s"
  "granted (s\<lparr>sent := x\<rparr>) = granted s"
  by (rule ext, simp add: granted_def)+

lemma progress_read:
  "wf_remote s \<Longrightarrow> m_version s = 5 \<Longrightarrow> n \<le> 252 \<Longrightarrow> length b = 10 + n \<Longrightarrow> granted s b \<Longrightarrow>
   progress s (s\<lparr>m_buffer := b, pending := Read 10 n Connect3\<rparr>)"
  by (simp add: progress_def socks5_inv_def socks5_calls_def finished_def)

lemma progress_read_extra:
  assumes "wf_remote s" "m_version s = 5" "length (m_buffer s) = 10" "granted s (m_buffer s)"
  shows "progress s (read_extra 12 s)" "progress s (read_extra (ucast (len :: byte) - 3) s)"
proof -
  show "progress s (read_extra 12 s)"
    using assms by (simp add: read_extra_fits progress_read)
  show "progress s (read_extra (ucast len - 3) s)"
  proof (cases "len < 3")
    case True
    with assms show ?thesis by (simp add: read_extra_short progress_wild)
  next
    case False
    with assms byte_extra_bound [of len] show ?thesis
      by (simp add: read_extra_fits unat_name_extra progress_read)
  qed
qed

lemma progress_connect2:
  assumes "wf_remote s" "m_version s = 5 \<and> length (m_buffer s) = 10 \<or> m_version s = 4 \<and> length (m_buffer s) = 8"
  shows "progress s (connect2 e s)"
  unfolding connect2_def
  by (rule progress_error [OF assms(1)])
    (use assms in \<open>auto intro!: progress_intros progress_stuck progress_read_extra
      simp: granted_def split: list.split\<close>)

section \<open>One completion per connect\<close>

lemma deliver_cases:
  assumes "\<not> answers (pending s) ev \<Longrightarrow> P s"
    and "\<And>e ips oec. pending s = Resolve \<Longrightarrow> ev = Resolved e ips oec \<Longrightarrow> P (f e ips oec s)"
    and "\<And>ep e. pending s = Connect ep \<Longrightarrow> ev = Connected e \<Longrightarrow> P (g e s)"
    and "\<And>b k e. pending s = Write b k \<Longrightarrow> ev = Written e \<Longrightarrow>
      P (h k e (s\<lparr>sent := (if failed e then sent s else sent s @ [b])\<rparr>))"
    and "\<And>off n k e bs. pending s = Read off n k \<Longrightarrow> ev = ReadDone e bs \<Longrightarrow> \<not> failed e \<Longrightarrow>
      length bs = n \<Longrightarrow> P (h k e (s\<lparr>m_buffer := store_at off bs (m_buffer s)\<rparr>))"
    and "\<And>off n k e bs. pending s = Read off n k \<Longrightarrow> ev = ReadDone e bs \<Longrightarrow> failed e \<Longrightarrow> P (h k e s)"
  shows "P (deliver f g h s ev)"
proof (cases "answers (pending s) ev")
  case False
  with assms(1) show ?thesis by (simp add: deliver_ignored)
next
  case True
  then show ?thesis
    using assms(2-)
    by (cases "pending s"; cases ev) (auto simp: answers_def deliver_def)
qed

lemma progress_sent: "progress (s\<lparr>sent := x\<rparr>) s' \<Longrightarrow> progress s s'"
  by (simp add: progress_def socks5_calls_def)

lemma progress_write:
  assumes "wf_remote s" "op_ok s (Write b k)"
  shows "progress s (socks_io k e s)"
  using assms
  by (cases k) (simp_all add: progress_handshake1 progress_handshake3 progress_connect1)

lemma progress_io_read:
  assumes "wf_remote s" "op_ok s (Read off n k)"
  shows "progress s (socks_io k e s)"
  using assms
  by (cases k) (auto simp: progress_handshake2 progress_handshake4 progress_connect2 progress_connect3)

lemma op_ok_store:
  assumes "op_ok s (Read off n k)" "length bs = n"
  shows "op_ok (s\<lparr>m_buffer := store_at off bs (m_buffer s)\<rparr>) (Read off n k)"
  using assms by (cases k) (auto simp: granted_def store_at_def nth_append)

lemma socks5_step_progress:
  assumes "socks5_inv s"
  shows "if finished s \<or> \<not> answers (pending s) ev then socks5_step s ev = s
    else progress s (socks5_step s ev)"
proof (cases "finished s \<or> \<not> answers (pending s) ev")
  case True
  then have "\<not> answers (pending s) ev" by (auto simp: finished_def answers_def)
  with True show ?thesis by (simp add: socks5_step_def deliver_ignored)
next
  case False
  have wf: "wf_remote s" and ok: "op_ok s (pending s)" using assms by (simp_all add: socks5_inv_def)
  have "answers (pending s) ev \<longrightarrow> progress s (deliver socks_name_lookup socks_connected socks_io s ev)"
  proof (rule deliver_cases [where P = "\<lambda>s'. answers (pending s) ev \<longrightarrow> progress s s'"])
    fix b k e assume p: "pending s = Write b k"
    let ?s = "s\<lparr>sent := (if failed e then sent s else sent s @ [b])\<rparr>"
    have "op_ok ?s (Write b k)" using ok p by (cases k) simp_all
    with wf have "progress ?s (socks_io k e ?s)" by (intro progress_write) simp_all
    then show "answers (pending s) ev \<longrightarrow> progress s (socks_io k e ?s)" by (blast intro: progress_sent)
  next
    fix off n k e and bs :: bytes assume p: "pending s = Read off n k" and l: "length bs = n"
    let ?s = "s\<lparr>m_buffer := store_at off bs (m_buffer s)\<rparr>"
    from ok p l have "op_ok ?s (Read off n k)" by (simp add: op_ok_store)
    with wf have "progress ?s (socks_io k e ?s)" by (intro progress_io_read) simp_all
    then show "answers (pending s) ev \<longrightarrow> progress s (socks_io k e ?s)" by (blast intro: progress_buffer)
  qed (use wf ok in \<open>auto simp: progress_name_lookup progress_connected progress_io_read\<close>)
  with False show ?thesis by (simp add: socks5_step_def)
qed

interpretation socks5: one_shot socks5_step socks5_inv finished socks5_calls
proof
  fix s e assume inv: "socks5_inv s"
  show "socks5_inv (socks5_step s e)"
    using socks5_step_progress [OF inv, of e] inv by (auto simp: progress_def split: if_splits)
  show "socks5_step s e = s" if "finished s"
    using socks5_step_progress [OF inv, of e] that by simp
  show "socks5_calls (socks5_step s e) = socks5_calls s + (if finished (socks5_step s e) then 1 else 0)"
    if "\<not> finished s"
    using socks5_step_progress [OF inv, of e] that by (auto simp: progress_def split: if_splits)
qed

lemma connect_inv:
  "wf_address (ep_address ep) \<Longrightarrow> socks5_inv (socks_async_connect ep s)"
  "\<not> finished (socks_async_connect ep s)"
  "socks5_calls (socks_async_connect ep s) = socks5_calls s"
  by (simp_all add: socks_async_connect_def socks5_inv_def finished_def socks5_calls_def)

text \<open>
  After \<open>async_connect\<close>, whatever the name server, the network and the proxy answer and in
  whatever order the events come, the user's handler is called at most once: never while an
  operation is outstanding and exactly once when the stream has finished; events after that
  change nothing.
\<close>

lemma socks5_completes_once:
  assumes "wf_address (ep_address ep)"
  shows "let s' = foldl socks5_step (socks_async_connect ep s) evs in
    length (completions s') = length (completions s) + (if finished s' then 1 else 0)
    \<and> (finished s' \<longrightarrow> foldl socks5_step s' later = s')"
  using socks5.calls_run [OF connect_inv(1) [OF assms] connect_inv(2), of s evs]
    socks5.finished_run [OF socks5.inv_run [OF connect_inv(1) [OF assms]], of s evs later]
  by (simp add: Let_def connect_inv(3)) (simp add: socks5_calls_def)

section \<open>What the handler hears\<close>

lemma ten_bytes: "length bs = 10 \<Longrightarrow> \<exists>a b c d e r. bs = a # b # c # d # e # r"
  by (cases bs; cases "tl bs"; cases "tl (tl bs)"; cases "tl (tl (tl bs))"; cases "tl (tl (tl (tl bs)))") auto

text \<open>Completing with success: only the two last reads do, and only when the proxy granted.\<close>

definition succeeds :: "socks5_stream \<Rightarrow> socks5_stream \<Rightarrow> bool" where
  "succeeds s s' \<longleftrightarrow> (\<exists>ec. completions s' = completions s @ [ec] \<and> \<not> failed ec)"

lemma not_succeeds:
  "\<not> succeeds s (s\<lparr>m_buffer := b, pending := p\<rparr>)" "\<not> succeeds s (s\<lparr>pending := p\<rparr>)"
  "failed e \<Longrightarrow> \<not> succeeds s (complete e s)" "failed e \<Longrightarrow> \<not> succeeds s (handle_error e f s)"
  "\<not> succeeds s (send_message m k s)" "\<not> succeeds s (read_buffer off n k (s\<lparr>m_buffer := b\<rparr>))"
  by (auto simp: succeeds_def complete_def handle_error_def proxy_close_def send_message_def
      read_buffer_def split: option.split)

lemma succeeds_more: "succeeds (s\<lparr>m_buffer := b\<rparr>) s' \<longleftrightarrow> succeeds s s'" "succeeds (s\<lparr>sent := x\<rparr>) s' \<longleftrightarrow> succeeds s s'"
  by (simp_all add: succeeds_def)

lemma not_succeeds_connect: "\<not> succeeds s (socks_connect s)"
  by (simp add: socks_connect_def not_succeeds)

lemma not_succeeds_connect_buffer: "\<not> succeeds s (socks_connect (s\<lparr>m_buffer := b\<rparr>))"
  using not_succeeds_connect [of "s\<lparr>m_buffer := b\<rparr>"] by (simp add: succeeds_more)

lemma not_succeeds_extra: "\<not> succeeds s (read_extra x s)"
  by (simp add: read_extra_def Let_def not_succeeds)

lemma reply_errors_fail: "failed (reply5_error r)" "failed (reply4_error r)"
  by (simp_all add: reply5_error_def reply4_error_def)

lemma io_succeeds:
  assumes "succeeds s (socks_io k e s)" "op_ok s (Read off n k) \<or> op_ok s (Write b k)"
  shows "(k = Connect2 \<or> k = Connect3) \<and> op_ok s (Read off n k) \<and> \<not> failed e \<and> granted s (m_buffer s)"
proof (cases "failed e")
  case True
  with assms(1) show ?thesis
    by (cases k) (simp_all add: not_succeeds handshake1_def handshake2_def handshake3_def
        handshake4_def connect1_def connect2_def connect3_def)
next
  case False
  with assms show ?thesis
    by (cases k)
      (auto simp: not_succeeds not_succeeds_connect not_succeeds_extra succeeds_more
        not_succeeds_connect_buffer
        handshake1_def handshake2_def handshake3_def handle_error_def reply_errors_fail
        handshake4_def connect1_def connect2_def connect3_def Let_def granted_def
        split: list.splits if_splits)
qed

definition granted_answer :: "socks5_stream \<Rightarrow> stream_event \<Rightarrow> bool" where
  "granted_answer s ev \<longleftrightarrow> (\<exists>off n e bs. ev = ReadDone e bs \<and> \<not> failed e \<and> length bs = n \<and>
    (pending s = Read off n Connect2 \<or> pending s = Read off n Connect3) \<and>
    granted s (store_at off bs (m_buffer s)))"

text \<open>
  C7. The handler is told of success only when the proxy granted the request: the event that
  completes it with success is the answer to one of the two last reads, and the reply in the
  buffer has an acceptable version and the code for success (0 for SOCKS5, 90 for SOCKS4).
\<close>

theorem socks5_success_is_granted:
  assumes "socks5_inv s" "completions (socks5_step s ev) = completions s @ [ec]" "\<not> failed ec"
  shows "\<exists>off n e bs. ev = ReadDone e bs \<and> \<not> failed e \<and> length bs = n \<and>
    (pending s = Read off n Connect2 \<or> pending s = Read off n Connect3) \<and>
    granted s (store_at off bs (m_buffer s))"
proof -
  have ok: "op_ok s (pending s)" using assms(1) by (simp add: socks5_inv_def)
  have "succeeds s (deliver socks_name_lookup socks_connected socks_io s ev)"
    using assms(2,3) by (auto simp: succeeds_def socks5_step_def)
  moreover have "succeeds s (deliver socks_name_lookup socks_connected socks_io s ev) \<longrightarrow> granted_answer s ev"
  proof (rule deliver_cases [where P = "\<lambda>s'. succeeds s s' \<longrightarrow> granted_answer s ev"])
    fix b k e assume p: "pending s = Write b k"
    let ?s = "s\<lparr>sent := (if failed e then sent s else sent s @ [b])\<rparr>"
    have "op_ok ?s (Write b k)" using ok p by (cases k) simp_all
    then have "op_ok ?s (Read 0 0 k) \<or> op_ok ?s (Write b k)" by simp
    with io_succeeds [of ?s k e 0 0 b] \<open>op_ok ?s (Write b k)\<close>
    have "\<not> succeeds s (socks_io k e ?s)" by (cases k) (auto simp: succeeds_more)
    then show "succeeds s (socks_io k e ?s) \<longrightarrow> granted_answer s ev" by simp
  next
    fix off n k e and bs :: bytes
    assume p: "pending s = Read off n k" and ev: "ev = ReadDone e bs" "\<not> failed e" "length bs = n"
    let ?s = "s\<lparr>m_buffer := store_at off bs (m_buffer s)\<rparr>"
    have "op_ok ?s (Read off n k)" using ok p ev by (simp add: op_ok_store)
    with io_succeeds [of ?s k e off n "[]"] p ev show "succeeds s (socks_io k e ?s) \<longrightarrow> granted_answer s ev"
      by (fastforce simp: succeeds_more granted_answer_def)
  next
    fix off n k e assume p: "pending s = Read off n k" "failed e"
    with ok io_succeeds [of s k e off n "[]"] show "succeeds s (socks_io k e s) \<longrightarrow> granted_answer s ev" by auto
  qed (auto simp: succeeds_def socks_name_lookup_def socks_connected_def handle_error_def
      complete_def send_message_def socks_connect_def proxy_close_def split: list.splits option.splits if_splits)
  ultimately show ?thesis unfolding granted_answer_def by blast
qed

theorem socks5_success_is_granted_witness:
  "\<exists>bs. ReadDone Success [0, 90, 0, 0, 0, 0, 0, 0] = ReadDone Success bs \<and>
     granted (socks5_init\<lparr>m_version := 4, m_buffer := replicate 8 0, pending := Read 0 8 Connect2\<rparr>)
       (store_at 0 bs (replicate 8 0))"
proof -
  let ?s = "socks5_init\<lparr>m_version := 4, m_buffer := replicate 8 0, pending := Read 0 8 Connect2\<rparr>"
  let ?ev = "ReadDone Success [0, 90, 0, 0, 0, 0, 0, 0]"
  have "socks5_inv ?s" by (simp add: socks5_inv_def socks5_init_def default_endpoint_def)
  moreover have "completions (socks5_step ?s ?ev) = completions ?s @ [Success]"
    by (simp add: socks5_step_def deliver_def connect2_def handle_error_def complete_def store_at_def
        socks5_init_def)
  ultimately show ?thesis
    using socks5_success_is_granted [of ?s ?ev Success] by auto
qed

section \<open>Memory safety\<close>

lemma send_not_wild [simp]: "pending (send_message (Some b) k s) \<noteq> Wild"
  by (simp add: send_message_def)

lemma wild_socks_connect: "wf_remote s \<Longrightarrow> pending (socks_connect s) \<noteq> Wild"
  unfolding socks_connect_def messages_fill_buffer(3,4) by simp

lemma wild_error: "pending (handle_error e k s) = Wild \<longleftrightarrow> \<not> failed e \<and> pending (k s) = Wild"
  by (simp add: handle_error_def)

lemma wild_name_lookup: "pending (socks_name_lookup e ips oec s) = Wild \<longleftrightarrow> \<not> failed e \<and> ips = []"
  by (cases ips) (auto simp: socks_name_lookup_def wild_error)

lemma wild_connected: "wf_remote s \<Longrightarrow> pending (socks_connected e s) \<noteq> Wild"
  unfolding socks_connected_def wild_error messages_fill_buffer(1)
  by (auto simp: wild_socks_connect)

lemma wild_write:
  "wf_remote s \<Longrightarrow> op_ok s (Write b k) \<Longrightarrow> pending (socks_io k e s) \<noteq> Wild"
  by (cases k) (auto simp: handshake1_def handshake3_def connect1_def wild_error read_buffer_def Let_def)

definition short_name_reply :: "bytes \<Rightarrow> bool" where
  "short_name_reply reply \<longleftrightarrow>
     length reply = 10 \<and> 5 \<le> uint (reply ! 0) \<and> reply ! 1 = 0 \<and> reply ! 3 = 3 \<and> reply ! 4 < 3"

lemma wild_connect2:
  assumes "m_version s = 5 \<and> length (m_buffer s) = 10 \<or> m_version s = 4 \<and> length (m_buffer s) = 8"
  shows "pending (connect2 e s) = Wild \<longleftrightarrow>
    \<not> failed e \<and> m_version s = 5 \<and> short_name_reply (m_buffer s)"
proof (cases "m_version s = 5")
  case True
  with assms have l: "length (m_buffer s) = 10" by simp
  then obtain v r x a n t where b: "m_buffer s = v # r # x # a # n # t" using ten_bytes by blast
  have e: "pending (read_extra (12 :: u64) s) \<noteq> Wild"
    using l by (simp add: read_extra_fits)
  have n: "pending (read_extra (ucast n - 3) s) = Wild \<longleftrightarrow> n < 3"
    using l byte_extra_bound [of n]
    by (cases "n < 3") (simp_all add: read_extra_short read_extra_fits unat_name_extra)
  show ?thesis
    using True l b e n by (auto simp: connect2_def wild_error short_name_reply_def)
next
  case False
  with assms have v: "m_version s = 4" "length (m_buffer s) = 8" by simp_all
  then obtain a b t where "m_buffer s = a # b # t" by (cases "m_buffer s"; cases "tl (m_buffer s)") auto
  with v show ?thesis by (simp add: connect2_def wild_error)
qed

lemma wild_io_read:
  assumes "wf_remote s" "op_ok s (Read off n k)"
  shows "pending (socks_io k e s) = Wild \<longleftrightarrow>
    k = Connect2 \<and> \<not> failed e \<and> m_version s = 5 \<and> short_name_reply (m_buffer s)"
proof (cases "k = Connect2")
  case True
  with assms wild_connect2 [of s e] show ?thesis by auto
next
  case False
  have two: "length b = 2 \<Longrightarrow> \<exists>x y. b = [x, y]" for b :: bytes
    by (cases b; cases "tl b") auto
  have c: "wf_remote s \<Longrightarrow> pending (socks_connect (s\<lparr>m_buffer := []\<rparr>)) \<noteq> Wild"
    using wild_socks_connect [of "s\<lparr>m_buffer := []\<rparr>"] by simp
  from False assms show ?thesis
    by (cases k) (auto simp: handshake2_def handshake4_def connect3_def wild_error
        messages_fill_buffer wild_socks_connect c split: if_splits dest!: two)
qed

text \<open>
  C25. Between events every outstanding read lies inside the buffer and every message fills its
  buffer exactly. Only two events make the stream touch memory outside it: a name server that
  answers with success and no address, and a SOCKS5 proxy that grants the request with a bound
  address that is a host name of fewer than 3 bytes, where the number of bytes still to read
  wraps around below zero.
\<close>

theorem socks5_memory_safe:
  assumes "socks5_inv s" "pending s \<noteq> Wild"
  shows "pending (socks5_step s ev) = Wild \<longleftrightarrow>
    (\<exists>e oec. pending s = Resolve \<and> ev = Resolved e [] oec \<and> \<not> failed e)
    \<or> (\<exists>e reply. pending s = Read 0 10 Connect2 \<and> ev = ReadDone e reply \<and> \<not> failed e \<and>
         length reply = 10 \<and> 5 \<le> uint (reply ! 0) \<and> reply ! 1 = 0 \<and> reply ! 3 = 3 \<and> reply ! 4 < 3)"
proof -
  define bad where "bad = ((\<exists>e oec. pending s = Resolve \<and> ev = Resolved e [] oec \<and> \<not> failed e)
    \<or> (\<exists>e reply. pending s = Read 0 10 Connect2 \<and> ev = ReadDone e reply \<and> \<not> failed e \<and>
         short_name_reply reply))"
  have wf: "wf_remote s" and ok: "op_ok s (pending s)" using assms by (simp_all add: socks5_inv_def)
  have "pending (deliver socks_name_lookup socks_connected socks_io s ev) = Wild \<longleftrightarrow> bad"
  proof (rule deliver_cases [where P = "\<lambda>s'. pending s' = Wild \<longleftrightarrow> bad"])
    assume "\<not> answers (pending s) ev"
    then show "pending s = Wild \<longleftrightarrow> bad"
      using assms(2) by (auto simp: bad_def answers_def short_name_reply_def)
  next
    fix b k e assume p: "pending s = Write b k"
    let ?s = "s\<lparr>sent := (if failed e then sent s else sent s @ [b])\<rparr>"
    have "op_ok ?s (Write b k)" using ok p by (cases k) simp_all
    with wf have "pending (socks_io k e ?s) \<noteq> Wild" by (intro wild_write) simp_all
    with p show "pending (socks_io k e ?s) = Wild \<longleftrightarrow> bad" by (simp add: bad_def)
  next
    fix off n k e and bs :: bytes
    assume p: "pending s = Read off n k" and ev: "ev = ReadDone e bs" "\<not> failed e" "length bs = n"
    let ?s = "s\<lparr>m_buffer := store_at off bs (m_buffer s)\<rparr>"
    from ok p ev have o: "op_ok ?s (Read off n k)" by (simp add: op_ok_store)
    with wf have w: "pending (socks_io k e ?s) = Wild \<longleftrightarrow>
        k = Connect2 \<and> \<not> failed e \<and> m_version ?s = 5 \<and> short_name_reply (m_buffer ?s)"
      by (intro wild_io_read) simp_all
    from ok p ev show "pending (socks_io k e ?s) = Wild \<longleftrightarrow> bad"
      unfolding w by (cases k) (auto simp: bad_def store_at_all short_name_reply_def)
  next
    fix off n k e bs assume p: "pending s = Read off n k" "ev = ReadDone e bs" "failed e"
    with ok wf wild_io_read [of s off n k e] show "pending (socks_io k e s) = Wild \<longleftrightarrow> bad"
      by (auto simp: bad_def)
  qed (use wf in \<open>auto simp: bad_def wild_name_lookup wild_connected\<close>)
  then show ?thesis by (simp add: socks5_step_def bad_def short_name_reply_def)
qed

theorem socks5_memory_safe_witness:
  "pending (socks5_step (socks5_init\<lparr>m_buffer := replicate 10 0, pending := Read 0 10 Connect2\<rparr>)
     (ReadDone Success [5, 0, 0, 3, 1, 0, 0, 0, 0, 0])) = Wild"
proof -
  let ?s = "socks5_init\<lparr>m_buffer := replicate 10 0, pending := Read 0 10 Connect2\<rparr>"
  have "socks5_inv ?s" "pending ?s \<noteq> Wild"
    by (simp_all add: socks5_inv_def socks5_init_def default_endpoint_def)
  from socks5_memory_safe [OF this, of "ReadDone Success [5, 0, 0, 3, 1, 0, 0, 0, 0, 0]"]
  show ?thesis by simp
qed

section \<open>Termination\<close>

fun op_rank :: "socks5_op pending \<Rightarrow> nat" where
  "op_rank Resolve = 9"
| "op_rank (Connect ep) = 8"
| "op_rank (Write b Handshake1) = 7"
| "op_rank (Read off n Handshake2) = 6"
| "op_rank (Write b Handshake3) = 5"
| "op_rank (Read off n Handshake4) = 4"
| "op_rank (Write b Connect1) = 3"
| "op_rank (Read off n Connect2) = 2"
| "op_rank (Read off n Connect3) = 1"
| "op_rank _ = 0"

fun answering :: "socks5_stream \<Rightarrow> stream_event list \<Rightarrow> bool" where
  "answering s [] = True"
| "answering s (ev # evs) \<longleftrightarrow> answers (pending s) ev \<and> answering (socks5_step s ev) evs"

lemma rank_error: "(\<not> failed e \<Longrightarrow> op_rank (pending (k s)) \<le> n) \<Longrightarrow> op_rank (pending (handle_error e k s)) \<le> n"
  by (simp add: handle_error_def)

lemma rank_send: "op_rank (pending (send_message m k s)) \<le> op_rank (Write b k)"
  by (cases m; cases k) (simp_all add: send_message_def)

lemma rank_read: "op_rank (pending (read_buffer off n k s)) \<le> op_rank (Read off n k)"
  by (simp add: read_buffer_def)

lemma rank_socks_connect: "op_rank (pending (socks_connect s)) \<le> 3"
  using rank_send [of _ Connect1] by (auto simp: socks_connect_def)

lemma rank_extra: "op_rank (pending (read_extra x s)) \<le> 1"
  using rank_read [of _ _ Connect3] by (auto simp: read_extra_def Let_def)

lemma rank_io:
  "op_rank (pending (handshake1 e s)) \<le> 6" "op_rank (pending (handshake2 e s)) \<le> 5"
  "op_rank (pending (handshake3 e s)) \<le> 4" "op_rank (pending (handshake4 e s)) \<le> 3"
  "op_rank (pending (connect1 e s)) \<le> 2" "op_rank (pending (connect2 e s)) \<le> 1"
  "op_rank (pending (connect3 e s)) \<le> 0" "op_rank (pending (socks_connected e s)) \<le> 7"
  "op_rank (pending (socks_name_lookup e ips oec s)) \<le> 8"
proof -
  have c: "op_rank (pending (socks_connect s)) \<le> 5" "op_rank (pending (socks_connect s)) \<le> 7"
    "op_rank (pending (socks_connect s)) \<le> 3" for s
    using rank_socks_connect [of s] by simp_all
  show "op_rank (pending (handshake1 e s)) \<le> 6"
    unfolding handshake1_def by (rule rank_error) (simp add: read_buffer_def)
  show "op_rank (pending (handshake2 e s)) \<le> 5"
    unfolding handshake2_def using rank_send [of _ Handshake3]
    by (intro rank_error) (auto simp: c split: list.split)
  show "op_rank (pending (handshake3 e s)) \<le> 4"
    unfolding handshake3_def by (rule rank_error) (simp add: read_buffer_def)
  show "op_rank (pending (handshake4 e s)) \<le> 3"
    unfolding handshake4_def by (rule rank_error) (auto simp: c split: list.split)
  show "op_rank (pending (connect1 e s)) \<le> 2"
    unfolding connect1_def by (rule rank_error) (simp add: read_buffer_def Let_def)
  show "op_rank (pending (connect2 e s)) \<le> 1"
    unfolding connect2_def
    by (intro rank_error) (auto simp: rank_extra [simplified] split: list.split)
  show "op_rank (pending (connect3 e s)) \<le> 0"
    unfolding connect3_def by (rule rank_error) simp
  show "op_rank (pending (socks_connected e s)) \<le> 7"
    unfolding socks_connected_def using rank_send [of _ Handshake1]
    by (intro rank_error) (auto simp: c)
  show "op_rank (pending (socks_name_lookup e ips oec s)) \<le> 8"
    unfolding socks_name_lookup_def
    by (rule rank_error) (auto simp: handle_error_def split: list.split)
qed

lemma rank_step:
  assumes "socks5_inv s" "answers (pending s) ev"
  shows "op_rank (pending (socks5_step s ev)) < op_rank (pending s)"
proof -
  have ok: "op_ok s (pending s)" using assms(1) by (simp add: socks5_inv_def)
  have io: "op_ok t (Write b k) \<Longrightarrow> op_rank (pending (socks_io k e s)) < op_rank (Write b k)"
    "op_ok t (Read off n k) \<Longrightarrow> op_rank (pending (socks_io k e s)) < op_rank (Read off n k)"
    for t b off n k e s
    using rank_io(1-7) [of e s] by (cases k; simp)+
  have "answers (pending s) ev \<longrightarrow>
    op_rank (pending (deliver socks_name_lookup socks_connected socks_io s ev)) < op_rank (pending s)"
    by (rule deliver_cases [where P = "\<lambda>s'. answers (pending s) ev \<longrightarrow> op_rank (pending s') < op_rank (pending s)"])
      (use ok rank_io(8,9) in \<open>auto intro!: io le_less_trans [OF rank_io(8)] le_less_trans [OF rank_io(9)]\<close>)
  with assms(2) show ?thesis by (simp add: socks5_step_def)
qed

text \<open>
  C26. A connect attempt ends: after \<open>async_connect\<close> at most nine answers of the environment are
  ever waited for, whatever they are.
\<close>

theorem socks5_terminates:
  assumes "wf_address (ep_address ep)" "answering (socks_async_connect ep s) evs"
  shows "length evs \<le> 9"
proof -
  have "socks5_inv t \<Longrightarrow> answering t evs \<Longrightarrow> length evs \<le> op_rank (pending t)" for t evs
  proof (induction evs arbitrary: t)
    case (Cons ev evs)
    then have "length evs \<le> op_rank (pending (socks5_step t ev))"
      by (simp add: socks5.step_inv)
    with Cons.prems rank_step [of t ev] show ?case by simp
  qed simp
  from this [OF connect_inv(1) [OF assms(1)] assms(2)] show ?thesis
    by (simp add: socks_async_connect_def)
qed

theorem socks5_terminates_witness:
  "length [Resolved (Other_Error 1) [] Success] \<le> 9"
proof -
  have "answering (socks_async_connect \<lparr>ep_address = IPv4 1, ep_port = 80\<rparr> socks5_init)
      [Resolved (Other_Error 1) [] Success]"
    by (simp add: answers_def socks_async_connect_def)
  with socks5_terminates [of "\<lparr>ep_address = IPv4 1, ep_port = 80\<rparr>" socks5_init] show ?thesis by simp
qed

section \<open>The dialogue with a proxy\<close>

lemma step_connect:
  "socks5_step (socks_async_connect ep s) (Resolved Success (i # is) Success) =
     s\<lparr>m_remote_endpoint := ep, sock_open := True, pending := Connect i\<rparr>"
  by (cases s) (simp add: socks5_step_def deliver_def socks_async_connect_def socks_name_lookup_def
      handle_error_def)

lemma step_hello:
  "m_version s = 5 \<Longrightarrow> pending s = Connect i \<Longrightarrow> socks5_step s (Connected Success) =
     s\<lparr>m_buffer := hello_bytes (m_user s), pending := Write (hello_bytes (m_user s)) Handshake1\<rparr>"
  unfolding socks5_step_def deliver_def socks_connected_def handle_error_def
  by (simp add: messages_fill_buffer(1) send_message_def)

lemma step_hello_sent:
  "pending s = Write b Handshake1 \<Longrightarrow> socks5_step s (Written Success) =
     s\<lparr>sent := sent s @ [b], m_buffer := vec_resize 2 (m_buffer s), pending := Read 0 2 Handshake2\<rparr>"
  by (simp add: socks5_step_def deliver_def handshake1_def handle_error_def read_buffer_def)

lemma step_no_auth:
  "pending s = Read 0 2 Handshake2 \<Longrightarrow> m_version s = 5 \<Longrightarrow> length (m_buffer s) = 2 \<Longrightarrow>
   socks5_step s (ReadDone Success [5, 0]) = socks_connect (s\<lparr>m_buffer := [5, 0]\<rparr>)"
  by (simp add: socks5_step_def deliver_def handshake2_def handle_error_def store_at_all)

lemma step_auth:
  "pending s = Read 0 2 Handshake2 \<Longrightarrow> m_version s = 5 \<Longrightarrow> length (m_buffer s) = 2 \<Longrightarrow> m_user s \<noteq> [] \<Longrightarrow>
   socks5_step s (ReadDone Success [5, 2]) =
     s\<lparr>m_buffer := auth_bytes (m_user s) (m_password s),
       pending := Write (auth_bytes (m_user s) (m_password s)) Handshake3\<rparr>"
  using messages_fill_buffer(2) [of "m_user s" "m_password s"]
  by (simp add: socks5_step_def deliver_def handshake2_def handle_error_def store_at_all send_message_def)

lemma step_auth_sent:
  "pending s = Write b Handshake3 \<Longrightarrow> socks5_step s (Written Success) =
     s\<lparr>sent := sent s @ [b], m_buffer := vec_resize 2 (m_buffer s), pending := Read 0 2 Handshake4\<rparr>"
  by (simp add: socks5_step_def deliver_def handshake3_def handle_error_def read_buffer_def)

lemma step_auth_ok:
  "pending s = Read 0 2 Handshake4 \<Longrightarrow> length (m_buffer s) = 2 \<Longrightarrow>
   socks5_step s (ReadDone Success [1, 0]) = socks_connect (s\<lparr>m_buffer := []\<rparr>)"
  by (simp add: socks5_step_def deliver_def handshake4_def handle_error_def store_at_all)

lemma socks_connect5:
  "m_version s = 5 \<Longrightarrow> wf_remote s \<Longrightarrow> socks_connect s =
     (let b = connect5_bytes (m_command s) (m_dst_name s) (m_remote_endpoint s)
      in s\<lparr>m_buffer := b, pending := Write b Connect1\<rparr>)"
  unfolding socks_connect_def
  by (simp only: messages_fill_buffer(3) send_message_def option.case Let_def) simp

lemma step_request_sent:
  "pending s = Write b Connect1 \<Longrightarrow> m_version s = 5 \<Longrightarrow> socks5_step s (Written Success) =
     s\<lparr>sent := sent s @ [b], m_buffer := vec_resize 10 (m_buffer s), pending := Read 0 10 Connect2\<rparr>"
  by (simp add: socks5_step_def deliver_def connect1_def handle_error_def read_buffer_def)

lemma step_granted:
  "pending s = Read 0 10 Connect2 \<Longrightarrow> m_version s = 5 \<Longrightarrow> length (m_buffer s) = 10 \<Longrightarrow> length tail = 6 \<Longrightarrow>
   socks5_step s (ReadDone Success ([5, 0, rsv, 1] @ tail)) =
     s\<lparr>m_buffer := [], completions := completions s @ [Success], pending := Idle\<rparr>"
  by (simp add: socks5_step_def deliver_def connect2_def handle_error_def store_at_all complete_def)

definition socks5_server :: "bool \<Rightarrow> endpoint \<Rightarrow> endpoint list \<Rightarrow> bytes \<Rightarrow> byte \<Rightarrow> stream_event list" where
  "socks5_server auth i is tail rsv =
     [Resolved Success (i # is) Success, Connected Success, Written Success]
     @ (if auth then [ReadDone Success [5, 2], Written Success, ReadDone Success [1, 0]]
        else [ReadDone Success [5, 0]])
     @ [Written Success, ReadDone Success ([5, 0, rsv, 1] @ tail)]"

text \<open>The proxy's side: what it makes of the three kinds of messages, each of which must be used up.\<close>

fun read_greeting :: "bytes \<Rightarrow> bytes option" where
  "read_greeting (v # n # methods) = (if v = 5 \<and> length methods = unat n then Some methods else None)"
| "read_greeting _ = None"

definition read_short :: "bytes \<Rightarrow> (bytes \<times> bytes) option" where
  "read_short bs =
     (case bs of
        [] \<Rightarrow> None
      | n # r \<Rightarrow> (if unat n \<le> length r then Some (take (unat n) r, drop (unat n) r) else None))"

fun read_auth :: "bytes \<Rightarrow> (bytes \<times> bytes) option" where
  "read_auth [] = None"
| "read_auth (v # r) =
     (case read_short r of
        None \<Rightarrow> None
      | Some (user, r') \<Rightarrow>
          (case read_short r' of
             None \<Rightarrow> None
           | Some (password, r'') \<Rightarrow> if v = 1 \<and> r'' = [] then Some (user, password) else None))"

datatype request_target = By_Name bytes | By_Address address

fun read_target :: "byte \<Rightarrow> bytes \<Rightarrow> (request_target \<times> bytes) option" where
  "read_target atyp r =
     (if atyp = 3 then map_option (\<lambda>(name, r). (By_Name name, r)) (read_short r)
      else if atyp = 1 then map_option (\<lambda>(w, r). (By_Address (IPv4 w), r)) (read_uint32 r)
      else if atyp = 4 \<and> 16 \<le> length r then Some (By_Address (IPv6 (take 16 r)), drop 16 r)
      else None)"

fun read_request :: "bytes \<Rightarrow> (byte \<times> request_target \<times> u16) option" where
  "read_request (v # c # rsv # atyp # r) =
     (if v \<noteq> 5 \<or> rsv \<noteq> 0 then None
      else (case read_target atyp r of
              None \<Rightarrow> None
            | Some (t, r') \<Rightarrow>
                (case read_uint16 r' of Some (port, []) \<Rightarrow> Some (c, t, port) | _ \<Rightarrow> None)))"
| "read_request _ = None"

lemma read_short_string:
  assumes "length xs < 256"
  shows "read_short (of_nat (length xs) # xs @ r) = Some (xs, r)"
proof -
  have "unat (of_nat (length xs) :: byte) = length xs" using assms by (simp add: unat_of_nat take_bit_nat_eq_self)
  then show ?thesis by (simp add: read_short_def)
qed

lemma greeting_read: "read_greeting (hello_bytes user) = Some (if user = [] then [0] else [0, 2])"
  by (simp add: hello_bytes_def)

lemma auth_read:
  "length user < 256 \<Longrightarrow> length password < 256 \<Longrightarrow> read_auth (auth_bytes user password) = Some (user, password)"
  using read_short_string [of password "[]"] by (simp add: auth_bytes_def read_short_string)

lemma request_read:
  assumes "wf_address (ep_address ep)" "length dst < 256"
  shows "read_request (connect5_bytes command dst ep) =
    Some (of_int command, if dst \<noteq> [] then By_Name dst else By_Address (ep_address ep), ep_port ep)"
  using assms
  by (cases "ep_address ep")
    (auto simp: connect5_bytes_def read_short_string u16c.dec_enc [of _ "[]", simplified] u32c.dec_enc
      simp del: be_bytes.simps)

text \<open>
  C8. Against a SOCKS5 proxy that accepts the request, with or without asking for a user name and
  password, the stream, whose user name, password and host name have at most 255 bytes each (\<open>set_dst_name\<close>
  cuts the host name; a longer user name or password is malformed on the wire), sends exactly these
  messages, in order: a greeting that offers no authentication, and user name and password when there is
  a user name; when asked for them, the user name and password; and the command with the host name, else
  the address, and the port. The proxy reads back exactly these values. Then the handler hears of
  success once and the buffer is released.
\<close>

theorem socks5_dialogue:
  assumes "m_version s = 5" "wf_address (ep_address ep)" "auth \<longrightarrow> m_user s \<noteq> []" "length tail = 6"
    and "length (m_user s) < 256" "length (m_password s) < 256" "length (m_dst_name s) < 256"
  shows "let s' = foldl socks5_step (socks_async_connect ep s) (socks5_server auth i is tail rsv) in
    \<exists>greeting credentials request. sent s' = sent s @ [greeting] @ (if auth then [credentials] else []) @ [request] \<and>
    read_greeting greeting = Some (if m_user s = [] then [0] else [0, 2]) \<and>
    read_auth credentials = Some (m_user s, m_password s) \<and>
    read_request request = Some (of_int (m_command s),
      if m_dst_name s \<noteq> [] then By_Name (m_dst_name s) else By_Address (ep_address ep), ep_port ep) \<and>
    completions s' = completions s @ [Success] \<and> finished s' \<and> m_buffer s' = []"
proof -
  let ?s = "foldl socks5_step (socks_async_connect ep s) (socks5_server auth i is tail rsv)"
  let ?h = "hello_bytes (m_user s)" and ?a = "auth_bytes (m_user s) (m_password s)"
    and ?c = "connect5_bytes (m_command s) (m_dst_name s) ep"
  have "sent ?s = sent s @ [?h] @ (if auth then [?a] else []) @ [?c] \<and>
    completions ?s = completions s @ [Success] \<and> finished ?s \<and> m_buffer ?s = []"
    using assms(1-4)
    by (cases auth)
      (simp_all add: socks5_server_def step_connect step_hello step_hello_sent step_auth step_auth_sent
        step_auth_ok step_no_auth socks_connect5 step_request_sent step_granted [simplified] Let_def finished_def)
  then show ?thesis
    using greeting_read auth_read [OF assms(5,6)] request_read [OF assms(2,7)]
    unfolding Let_def by blast
qed

theorem socks5_dialogue_witness:
  "let s = set_dst_name [104, 105] (set_username [109, 101] [112, 119] socks5_init);
       s' = foldl socks5_step (socks_async_connect \<lparr>ep_address = IPv4 0, ep_port = 80\<rparr> s)
         (socks5_server True \<lparr>ep_address = IPv4 2, ep_port = 1080\<rparr> [] [0, 0, 0, 0, 0, 0] 0)
   in completions s' = [Success] \<and> length (sent s') = 3 \<and>
      read_auth (sent s' ! 1) = Some ([109, 101], [112, 119]) \<and>
      read_request (sent s' ! 2) = Some (1, By_Name [104, 105], 80)"
  using socks5_dialogue [of "set_dst_name [104, 105] (set_username [109, 101] [112, 119] socks5_init)"
      "\<lparr>ep_address = IPv4 0, ep_port = 80\<rparr>" True "[0, 0, 0, 0, 0, 0]"
      "\<lparr>ep_address = IPv4 2, ep_port = 1080\<rparr>" "[]" 0]
  by (auto simp: set_dst_name_def set_username_def socks5_init_def socks5_connect_cmd_def Let_def nth_append)

end
