(* ===== verification/Byte_Text.thy ===== *)
theory Byte_Text
  imports Decimal_Text
begin

text \<open>
  C strings as bytes, for the parts of the library that parse received data: ASCII literals,
  \<open>strchr\<close> (which finds a byte before the first NUL), and the number parsers \<open>atoi\<close> and \<open>strtoll\<close>,
  which skip white space, read an optional sign and the digits. A number outside \<open>int\<close> is undefined
  behaviour of \<open>atoi\<close> (\<open>None\<close>); \<open>strtoll\<close> saturates and also tells whether it read any digit.
\<close>

section \<open>Text as bytes\<close>

definition ascii :: "string \<Rightarrow> bytes" where
  "ascii t = map (\<lambda>c. of_nat (ord c)) t"

definition bytes_c_str :: "bytes \<Rightarrow> bytes" where
  "bytes_c_str s = takeWhile (\<lambda>b. b \<noteq> 0) s"

fun strchr :: "bytes \<Rightarrow> byte \<Rightarrow> bytes option" where
  "strchr [] c = None"
| "strchr (b # bs) c = (if b = c then Some (b # bs) else if b = 0 then None else strchr bs c)"

definition byte_digit :: "byte \<Rightarrow> bool" where
  "byte_digit b \<longleftrightarrow> 48 \<le> b \<and> b \<le> 57"

definition byte_space :: "byte \<Rightarrow> bool" where
  "byte_space b \<longleftrightarrow> b = 32 \<or> 9 \<le> b \<and> b \<le> 13"

definition digits_value :: "bytes \<Rightarrow> int" where
  "digits_value ds = foldl (\<lambda>v d. v * 10 + (uint d - 48)) 0 ds"

definition atoi :: "bytes \<Rightarrow> int option" where
  "atoi s =
     (let t = dropWhile byte_space s;
          negative = (t \<noteq> [] \<and> hd t = 45);
          u = (if t \<noteq> [] \<and> (hd t = 45 \<or> hd t = 43) then tl t else t);
          v = digits_value (takeWhile byte_digit u)
      in c_int (if negative then - v else v))"

definition strtoll :: "bytes \<Rightarrow> int \<times> bool" where
  "strtoll s =
     (let t = dropWhile byte_space s;
          negative = (t \<noteq> [] \<and> hd t = 45);
          u = (if t \<noteq> [] \<and> (hd t = 45 \<or> hd t = 43) then tl t else t);
          ds = takeWhile byte_digit u;
          v = (if negative then - digits_value ds else digits_value ds)
      in (if ds = [] then (0, False)
          else (max (- 9223372036854775808) (min 9223372036854775807 v), True)))"

section \<open>Decimal numbers\<close>

lemma ascii_simps [simp]:
  "ascii [] = []" "ascii (c # cs) = of_nat (ord c) # ascii cs" "ascii (a @ b) = ascii a @ ascii b"
  "length (ascii t) = length t" "(ascii t = []) = (t = [])"
  by (simp_all add: ascii_def)

lemma unat_of_ord: "unat (of_nat (ord c) :: byte) = ord c"
proof -
  have "ord c < 256" using nat_of_char_less_256 [of c] by simp
  then show ?thesis by (simp add: unat_of_nat take_bit_nat_eq_self)
qed

lemma byte_digit_ord: "byte_digit (of_nat (ord c)) = is_digit c"
  by (simp add: byte_digit_def is_digit_def word_le_nat_alt unat_of_ord)

lemma digits_value_ascii:
  assumes "list_all is_digit cs"
  shows "digits_value (ascii cs) = int (digits_val 0 cs)"
proof -
  have "foldl (\<lambda>v d. v * 10 + (uint d - 48)) (int acc) (ascii cs) = int (digits_val acc cs)" for acc
    using assms
  proof (induction cs arbitrary: acc)
    case (Cons c cs)
    have "uint (of_nat (ord c) :: byte) = int (ord c)" using unat_of_ord [of c] by (simp add: uint_nat)
    moreover have "int (ord c) - 48 = int (digit_val c)"
      using Cons.prems by (simp add: digit_val_def is_digit_def of_nat_diff)
    ultimately have "int acc * 10 + (uint (of_nat (ord c) :: byte) - 48) = int (acc * 10 + digit_val c)"
      by simp
    with Cons.IH [of "acc * 10 + digit_val c"] Cons.prems show ?case by simp
  qed simp
  from this [of 0] show ?thesis by (simp add: digits_value_def)
qed

lemma byte_digits_nat_str: "list_all byte_digit (ascii (nat_str n))"
  using nat_str_digits [of n] by (simp add: ascii_def list_all_iff byte_digit_ord)

lemma digits_value_nat_str [simp]: "digits_value (ascii (nat_str n)) = int n"
  by (simp add: digits_value_ascii nat_str_digits)

lemma takeWhile_nat_str [simp]: "takeWhile byte_digit (ascii (nat_str n)) = ascii (nat_str n)"
  using byte_digits_nat_str [of n] by (simp add: takeWhile_eq_all_conv list_all_iff)

lemma digit_not_other: "byte_digit b \<Longrightarrow> \<not> byte_space b \<and> b \<noteq> 45 \<and> b \<noteq> 43 \<and> b \<noteq> 0"
  by (auto simp: byte_digit_def byte_space_def word_le_nat_alt)

lemma nat_str_start [simp]:
  "dropWhile byte_space (ascii (nat_str n)) = ascii (nat_str n)"
  "hd (ascii (nat_str n)) \<noteq> 45" "hd (ascii (nat_str n)) \<noteq> 43"
proof -
  obtain b bs where b: "ascii (nat_str n) = b # bs" "byte_digit b"
    using byte_digits_nat_str [of n] by (cases "ascii (nat_str n)") auto
  with digit_not_other [of b]
  show "dropWhile byte_space (ascii (nat_str n)) = ascii (nat_str n)"
    "hd (ascii (nat_str n)) \<noteq> 45" "hd (ascii (nat_str n)) \<noteq> 43" by simp_all
qed

lemma atoi_nat_str: "int n \<le> 2147483647 \<Longrightarrow> atoi (ascii (nat_str n)) = Some (int n)"
  by (simp add: atoi_def Let_def c_int_def in_int32_def)

lemma strtoll_nat_str:
  "strtoll (ascii (nat_str n)) = (max (- 9223372036854775808) (min 9223372036854775807 (int n)), True)"
  "strtoll (45 # ascii (nat_str n)) = (max (- 9223372036854775808) (min 9223372036854775807 (- int n)), True)"
  by (simp_all add: strtoll_def byte_space_def [of 45])

lemma strtoll_int_str:
  assumes "in_int64 i"
  shows "strtoll (ascii (int_str i)) = (i, True)"
  using assms strtoll_nat_str(1) [of "nat i"] strtoll_nat_str(2) [of "nat (- i)"]
  by (cases "i < 0") (simp_all add: int_str_def in_int64_def)

lemma c_str_digits [simp]: "bytes_c_str (ascii (nat_str n)) = ascii (nat_str n)"
proof -
  have "list_all (\<lambda>b. b \<noteq> 0) (ascii (nat_str n))"
    using byte_digits_nat_str [of n] digit_not_other by (auto simp: list_all_iff)
  then show ?thesis by (simp add: bytes_c_str_def takeWhile_eq_all_conv list_all_iff)
qed

lemma c_str_int_str [simp]: "bytes_c_str (ascii (int_str i)) = ascii (int_str i)"
  using c_str_digits [of "nat (- i)"] c_str_digits [of "nat i"]
  by (simp add: int_str_def bytes_c_str_def)

end
