(* ===== verification/Http_Stream.thy ===== *)
theory Http_Stream
  imports Proxy_Stream Byte_Text
begin

text \<open>
  \<open>libtorrent/http_stream.hpp\<close>: the client of an HTTP proxy (CONNECT). The text of an endpoint
  (\<open>print_endpoint\<close>) and base 64 (\<open>base64encode\<close>) come from the prebuilt library and are the
  parameters \<open>http_lib\<close>. Of the C library, \<open>strchr\<close> finds a byte before the first NUL and
  \<open>atoi\<close> skips white space, reads an optional sign and the digits; a number outside \<open>int\<close> is
  undefined behaviour (\<open>None\<close>, and \<open>Wild\<close> for the stream).
\<close>

section \<open>State\<close>

datatype http_op = Http_Handshake1 | Http_Handshake2

record http_stream = "http_op stream" +
  h_user :: bytes
  h_password :: bytes
  h_dst_name :: bytes
  m_no_connect :: bool

record http_lib =
  print_endpoint :: "endpoint \<Rightarrow> bytes"
  base64encode :: "bytes \<Rightarrow> bytes"

definition http_init :: http_stream where
  "http_init = \<lparr>m_hostname = [], m_port = 0, m_remote_endpoint = default_endpoint,
     sock_open = False, m_buffer = [], pending = Idle, sent = [], completions = [],
     h_user = [], h_password = [], h_dst_name = [], m_no_connect = False\<rparr>"

definition set_no_connect :: "bool \<Rightarrow> http_stream \<Rightarrow> http_stream" where
  "set_no_connect c s = s\<lparr>m_no_connect := c\<rparr>"

definition http_set_username :: "bytes \<Rightarrow> bytes \<Rightarrow> http_stream \<Rightarrow> http_stream" where
  "http_set_username user password s = s\<lparr>h_user := user, h_password := password\<rparr>"

definition http_set_dst_name :: "bytes \<Rightarrow> http_stream \<Rightarrow> http_stream" where
  "http_set_dst_name host s = s\<lparr>h_dst_name := host\<rparr>"

definition http_close :: "http_stream \<Rightarrow> http_stream" where
  "http_close s = proxy_close (s\<lparr>h_dst_name := []\<rparr>)"

section \<open>Connecting\<close>

definition http_async_connect :: "endpoint \<Rightarrow> http_stream \<Rightarrow> http_stream" where
  "http_async_connect ep s = s\<lparr>m_remote_endpoint := ep, pending := Resolve\<rparr>"

definition http_name_lookup ::
    "error_code \<Rightarrow> endpoint list \<Rightarrow> error_code \<Rightarrow> http_stream \<Rightarrow> http_stream" where
  "http_name_lookup e ips open_ec = handle_error e (\<lambda>s.
     (case ips of
        [] \<Rightarrow> s\<lparr>pending := Wild\<rparr>
      | i # _ \<Rightarrow> s\<lparr>sock_open := True, pending := Connect i\<rparr>))"

definition connect_request :: "http_lib \<Rightarrow> http_stream \<Rightarrow> bytes" where
  "connect_request lib s =
     ascii ''CONNECT '' @ print_endpoint lib (m_remote_endpoint s) @ ascii '' HTTP/1.0'' @ [13, 10]
     @ (if h_user s \<noteq> []
        then ascii ''Proxy-Authorization: Basic ''
             @ base64encode lib (h_user s @ ascii '':'' @ h_password s) @ [13, 10]
        else [])
     @ [13, 10]"

text \<open>The request is appended to whatever \<open>m_buffer\<close> holds, through a \<open>back_insert_iterator\<close>.\<close>

definition http_connected :: "http_lib \<Rightarrow> error_code \<Rightarrow> http_stream \<Rightarrow> http_stream" where
  "http_connected lib e = handle_error e (\<lambda>s.
     if m_no_connect s then complete e (s\<lparr>m_buffer := []\<rparr>)
     else send_message (write_string put_back (connect_request lib s) (m_buffer s)) Http_Handshake1 s)"

definition http_handshake1 :: "error_code \<Rightarrow> http_stream \<Rightarrow> http_stream" where
  "http_handshake1 e = handle_error e (\<lambda>s.
     read_buffer 0 1 Http_Handshake2 (s\<lparr>m_buffer := vec_resize 1 (m_buffer s)\<rparr>))"

definition found_end :: "bytes \<Rightarrow> bool" where
  "found_end buf =
     (let read_pos = length buf
      in if read_pos > 2 \<and> buf ! (read_pos - 1) = 10
         then (if buf ! (read_pos - 2) = 10 then True
               else read_pos > 4 \<and> buf ! (read_pos - 2) = 13 \<and> buf ! (read_pos - 3) = 10
                 \<and> buf ! (read_pos - 4) = 13)
         else False)"

text \<open>\<open>h(operation_not_supported); close(ec)\<close>\<close>

definition http_refuse :: "http_stream \<Rightarrow> http_stream" where
  "http_refuse s = http_close (complete (Asio operation_not_supported) s)"

definition http_handshake2 :: "error_code \<Rightarrow> http_stream \<Rightarrow> http_stream" where
  "http_handshake2 e = handle_error e (\<lambda>s.
     (let read_pos = length (m_buffer s)
      in if found_end (m_buffer s)
         then (let s1 = s\<lparr>m_buffer := m_buffer s @ [0]\<rparr>
               in case strchr (m_buffer s1) 32 of
                    None \<Rightarrow> http_refuse s1
                  | Some status \<Rightarrow>
                      (case atoi (tl status) of
                         None \<Rightarrow> s1\<lparr>pending := Wild\<rparr>
                       | Some code \<Rightarrow>
                           (if code \<noteq> 200 then http_refuse s1
                            else (complete e s1)\<lparr>m_buffer := []\<rparr>)))
         else read_buffer read_pos 1 Http_Handshake2
                (s\<lparr>m_buffer := vec_resize (read_pos + 1) (m_buffer s)\<rparr>)))"

fun http_io :: "http_op \<Rightarrow> error_code \<Rightarrow> http_stream \<Rightarrow> http_stream" where
  "http_io Http_Handshake1 = http_handshake1"
| "http_io Http_Handshake2 = http_handshake2"

definition http_step :: "http_lib \<Rightarrow> http_stream \<Rightarrow> stream_event \<Rightarrow> http_stream" where
  "http_step lib = deliver http_name_lookup (http_connected lib) http_io"

section \<open>One completion per connect\<close>

fun http_op_ok :: "http_stream \<Rightarrow> bool" where
  "http_op_ok s =
     (case pending s of
        Write b k \<Rightarrow> k = Http_Handshake1
      | Read off n k \<Rightarrow> k = Http_Handshake2 \<and> n = 1 \<and> length (m_buffer s) = off + 1
      | _ \<Rightarrow> True)"

definition http_calls :: "http_stream \<Rightarrow> nat" where
  "http_calls s = length (completions s)"

definition http_progress :: "http_stream \<Rightarrow> http_stream \<Rightarrow> bool" where
  "http_progress s s' \<longleftrightarrow> http_op_ok s' \<and>
     http_calls s' = http_calls s + (if finished s' then 1 else 0)"

lemma http_progress_error:
  "(\<not> failed e \<Longrightarrow> http_progress s (k s)) \<Longrightarrow> http_progress s (handle_error e k s)"
  by (auto simp: http_progress_def handle_error_def http_calls_def finished_def)

lemma http_progress_handlers:
  "http_progress s (http_name_lookup e ips oec s)"
  "http_progress s (http_connected lib e s)"
  "http_progress s (http_handshake1 e s)"
  "http_progress s (http_handshake2 e s)"
proof -
  show "http_progress s (http_name_lookup e ips oec s)"
    unfolding http_name_lookup_def
    by (rule http_progress_error) (auto simp: http_progress_def http_calls_def finished_def split: list.split)
  show "http_progress s (http_connected lib e s)"
    unfolding http_connected_def
    by (rule http_progress_error)
      (auto simp: http_progress_def http_calls_def finished_def send_message_def split: option.split)
  show "http_progress s (http_handshake1 e s)"
    unfolding http_handshake1_def
    by (rule http_progress_error)
      (auto simp: http_progress_def http_calls_def finished_def read_buffer_def)
  show "http_progress s (http_handshake2 e s)"
    unfolding http_handshake2_def
    by (rule http_progress_error)
      (auto simp: http_progress_def http_calls_def finished_def read_buffer_def http_refuse_def
        http_close_def Let_def proxy_close_def complete_def split: option.split)
qed

lemma http_step_progress:
  assumes "http_op_ok s" "answers (pending s) ev"
  shows "http_progress s (http_step lib s ev)"
proof -
  have io: "http_progress s (http_io k e t)" if "http_calls t = http_calls s" for k e t
    using that http_progress_handlers(3,4) [where s = t and e = e]
    by (cases k) (simp_all add: http_progress_def)
  have "answers (pending s) ev \<longrightarrow> http_progress s (deliver http_name_lookup (http_connected lib) http_io s ev)"
    by (cases "pending s"; cases ev)
      (auto simp: deliver_def answers_def http_progress_handlers intro!: io, simp_all add: http_calls_def)
  with assms(2) show ?thesis by (simp add: http_step_def)
qed

interpretation http: one_shot "http_step lib" http_op_ok finished http_calls for lib
proof
  fix s :: http_stream and ev assume inv: "http_op_ok s"
  have idle: "http_step lib s ev = s" if "\<not> answers (pending s) ev"
    using that by (simp add: http_step_def deliver_ignored)
  have p: "http_progress s (http_step lib s ev)" if "answers (pending s) ev"
    using http_step_progress [OF inv that] .
  show "http_op_ok (http_step lib s ev)"
    using idle p inv by (cases "answers (pending s) ev") (simp_all add: http_progress_def del: http_op_ok.simps)
  show "http_step lib s ev = s" if "finished s"
    using that by (intro idle) (simp add: finished_def answers_def)
  show "http_calls (http_step lib s ev) = http_calls s + (if finished (http_step lib s ev) then 1 else 0)"
    if "\<not> finished s"
    using idle p that by (cases "answers (pending s) ev") (simp_all add: http_progress_def)
qed

lemma http_connect_inv:
  "http_op_ok (http_async_connect ep s)" "\<not> finished (http_async_connect ep s)"
  "http_calls (http_async_connect ep s) = http_calls s"
  by (simp_all add: http_async_connect_def finished_def http_calls_def)

text \<open>
  After \<open>async_connect\<close> of an HTTP proxy stream the user's handler is called at most once,
  whatever events come: exactly once when the stream has finished, after which events change
  nothing.
\<close>

lemma http_completes_once:
  "let s' = foldl (http_step lib) (http_async_connect ep s) evs in
    length (completions s') = length (completions s) + (if finished s' then 1 else 0)
    \<and> (if finished s' then foldl (http_step lib) s' later = s' else True)"
proof -
  let ?s = "foldl (http_step lib) (http_async_connect ep s) evs"
  have "http_calls ?s = http_calls s + (if finished ?s then 1 else 0)"
    using http.calls_run [OF http_connect_inv(1,2), of lib ep s evs] http_connect_inv(3) [of ep s] by simp
  moreover have "finished ?s \<Longrightarrow> foldl (http_step lib) ?s later = ?s"
    using http.finished_run [OF http.inv_run [OF http_connect_inv(1), of lib ep s evs]] by blast
  ultimately show ?thesis by (simp add: http_calls_def Let_def)
qed

section \<open>Reading the response\<close>

definition waiting :: "http_stream \<Rightarrow> bytes \<Rightarrow> byte \<Rightarrow> http_stream" where
  "waiting s buf x = s\<lparr>m_buffer := buf @ [x], pending := Read (length buf) 1 Http_Handshake2\<rparr>"

text \<open>What the complete response leads to.\<close>

definition answer_of :: "bytes \<Rightarrow> error_code option" where
  "answer_of resp =
     (case strchr (resp @ [0]) 32 of
        None \<Rightarrow> Some (Asio operation_not_supported)
      | Some status \<Rightarrow>
          map_option (\<lambda>code. if code = 200 then Success else Asio operation_not_supported)
            (atoi (tl status)))"

lemma step_byte:
  "http_step lib (waiting s buf x) (ReadDone Success [b]) =
     http_handshake2 Success (s\<lparr>m_buffer := buf @ [b], pending := Read (length buf) 1 Http_Handshake2\<rparr>)"
  by (cases s) (simp add: http_step_def deliver_def waiting_def store_at_def)

lemma step_byte_more:
  "\<not> found_end (buf @ [b]) \<Longrightarrow> http_step lib (waiting s buf x) (ReadDone Success [b]) = waiting s (buf @ [b]) 0"
  unfolding step_byte
  by (simp add: http_handshake2_def handle_error_def Let_def read_buffer_def waiting_def vec_resize_def)

lemma step_byte_end:
  assumes "found_end (buf @ [b])" "answer_of (buf @ [b]) = Some ec"
  shows "completions (http_step lib (waiting s buf x) (ReadDone Success [b])) = completions s @ [ec]"
    "finished (http_step lib (waiting s buf x) (ReadDone Success [b]))"
    "sent (http_step lib (waiting s buf x) (ReadDone Success [b])) = sent s"
  using assms unfolding step_byte
  by (auto simp: http_handshake2_def handle_error_def Let_def answer_of_def http_refuse_def
      http_close_def finished_def split: option.splits if_splits)

lemma read_response:
  assumes "found_end (buf @ bs)" "bs \<noteq> []" "answer_of (buf @ bs) = Some ec"
    and "\<And>k. 0 < k \<Longrightarrow> k < length bs \<Longrightarrow> \<not> found_end (buf @ take k bs)"
  shows "let s' = foldl (http_step lib) (waiting s buf x) (map (\<lambda>b. ReadDone Success [b]) bs) in
    completions s' = completions s @ [ec] \<and> finished s' \<and> sent s' = sent s"
  using assms
proof (induction bs arbitrary: buf x)
  case Nil
  then show ?case by simp
next
  case (Cons b bs)
  show ?case
  proof (cases "bs = []")
    case True
    with Cons.prems show ?thesis by (simp add: step_byte_end)
  next
    case False
    have "\<not> found_end (buf @ [b])" using Cons.prems(4) [of 1] False by simp
    moreover have "\<not> found_end ((buf @ [b]) @ take k bs)" if "0 < k" "k < length bs" for k
      using Cons.prems(4) [of "Suc k"] that by simp
    ultimately show ?thesis
      using Cons.IH [of "buf @ [b]" 0] Cons.prems False by (simp add: step_byte_more)
  qed
qed

lemma write_back [simp]: "write_string put_back cs out = Some (out @ cs)"
  by (induction cs arbitrary: out) (simp_all add: put_back_def)

definition http_opening :: "endpoint \<Rightarrow> endpoint list \<Rightarrow> stream_event list" where
  "http_opening i is = [Resolved Success (i # is) Success, Connected Success, Written Success]"

lemma connect_request_nonempty: "buf @ connect_request lib s \<noteq> []"
  by (simp add: connect_request_def)

lemma http_step_connected:
  "\<not> m_no_connect s \<Longrightarrow> pending s = Connect i \<Longrightarrow> http_step lib s (Connected Success) =
     s\<lparr>m_buffer := m_buffer s @ connect_request lib s,
       pending := Write (m_buffer s @ connect_request lib s) Http_Handshake1\<rparr>"
  by (simp add: http_step_def deliver_def http_connected_def handle_error_def send_message_def)

lemma http_step_written:
  "pending s = Write (x # xs) Http_Handshake1 \<Longrightarrow> m_buffer s = x # xs \<Longrightarrow>
   http_step lib s (Written Success) = waiting (s\<lparr>sent := sent s @ [x # xs]\<rparr>) [] x"
  by (simp add: http_step_def deliver_def http_handshake1_def handle_error_def read_buffer_def
      waiting_def vec_resize_def)

lemma http_opened:
  assumes "\<not> m_no_connect s"
  shows "foldl (http_step lib) (http_async_connect ep s) (http_opening i is) =
     waiting (s\<lparr>m_remote_endpoint := ep, sock_open := True,
         sent := sent s @ [m_buffer s @ connect_request lib (s\<lparr>m_remote_endpoint := ep\<rparr>)]\<rparr>) []
       (hd (m_buffer s @ connect_request lib (s\<lparr>m_remote_endpoint := ep\<rparr>)))"
proof -
  let ?s = "s\<lparr>m_remote_endpoint := ep, sock_open := True, pending := Connect i\<rparr>"
  have 1: "http_step lib (http_async_connect ep s) (Resolved Success (i # is) Success) = ?s"
    by (cases s) (simp add: http_step_def deliver_def http_async_connect_def http_name_lookup_def
        handle_error_def)
  have same: "connect_request lib ?s = connect_request lib (s\<lparr>m_remote_endpoint := ep\<rparr>)"
    by (simp add: connect_request_def)
  obtain x xs where req: "m_buffer s @ connect_request lib (s\<lparr>m_remote_endpoint := ep\<rparr>) = x # xs"
    using connect_request_nonempty by (meson neq_Nil_conv)
  have 2: "http_step lib ?s (Connected Success) =
      ?s\<lparr>m_buffer := x # xs, pending := Write (x # xs) Http_Handshake1\<rparr>"
    using assms req by (subst http_step_connected [of ?s i]) (simp_all add: same)
  have 3: "http_step lib (?s\<lparr>m_buffer := x # xs, pending := Write (x # xs) Http_Handshake1\<rparr>)
      (Written Success) = waiting (s\<lparr>m_remote_endpoint := ep, sock_open := True,
        sent := sent s @ [x # xs]\<rparr>) [] x"
    by (subst http_step_written [of _ x xs]) (simp_all add: waiting_def)
  show ?thesis by (simp only: http_opening_def foldl.simps 1 2 3 req list.sel)
qed

text \<open>
  A stream that is not in the no-connect mode sends one CONNECT request for the endpoint (with
  the credentials when there is a user name) and then reads the response byte by byte up to the
  first empty line, however the response is split. The handler hears of success exactly when the
  number after the first blank is 200, and of \<open>operation_not_supported\<close> otherwise.
\<close>

lemma http_connect_response:
  assumes "\<not> m_no_connect s" "m_buffer s = []" "found_end resp"
    "\<And>k. 0 < k \<Longrightarrow> k < length resp \<Longrightarrow> \<not> found_end (take k resp)"
    "answer_of resp = Some ec"
  shows "let s' = foldl (http_step lib) (http_async_connect ep s)
      (http_opening i is @ map (\<lambda>b. ReadDone Success [b]) resp) in
    sent s' = sent s @ [ascii ''CONNECT '' @ print_endpoint lib ep @ ascii '' HTTP/1.0'' @ [13, 10]
        @ (if h_user s \<noteq> []
           then ascii ''Proxy-Authorization: Basic ''
             @ base64encode lib (h_user s @ ascii '':'' @ h_password s) @ [13, 10] else [])
        @ [13, 10]]
    \<and> completions s' = completions s @ [ec] \<and> finished s'"
proof -
  have "resp \<noteq> []" using assms(3) by (auto simp: found_end_def)
  with read_response [of "[]" resp ec lib] assms(3-5) http_opened [OF assms(1), of lib ep i "is"]
  show ?thesis by (simp add: assms(2) connect_request_def Let_def)
qed

end
