(* ===== verification/I2P_Stream.thy ===== *)
theory I2P_Stream
  imports Http_Stream
begin

text \<open>
  \<open>i2p_stream\<close> of \<open>libtorrent/i2p_stream.hpp\<close>: the client of an I2P SAM bridge, a line protocol.
  \<open>split_string\<close> is implemented in the prebuilt library and is the parameter \<open>split\<close>; its
  documented behaviour (\<open>string_util.hpp\<close>) is \<open>split_spec\<close>. The loop over the fields of a reply
  has fuel, one more than the reply is long, which is enough under \<open>split_spec\<close>.

  The commands are printed into local arrays whose address goes to \<open>async_write\<close>, and the functions
  return at once, so that the arrays are gone before the write has completed. What the socket takes
  during the initiating call is still what was printed; anything it takes later is read from memory that
  is no longer the array's. How many bytes the socket takes at once is a matter of its environment:
  \<open>socket_takes\<close> gives it for the write that follows so many completed ones. A command of which bytes
  are left over is \<open>Wild\<close>; so is a write longer than its array, and reading the first character of an
  empty \<open>string_view\<close>. The greeting is a static array.
\<close>

declare ascii_simps [simp del]

section \<open>State\<close>

datatype i2p_command = cmd_none | cmd_create_session | cmd_connect | cmd_accept | cmd_name_lookup
  | cmd_incoming

datatype i2p_state = read_hello_response | read_connect_response | read_accept_response
  | read_session_create_response | read_name_lookup_response

datatype i2p_op = Start_Read_Line | Read_Line

record i2p_session_options =
  m_inbound_quantity :: int
  m_outbound_quantity :: int
  m_inbound_length :: int
  m_outbound_length :: int

definition default_session_options :: i2p_session_options where
  "default_session_options = \<lparr>m_inbound_quantity = 3, m_outbound_quantity = 3,
     m_inbound_length = 3, m_outbound_length = 3\<rparr>"

record i2p_stream = "i2p_op stream" +
  m_id :: "bytes option"
  m_dest :: bytes
  m_local :: bytes
  m_name_lookup :: bytes
  m_session_options :: i2p_session_options
  i2p_command :: i2p_command
  i2p_state :: i2p_state
  socket_takes :: "nat \<Rightarrow> nat"

definition i2p_set_command :: "i2p_command \<Rightarrow> i2p_stream \<Rightarrow> i2p_stream" where
  "i2p_set_command c s = s\<lparr>i2p_command := c\<rparr>"

definition set_session_options :: "i2p_session_options \<Rightarrow> i2p_stream \<Rightarrow> i2p_stream" where
  "set_session_options opts s = s\<lparr>m_session_options := opts\<rparr>"

definition set_session_id :: "bytes \<Rightarrow> i2p_stream \<Rightarrow> i2p_stream" where
  "set_session_id i s = s\<lparr>m_id := Some i\<rparr>"

definition set_local_i2p_endpoint :: "bytes \<Rightarrow> i2p_stream \<Rightarrow> i2p_stream" where
  "set_local_i2p_endpoint d s = s\<lparr>m_local := d\<rparr>"

definition set_destination :: "bytes \<Rightarrow> i2p_stream \<Rightarrow> i2p_stream" where
  "set_destination d s = s\<lparr>m_dest := d\<rparr>"

definition set_name_lookup :: "bytes \<Rightarrow> i2p_stream \<Rightarrow> i2p_stream" where
  "set_name_lookup n s = s\<lparr>m_name_lookup := n\<rparr>"

section \<open>Printed commands\<close>

text \<open>
  \<open>int size = snprintf(cmd, n, ...)\<close> followed by \<open>async_write\<close> of \<open>size\<close> bytes of the local array \<open>cmd\<close>,
  and the return of the function. \<open>snprintf\<close> cuts the text off and returns its whole length.
\<close>

definition send_printed :: "nat \<Rightarrow> bytes \<Rightarrow> i2p_stream \<Rightarrow> i2p_stream" where
  "send_printed n text s =
     (let size = length text; cmd = take (n - 1) text @ [0]
      in if size > n then s\<lparr>pending := Wild\<rparr>
         else if size > socket_takes s (length (sent s)) then s\<lparr>pending := Wild\<rparr>
         else s\<lparr>pending := Write (take size cmd) Start_Read_Line\<rparr>)"

lemma send_printed_fits:
  "length text < n \<Longrightarrow> length text \<le> socket_takes s (length (sent s)) \<Longrightarrow>
   send_printed n text s = s\<lparr>pending := Write text Start_Read_Line\<rparr>"
  by (simp add: send_printed_def Let_def)

lemma send_printed_lost:
  "n < length text \<or> socket_takes s (length (sent s)) < length text \<Longrightarrow> send_printed n text s = s\<lparr>pending := Wild\<rparr>"
  by (auto simp: send_printed_def Let_def)

definition with_id :: "(bytes \<Rightarrow> i2p_stream) \<Rightarrow> i2p_stream \<Rightarrow> i2p_stream" where
  "with_id f s = (case m_id s of None \<Rightarrow> s\<lparr>pending := Wild\<rparr> | Some i \<Rightarrow> f (bytes_c_str i))"

definition send_name_lookup :: "i2p_stream \<Rightarrow> i2p_stream" where
  "send_name_lookup s =
     (let s1 = s\<lparr>i2p_state := read_name_lookup_response\<rparr>
      in send_printed 1024
           (ascii ''NAMING LOOKUP NAME='' @ bytes_c_str (m_name_lookup s1) @ [10]) s1)"

definition send_connect :: "i2p_stream \<Rightarrow> i2p_stream" where
  "send_connect s =
     (let s1 = s\<lparr>i2p_state := read_connect_response\<rparr>
      in with_id (\<lambda>i. send_printed 1024 (ascii ''STREAM CONNECT ID='' @ i
           @ ascii '' DESTINATION='' @ bytes_c_str (m_dest s1) @ [10]) s1) s1)"

definition send_accept :: "i2p_stream \<Rightarrow> i2p_stream" where
  "send_accept s =
     (let s1 = s\<lparr>i2p_state := read_accept_response\<rparr>
      in with_id (\<lambda>i. send_printed 400 (ascii ''STREAM ACCEPT ID='' @ i @ [10]) s1) s1)"

definition session_create_text :: "bytes \<Rightarrow> i2p_session_options \<Rightarrow> bytes" where
  "session_create_text i opts =
     ascii ''SESSION CREATE STYLE=STREAM ID='' @ i
     @ ascii '' DESTINATION=TRANSIENT SIGNATURE_TYPE=7 i2cp.leaseSetEncType=4,0 ''
     @ ascii ''inbound.quantity='' @ ascii (int_str (m_inbound_quantity opts))
     @ ascii '' outbound.quantity='' @ ascii (int_str (m_outbound_quantity opts))
     @ ascii '' inbound.length='' @ ascii (int_str (m_inbound_length opts))
     @ ascii '' outbound.length='' @ ascii (int_str (m_outbound_length opts)) @ [10]"

definition send_session_create :: "i2p_stream \<Rightarrow> i2p_stream" where
  "send_session_create s =
     (let s1 = s\<lparr>i2p_state := read_session_create_response\<rparr>
      in with_id (\<lambda>i. send_printed 400 (session_create_text i (m_session_options s1)) s1) s1)"

section \<open>Connecting\<close>

definition i2p_async_connect :: "i2p_stream \<Rightarrow> i2p_stream" where
  "i2p_async_connect s = s\<lparr>pending := Resolve\<rparr>"

definition do_connect ::
    "error_code \<Rightarrow> endpoint list \<Rightarrow> error_code \<Rightarrow> i2p_stream \<Rightarrow> i2p_stream" where
  "do_connect e ips open_ec s =
     (if failed e then proxy_close (complete e s)
      else (case ips of
              [] \<Rightarrow> proxy_close (complete e s)
            | i # _ \<Rightarrow> s\<lparr>sock_open := True, pending := Connect i\<rparr>))"

definition hello_text :: bytes where
  "hello_text = ascii ''HELLO VERSION MIN=3.1 MAX=3.1'' @ [10]"

definition i2p_connected :: "error_code \<Rightarrow> i2p_stream \<Rightarrow> i2p_stream" where
  "i2p_connected e = handle_error e (\<lambda>s.
     s\<lparr>i2p_state := read_hello_response, pending := Write hello_text Start_Read_Line\<rparr>)"

definition start_read_line :: "error_code \<Rightarrow> i2p_stream \<Rightarrow> i2p_stream" where
  "start_read_line e = handle_error e (\<lambda>s.
     read_buffer 0 1 Read_Line (s\<lparr>m_buffer := vec_resize 1 (m_buffer s)\<rparr>))"

section \<open>Replies\<close>

type_synonym splitter = "bytes \<Rightarrow> byte \<Rightarrow> bytes \<times> bytes"

text \<open>The documented behaviour of \<open>split_string\<close>.\<close>

definition split_at_sep :: splitter where
  "split_at_sep str sep =
     (takeWhile (\<lambda>b. b \<noteq> sep) str, tl (dropWhile (\<lambda>b. b \<noteq> sep) str))"

definition split_spec :: "splitter \<Rightarrow> bool" where
  "split_spec split \<longleftrightarrow> split = split_at_sep"

fun expected_tokens :: "i2p_state \<Rightarrow> bytes \<times> bytes" where
  "expected_tokens read_hello_response = (ascii ''HELLO'', ascii ''REPLY'')"
| "expected_tokens read_connect_response = (ascii ''STREAM'', ascii ''STATUS'')"
| "expected_tokens read_accept_response = (ascii ''STREAM'', ascii ''STATUS'')"
| "expected_tokens read_session_create_response = (ascii ''SESSION'', ascii ''STATUS'')"
| "expected_tokens read_name_lookup_response = (ascii ''NAMING'', ascii ''REPLY'')"

definition result_code :: "bytes \<Rightarrow> i2p_error_code" where
  "result_code value =
     (if value = ascii ''OK'' then i2p_no_error
      else if value = ascii ''CANT_REACH_PEER'' then cant_reach_peer
      else if value = ascii ''I2P_ERROR'' then i2p_failure
      else if value = ascii ''INVALID_KEY'' then invalid_key
      else if value = ascii ''INVALID_ID'' then invalid_id
      else if value = ascii ''TIMEOUT'' then i2p_timeout
      else if value = ascii ''KEY_NOT_FOUND'' then key_not_found
      else if value = ascii ''DUPLICATED_ID'' then duplicated_id
      else num_errors)"

datatype fields_result = Fields_Done | Fields_Invalid | Fields_Wild | Fields_Fuel

text \<open>What the loop carries: \<open>result\<close>, \<open>m_name_lookup\<close> and \<open>m_dest\<close>.\<close>

type_synonym reply_values = "i2p_error_code \<times> bytes \<times> bytes"

fun set_field :: "bytes \<Rightarrow> bytes \<Rightarrow> reply_values \<Rightarrow> reply_values" where
  "set_field name value (result, nl, dest) =
     (if name = ascii ''RESULT'' then (result_code value, nl, dest)
      else if name = ascii ''VALUE'' then (result, value, dest)
      else if name = ascii ''DESTINATION'' then (result, nl, value)
      else (result, nl, dest))"

fun fields_loop :: "splitter \<Rightarrow> nat \<Rightarrow> bytes \<Rightarrow> reply_values \<Rightarrow> fields_result \<times> reply_values" where
  "fields_loop split 0 remaining vals = (Fields_Fuel, vals)"
| "fields_loop split (Suc fuel) remaining vals =
     (case split remaining 61 of (name, remaining1) \<Rightarrow>
        (if name = [] then (Fields_Done, vals)
         else (case remaining1 of
                 [] \<Rightarrow> (Fields_Wild, vals)
               | c # rest \<Rightarrow>
                   (if c = 34
                    then (case split rest 34 of (value, remaining2) \<Rightarrow>
                            (if value = [] then (Fields_Invalid, vals)
                             else if butlast value = [] then (Fields_Invalid, vals)
                             else fields_loop split fuel remaining2 (set_field name (butlast value) vals)))
                    else (case split remaining1 32 of (value, remaining2) \<Rightarrow>
                            (if value = [] then (Fields_Invalid, vals)
                             else fields_loop split fuel remaining2 (set_field name value vals)))))))"

text \<open>What a complete reply without an error leads to.\<close>

definition reply_ok :: "error_code \<Rightarrow> i2p_stream \<Rightarrow> i2p_stream" where
  "reply_ok ec s =
     (case i2p_state s of
        read_hello_response \<Rightarrow>
          (case i2p_command s of
             cmd_create_session \<Rightarrow> send_session_create s
           | cmd_accept \<Rightarrow> send_accept s
           | cmd_connect \<Rightarrow> send_connect s
           | _ \<Rightarrow> (complete ec s)\<lparr>m_buffer := []\<rparr>)
      | read_accept_response \<Rightarrow>
          read_buffer 0 1 Read_Line
            (s\<lparr>i2p_command := cmd_incoming, m_buffer := vec_resize 1 (m_buffer s)\<rparr>)
      | _ \<Rightarrow> (complete ec s)\<lparr>m_buffer := []\<rparr>)"

definition invalid_response :: "i2p_stream \<Rightarrow> i2p_stream" where
  "invalid_response s = proxy_close (complete (I2P parse_failed) s)"

definition parse_reply :: "splitter \<Rightarrow> i2p_stream \<Rightarrow> i2p_stream" where
  "parse_reply split s =
     (let remaining = butlast (m_buffer s)
      in case expected_tokens (i2p_state s) of (expect1, expect2) \<Rightarrow>
         (case split remaining 32 of (token, remaining1) \<Rightarrow>
            (if expect1 = [] \<or> expect1 \<noteq> token then invalid_response s
             else (case split remaining1 32 of (token2, remaining2) \<Rightarrow>
                (if expect2 = [] \<or> expect2 \<noteq> token2 then invalid_response s
                 else (case fields_loop split (Suc (length remaining2)) remaining2
                              (i2p_no_error, m_name_lookup s, m_dest s) of
                   (r, result, nl, dest) \<Rightarrow>
                     (let s1 = s\<lparr>m_name_lookup := nl, m_dest := dest\<rparr>
                      in case r of
                           Fields_Invalid \<Rightarrow> invalid_response s1
                         | Fields_Wild \<Rightarrow> s1\<lparr>pending := Wild\<rparr>
                         | Fields_Fuel \<Rightarrow> s1\<lparr>pending := Wild\<rparr>
                         | Fields_Done \<Rightarrow>
                             (let ec = I2P result
                              in if failed ec then complete ec s1 else reply_ok ec s1))))))))"

definition read_line :: "splitter \<Rightarrow> error_code \<Rightarrow> i2p_stream \<Rightarrow> i2p_stream" where
  "read_line split e = handle_error e (\<lambda>s.
     (let read_pos = length (m_buffer s)
      in if m_buffer s = [] then s\<lparr>pending := Wild\<rparr>
         else if m_buffer s ! (read_pos - 1) \<noteq> 10
         then read_buffer read_pos 1 Read_Line (s\<lparr>m_buffer := vec_resize (read_pos + 1) (m_buffer s)\<rparr>)
         else (let s1 = s\<lparr>m_buffer := (m_buffer s)[read_pos - 1 := 0]\<rparr>
               in if i2p_command s1 = cmd_incoming
                  then (complete e (s1\<lparr>m_dest := bytes_c_str (m_buffer s1)\<rparr>))\<lparr>m_buffer := []\<rparr>
                  else parse_reply split s1)))"

fun i2p_io :: "splitter \<Rightarrow> i2p_op \<Rightarrow> error_code \<Rightarrow> i2p_stream \<Rightarrow> i2p_stream" where
  "i2p_io split Start_Read_Line = start_read_line"
| "i2p_io split Read_Line = read_line split"

definition i2p_step :: "splitter \<Rightarrow> i2p_stream \<Rightarrow> stream_event \<Rightarrow> i2p_stream" where
  "i2p_step split = deliver do_connect i2p_connected (i2p_io split)"

section \<open>One completion per connect\<close>

definition i2p_op_ok :: "i2p_stream \<Rightarrow> bool" where
  "i2p_op_ok s =
     (case pending s of
        Write b k \<Rightarrow> k = Start_Read_Line
      | Read off n k \<Rightarrow> k = Read_Line \<and> n = 1 \<and> length (m_buffer s) = off + 1
      | _ \<Rightarrow> True)"

definition i2p_calls :: "i2p_stream \<Rightarrow> nat" where
  "i2p_calls s = length (completions s)"

definition i2p_progress :: "i2p_stream \<Rightarrow> i2p_stream \<Rightarrow> bool" where
  "i2p_progress s s' \<longleftrightarrow> i2p_op_ok s' \<and>
     i2p_calls s' = i2p_calls s + (if finished s' then 1 else 0)"

lemmas i2p_progress_defs = i2p_progress_def i2p_op_ok_def i2p_calls_def finished_def

lemma i2p_progress_frame [simp]:
  "i2p_progress (s\<lparr>m_buffer := b\<rparr>) = i2p_progress s"
  "i2p_progress (s\<lparr>i2p_state := x\<rparr>) = i2p_progress s"
  "i2p_progress (s\<lparr>i2p_command := c\<rparr>) = i2p_progress s"
  "i2p_progress (s\<lparr>m_name_lookup := n\<rparr>) = i2p_progress s"
  "i2p_progress (s\<lparr>m_dest := d\<rparr>) = i2p_progress s"
  "i2p_progress (s\<lparr>sent := t\<rparr>) = i2p_progress s"
  by (rule ext, simp add: i2p_progress_defs)+

lemma i2p_progress_error:
  "(\<not> failed e \<Longrightarrow> i2p_progress s (k s)) \<Longrightarrow> i2p_progress s (handle_error e k s)"
  by (auto simp: i2p_progress_defs handle_error_def)

lemma i2p_progress_send:
  "i2p_progress s (send_printed n text s)" "i2p_progress s (s\<lparr>pending := Wild\<rparr>)"
  "i2p_progress s (complete e s)" "i2p_progress s ((complete e s)\<lparr>m_buffer := b\<rparr>)"
  "i2p_progress s (proxy_close (complete e s))"
  by (simp_all add: i2p_progress_defs send_printed_def Let_def)

lemma i2p_progress_with_id:
  "(\<And>i. i2p_progress s (f i)) \<Longrightarrow> i2p_progress s (with_id f s)"
  by (simp add: with_id_def i2p_progress_send split: option.split)

lemma i2p_progress_commands:
  "i2p_progress s (send_session_create s)" "i2p_progress s (send_accept s)"
  "i2p_progress s (send_connect s)" "i2p_progress s (send_name_lookup s)"
proof -
  have f: "i2p_progress s (t (s\<lparr>i2p_state := x\<rparr>))" if "\<And>u. i2p_progress u (t u)" for t x
    using that [of "s\<lparr>i2p_state := x\<rparr>"] by simp
  show "i2p_progress s (send_session_create s)" "i2p_progress s (send_accept s)"
    "i2p_progress s (send_connect s)" "i2p_progress s (send_name_lookup s)"
    unfolding send_session_create_def send_accept_def send_connect_def send_name_lookup_def Let_def
    by (rule f, intro i2p_progress_with_id i2p_progress_send)+
qed

lemma i2p_progress_read:
  "length b = off + 1 \<Longrightarrow> i2p_progress s (read_buffer off 1 Read_Line (s\<lparr>m_buffer := b\<rparr>))"
  "length b = off + 1 \<Longrightarrow> i2p_progress s (read_buffer off 1 Read_Line (s\<lparr>i2p_command := c, m_buffer := b\<rparr>))"
  by (simp_all add: i2p_progress_defs read_buffer_def)

lemma i2p_progress_reply_ok: "i2p_progress s (reply_ok ec s)"
  by (simp add: reply_ok_def i2p_progress_commands i2p_progress_send
      i2p_progress_read(2) [of _ 0, simplified] split: i2p_state.split i2p_command.split)

lemma i2p_progress_parse: "i2p_progress s (parse_reply split s)"
proof -
  let ?t = "\<lambda>nl dest. s\<lparr>m_name_lookup := nl, m_dest := dest\<rparr>"
  have "i2p_progress s (invalid_response (?t nl dest))" "i2p_progress s ((?t nl dest)\<lparr>pending := Wild\<rparr>)"
    "i2p_progress s (complete e (?t nl dest))" "i2p_progress s (reply_ok e (?t nl dest))" for nl dest e
    using i2p_progress_send(2,3,5) [of "?t nl dest"] i2p_progress_reply_ok [of "?t nl dest" e]
    by (simp_all add: invalid_response_def)
  moreover have "i2p_progress s (invalid_response s)"
    by (simp add: invalid_response_def i2p_progress_send)
  ultimately show ?thesis
    by (auto simp: parse_reply_def Let_def split: prod.split fields_result.split)
qed

lemma i2p_progress_read_line: "i2p_progress s (read_line split e s)"
proof -
  have b: "i2p_progress s (parse_reply split (s\<lparr>m_buffer := b\<rparr>))" for b
    using i2p_progress_parse [of "s\<lparr>m_buffer := b\<rparr>" split] by simp
  have c: "i2p_progress s ((complete e (s\<lparr>m_buffer := b, m_dest := d\<rparr>))\<lparr>m_buffer := []\<rparr>)" for b d
    using i2p_progress_send(4) [of "s\<lparr>m_buffer := b, m_dest := d\<rparr>" "[]" e] by simp
  show ?thesis
    unfolding read_line_def
    by (rule i2p_progress_error)
      (simp add: Let_def b c i2p_progress_send i2p_progress_read [simplified])
qed

lemma i2p_progress_handlers:
  "i2p_progress s (do_connect e ips oec s)" "i2p_progress s (i2p_connected e s)"
  "i2p_progress s (i2p_io split k e s)"
proof -
  show "i2p_progress s (do_connect e ips oec s)"
    by (auto simp: do_connect_def i2p_progress_send split: list.split) (simp add: i2p_progress_defs)
  show "i2p_progress s (i2p_connected e s)"
    unfolding i2p_connected_def by (rule i2p_progress_error) (simp add: i2p_progress_defs)
  show "i2p_progress s (i2p_io split k e s)"
  proof (cases k)
    case Start_Read_Line
    then show ?thesis
      by (simp add: start_read_line_def) (rule i2p_progress_error, simp add: i2p_progress_read(1) [of _ 0, simplified])
  next
    case Read_Line
    then show ?thesis by (simp add: i2p_progress_read_line)
  qed
qed

lemma i2p_step_progress:
  assumes "answers (pending s) ev"
  shows "i2p_progress s (i2p_step split s ev)"
proof -
  have io: "i2p_progress s (i2p_io split k e (s\<lparr>m_buffer := b\<rparr>))"
    "i2p_progress s (i2p_io split k e (s\<lparr>sent := t\<rparr>))" for k e b t
    using i2p_progress_handlers(3) [of "s\<lparr>m_buffer := b\<rparr>" split k e]
      i2p_progress_handlers(3) [of "s\<lparr>sent := t\<rparr>" split k e] by simp_all
  show ?thesis
    using assms
    by (cases "pending s"; cases ev)
      (auto simp: i2p_step_def deliver_def answers_def i2p_progress_handlers io)
qed

interpretation i2p: one_shot "i2p_step split" i2p_op_ok finished i2p_calls for split
proof
  fix s :: i2p_stream and ev assume inv: "i2p_op_ok s"
  have idle: "i2p_step split s ev = s" if "\<not> answers (pending s) ev"
    using that by (simp add: i2p_step_def deliver_ignored)
  have p: "i2p_progress s (i2p_step split s ev)" if "answers (pending s) ev"
    using i2p_step_progress [OF that] .
  show "i2p_op_ok (i2p_step split s ev)"
    using idle p inv by (cases "answers (pending s) ev") (simp_all add: i2p_progress_def)
  show "i2p_step split s ev = s" if "finished s"
    using that by (intro idle) (simp add: finished_def answers_def)
  show "i2p_calls (i2p_step split s ev) = i2p_calls s + (if finished (i2p_step split s ev) then 1 else 0)"
    if "\<not> finished s"
    using idle p that by (cases "answers (pending s) ev") (simp_all add: i2p_progress_def)
qed

text \<open>
  After \<open>async_connect\<close> of an I2P stream the user's handler is called at most once, whatever
  the SAM bridge answers and however a reply is split up: exactly once when the stream has
  finished, after which events change nothing.
\<close>

lemma i2p_completes_once:
  "let s' = foldl (i2p_step split) (i2p_async_connect s) evs in
    length (completions s') = length (completions s) + (if finished s' then 1 else 0)
    \<and> (if finished s' then foldl (i2p_step split) s' later = s' else True)"
proof -
  have inv: "i2p_op_ok (i2p_async_connect s)" and nf: "\<not> finished (i2p_async_connect s)"
    and c: "i2p_calls (i2p_async_connect s) = i2p_calls s"
    by (simp_all add: i2p_async_connect_def i2p_op_ok_def finished_def i2p_calls_def)
  let ?s = "foldl (i2p_step split) (i2p_async_connect s) evs"
  have "i2p_calls ?s = i2p_calls s + (if finished ?s then 1 else 0)"
    using i2p.calls_run [OF inv nf, of split evs] c by simp
  moreover have "finished ?s \<Longrightarrow> foldl (i2p_step split) ?s later = ?s"
    using i2p.finished_run [OF i2p.inv_run [OF inv, of split evs]] by blast
  ultimately show ?thesis by (simp add: i2p_calls_def Let_def)
qed

section \<open>Parsing a reply\<close>

definition i2p_field :: "bytes \<times> bytes \<Rightarrow> bytes" where
  "i2p_field f = fst f @ [61] @ snd f"

fun i2p_fields :: "(bytes \<times> bytes) list \<Rightarrow> bytes" where
  "i2p_fields [] = []"
| "i2p_fields [f] = i2p_field f"
| "i2p_fields (f # fs) = i2p_field f @ [32] @ i2p_fields fs"

definition plain_field :: "bytes \<times> bytes \<Rightarrow> bool" where
  "plain_field f \<longleftrightarrow> fst f \<noteq> [] \<and> 61 \<notin> set (fst f) \<and> snd f \<noteq> [] \<and> 32 \<notin> set (snd f) \<and> hd (snd f) \<noteq> 34"

definition set_fields :: "(bytes \<times> bytes) list \<Rightarrow> reply_values \<Rightarrow> reply_values" where
  "set_fields fs vals = foldl (\<lambda>v f. set_field (fst f) (snd f) v) vals fs"

lemma split_here [simp]: "sep \<notin> set a \<Longrightarrow> split_at_sep (a @ sep # b) sep = (a, b)"
  by (induction a) (auto simp: split_at_sep_def)

lemma split_none [simp]: "sep \<notin> set a \<Longrightarrow> split_at_sep a sep = (a, [])"
  by (induction a) (auto simp: split_at_sep_def)

lemma fields_loop_step:
  assumes "plain_field f" "rest = [] \<or> (\<exists>q. rest = 32 # q)"
  shows "fields_loop split_at_sep (Suc fuel) (i2p_field f @ rest) vals =
    fields_loop split_at_sep fuel (tl rest) (set_field (fst f) (snd f) vals)"
proof -
  obtain n c v where f: "f = (n, c # v)" "n \<noteq> []" "61 \<notin> set n" "32 \<notin> set (c # v)" "c \<noteq> 34"
    using assms(1) by (cases f; cases "snd f") (auto simp: plain_field_def)
  have "split_at_sep (c # v @ rest) 32 = (c # v, tl rest)"
    using assms(2) f(4) split_here [of 32 "c # v"] split_none [of 32 "c # v"] by auto
  with f show ?thesis by (simp add: i2p_field_def)
qed

lemma fields_loop_fields:
  "list_all plain_field fs \<Longrightarrow> length (i2p_fields fs) < fuel \<Longrightarrow>
   fields_loop split_at_sep fuel (i2p_fields fs) vals = (Fields_Done, set_fields fs vals)"
proof (induction fs arbitrary: fuel vals rule: i2p_fields.induct)
  case 1
  then show ?case by (cases fuel) (simp_all add: set_fields_def)
next
  case (2 f)
  then obtain k where k: "fuel = Suc (Suc k)"
    by (cases fuel; cases "fuel - 1") (auto simp: i2p_field_def)
  with 2 fields_loop_step [of f "[]" "Suc k" vals] show ?case by (simp add: set_fields_def)
next
  case (3 f g fs)
  then obtain k where k: "fuel = Suc k" by (cases fuel) auto
  from 3 k have "fields_loop split_at_sep fuel (i2p_fields (f # g # fs)) vals =
      fields_loop split_at_sep k (i2p_fields (g # fs)) (set_field (fst f) (snd f) vals)"
    using fields_loop_step [of f "32 # i2p_fields (g # fs)" k vals] by simp
  also have "\<dots> = (Fields_Done, set_fields (g # fs) (set_field (fst f) (snd f) vals))"
    using 3 k by (intro 3) simp_all
  finally show ?case by (simp add: set_fields_def)
qed

definition reply_line :: "i2p_state \<Rightarrow> (bytes \<times> bytes) list \<Rightarrow> bytes" where
  "reply_line st fs =
     fst (expected_tokens st) @ [32] @ snd (expected_tokens st) @ [32] @ i2p_fields fs"

lemma expected_tokens_plain:
  "32 \<notin> set (fst (expected_tokens st))" "32 \<notin> set (snd (expected_tokens st))"
  "fst (expected_tokens st) \<noteq> []" "snd (expected_tokens st) \<noteq> []"
  by (cases st; simp add: ascii_def)+

lemma parse_reply_line:
  assumes "list_all plain_field fs" "m_buffer s = reply_line (i2p_state s) fs @ [0]"
    "set_fields fs (i2p_no_error, m_name_lookup s, m_dest s) = (result, nl, dest)"
  shows "parse_reply split_at_sep s =
    (if result = i2p_no_error then reply_ok (I2P i2p_no_error) (s\<lparr>m_name_lookup := nl, m_dest := dest\<rparr>)
     else complete (I2P result) (s\<lparr>m_name_lookup := nl, m_dest := dest\<rparr>))"
proof -
  obtain e1 e2 where e: "expected_tokens (i2p_state s) = (e1, e2)" by fastforce
  with expected_tokens_plain [of "i2p_state s"]
  have p: "32 \<notin> set e1" "32 \<notin> set e2" "e1 \<noteq> []" "e2 \<noteq> []" by simp_all
  from p have 1: "split_at_sep (butlast (m_buffer s)) 32 = (e1, e2 @ 32 # i2p_fields fs)"
    by (simp add: assms(2) reply_line_def e butlast_append)
  from p have 2: "split_at_sep (e2 @ 32 # i2p_fields fs) 32 = (e2, i2p_fields fs)" by simp
  have 3: "fields_loop split_at_sep (Suc (length (i2p_fields fs))) (i2p_fields fs)
      (i2p_no_error, m_name_lookup s, m_dest s) = (Fields_Done, result, nl, dest)"
    using fields_loop_fields [OF assms(1), of "Suc (length (i2p_fields fs))"] assms(3)
    by (simp del: fields_loop.simps)
  show ?thesis
    using p by (simp add: parse_reply_def Let_def e 1 2 3 del: fields_loop.simps)
qed

section \<open>Reading a line\<close>

definition i2p_waiting :: "i2p_stream \<Rightarrow> bytes \<Rightarrow> byte \<Rightarrow> i2p_stream" where
  "i2p_waiting s buf x = s\<lparr>m_buffer := buf @ [x], pending := Read (length buf) 1 Read_Line\<rparr>"

definition line_read :: "splitter \<Rightarrow> i2p_stream \<Rightarrow> bytes \<Rightarrow> i2p_stream" where
  "line_read split s line =
     (let s1 = s\<lparr>m_buffer := line @ [0], pending := Read (length line) 1 Read_Line\<rparr>
      in if i2p_command s1 = cmd_incoming
         then (complete Success (s1\<lparr>m_dest := bytes_c_str (m_buffer s1)\<rparr>))\<lparr>m_buffer := []\<rparr>
         else parse_reply split s1)"

lemma i2p_step_byte:
  "i2p_step split (i2p_waiting s buf x) (ReadDone Success [b]) =
     read_line split Success (s\<lparr>m_buffer := buf @ [b], pending := Read (length buf) 1 Read_Line\<rparr>)"
proof -
  have "store_at (length buf) [b] (buf @ [x]) = buf @ [b]" by (simp add: store_at_def)
  then show ?thesis by (cases s) (simp add: i2p_step_def deliver_def i2p_waiting_def)
qed

lemma i2p_step_more:
  "b \<noteq> 10 \<Longrightarrow> i2p_step split (i2p_waiting s buf x) (ReadDone Success [b]) = i2p_waiting s (buf @ [b]) 0"
  unfolding i2p_step_byte
  by (cases s) (simp add: read_line_def handle_error_def Let_def read_buffer_def i2p_waiting_def vec_resize_def)

lemma i2p_step_newline:
  "i2p_step split (i2p_waiting s buf x) (ReadDone Success [10]) = line_read split s buf"
  unfolding i2p_step_byte
  by (cases s) (simp add: read_line_def handle_error_def Let_def line_read_def)

definition line_events :: "bytes \<Rightarrow> stream_event list" where
  "line_events line = map (\<lambda>b. ReadDone Success [b]) (line @ [10])"

lemma read_whole_line:
  "10 \<notin> set line \<Longrightarrow>
   foldl (i2p_step split) (i2p_waiting s buf x) (line_events line) = line_read split s (buf @ line)"
  by (induction line arbitrary: buf x) (simp_all add: line_events_def i2p_step_newline i2p_step_more)

text \<open>
  Reading a reply of the SAM bridge: when the bytes of a line with the expected first two
  words and plain \<open>NAME=value\<close> fields arrive one by one, the stream takes over the values of
  \<open>VALUE\<close> and \<open>DESTINATION\<close> and goes on as for \<open>RESULT=OK\<close>, or calls the handler with the error that
  \<open>RESULT\<close> names. The fuel of the field loop never runs out.
\<close>

lemma i2p_reply_effect:
  assumes "split_spec split" "list_all plain_field fs" "10 \<notin> set (reply_line (i2p_state s) fs)"
    "i2p_command s \<noteq> cmd_incoming"
    "set_fields fs (i2p_no_error, m_name_lookup s, m_dest s) = (result, nl, dest)"
  shows "let s' = foldl (i2p_step split) (i2p_waiting s [] x) (line_events (reply_line (i2p_state s) fs));
      t = s\<lparr>m_buffer := reply_line (i2p_state s) fs @ [0],
            pending := Read (length (reply_line (i2p_state s) fs)) 1 Read_Line,
            m_name_lookup := nl, m_dest := dest\<rparr>
    in s' = (if result = i2p_no_error then reply_ok (I2P i2p_no_error) t else complete (I2P result) t)"
proof -
  have sp: "split = split_at_sep" using assms(1) by (simp add: split_spec_def)
  let ?l = "reply_line (i2p_state s) fs"
  let ?u = "s\<lparr>m_buffer := ?l @ [0], pending := Read (length ?l) 1 Read_Line\<rparr>"
  have "foldl (i2p_step split) (i2p_waiting s [] x) (line_events ?l) = parse_reply split_at_sep ?u"
    using read_whole_line [OF assms(3), of split s "[]" x] assms(4) by (simp add: line_read_def Let_def sp)
  also have "\<dots> = (if result = i2p_no_error
      then reply_ok (I2P i2p_no_error) (?u\<lparr>m_name_lookup := nl, m_dest := dest\<rparr>)
      else complete (I2P result) (?u\<lparr>m_name_lookup := nl, m_dest := dest\<rparr>))"
    using assms(2,5) by (intro parse_reply_line) simp_all
  finally show ?thesis by (simp add: Let_def)
qed

section \<open>Complete dialogues\<close>

definition accepted_fields :: "(bytes \<times> bytes) list \<Rightarrow> i2p_state \<Rightarrow> bool" where
  "accepted_fields fs st \<longleftrightarrow> list_all plain_field fs \<and> 10 \<notin> set (reply_line st fs) \<and>
     fst (set_fields fs (i2p_no_error, [], [])) = i2p_no_error"

lemma set_fields_result: "fst (set_fields fs (r, nl, dest)) = fst (set_fields fs (r, [], []))"
proof -
  have "fst v = fst w \<Longrightarrow> fst (set_fields fs v) = fst (set_fields fs w)" for v w
  proof (induction fs arbitrary: v w)
    case (Cons f fs)
    have "fst (set_field n x v) = fst (set_field n x w)" for n x
      using Cons.prems by (cases v; cases w) simp
    with Cons.IH [of "set_field (fst f) (snd f) v" "set_field (fst f) (snd f) w"]
    show ?case by (simp add: set_fields_def)
  qed (simp add: set_fields_def)
  then show ?thesis by simp
qed

definition command_text :: "i2p_stream \<Rightarrow> bytes \<Rightarrow> bytes" where
  "command_text s i =
     (case i2p_command s of
        cmd_create_session \<Rightarrow> session_create_text i (m_session_options s)
      | cmd_connect \<Rightarrow> ascii ''STREAM CONNECT ID='' @ i @ ascii '' DESTINATION='' @ bytes_c_str (m_dest s) @ [10]
      | _ \<Rightarrow> ascii ''STREAM ACCEPT ID='' @ i @ [10])"

fun reply_state :: "i2p_command \<Rightarrow> i2p_state" where
  "reply_state cmd_create_session = read_session_create_response"
| "reply_state cmd_connect = read_connect_response"
| "reply_state c = read_accept_response"

text \<open>A write that completed and the reply to it.\<close>

definition exchange :: "bytes \<Rightarrow> stream_event list" where
  "exchange line = Written Success # line_events line"

lemma vec_resize_1: "\<exists>x. vec_resize 1 buf = [x]"
  by (metis length_Suc_conv length_vec_resize list.size(3) One_nat_def length_0_conv)

lemma exchange_line:
  assumes "pending s = Write b Start_Read_Line" "10 \<notin> set line"
  shows "foldl (i2p_step split) s (exchange line) = line_read split (s\<lparr>sent := sent s @ [b]\<rparr>) line"
proof -
  obtain x where x: "vec_resize (Suc 0) (m_buffer s) = [x]" using vec_resize_1 [of "m_buffer s"] by auto
  have "i2p_step split s (Written Success) = i2p_waiting (s\<lparr>sent := sent s @ [b]\<rparr>) [] x"
    using assms(1) x
    by (simp add: i2p_step_def deliver_def start_read_line_def handle_error_def read_buffer_def i2p_waiting_def)
  with assms(2) read_whole_line [of line split "s\<lparr>sent := sent s @ [b]\<rparr>" "[]" x] show ?thesis
    by (simp add: exchange_def)
qed

lemma exchange_accepted:
  assumes "pending s = Write b Start_Read_Line" "accepted_fields fs (i2p_state s)"
    "i2p_command s \<noteq> cmd_incoming"
  shows "\<exists>buf p nl dest. foldl (i2p_step split_at_sep) s (exchange (reply_line (i2p_state s) fs)) =
     reply_ok (I2P i2p_no_error) (s\<lparr>sent := sent s @ [b], m_buffer := buf, pending := p,
       m_name_lookup := nl, m_dest := dest\<rparr>)
     \<and> set_fields fs (i2p_no_error, m_name_lookup s, m_dest s) = (i2p_no_error, nl, dest)"
proof -
  from assms(2) have a: "list_all plain_field fs" "10 \<notin> set (reply_line (i2p_state s) fs)"
    "\<And>nl dest. fst (set_fields fs (i2p_no_error, nl, dest)) = i2p_no_error"
    using set_fields_result [of fs i2p_no_error] by (simp_all add: accepted_fields_def)
  obtain r nl dest where v: "set_fields fs (i2p_no_error, m_name_lookup s, m_dest s) = (r, nl, dest)"
    by (metis prod_cases3)
  with a(3) [of "m_name_lookup s" "m_dest s"] have r: "r = i2p_no_error" by simp
  let ?l = "reply_line (i2p_state s) fs"
  let ?u = "s\<lparr>sent := sent s @ [b], m_buffer := ?l @ [0], pending := Read (length ?l) 1 Read_Line\<rparr>"
  have "foldl (i2p_step split_at_sep) s (exchange ?l) = parse_reply split_at_sep ?u"
    using exchange_line [OF assms(1) a(2)] assms(3) by (simp add: line_read_def Let_def)
  also have "\<dots> = reply_ok (I2P i2p_no_error) (?u\<lparr>m_name_lookup := nl, m_dest := dest\<rparr>)"
    using parse_reply_line [of fs ?u r nl dest] a(1) v r by simp
  finally show ?thesis using v r by blast
qed

fun command_room :: "i2p_command \<Rightarrow> nat" where
  "command_room cmd_connect = 1024"
| "command_room c = 400"

definition dialogue_commands :: "i2p_command list" where
  "dialogue_commands = [cmd_create_session, cmd_connect, cmd_accept]"

lemma hello_phase:
  "foldl (i2p_step split) (i2p_async_connect s) [Resolved Success (ep # eps) oec, Connected Success] =
   s\<lparr>sock_open := True, pending := Write hello_text Start_Read_Line, i2p_state := read_hello_response\<rparr>"
  by (cases s) (simp add: i2p_async_connect_def i2p_step_def deliver_def do_connect_def i2p_connected_def
      handle_error_def)

lemma hello_accepted:
  assumes "i2p_command s \<in> set dialogue_commands" "i2p_state s = read_hello_response" "m_id s = Some i"
  shows "reply_ok (I2P i2p_no_error) s = send_printed (command_room (i2p_command s))
    (command_text s (bytes_c_str i)) (s\<lparr>i2p_state := reply_state (i2p_command s)\<rparr>)"
  using assms
  by (auto simp: dialogue_commands_def reply_ok_def send_session_create_def send_accept_def send_connect_def
      Let_def with_id_def command_text_def)

lemma wild_stays: "pending s = Wild \<Longrightarrow> foldl (i2p_step split) s evs = s"
  by (induction evs) (simp_all add: i2p_step_def deliver_def)

lemma status_accepted:
  assumes "i2p_command s \<in> set dialogue_commands" "i2p_state s = reply_state (i2p_command s)"
    "10 \<notin> set peer" "bytes_c_str (peer @ [0]) = d"
  shows "(if i2p_command s = cmd_accept
      then foldl (i2p_step split) (reply_ok (I2P i2p_no_error) s) (line_events peer) =
        (complete Success (s\<lparr>i2p_command := cmd_incoming, m_dest := d\<rparr>))\<lparr>m_buffer := []\<rparr>
      else reply_ok (I2P i2p_no_error) s = (complete (I2P i2p_no_error) s)\<lparr>m_buffer := []\<rparr>)"
proof (cases "i2p_command s = cmd_accept")
  case True
  obtain x where x: "vec_resize (Suc 0) (m_buffer s) = [x]" using vec_resize_1 [of "m_buffer s"] by auto
  have "reply_ok (I2P i2p_no_error) s = i2p_waiting (s\<lparr>i2p_command := cmd_incoming\<rparr>) [] x"
    using True assms(2) x by (simp add: reply_ok_def read_buffer_def i2p_waiting_def)
  with read_whole_line [OF assms(3), of split "s\<lparr>i2p_command := cmd_incoming\<rparr>" "[]" x] True assms(4)
  show ?thesis by (simp add: line_read_def Let_def complete_def)
next
  case False
  with assms(1,2) show ?thesis by (auto simp: dialogue_commands_def reply_ok_def)
qed

definition dialogue_events ::
    "i2p_command \<Rightarrow> endpoint \<Rightarrow> endpoint list \<Rightarrow> error_code \<Rightarrow> bytes \<Rightarrow> bytes \<Rightarrow> bytes \<Rightarrow> stream_event list" where
  "dialogue_events c ep eps oec hello status peer =
     [Resolved Success (ep # eps) oec, Connected Success] @ exchange hello @ exchange status
     @ (if c = cmd_accept then line_events peer else [])"



section \<open>Quoted values\<close>

definition quoted_field :: "bytes \<Rightarrow> bytes \<Rightarrow> bytes" where
  "quoted_field name value = name @ [61, 34] @ value @ [34]"

lemma fields_loop_quoted:
  assumes "name \<noteq> []" "61 \<notin> set name" "34 \<notin> set value" "2 \<le> length value"
  shows "fields_loop split_at_sep (Suc fuel) (quoted_field name value @ rest) vals =
    fields_loop split_at_sep fuel rest (set_field name (butlast value) vals)"
proof -
  obtain c d v where v: "value = c # d # v"
    using assms(4) by (metis Suc_le_length_iff numeral_2_eq_2)
  have "split_at_sep (value @ 34 # rest) 34 = (value, rest)" using assms(3) by simp
  then have "split_at_sep (c # d # v @ 34 # rest) 34 = (c # d # v, rest)" by (simp add: v)
  with assms(1,2) show ?thesis by (simp add: quoted_field_def v)
qed

text \<open>
  A quoted result: the code removes one character more than the quotes, so the error code of a
  reply \<open>RESULT="value"\<close> is that of the value without its last character; a quoted \<open>OK\<close> is an
  unknown error.
\<close>

lemma i2p_quoted_result:
  assumes "split_spec split" "34 \<notin> set value" "2 \<le> length value"
    "m_buffer s = fst (expected_tokens (i2p_state s)) @ [32] @ snd (expected_tokens (i2p_state s)) @ [32]
      @ quoted_field (ascii ''RESULT'') value @ [0]"
  shows "parse_reply split s =
      (if result_code (butlast value) = i2p_no_error then reply_ok (I2P i2p_no_error) s
       else complete (I2P (result_code (butlast value))) s)
    \<and> result_code (butlast (ascii ''OK'')) = num_errors"
proof
  have sp: "split = split_at_sep" using assms(1) by (simp add: split_spec_def)
  obtain e1 e2 where e: "expected_tokens (i2p_state s) = (e1, e2)" by fastforce
  with expected_tokens_plain [of "i2p_state s"]
  have p: "32 \<notin> set e1" "32 \<notin> set e2" "e1 \<noteq> []" "e2 \<noteq> []" by simp_all
  let ?q = "quoted_field (ascii ''RESULT'') value"
  from p have 1: "split_at_sep (butlast (m_buffer s)) 32 = (e1, e2 @ 32 # ?q)"
    by (simp add: assms(4) e butlast_append)
  from p have 2: "split_at_sep (e2 @ 32 # ?q) 32 = (e2, ?q)" by simp
  have q: "length ?q = Suc (length ?q - 1)" by (simp add: quoted_field_def)
  have "fields_loop split_at_sep (Suc (length ?q)) (?q @ []) vals =
      fields_loop split_at_sep (length ?q) [] (set_field (ascii ''RESULT'') (butlast value) vals)" for vals
    by (rule fields_loop_quoted) (use assms(2,3) in \<open>simp_all add: ascii_def\<close>)
  moreover have "fields_loop split_at_sep (length ?q) [] vals = (Fields_Done, vals)" for vals
    by (subst q) (simp add: split_at_sep_def)
  ultimately have 3: "fields_loop split_at_sep (Suc (length ?q)) ?q (r, nl, dest) =
      (Fields_Done, result_code (butlast value), nl, dest)" for r nl dest
    by (simp add: ascii_def del: fields_loop.simps)
  show "parse_reply split s = (if result_code (butlast value) = i2p_no_error then reply_ok (I2P i2p_no_error) s
       else complete (I2P (result_code (butlast value))) s)"
    unfolding sp using p by (simp add: parse_reply_def Let_def e 1 2 3 del: fields_loop.simps)
  show "result_code (butlast (ascii ''OK'')) = num_errors" by (simp add: result_code_def ascii_def)
qed

end
