(* ===== verification/Bencode.thy ===== *)
theory Bencode
  imports Byte_IO Byte_Text
begin

text \<open>
  \<open>libtorrent/bencode.hpp\<close>: writing an \<open>entry\<close> in bencoded form through an output iterator and
  reading it back. An \<open>entry\<close> (\<open>entry.hpp\<close>) is a datatype; its dictionary, a \<open>std::map\<close> ordered by
  \<open>strview_less\<close>, is the list of its pairs in that order. The prebuilt library implements
  \<open>integer_to_str\<close> and the non-const \<open>entry::operator[]\<close>; they are the parameters \<open>entry_lib\<close>, with
  their documented behaviour \<open>entry_lib_spec\<close>.

  The decoder reads from the list of the bytes that are left. \<open>Decode_Wild\<close> is reading \<open>*in\<close> at the
  end of the input or a length that does not fit an \<open>int\<close>. It has fuel, which \<open>bdecode\<close> sets to
  twice the length of the input and one; \<open>decode_fuel\<close> shows that this is never used up.
\<close>

section \<open>Entries\<close>

datatype entry = Int_Entry int | String_Entry bytes | List_Entry "entry list"
  | Dict_Entry "(bytes \<times> entry) list" | Undefined | Preformatted bytes

type_synonym dictionary = "(bytes \<times> entry) list"

definition strview_less :: "bytes \<Rightarrow> bytes \<Rightarrow> bool" where
  "strview_less rhs lhs \<longleftrightarrow> ord_class.lexordp rhs lhs"

record entry_lib =
  integer_to_str :: "int \<Rightarrow> bytes"
  entry_index :: "bytes \<Rightarrow> dictionary \<Rightarrow> dictionary"

text \<open>
  \<open>e[key]\<close> on a dictionary leaves it with an element for the key, a new one being undefined. What is
  then assigned through the reference it returns is \<open>assign_at\<close>.
\<close>

fun insert_new :: "bytes \<Rightarrow> dictionary \<Rightarrow> dictionary" where
  "insert_new key [] = [(key, Undefined)]"
| "insert_new key ((k, e) # d) =
     (if strview_less k key then (k, e) # insert_new key d
      else if k = key then (k, e) # d
      else (key, Undefined) # (k, e) # d)"

definition entry_lib_spec :: "entry_lib \<Rightarrow> bool" where
  "entry_lib_spec lib \<longleftrightarrow> integer_to_str lib = (\<lambda>i. ascii (int_str i)) \<and> entry_index lib = insert_new"

definition assign_at :: "bytes \<Rightarrow> entry \<Rightarrow> dictionary \<Rightarrow> dictionary" where
  "assign_at key e d = map (\<lambda>(k, old). (k, if k = key then e else old)) d"

definition value_at :: "bytes \<Rightarrow> dictionary \<Rightarrow> entry" where
  "value_at key d = (case map_of d key of None \<Rightarrow> Undefined | Some e \<Rightarrow> e)"

section \<open>Writing\<close>

text \<open>
  An output iterator: \<open>*out = b; ++out\<close>, and what remains of it when a copy of it was written through
  (the argument of \<open>std::copy\<close>): a \<open>back_inserter\<close> has appended, a pointer has not moved.
\<close>

record 'o out_iter =
  out_put :: "byte \<Rightarrow> 'o \<Rightarrow> 'o option"
  out_by_value :: "'o \<Rightarrow> 'o \<Rightarrow> 'o"

definition back_iter :: "bytes out_iter" where
  "back_iter = \<lparr>out_put = put_back, out_by_value = (\<lambda>old new. new)\<rparr>"

definition ptr_iter :: "cursor out_iter" where
  "ptr_iter = \<lparr>out_put = put_ptr, out_by_value = (\<lambda>old new. new\<lparr>cpos := cpos old\<rparr>)\<rparr>"

definition write_integer :: "entry_lib \<Rightarrow> 'o out_iter \<Rightarrow> 'o \<Rightarrow> int \<Rightarrow> ('o \<times> int) option" where
  "write_integer lib it out data =
     (let str = integer_to_str lib data
      in map_option (\<lambda>out'. (out', int (length str))) (write_string (out_put it) str out))"

definition write_char :: "'o out_iter \<Rightarrow> 'o \<Rightarrow> byte \<Rightarrow> 'o option" where
  "write_char it out c = out_put it c out"

definition write_sized :: "entry_lib \<Rightarrow> 'o out_iter \<Rightarrow> 'o \<Rightarrow> bytes \<Rightarrow> ('o \<times> int) option" where
  "write_sized lib it out s =
     Option.bind (write_integer lib it out (int (length s))) (\<lambda>(o1, n).
     Option.bind (write_char it o1 58) (\<lambda>o2.
     map_option (\<lambda>o3. (o3, n + int (length s) + 1)) (write_string (out_put it) s o2)))"

text \<open>
  \<open>ret\<close> only grows, so an overflow of it anywhere is an overflow of the sum that \<open>bencode\<close> checks.
\<close>

fun bencode_recursive :: "entry_lib \<Rightarrow> 'o out_iter \<Rightarrow> 'o \<Rightarrow> entry \<Rightarrow> ('o \<times> int) option"
  and bencode_items :: "entry_lib \<Rightarrow> 'o out_iter \<Rightarrow> 'o \<Rightarrow> entry list \<Rightarrow> ('o \<times> int) option"
  and bencode_pairs :: "entry_lib \<Rightarrow> 'o out_iter \<Rightarrow> 'o \<Rightarrow> (bytes \<times> entry) list \<Rightarrow> ('o \<times> int) option" where
  "bencode_recursive lib it out (Int_Entry i) =
     Option.bind (write_char it out 105) (\<lambda>o1.
     Option.bind (write_integer lib it o1 i) (\<lambda>(o2, n).
     map_option (\<lambda>o3. (o3, n + 2)) (write_char it o2 101)))"
| "bencode_recursive lib it out (String_Entry s) = write_sized lib it out s"
| "bencode_recursive lib it out (List_Entry es) =
     Option.bind (write_char it out 108) (\<lambda>o1.
     Option.bind (bencode_items lib it o1 es) (\<lambda>(o2, n).
     map_option (\<lambda>o3. (o3, n + 2)) (write_char it o2 101)))"
| "bencode_recursive lib it out (Dict_Entry d) =
     Option.bind (write_char it out 100) (\<lambda>o1.
     Option.bind (bencode_pairs lib it o1 d) (\<lambda>(o2, n).
     map_option (\<lambda>o3. (o3, n + 2)) (write_char it o2 101)))"
| "bencode_recursive lib it out (Preformatted p) =
     map_option (\<lambda>o1. (out_by_value it out o1, int (length p))) (write_string (out_put it) p out)"
| "bencode_recursive lib it out Undefined =
     Option.bind (write_char it out 48) (\<lambda>o1. map_option (\<lambda>o2. (o2, 2)) (write_char it o1 58))"
| "bencode_items lib it out [] = Some (out, 0)"
| "bencode_items lib it out (e # es) =
     Option.bind (bencode_recursive lib it out e) (\<lambda>(o1, n).
     map_option (\<lambda>(o2, m). (o2, n + m)) (bencode_items lib it o1 es))"
| "bencode_pairs lib it out [] = Some (out, 0)"
| "bencode_pairs lib it out ((k, e) # d) =
     Option.bind (write_sized lib it out k) (\<lambda>(o1, n).
     Option.bind (bencode_recursive lib it o1 e) (\<lambda>(o2, m).
     map_option (\<lambda>(o3, l). (o3, n + m + l)) (bencode_pairs lib it o2 d)))"

definition bencode :: "entry_lib \<Rightarrow> 'o out_iter \<Rightarrow> 'o \<Rightarrow> entry \<Rightarrow> ('o \<times> int) option" where
  "bencode lib it out e =
     Option.bind (bencode_recursive lib it out e) (\<lambda>(o1, n). map_option (\<lambda>r. (o1, r)) (c_int n))"

section \<open>Reading\<close>

text \<open>\<open>read_until\<close> and \<open>read_string\<close>: the text read, the input left and the error flag.\<close>

fun read_until :: "bytes \<Rightarrow> byte \<Rightarrow> bytes \<times> bytes \<times> bool" where
  "read_until [] end_token = ([], [], True)"
| "read_until (b # bs) end_token =
     (if b = end_token then ([], b # bs, False)
      else (case read_until bs end_token of (ret, inp, err) \<Rightarrow> (b # ret, inp, err)))"

fun read_string :: "nat \<Rightarrow> bytes \<Rightarrow> bytes \<times> bytes \<times> bool" where
  "read_string 0 inp = ([], inp, False)"
| "read_string (Suc len) [] = ([], [], True)"
| "read_string (Suc len) (b # bs) =
     (case read_string len bs of (str, inp, err) \<Rightarrow> (b # str, inp, err))"

datatype decode_result = Decoded bytes entry bool | Decode_Wild | Decode_Fuel

definition decode_int :: "bytes \<Rightarrow> entry \<Rightarrow> decode_result" where
  "decode_int inp ret =
     (case read_until inp 101 of (val, inp1, err) \<Rightarrow>
        (if err then Decoded inp1 ret True
         else (case strtoll (bytes_c_str val) of (v, some_digit) \<Rightarrow>
                 Decoded (tl inp1) (Int_Entry v) (\<not> some_digit))))"

definition decode_string :: "bytes \<Rightarrow> entry \<Rightarrow> decode_result" where
  "decode_string inp ret =
     (case read_until inp 58 of (len_s, inp1, err) \<Rightarrow>
        (if err then Decoded inp1 ret True
         else (case atoi (bytes_c_str len_s) of
                 None \<Rightarrow> Decode_Wild
               | Some len \<Rightarrow>
                   (case read_string (nat len) (tl inp1) of (str, inp2, err) \<Rightarrow>
                      Decoded inp2 (String_Entry str) err))))"

text \<open>What follows a nested call: nothing more after undefined behaviour.\<close>

definition decode_then ::
    "decode_result \<Rightarrow> (bytes \<Rightarrow> entry \<Rightarrow> bool \<Rightarrow> decode_result) \<Rightarrow> decode_result" where
  "decode_then r f = (case r of Decoded inp e err \<Rightarrow> f inp e err | Decode_Wild \<Rightarrow> Decode_Wild | Decode_Fuel \<Rightarrow> Decode_Fuel)"

text \<open>The key of an entry that is a string.\<close>

definition string_of :: "entry \<Rightarrow> bytes option" where
  "string_of e = (case e of String_Entry s \<Rightarrow> Some s | _ \<Rightarrow> None)"

function (sequential) bdecode_recursive :: "entry_lib \<Rightarrow> nat \<Rightarrow> bytes \<Rightarrow> entry \<Rightarrow> nat \<Rightarrow> decode_result"
  and list_loop :: "entry_lib \<Rightarrow> nat \<Rightarrow> bytes \<Rightarrow> entry list \<Rightarrow> nat \<Rightarrow> decode_result"
  and dict_loop :: "entry_lib \<Rightarrow> nat \<Rightarrow> bytes \<Rightarrow> dictionary \<Rightarrow> nat \<Rightarrow> decode_result" where
  "bdecode_recursive lib 0 inp ret depth = Decode_Fuel"
| "bdecode_recursive lib (Suc fuel) inp ret depth =
     (if depth \<ge> 100 \<or> inp = [] then Decoded inp ret True
      else if hd inp = 105 then decode_int (tl inp) ret
      else if hd inp = 108 then list_loop lib fuel (tl inp) [] depth
      else if hd inp = 100 then dict_loop lib fuel (tl inp) [] depth
      else if byte_digit (hd inp) then decode_string inp ret
      else Decoded inp ret True)"
| "list_loop lib 0 inp es depth = Decode_Fuel"
| "list_loop lib (Suc fuel) inp es depth =
     (if inp = [] then Decode_Wild
      else if hd inp = 101 then Decoded (tl inp) (List_Entry es) False
      else decode_then (bdecode_recursive lib fuel inp Undefined (depth + 1)) (\<lambda>inp1 e err.
        if err \<or> inp1 = [] then Decoded inp1 (List_Entry (es @ [e])) True
        else list_loop lib fuel inp1 (es @ [e]) depth))"
| "dict_loop lib 0 inp d depth = Decode_Fuel"
| "dict_loop lib (Suc fuel) inp d depth =
     (if inp = [] then Decode_Wild
      else if hd inp = 101 then Decoded (tl inp) (Dict_Entry d) False
      else decode_then (bdecode_recursive lib fuel inp Undefined (depth + 1)) (\<lambda>inp1 key err.
        case string_of key of
          None \<Rightarrow> Decoded inp1 (Dict_Entry d) err
        | Some k \<Rightarrow>
            (if err then Decoded inp1 (Dict_Entry d) err
             else (let d1 = entry_index lib k d
                   in decode_then (bdecode_recursive lib fuel inp1 (value_at k d1) (depth + 1)) (\<lambda>inp2 e err2.
                     let d2 = assign_at k e d1
                     in if err2 \<or> inp2 = [] then Decoded inp2 (Dict_Entry d2) True
                        else dict_loop lib fuel inp2 d2 depth)))))"
  by pat_completeness auto
termination
  by (relation "measure (\<lambda>x. case x of Inl (lib, fuel, r) \<Rightarrow> fuel
      | Inr (Inl (lib, fuel, r)) \<Rightarrow> fuel | Inr (Inr (lib, fuel, r)) \<Rightarrow> fuel)") simp_all

definition decode_all :: "entry_lib \<Rightarrow> bytes \<Rightarrow> decode_result" where
  "decode_all lib inp = bdecode_recursive lib (Suc (2 * length inp)) inp Undefined 0"

text \<open>\<open>bdecode\<close> with the length: \<open>None\<close> is undefined behaviour.\<close>

definition bdecode :: "entry_lib \<Rightarrow> bytes \<Rightarrow> (entry \<times> nat) option" where
  "bdecode lib inp =
     (case decode_all lib inp of
        Decoded inp1 e err \<Rightarrow> Some (if err then Undefined else e, length inp - length inp1)
      | _ \<Rightarrow> None)"

section \<open>The encoding as a string\<close>

definition sized_bytes :: "bytes \<Rightarrow> bytes" where
  "sized_bytes s = ascii (int_str (int (length s))) @ [58] @ s"

fun bencoded :: "entry \<Rightarrow> bytes"
  and bencoded_items :: "entry list \<Rightarrow> bytes"
  and bencoded_pairs :: "dictionary \<Rightarrow> bytes" where
  "bencoded (Int_Entry i) = [105] @ ascii (int_str i) @ [101]"
| "bencoded (String_Entry s) = sized_bytes s"
| "bencoded (List_Entry es) = [108] @ bencoded_items es @ [101]"
| "bencoded (Dict_Entry d) = [100] @ bencoded_pairs d @ [101]"
| "bencoded (Preformatted p) = p"
| "bencoded Undefined = [48, 58]"
| "bencoded_items [] = []"
| "bencoded_items (e # es) = bencoded e @ bencoded_items es"
| "bencoded_pairs [] = []"
| "bencoded_pairs ((k, e) # d) = sized_bytes k @ bencoded e @ bencoded_pairs d"

fun no_preformatted :: "entry \<Rightarrow> bool"
  and no_preformatted_items :: "entry list \<Rightarrow> bool"
  and no_preformatted_pairs :: "dictionary \<Rightarrow> bool" where
  "no_preformatted (List_Entry es) = no_preformatted_items es"
| "no_preformatted (Dict_Entry d) = no_preformatted_pairs d"
| "no_preformatted (Preformatted p) = False"
| "no_preformatted e = True"
| "no_preformatted_items [] = True"
| "no_preformatted_items (e # es) = (no_preformatted e \<and> no_preformatted_items es)"
| "no_preformatted_pairs [] = True"
| "no_preformatted_pairs ((k, e) # d) = (no_preformatted e \<and> no_preformatted_pairs d)"

context output_iterator
begin

lemma write_char_writes:
  assumes "room out (Suc n)"
  shows "\<exists>out'. write_char \<lparr>out_put = put, out_by_value = f\<rparr> out b = Some out' \<and>
    written out' = written out @ [b] \<and> room out' n"
  using put_room [OF assms] by (simp add: write_char_def)

lemma write_integer_writes:
  assumes "entry_lib_spec lib" "room out (length (int_str i) + n)"
  shows "\<exists>out'. write_integer lib \<lparr>out_put = put, out_by_value = f\<rparr> out i = Some (out', int (length (int_str i))) \<and>
    written out' = written out @ ascii (int_str i) \<and> room out' n"
proof -
  obtain out' where o': "write_string put (ascii (int_str i)) out = Some out'"
    "written out' = written out @ ascii (int_str i)" "room out' n"
    using write_string_writes [of out "ascii (int_str i)" n] assms(2) by auto
  with assms(1) show ?thesis by (simp add: write_integer_def entry_lib_spec_def)
qed

lemma write_sized_writes:
  assumes "entry_lib_spec lib" "room out (length (sized_bytes s) + n)"
  shows "\<exists>out'. write_sized lib \<lparr>out_put = put, out_by_value = f\<rparr> out s = Some (out', int (length (sized_bytes s))) \<and>
    written out' = written out @ sized_bytes s \<and> room out' n"
proof -
  let ?i = "int (length s)" and ?it = "\<lparr>out_put = put, out_by_value = f\<rparr>"
  from assms(2) have "room out (length (int_str ?i) + Suc (length s + n))"
    by (simp add: sized_bytes_def ac_simps)
  from write_integer_writes [OF assms(1) this] obtain o1 where
    o1: "write_integer lib ?it out ?i = Some (o1, int (length (int_str ?i)))"
      "written o1 = written out @ ascii (int_str ?i)" "room o1 (Suc (length s + n))" by blast
  from write_char_writes [OF o1(3)] obtain o2 where
    o2: "write_char ?it o1 58 = Some o2" "written o2 = written o1 @ [58]" "room o2 (length s + n)" by blast
  from write_string_writes [OF o2(3)] obtain o3 where
    o3: "write_string put s o2 = Some o3" "written o3 = written o2 @ s" "room o3 n" by blast
  from o1 o2 o3 show ?thesis by (simp add: write_sized_def sized_bytes_def)
qed

text \<open>Without preformatted entries, or with a by-value copy that has moved the iterator, the bytes written are \<open>bencoded\<close>.\<close>

lemma bencode_writes:
  fixes f :: "'o \<Rightarrow> 'o \<Rightarrow> 'o"
  assumes lib: "entry_lib_spec lib"
  defines "it \<equiv> \<lparr>out_put = put, out_by_value = f\<rparr>"
  shows
    "f = (\<lambda>old new. new) \<or> no_preformatted e \<Longrightarrow> room out (length (bencoded e) + n) \<Longrightarrow>
     \<exists>out'. bencode_recursive lib it out e = Some (out', int (length (bencoded e))) \<and>
       written out' = written out @ bencoded e \<and> room out' n"
    "f = (\<lambda>old new. new) \<or> no_preformatted_items es \<Longrightarrow> room out (length (bencoded_items es) + n) \<Longrightarrow>
     \<exists>out'. bencode_items lib it out es = Some (out', int (length (bencoded_items es))) \<and>
       written out' = written out @ bencoded_items es \<and> room out' n"
    "f = (\<lambda>old new. new) \<or> no_preformatted_pairs d \<Longrightarrow> room out (length (bencoded_pairs d) + n) \<Longrightarrow>
     \<exists>out'. bencode_pairs lib it out d = Some (out', int (length (bencoded_pairs d))) \<and>
       written out' = written out @ bencoded_pairs d \<and> room out' n"
proof (induction e and es and d arbitrary: out n and out n and out n rule: bencoded_bencoded_items_bencoded_pairs.induct)
  case (1 i)
  from 1 have "room out (Suc (length (int_str i) + Suc n))" by simp
  from write_char_writes [OF this, of f 105] obtain o1 where
    o1: "write_char it out 105 = Some o1" "written o1 = written out @ [105]" "room o1 (length (int_str i) + Suc n)"
    by (auto simp: it_def)
  from write_integer_writes [OF lib o1(3), of f] obtain o2 where
    o2: "write_integer lib it o1 i = Some (o2, int (length (int_str i)))"
      "written o2 = written o1 @ ascii (int_str i)" "room o2 (Suc n)" by (auto simp: it_def)
  from write_char_writes [OF o2(3), of f 101] o1 o2 show ?case by (auto simp: it_def)
next
  case (2 s)
  with write_sized_writes [OF lib, of out s n f] show ?case by (auto simp: it_def)
next
  case (3 es)
  from 3 have "room out (Suc (length (bencoded_items es) + Suc n))" by simp
  from write_char_writes [OF this, of f 108] obtain o1 where
    o1: "write_char it out 108 = Some o1" "written o1 = written out @ [108]" "room o1 (length (bencoded_items es) + Suc n)"
    by (auto simp: it_def)
  from 3(1) [OF _ o1(3)] 3(2) obtain o2 where
    o2: "bencode_items lib it o1 es = Some (o2, int (length (bencoded_items es)))"
      "written o2 = written o1 @ bencoded_items es" "room o2 (Suc n)" by auto
  from write_char_writes [OF o2(3), of f 101] o1 o2 show ?case by (auto simp: it_def)
next
  case (4 d)
  from 4 have "room out (Suc (length (bencoded_pairs d) + Suc n))" by simp
  from write_char_writes [OF this, of f 100] obtain o1 where
    o1: "write_char it out 100 = Some o1" "written o1 = written out @ [100]" "room o1 (length (bencoded_pairs d) + Suc n)"
    by (auto simp: it_def)
  from 4(1) [OF _ o1(3)] 4(2) obtain o2 where
    o2: "bencode_pairs lib it o1 d = Some (o2, int (length (bencoded_pairs d)))"
      "written o2 = written o1 @ bencoded_pairs d" "room o2 (Suc n)" by auto
  from write_char_writes [OF o2(3), of f 101] o1 o2 show ?case by (auto simp: it_def)
next
  case (5 p)
  with write_string_writes [of out p n] show ?case by (auto simp: it_def)
next
  case 6
  then have "room out (Suc (Suc n))" by simp
  from write_char_writes [OF this, of f 48] obtain o1 where
    "write_char it out 48 = Some o1" "written o1 = written out @ [48]" "room o1 (Suc n)" by (auto simp: it_def)
  with write_char_writes [of o1 n f 58] show ?case by (auto simp: it_def)
next
  case 7
  then show ?case by simp
next
  case (8 e es)
  from 8(4) have "room out (length (bencoded e) + (length (bencoded_items es) + n))" by (simp add: ac_simps)
  from 8(1) [OF _ this] 8(3) obtain o1 where
    o1: "bencode_recursive lib it out e = Some (o1, int (length (bencoded e)))"
      "written o1 = written out @ bencoded e" "room o1 (length (bencoded_items es) + n)" by auto
  from 8(2) [OF _ o1(3)] 8(3) o1 show ?case by auto
next
  case 9
  then show ?case by simp
next
  case (10 k e d)
  from 10(4) have "room out (length (sized_bytes k) + (length (bencoded e) + (length (bencoded_pairs d) + n)))"
    by (simp add: ac_simps)
  from write_sized_writes [OF lib this, of f] obtain o1 where
    o1: "write_sized lib it out k = Some (o1, int (length (sized_bytes k)))"
      "written o1 = written out @ sized_bytes k" "room o1 (length (bencoded e) + (length (bencoded_pairs d) + n))"
    by (auto simp: it_def)
  from 10(1) [OF _ o1(3)] 10(3) obtain o2 where
    o2: "bencode_recursive lib it o1 e = Some (o2, int (length (bencoded e)))"
      "written o2 = written o1 @ bencoded e" "room o2 (length (bencoded_pairs d) + n)" by auto
  from 10(2) [OF _ o2(3)] 10(3) o1 o2 show ?case by auto
qed

end

text \<open>
  What \<open>bencode\<close> writes: through a \<open>back_inserter\<close> it appends exactly the encoding of the entry
  and returns its length; into a buffer with enough room the same, for an entry without preformatted
  parts. After a preformatted part a pointer has not moved, so what follows overwrites it: a list of
  the preformatted \<open>i1e\<close> comes out as \<open>le1e\<close>, and the number returned is still 5.
\<close>

lemma bencode_output:
  assumes "entry_lib_spec lib" "length (bencoded e) \<le> 2147483647"
  shows "bencode lib back_iter out e = Some (out @ bencoded e, int (length (bencoded e)))
    \<and> (if no_preformatted e \<and> croom c (length (bencoded e))
       then (case bencode lib ptr_iter c e of
               None \<Rightarrow> False
             | Some (c', n) \<Rightarrow> cwritten c' = cwritten c @ bencoded e \<and> n = int (length (bencoded e)))
       else True)
    \<and> (case bencode lib ptr_iter \<lparr>cbuf = replicate 5 0, cpos = 0\<rparr> (List_Entry [Preformatted [105, 49, 101]]) of
         None \<Rightarrow> False
       | Some (c', n) \<Rightarrow> cbuf c' = [108, 101, 49, 101, 0] \<and> n = 5)"
proof (intro conjI)
  have len: "c_int (int (length (bencoded e))) = Some (int (length (bencoded e)))"
    using assms(2) by (simp add: c_int_def in_int32_def)
  show "bencode lib back_iter out e = Some (out @ bencoded e, int (length (bencoded e)))"
    using vec.bencode_writes(1) [OF assms(1), where f = "\<lambda>old new. new" and e = e and out = out] len
    by (auto simp: bencode_def back_iter_def)
  show "if no_preformatted e \<and> croom c (length (bencoded e))
    then (case bencode lib ptr_iter c e of None \<Rightarrow> False
          | Some (c', n) \<Rightarrow> cwritten c' = cwritten c @ bencoded e \<and> n = int (length (bencoded e)))
    else True"
    using ptr.bencode_writes(1) [OF assms(1), where f = "\<lambda>old new. new\<lparr>cpos := cpos old\<rparr>" and e = e and out = c and n = 0] len
    by (auto simp: bencode_def ptr_iter_def)
  show "case bencode lib ptr_iter \<lparr>cbuf = replicate 5 0, cpos = 0\<rparr> (List_Entry [Preformatted [105, 49, 101]]) of
      None \<Rightarrow> False | Some (c', n) \<Rightarrow> cbuf c' = [108, 101, 49, 101, 0] \<and> n = 5"
    by (simp add: bencode_def ptr_iter_def write_char_def put_ptr_def c_int_def in_int32_def numeral_eq_Suc)
qed

section \<open>Well-formed entries\<close>

text \<open>
  What the decoder returns and reads back: 64-bit integers, strings whose length is an \<open>int\<close>,
  dictionaries in key order, nothing undefined or preformatted. \<open>height\<close> counts nesting.
\<close>

definition string_ok :: "bytes \<Rightarrow> bool" where
  "string_ok s \<longleftrightarrow> length s \<le> 2147483647"

definition keys_ok :: "dictionary \<Rightarrow> bool" where
  "keys_ok d \<longleftrightarrow> sorted_wrt strview_less (map fst d)"

fun entry_ok :: "entry \<Rightarrow> bool"
  and items_ok :: "entry list \<Rightarrow> bool"
  and pairs_ok :: "dictionary \<Rightarrow> bool" where
  "entry_ok (Int_Entry i) = in_int64 i"
| "entry_ok (String_Entry s) = string_ok s"
| "entry_ok (List_Entry es) = items_ok es"
| "entry_ok (Dict_Entry d) = (keys_ok d \<and> pairs_ok d)"
| "entry_ok e = False"
| "items_ok [] = True"
| "items_ok (e # es) = (entry_ok e \<and> items_ok es)"
| "pairs_ok [] = True"
| "pairs_ok ((k, e) # d) = (string_ok k \<and> entry_ok e \<and> pairs_ok d)"

fun height :: "entry \<Rightarrow> nat"
  and items_height :: "entry list \<Rightarrow> nat"
  and pairs_height :: "dictionary \<Rightarrow> nat" where
  "height (List_Entry es) = Suc (items_height es)"
| "height (Dict_Entry d) = Suc (pairs_height d)"
| "height e = 1"
| "items_height [] = 0"
| "items_height (e # es) = max (height e) (items_height es)"
| "pairs_height [] = 0"
| "pairs_height ((k, e) # d) = max (height e) (pairs_height d)"

lemma strview_less_order:
  "\<not> strview_less k k" "strview_less a b \<Longrightarrow> strview_less b c \<Longrightarrow> strview_less a c"
  "strview_less a b \<or> a = b \<or> strview_less b a"
  unfolding strview_less_def
  by (simp add: lexordp_irreflexive', erule (1) lexordp_trans, rule lexordp_linear)

lemma insert_last:
  "keys_ok (d @ [(k, e)]) \<Longrightarrow> insert_new k d = d @ [(k, Undefined)]"
  by (induction d) (auto simp: keys_ok_def sorted_wrt_append)

lemma assign_last:
  "keys_ok (d @ [(k, e)]) \<Longrightarrow> assign_at k e (d @ [(k, u)]) = d @ [(k, e)]"
  using strview_less_order(1) [of k]
  by (fastforce simp: keys_ok_def assign_at_def sorted_wrt_append intro!: map_idI)

section \<open>Reading back\<close>

lemma read_until_here [simp]: "t \<notin> set ds \<Longrightarrow> read_until (ds @ t # r) t = (ds, t # r, False)"
  by (induction ds) auto

lemma read_string_all [simp]: "read_string (length s) (s @ r) = (s, r, False)"
  by (induction s) auto

lemma digits_no_byte: "\<not> byte_digit t \<Longrightarrow> t \<notin> set (ascii (nat_str n))"
  using byte_digits_nat_str [of n] by (auto simp: list_all_iff)

lemma int_str_no_e: "101 \<notin> set (ascii (int_str i))"
  using digits_no_byte [of 101] by (auto simp: int_str_def byte_digit_def)

lemma decode_int_bytes:
  "in_int64 i \<Longrightarrow> decode_int (ascii (int_str i) @ 101 # r) ret = Decoded r (Int_Entry i) False"
  by (simp add: decode_int_def int_str_no_e strtoll_int_str)

lemma int_str_of_nat [simp]: "int_str (int n) = nat_str n"
  by (simp add: int_str_def)

lemma decode_string_bytes:
  assumes "string_ok s"
  shows "decode_string (sized_bytes s @ r) ret = Decoded r (String_Entry s) False"
proof -
  have "58 \<notin> set (ascii (nat_str (length s)))" by (rule digits_no_byte) (simp add: byte_digit_def)
  moreover have "atoi (ascii (nat_str (length s))) = Some (int (length s))"
    using assms by (intro atoi_nat_str) (simp add: string_ok_def)
  ultimately show ?thesis by (simp add: decode_string_def sized_bytes_def)
qed

lemma sized_bytes_head:
  obtains b bs where "sized_bytes s = b # bs" "byte_digit b" "b \<noteq> 101" "b \<noteq> 100" "b \<noteq> 105" "b \<noteq> 108"
proof -
  obtain b bs where "ascii (nat_str (length s)) = b # bs" "byte_digit b"
    using byte_digits_nat_str [of "length s"] by (cases "ascii (nat_str (length s))") auto
  moreover from this have "b \<noteq> 101" "b \<noteq> 100" "b \<noteq> 105" "b \<noteq> 108" by (auto simp: byte_digit_def)
  ultimately show ?thesis using that by (simp add: sized_bytes_def)
qed

lemma bencoded_head:
  assumes "entry_ok e"
  obtains b bs where "bencoded e = b # bs" "b \<noteq> 101"
proof (cases e)
  case (String_Entry s)
  then show ?thesis using that by (metis bencoded.simps(2) sized_bytes_head)
qed (use assms that in auto)

lemma decode_sized:
  assumes "string_ok s" "depth < 100"
  shows "bdecode_recursive lib (Suc fuel) (sized_bytes s @ r) ret depth = Decoded r (String_Entry s) False"
proof -
  obtain b bs where b: "sized_bytes s = b # bs" "byte_digit b" "b \<noteq> 100" "b \<noteq> 105" "b \<noteq> 108"
    by (rule sized_bytes_head [of s]) blast
  with decode_string_bytes [OF assms(1), of r ret] assms(2) show ?thesis by simp
qed

lemma decode_bencoded:
  assumes lib: "entry_lib_spec lib"
  shows
    "entry_ok e \<Longrightarrow> depth + height e \<le> 100 \<Longrightarrow> 2 * length (bencoded e) < fuel \<Longrightarrow>
     bdecode_recursive lib fuel (bencoded e @ r) ret depth = Decoded r e False"
    "items_ok es \<Longrightarrow> depth + items_height es < 100 \<Longrightarrow> 2 * length (bencoded_items es) + 2 < fuel \<Longrightarrow>
     list_loop lib fuel (bencoded_items es @ 101 # r) es0 depth = Decoded r (List_Entry (es0 @ es)) False"
    "pairs_ok d \<Longrightarrow> keys_ok (d0 @ d) \<Longrightarrow> depth + Suc 0 + pairs_height d \<le> 100 \<Longrightarrow>
     2 * length (bencoded_pairs d) + 2 < fuel \<Longrightarrow>
     dict_loop lib fuel (bencoded_pairs d @ 101 # r) d0 depth = Decoded r (Dict_Entry (d0 @ d)) False"
proof (induction e and es and d arbitrary: depth fuel r ret and depth fuel r es0 and depth fuel r d0
    rule: bencoded_bencoded_items_bencoded_pairs.induct)
  case (1 i)
  then show ?case by (cases fuel) (simp_all add: decode_int_bytes)
next
  case (2 s)
  then obtain k where "fuel = Suc k" by (cases fuel) auto
  with 2 show ?case
    using decode_sized [of s depth lib k r ret] by (simp del: bdecode_recursive.simps)
next
  case (3 es)
  then show ?case by (cases fuel) simp_all
next
  case (4 d)
  then show ?case by (cases fuel) (simp_all add: keys_ok_def)
next
  case (7 es0)
  then show ?case by (cases fuel) simp_all
next
  case (8 e es)
  obtain b bs where b: "bencoded e = b # bs" "b \<noteq> 101" using 8(3) by (auto elim: bencoded_head)
  obtain k where k: "fuel = Suc k" using 8(5) by (cases fuel) auto
  have "bdecode_recursive lib k (bencoded e @ bencoded_items es @ 101 # r) Undefined (Suc depth) =
      Decoded (bencoded_items es @ 101 # r) e False"
    by (rule 8(1)) (use 8(3-5) k in auto)
  moreover have "list_loop lib k (bencoded_items es @ 101 # r) (es0 @ [e]) depth =
      Decoded r (List_Entry ((es0 @ [e]) @ es)) False"
    by (rule 8(2)) (use 8(3-5) k b in auto)
  ultimately show ?case using b k by (simp add: decode_then_def)
next
  case 9
  then show ?case by (cases fuel) simp_all
next
  case (10 key e d)
  obtain b bs where b: "sized_bytes key = b # bs" "b \<noteq> 101" by (rule sized_bytes_head)
  obtain j where j: "fuel = Suc j" "0 < j" using 10(6) by (cases fuel) auto
  have "pairs_height d \<le> 99 - depth" "height e \<le> 99 - depth" using 10(5) by auto
  have key: "bdecode_recursive lib j (sized_bytes key @ bencoded e @ bencoded_pairs d @ 101 # r) Undefined (Suc depth) =
      Decoded (bencoded e @ bencoded_pairs d @ 101 # r) (String_Entry key) False"
    using 10(3,5) j decode_sized [of key "Suc depth" lib "j - 1" "bencoded e @ bencoded_pairs d @ 101 # r" Undefined]
    by (cases e) auto
  have val: "bdecode_recursive lib j (bencoded e @ bencoded_pairs d @ 101 # r) u (Suc depth) =
      Decoded (bencoded_pairs d @ 101 # r) e False" for u
    by (rule 10(1)) (use 10(3,5,6) j b in auto)
  have "keys_ok (d0 @ [(key, e)])" using 10(4) by (simp add: keys_ok_def sorted_wrt_append)
  then have ins: "entry_index lib key d0 = d0 @ [(key, Undefined)]"
    "assign_at key e (d0 @ [(key, Undefined)]) = d0 @ [(key, e)]"
    using lib by (auto simp: entry_lib_spec_def insert_last assign_last)
  have "dict_loop lib j (bencoded_pairs d @ 101 # r) (d0 @ [(key, e)]) depth =
      Decoded r (Dict_Entry ((d0 @ [(key, e)]) @ d)) False"
    by (rule 10(2)) (use 10(3-6) j b in auto)
  with key val ins b j show ?case
    by (simp add: decode_then_def string_of_def Let_def del: bdecode_recursive.simps)
qed simp_all

text \<open>
  C5. Encoding and decoding are inverse: every well-formed entry nested at most 100 deep is encoded,
  and decoding what was written, whatever follows it, gives the entry back and consumes exactly the
  bytes of its encoding.
\<close>

theorem bdecode_bencode:
  assumes "entry_lib_spec lib" "entry_ok e" "height e \<le> 100" "length (bencoded e) \<le> 2147483647"
  shows "case bencode lib back_iter [] e of
      None \<Rightarrow> False
    | Some (buf, n) \<Rightarrow> n = int (length buf) \<and> bdecode lib (buf @ rest) = Some (e, length buf)"
proof -
  have "bencode lib back_iter [] e = Some (bencoded e, int (length (bencoded e)))"
    using vec.bencode_writes(1) [OF assms(1), where f = "\<lambda>old new. new" and e = e and out = "[]"] assms(4)
    by (auto simp: bencode_def back_iter_def c_int_def in_int32_def)
  moreover have "decode_all lib (bencoded e @ rest) = Decoded rest e False"
    unfolding decode_all_def by (rule decode_bencoded(1)) (use assms in auto)
  ultimately show ?thesis by (simp add: bdecode_def)
qed

theorem bdecode_bencode_witness:
  "let lib = \<lparr>integer_to_str = (\<lambda>i. ascii (int_str i)), entry_index = insert_new\<rparr>;
       e = Dict_Entry [(ascii ''a'', Int_Entry 7), (ascii ''b'', List_Entry [String_Entry (ascii ''x'')])]
   in (case bencode lib back_iter [] e of
         None \<Rightarrow> False
       | Some (buf, n) \<Rightarrow> bdecode lib (buf @ ascii ''zz'') = Some (e, length buf))"
proof -
  let ?lib = "\<lparr>integer_to_str = (\<lambda>i. ascii (int_str i)), entry_index = insert_new\<rparr>"
  let ?e = "Dict_Entry [(ascii ''a'', Int_Entry 7), (ascii ''b'', List_Entry [String_Entry (ascii ''x'')])]"
  have ok: "entry_ok ?e"
    by (simp add: keys_ok_def strview_less_def string_ok_def in_int64_def ascii_def)
  have len: "length (bencoded ?e) \<le> 2147483647"
    by (simp add: sized_bytes_def nat_str.simps int_str_def)
  show ?thesis
    using bdecode_bencode [of ?lib ?e "ascii ''zz''"] ok len
    by (auto simp: entry_lib_spec_def Let_def split: option.splits)
qed

section \<open>Every input\<close>

definition short_numbers :: "bytes \<Rightarrow> bool" where
  "short_numbers inp \<longleftrightarrow> list_all (\<lambda>s. length (takeWhile byte_digit s) < 10) (suffixes inp)"

definition safe_input :: "bytes \<Rightarrow> bool" where
  "safe_input inp \<longleftrightarrow> short_numbers inp \<and> (inp = [] \<or> last inp \<noteq> 108 \<and> last inp \<noteq> 100)"

definition decode_fine :: "bytes \<Rightarrow> decode_result \<Rightarrow> bool" where
  "decode_fine inp r \<longleftrightarrow>
     (case r of
        Decoded inp1 e err \<Rightarrow> suffix inp1 inp \<and> (err \<or> entry_ok e \<and> length inp1 < length inp)
      | Decode_Wild \<Rightarrow> \<not> safe_input inp
      | Decode_Fuel \<Rightarrow> False)"

lemma safe_suffix: "suffix s inp \<Longrightarrow> safe_input inp \<Longrightarrow> safe_input s"
  by (auto simp: safe_input_def short_numbers_def list_all_iff suffix_def last_append
      intro: suffix_order.trans split: if_splits)

lemma decode_fine_suffix:
  "suffix s inp \<Longrightarrow> decode_fine s r \<Longrightarrow> decode_fine inp r"
  using safe_suffix [of s inp] suffix_length_le [of s inp]
  by (auto simp: decode_fine_def intro: suffix_order.trans split: decode_result.splits)

lemma read_until_suffix:
  "read_until inp t = (ret, inp1, err) \<Longrightarrow>
   inp = ret @ inp1 \<and> t \<notin> set ret \<and> (if err then inp1 = [] else inp1 \<noteq> [] \<and> hd inp1 = t)"
  by (induction inp t arbitrary: ret rule: read_until.induct) (auto split: prod.splits if_splits)

lemma read_string_suffix:
  "read_string n inp = (str, inp1, err) \<Longrightarrow> inp = str @ inp1 \<and> (if err then length str < n else length str = n)"
  by (induction n inp arbitrary: str rule: read_string.induct) (auto split: prod.splits)

lemma digits_value_bound:
  assumes "list_all byte_digit ds"
  shows "0 \<le> digits_value ds \<and> digits_value ds < 10 ^ length ds"
proof -
  have "0 \<le> foldl (\<lambda>v d. v * 10 + (uint d - 48)) 0 ds \<and>
      foldl (\<lambda>v d. v * 10 + (uint d - 48)) 0 ds < 10 ^ length ds"
    using assms
  proof (induction ds rule: rev_induct)
    case (snoc d ds)
    have "48 \<le> uint d" "uint d \<le> 57"
      using snoc.prems by (simp_all add: byte_digit_def word_le_def)
    with snoc show ?case by simp
  qed simp
  then show ?thesis by (simp add: digits_value_def)
qed

lemma strtoll_range: "strtoll s = (v, d) \<Longrightarrow> in_int64 v"
  by (auto simp: strtoll_def in_int64_def Let_def split: if_splits)

lemma decode_int_fine: "decode_fine (c # inp) (decode_int inp ret)"
proof -
  obtain val inp1 err where r: "read_until inp 101 = (val, inp1, err)" by (cases "read_until inp 101")
  obtain v d where v: "strtoll (bytes_c_str val) = (v, d)" by fastforce
  note s = read_until_suffix [OF r]
  have suf: "suffix inp1 inp" using s by (auto simp: suffix_def)
  have "suffix (tl inp1) (c # inp)" "suffix inp1 (c # inp)"
    using suf by (auto intro: suffix_ConsI suffix_order.trans [OF suffix_tl])
  moreover have "\<not> err \<Longrightarrow> length (tl inp1) < length (c # inp)"
    using suffix_length_le [OF suf] by simp
  ultimately show ?thesis
    using strtoll_range [OF v] by (cases err) (simp_all add: decode_int_def r v decode_fine_def)
qed

lemma atoi_digits:
  assumes "u \<noteq> []" "byte_digit (hd u)" "length (takeWhile byte_digit u) < 10"
  shows "\<exists>n. atoi u = Some n"
proof -
  let ?ds = "takeWhile byte_digit u"
  from assms digit_not_other [of "hd u"] have "dropWhile byte_space u = u" "hd u \<noteq> 45" "hd u \<noteq> 43"
    by (cases u; simp)+
  then have a: "atoi u = c_int (digits_value ?ds)" using assms(1) by (simp add: atoi_def Let_def)
  have "list_all byte_digit ?ds" by (auto simp: list_all_iff dest: set_takeWhileD)
  then have "0 \<le> digits_value ?ds" "digits_value ?ds < 10 ^ length ?ds" using digits_value_bound by auto
  moreover have "(10::int) ^ length ?ds \<le> 10 ^ 9" using assms(3) by (intro power_increasing) simp_all
  ultimately show ?thesis by (simp add: a c_int_def in_int32_def)
qed

lemma length_takeWhile_append_le: "length (takeWhile P (xs @ ys)) \<ge> length (takeWhile P xs)"
  by (induction xs) auto

lemma decode_string_fine:
  assumes "byte_digit c"
  shows "decode_fine (c # inp) (decode_string (c # inp) ret)"
proof -
  obtain len_s inp1 err where r: "read_until (c # inp) 58 = (len_s, inp1, err)"
    by (cases "read_until (c # inp) 58")
  note s = read_until_suffix [OF r]
  have suf: "suffix inp1 (c # inp)" using s by (auto simp: suffix_def)
  show ?thesis
  proof (cases err)
    case True
    with suf r show ?thesis by (simp add: decode_string_def decode_fine_def)
  next
    case False
    have c58: "c \<noteq> 58" using assms by (auto simp: byte_digit_def)
    with s False obtain q where q: "len_s = c # q" by (cases len_s) auto
    obtain p where p: "inp1 = 58 # p" using s False by (cases inp1) auto
    have c0: "bytes_c_str len_s = c # bytes_c_str q"
      using assms digit_not_other [of c] by (simp add: q bytes_c_str_def)
    show ?thesis
    proof (cases "atoi (bytes_c_str len_s)")
      case None
      have "takeWhile byte_digit len_s = takeWhile byte_digit (bytes_c_str len_s @ dropWhile (\<lambda>b. b \<noteq> 0) len_s)"
        by (simp add: bytes_c_str_def)
      then have "length (takeWhile byte_digit (bytes_c_str len_s)) \<le> length (takeWhile byte_digit (c # inp))"
        using length_takeWhile_append_le [of byte_digit "bytes_c_str len_s" "dropWhile (\<lambda>b. b \<noteq> 0) len_s"]
          length_takeWhile_append_le [of byte_digit len_s inp1] s by simp
      moreover have "\<not> length (takeWhile byte_digit (bytes_c_str len_s)) < 10"
        using None atoi_digits [of "bytes_c_str len_s"] assms by (auto simp: c0)
      ultimately have "\<not> safe_input (c # inp)"
        by (auto simp: safe_input_def short_numbers_def list_all_iff)
      with None False r show ?thesis by (simp add: decode_string_def decode_fine_def)
    next
      case (Some len)
      then have len: "len \<le> 2147483647" by (auto simp: atoi_def c_int_def in_int32_def Let_def split: if_splits)
      obtain str inp2 err2 where t: "read_string (nat len) p = (str, inp2, err2)"
        by (cases "read_string (nat len) p")
      note u = read_string_suffix [OF t]
      have l: "length str \<le> 2147483647" using u len by (auto split: if_splits)
      have "suffix inp2 p" using u by (auto simp: suffix_def)
      moreover have "suffix p (c # inp)" using suf p by (auto simp: suffix_def)
      ultimately have "suffix inp2 (c # inp)" "length inp2 \<le> length p" "length p < length (c # inp)"
        using s p False by (auto intro: suffix_order.trans dest: suffix_length_le)
      then show ?thesis
        using Some False r p t l
        by (auto simp: decode_string_def decode_fine_def string_ok_def simp del: read_until.simps)
    qed
  qed
qed

lemma items_ok_snoc: "items_ok (es @ [e]) = (items_ok es \<and> entry_ok e)"
  by (induction es) auto

lemma pairs_ok_iff: "pairs_ok d = list_all (\<lambda>(k, e). string_ok k \<and> entry_ok e) d"
  by (induction d) auto

lemma insert_new_keys: "set (map fst (insert_new k d)) = insert k (set (map fst d))"
proof (induction d)
  case (Cons p d)
  then show ?case by (cases p) (simp add: insert_commute)
qed simp

lemma keys_ok_insert: "keys_ok d \<Longrightarrow> keys_ok (insert_new k d)"
proof (induction d)
  case (Cons p d)
  obtain k1 e1 where p: "p = (k1, e1)" by fastforce
  have tail: "strview_less k1 x" if "x \<in> set (map fst d)" for x
    using that Cons.prems by (auto simp: p keys_ok_def)
  have ok: "keys_ok d" using Cons.prems by (simp add: keys_ok_def)
  show ?case
  proof (cases "strview_less k1 k")
    case True
    then have "strview_less k1 x" if "x \<in> set (map fst (insert_new k d))" for x
      using that tail unfolding insert_new_keys by auto
    with Cons.IH [OF ok] True show ?thesis by (simp add: p keys_ok_def)
  next
    case False
    with strview_less_order(3) [of k1 k] tail strview_less_order(2) [of k k1] Cons.prems
    show ?thesis by (auto simp: p keys_ok_def)
  qed
qed (simp add: keys_ok_def)

lemma keys_ok_assign: "keys_ok (assign_at k e d) = keys_ok d"
  by (simp add: keys_ok_def assign_at_def case_prod_unfold comp_def)

lemma pairs_ok_assign:
  assumes "pairs_ok d" "entry_ok e" "string_ok k"
  shows "pairs_ok (assign_at k e (insert_new k d))"
proof -
  have "string_ok a \<and> (a = k \<or> entry_ok b)" if "(a, b) \<in> set (insert_new k d)" for a b
    using that assms(1,3) unfolding pairs_ok_iff by (induction d) (auto simp: list_all_iff split: if_splits)
  with assms(2) show ?thesis by (fastforce simp: pairs_ok_iff assign_at_def list_all_iff)
qed

lemma decode_then_fine:
  assumes "decode_fine inp r" "\<And>inp1 e err. r = Decoded inp1 e err \<Longrightarrow> decode_fine inp (f inp1 e err)"
  shows "decode_fine inp (decode_then r f)"
  using assms by (cases r) (simp_all add: decode_then_def decode_fine_def)

lemma decode_fine_nested:
  assumes "decode_fine inp (Decoded inp1 e err)" "\<not> err" "decode_fine inp1 r"
  shows "decode_fine inp r"
  using assms decode_fine_suffix [of inp1 inp r] by (simp add: decode_fine_def)

lemma not_safe_end: "\<not> safe_input [108]" "\<not> safe_input [100]"
  by (simp_all add: safe_input_def)

lemma list_step_fine:
  assumes rec: "decode_fine inp (bdecode_recursive lib fuel inp Undefined (Suc depth))"
    and loop: "\<And>inp1 es. length inp1 < length inp \<Longrightarrow> items_ok es \<Longrightarrow> inp1 \<noteq> [] \<Longrightarrow>
      decode_fine inp1 (list_loop lib fuel inp1 es depth)"
    and "items_ok es" "inp \<noteq> []"
  shows "decode_fine inp (list_loop lib (Suc fuel) inp es depth)"
proof -
  have "decode_fine inp (if err \<or> inp1 = [] then Decoded inp1 (List_Entry (es @ [e])) True
      else list_loop lib fuel inp1 (es @ [e]) depth)"
    if r: "bdecode_recursive lib fuel inp Undefined (Suc depth) = Decoded inp1 e err" for inp1 e err
  proof (cases "err \<or> inp1 = []")
    case False
    with rec r have "length inp1 < length inp" "entry_ok e" by (simp_all add: decode_fine_def)
    with False assms(3) have "decode_fine inp1 (list_loop lib fuel inp1 (es @ [e]) depth)"
      by (intro loop) (simp_all add: items_ok_snoc)
    with rec r False show ?thesis by (auto intro: decode_fine_nested)
  qed (use rec r in \<open>auto simp: decode_fine_def\<close>)
  note more = decode_then_fine [OF rec this]
  show ?thesis
  proof (cases "hd inp = 101")
    case True
    with assms(3,4) show ?thesis by (cases inp) (auto simp: decode_fine_def suffix_ConsI)
  next
    case False
    with assms(4) show ?thesis by simp (rule more)
  qed
qed

lemma dict_value_fine:
  assumes rec: "decode_fine inp1 (bdecode_recursive lib fuel inp1 (value_at k d1) (Suc depth))"
    and loop: "\<And>inp2 e. length inp2 < length inp1 \<Longrightarrow> entry_ok e \<Longrightarrow> inp2 \<noteq> [] \<Longrightarrow>
      decode_fine inp2 (dict_loop lib fuel inp2 (assign_at k e d1) depth)"
  shows "decode_fine inp1 (decode_then (bdecode_recursive lib fuel inp1 (value_at k d1) (Suc depth))
    (\<lambda>inp2 e err2. let d2 = assign_at k e d1
       in if err2 \<or> inp2 = [] then Decoded inp2 (Dict_Entry d2) True else dict_loop lib fuel inp2 d2 depth))"
proof (rule decode_then_fine [OF rec])
  fix inp2 e err2
  assume r: "bdecode_recursive lib fuel inp1 (value_at k d1) (Suc depth) = Decoded inp2 e err2"
  show "decode_fine inp1 (let d2 = assign_at k e d1
       in if err2 \<or> inp2 = [] then Decoded inp2 (Dict_Entry d2) True else dict_loop lib fuel inp2 d2 depth)"
  proof (cases "err2 \<or> inp2 = []")
    case False
    with rec r have "length inp2 < length inp1" "entry_ok e" by (simp_all add: decode_fine_def)
    with False have "decode_fine inp2 (dict_loop lib fuel inp2 (assign_at k e d1) depth)" by (intro loop) simp_all
    with rec r False show ?thesis by (auto simp: Let_def intro: decode_fine_nested)
  qed (use rec r in \<open>auto simp: decode_fine_def Let_def\<close>)
qed

lemma dict_step_fine:
  assumes lib: "entry_lib_spec lib"
    and rec: "\<And>inp1 ret. length inp1 \<le> length inp \<Longrightarrow>
      decode_fine inp1 (bdecode_recursive lib fuel inp1 ret (Suc depth))"
    and loop: "\<And>inp1 d. length inp1 < length inp \<Longrightarrow> pairs_ok d \<Longrightarrow> keys_ok d \<Longrightarrow> inp1 \<noteq> [] \<Longrightarrow>
      decode_fine inp1 (dict_loop lib fuel inp1 d depth)"
    and ok: "pairs_ok d" "keys_ok d" and "inp \<noteq> []"
  shows "decode_fine inp (dict_loop lib (Suc fuel) inp d depth)"
proof -
  note key = rec [of inp Undefined, OF order.refl]
  have "decode_fine inp (case string_of e of
      None \<Rightarrow> Decoded inp1 (Dict_Entry d) err
    | Some k \<Rightarrow>
        (if err then Decoded inp1 (Dict_Entry d) err
         else (let d1 = entry_index lib k d
               in decode_then (bdecode_recursive lib fuel inp1 (value_at k d1) (Suc depth)) (\<lambda>inp2 e err2.
                 let d2 = assign_at k e d1
                 in if err2 \<or> inp2 = [] then Decoded inp2 (Dict_Entry d2) True
                    else dict_loop lib fuel inp2 d2 depth))))"
    if r: "bdecode_recursive lib fuel inp Undefined (Suc depth) = Decoded inp1 e err" for inp1 e err
  proof (cases "string_of e = None \<or> err")
    case True
    with key r ok show ?thesis by (auto simp: decode_fine_def split: option.splits)
  next
    case False
    then obtain k where e: "e = String_Entry k" by (cases e) (auto simp: string_of_def)
    with key r False have len: "length inp1 < length inp" "string_ok k" by (simp_all add: decode_fine_def)
    have "decode_fine inp1 (decode_then (bdecode_recursive lib fuel inp1 (value_at k (insert_new k d)) (Suc depth))
      (\<lambda>inp2 e err2. let d2 = assign_at k e (insert_new k d)
       in if err2 \<or> inp2 = [] then Decoded inp2 (Dict_Entry d2) True else dict_loop lib fuel inp2 d2 depth))"
      using len ok by (intro dict_value_fine rec loop) (simp_all add: keys_ok_assign keys_ok_insert pairs_ok_assign)
    with key r False lib show ?thesis
      by (auto simp: e string_of_def entry_lib_spec_def Let_def intro: decode_fine_nested)
  qed
  note more = decode_then_fine [OF key this]
  show ?thesis
  proof (cases "hd inp = 101")
    case True
    with ok \<open>inp \<noteq> []\<close> show ?thesis by (cases inp) (auto simp: decode_fine_def suffix_ConsI)
  next
    case False
    with \<open>inp \<noteq> []\<close> show ?thesis by simp (unfold Suc_eq_plus1 [symmetric], rule more)
  qed
qed

lemma nested_fine:
  assumes "rest = [] \<Longrightarrow> r = Decode_Wild" "rest \<noteq> [] \<Longrightarrow> decode_fine rest r" "c = 108 \<or> c = 100"
  shows "decode_fine (c # rest) r"
proof (cases "rest = []")
  case True
  with assms not_safe_end show ?thesis by (auto simp: decode_fine_def)
qed (use assms decode_fine_suffix [of rest "c # rest" r] in \<open>simp add: suffix_ConsI\<close>)

lemma loop_empty:
  "0 < fuel \<Longrightarrow> list_loop lib fuel [] es depth = Decode_Wild"
  "0 < fuel \<Longrightarrow> dict_loop lib fuel [] d depth = Decode_Wild"
  by (cases fuel; simp)+

lemma decode_always_fine:
  assumes lib: "entry_lib_spec lib"
  shows
    "(\<forall>inp ret depth. 2 * length inp < fuel \<longrightarrow> decode_fine inp (bdecode_recursive lib fuel inp ret depth)) \<and>
     (\<forall>inp es depth. 2 * length inp + 1 < fuel \<and> items_ok es \<and> inp \<noteq> [] \<longrightarrow>
        decode_fine inp (list_loop lib fuel inp es depth)) \<and>
     (\<forall>inp d depth. 2 * length inp + 1 < fuel \<and> pairs_ok d \<and> keys_ok d \<and> inp \<noteq> [] \<longrightarrow>
        decode_fine inp (dict_loop lib fuel inp d depth))"
proof (induction fuel)
  case (Suc fuel)
  have "decode_fine inp (bdecode_recursive lib (Suc fuel) inp ret depth)" if "2 * length inp \<le> fuel" for inp ret depth
  proof (cases inp)
    case (Cons c rest)
    have "decode_fine inp (list_loop lib fuel rest [] depth)" if "c = 108"
      unfolding Cons by (rule nested_fine) (use Suc \<open>2 * length inp \<le> fuel\<close> that Cons loop_empty in auto)
    moreover have "decode_fine inp (dict_loop lib fuel rest [] depth)" if "c = 100"
      unfolding Cons
      by (rule nested_fine) (use Suc \<open>2 * length inp \<le> fuel\<close> that Cons loop_empty in \<open>auto simp: keys_ok_def\<close>)
    ultimately show ?thesis
      using decode_int_fine [of c rest ret] decode_string_fine [of c rest ret]
      by (auto simp: Cons decode_fine_def [of _ "Decoded _ _ True"])
  qed (simp add: decode_fine_def)
  moreover have "decode_fine inp (list_loop lib (Suc fuel) inp es depth)"
    if "2 * length inp + 1 \<le> fuel" "items_ok es" "inp \<noteq> []" for inp es depth
    using that Suc by (intro list_step_fine) auto
  moreover have "decode_fine inp (dict_loop lib (Suc fuel) inp d depth)"
    if "2 * length inp + 1 \<le> fuel" "pairs_ok d" "keys_ok d" "inp \<noteq> []" for inp d depth
    using that Suc by (intro dict_step_fine lib) auto
  ultimately show ?case by auto
qed simp

text \<open>
  C35. Decoding any input: the fuel never runs out, and a result without the error flag is a
  well-formed entry that consumed at least one byte. On an input that does not end in \<open>l\<close> or
  \<open>d\<close> and has no ten digits in a row nothing outside the input is read; an input that is just
  \<open>l\<close> is read past its end.
\<close>

theorem bdecode_any_input:
  assumes "entry_lib_spec lib"
  shows "(case decode_all lib inp of
       Decode_Fuel \<Rightarrow> False
     | Decode_Wild \<Rightarrow> \<not> safe_input inp
     | Decoded inp1 e err \<Rightarrow> suffix inp1 inp \<and> (err \<or> entry_ok e \<and> length inp1 < length inp))
    \<and> decode_all lib [108] = Decode_Wild"
proof
  have "decode_fine inp (decode_all lib inp)"
    using decode_always_fine [OF assms, of "Suc (2 * length inp)"]
    by (simp add: decode_all_def del: bdecode_recursive.simps list_loop.simps dict_loop.simps)
  then show "case decode_all lib inp of Decode_Fuel \<Rightarrow> False | Decode_Wild \<Rightarrow> \<not> safe_input inp
     | Decoded inp1 e err \<Rightarrow> suffix inp1 inp \<and> (err \<or> entry_ok e \<and> length inp1 < length inp)"
    by (simp add: decode_fine_def)
  show "decode_all lib [108] = Decode_Wild"
    by (simp add: decode_all_def loop_empty numeral_3_eq_3)
qed

theorem bdecode_any_input_witness:
  "let lib = \<lparr>integer_to_str = (\<lambda>i. ascii (int_str i)), entry_index = insert_new\<rparr>
   in (case decode_all lib (ascii ''d1:ai5ee'') of
         Decode_Fuel \<Rightarrow> False | Decode_Wild \<Rightarrow> False
       | Decoded inp1 e err \<Rightarrow> suffix inp1 (ascii ''d1:ai5ee'') \<and> (err \<or> entry_ok e))"
proof -
  let ?lib = "\<lparr>integer_to_str = (\<lambda>i. ascii (int_str i)), entry_index = insert_new\<rparr>"
  have "safe_input (ascii ''d1:ai5ee'')"
    by (simp add: safe_input_def short_numbers_def byte_digit_def ascii_def)
  then show ?thesis
    using bdecode_any_input [of ?lib "ascii ''d1:ai5ee''"]
    by (auto simp: entry_lib_spec_def Let_def split: decode_result.splits)
qed

lemma dict_loop_pairs:
  assumes lib: "entry_lib_spec lib"
  shows "pairs_ok d \<Longrightarrow> keys_ok (d0 @ d) \<Longrightarrow> depth + Suc 0 + pairs_height d \<le> 100 \<Longrightarrow> depth < 99 \<Longrightarrow> t \<noteq> [] \<Longrightarrow>
    2 * length (bencoded_pairs d) + k < fuel \<Longrightarrow>
    \<exists>fuel'. k < fuel' \<and> dict_loop lib fuel (bencoded_pairs d @ t) d0 depth = dict_loop lib fuel' t (d0 @ d) depth"
proof (induction d arbitrary: d0 fuel)
  case Nil
  then show ?case by auto
next
  case (Cons p d)
  obtain key e where p: "p = (key, e)" by fastforce
  obtain j where j: "fuel = Suc j" "0 < j" using Cons(7) by (cases fuel) (auto simp: p sized_bytes_def)
  obtain b bs where b: "sized_bytes key = b # bs" "b \<noteq> 101" by (rule sized_bytes_head)
  have key: "bdecode_recursive lib j (sized_bytes key @ bencoded e @ bencoded_pairs d @ t) Undefined (Suc depth) =
      Decoded (bencoded e @ bencoded_pairs d @ t) (String_Entry key) False"
    using Cons(2,5) j decode_sized [of key "Suc depth" lib "j - 1" "bencoded e @ bencoded_pairs d @ t" Undefined]
    by (simp add: p)
  have val: "bdecode_recursive lib j (bencoded e @ bencoded_pairs d @ t) u (Suc depth) =
      Decoded (bencoded_pairs d @ t) e False" for u
    by (rule decode_bencoded(1) [OF lib]) (use Cons(2,4,7) j b p in auto)
  have "keys_ok (d0 @ [(key, e)])" using Cons(3) by (simp add: p keys_ok_def sorted_wrt_append)
  then have ins: "entry_index lib key d0 = d0 @ [(key, Undefined)]"
    "assign_at key e (d0 @ [(key, Undefined)]) = d0 @ [(key, e)]"
    using lib by (auto simp: entry_lib_spec_def insert_last assign_last)
  have "\<exists>fuel'. k < fuel' \<and> dict_loop lib j (bencoded_pairs d @ t) (d0 @ [(key, e)]) depth =
      dict_loop lib fuel' t ((d0 @ [(key, e)]) @ d) depth"
    by (rule Cons(1)) (use Cons(2-7) j b p in auto)
  with key val ins b j Cons(6) show ?case
    by (simp add: p decode_then_def string_of_def Let_def del: bdecode_recursive.simps)
qed

text \<open>
  A dictionary whose key is not a string ends the decoding without an error: whatever follows
  the key, \<open>bdecode\<close> returns the dictionary read so far as a success, although the input is not
  bencoded.
\<close>

lemma bdecode_bad_key:
  assumes "entry_lib_spec lib" "pairs_ok d" "keys_ok d" "pairs_height d < 100" "in_int64 i"
  shows "bdecode lib ([100] @ bencoded_pairs d @ [105] @ ascii (int_str i) @ [101] @ rest) =
    Some (Dict_Entry d, length (bencoded_pairs d) + length (int_str i) + 3)"
proof -
  let ?t = "[105] @ ascii (int_str i) @ 101 # rest"
  let ?n = "2 * length (100 # bencoded_pairs d @ ?t)"
  have len: "2 * length (bencoded_pairs d) + 2 < ?n" by simp
  have "\<exists>fuel'. 2 < fuel' \<and> dict_loop lib ?n (bencoded_pairs d @ ?t) [] 0 = dict_loop lib fuel' ?t ([] @ d) 0"
    by (rule dict_loop_pairs [OF assms(1,2)]) (use assms(3,4) len in auto)
  then obtain f where f: "2 < f" "dict_loop lib ?n (bencoded_pairs d @ ?t) [] 0 = dict_loop lib f ?t d 0"
    by auto
  then obtain k where "f = Suc (Suc k)" by (metis less_imp_Suc_add add_Suc numeral_2_eq_2)
  with f have k: "dict_loop lib ?n (bencoded_pairs d @ ?t) [] 0 = dict_loop lib (Suc (Suc k)) ?t d 0"
    by (simp only:)
  have "dict_loop lib (Suc (Suc k)) ?t d 0 = Decoded rest (Dict_Entry d) False"
    using decode_int_bytes [OF assms(5), of rest Undefined]
    by (simp add: decode_then_def string_of_def)
  with k have "decode_all lib (100 # bencoded_pairs d @ ?t) = Decoded rest (Dict_Entry d) False"
    by (simp add: decode_all_def del: dict_loop.simps)
  then show ?thesis by (simp add: bdecode_def)
qed

end
