(* ===== verification/Tail_Queue.thy ===== *)
theory Tail_Queue
  imports Getzy_Prelude
begin

text \<open>
  \<open>libtorrent/tailqueue.hpp\<close>: an intrusive singly linked queue, which the disk threads use for their
  jobs. The nodes live in a store that maps each of them to its \<open>next\<close> pointer; \<open>None\<close> is the null
  pointer, and following it is undefined behaviour, the result \<open>None\<close> of an operation. A queue passed
  by value is the queue that the caller has moved from.
\<close>

section \<open>Nodes and queues\<close>

type_synonym 'p store = "'p \<Rightarrow> 'p option"

record 'p tailqueue =
  m_first :: "'p option"
  m_last :: "'p option"
  m_size :: int

definition tq_empty_queue :: "'p tailqueue" where
  "tq_empty_queue = \<lparr>m_first = None, m_last = None, m_size = 0\<rparr>"

definition set_next :: "'p \<Rightarrow> 'p option \<Rightarrow> 'p store \<Rightarrow> 'p store" where
  "set_next p n nxt = nxt(p := n)"

text \<open>\<open>postinc\<close>: the node a pointer points to, and the pointer moved on.\<close>

definition postinc :: "'p store \<Rightarrow> 'p option \<Rightarrow> ('p \<times> 'p option) option" where
  "postinc nxt e = map_option (\<lambda>p. (p, nxt p)) e"

definition tq_iterate :: "'p tailqueue \<Rightarrow> 'p option" where
  "tq_iterate q = m_first q"

definition tq_next :: "'p store \<Rightarrow> 'p option \<Rightarrow> 'p option option" where
  "tq_next nxt cur = map_option nxt cur"

definition tq_move :: "'p tailqueue \<Rightarrow> 'p tailqueue \<times> 'p tailqueue" where
  "tq_move t = (t, t\<lparr>m_first := None, m_last := None, m_size := 0\<rparr>)"

definition tq_swap :: "'p tailqueue \<times> 'p tailqueue \<Rightarrow> 'p tailqueue \<times> 'p tailqueue" where
  "tq_swap p = (snd p, fst p)"

section \<open>Operations\<close>

definition tq_append ::
    "'p tailqueue \<Rightarrow> 'p store \<times> 'p tailqueue \<Rightarrow> ('p store \<times> 'p tailqueue) option" where
  "tq_append rhs s =
     (case s of (nxt, q) \<Rightarrow>
        (if m_first rhs = None then Some (nxt, q)
         else if m_first q = None then Some (nxt, fst (tq_swap (q, rhs)))
         else (case m_last q of
                 None \<Rightarrow> None
               | Some l \<Rightarrow>
                   Some (set_next l (m_first rhs) nxt,
                         q\<lparr>m_last := m_last rhs, m_size := m_size q + m_size rhs\<rparr>))))"

definition tq_prepend ::
    "'p tailqueue \<Rightarrow> 'p store \<times> 'p tailqueue \<Rightarrow> ('p store \<times> 'p tailqueue) option" where
  "tq_prepend rhs s =
     (case s of (nxt, q) \<Rightarrow>
        (if m_first rhs = None then Some (nxt, q)
         else if m_first q = None then Some (nxt, fst (tq_swap (q, rhs)))
         else (case tq_swap (q, rhs) of (q1, rhs1) \<Rightarrow> tq_append rhs1 (nxt, q1))))"

definition tq_pop_front :: "'p store \<times> 'p tailqueue \<Rightarrow> ('p \<times> 'p store \<times> 'p tailqueue) option" where
  "tq_pop_front s =
     (case s of (nxt, q) \<Rightarrow>
        (case m_first q of
           None \<Rightarrow> None
         | Some e \<Rightarrow>
             (let q1 = q\<lparr>m_first := nxt e\<rparr>;
                  q2 = (if Some e = m_last q1 then q1\<lparr>m_last := None\<rparr> else q1)
              in Some (e, set_next e None nxt, q2\<lparr>m_size := m_size q2 - 1\<rparr>))))"

definition tq_push_front :: "'p \<Rightarrow> 'p store \<times> 'p tailqueue \<Rightarrow> 'p store \<times> 'p tailqueue" where
  "tq_push_front e s =
     (case s of (nxt, q) \<Rightarrow>
        (let nxt1 = set_next e (m_first q) nxt;
             q1 = q\<lparr>m_first := Some e\<rparr>;
             q2 = (if m_last q1 = None then q1\<lparr>m_last := Some e\<rparr> else q1)
         in (nxt1, q2\<lparr>m_size := m_size q2 + 1\<rparr>)))"

definition tq_push_back :: "'p \<Rightarrow> 'p store \<times> 'p tailqueue \<Rightarrow> 'p store \<times> 'p tailqueue" where
  "tq_push_back e s =
     (case s of (nxt, q) \<Rightarrow>
        (let (nxt1, q1) = (case m_last q of
                              Some l \<Rightarrow> (set_next l (Some e) nxt, q)
                            | None \<Rightarrow> (nxt, q\<lparr>m_first := Some e\<rparr>));
             q2 = q1\<lparr>m_last := Some e\<rparr>
         in (set_next e None nxt1, q2\<lparr>m_size := m_size q2 + 1\<rparr>)))"

definition tq_get_all :: "'p tailqueue \<Rightarrow> 'p option \<times> 'p tailqueue" where
  "tq_get_all q = (m_first q, q\<lparr>m_first := None, m_last := None, m_size := 0\<rparr>)"

definition tq_size :: "'p tailqueue \<Rightarrow> int" where
  "tq_size q = m_size q"

definition tq_is_empty :: "'p tailqueue \<Rightarrow> bool" where
  "tq_is_empty q \<longleftrightarrow> m_size q = 0"

section \<open>The list a queue holds\<close>

fun chain :: "'p store \<Rightarrow> 'p option \<Rightarrow> 'p list \<Rightarrow> bool" where
  "chain nxt p [] \<longleftrightarrow> p = None"
| "chain nxt p (x # xs) \<longleftrightarrow> p = Some x \<and> chain nxt (nxt x) xs"

definition holds :: "'p store \<Rightarrow> 'p tailqueue \<Rightarrow> 'p list \<Rightarrow> bool" where
  "holds nxt q xs \<longleftrightarrow>
     chain nxt (m_first q) xs \<and> distinct xs \<and> m_size q = int (length xs)
     \<and> m_last q = (if xs = [] then None else Some (last xs))"

lemma chain_frame [simp]: "p \<notin> set xs \<Longrightarrow> chain (set_next p n nxt) q xs = chain nxt q xs"
  by (induction xs arbitrary: q) (auto simp: set_next_def)

lemma set_next_simps [simp]:
  "set_next p n nxt p = n" "p \<noteq> q \<Longrightarrow> set_next p n nxt q = nxt q"
  by (simp_all add: set_next_def)

lemma chain_join:
  assumes "chain nxt p (xs @ [l])" "l \<notin> set xs" "chain nxt q ys" "l \<notin> set ys"
  shows "chain (set_next l q nxt) p (xs @ l # ys)"
  using assms(1,2)
proof (induction xs arbitrary: p)
  case Nil
  then show ?case using assms(3,4) by simp
qed auto

lemma holds_first: "holds nxt q xs \<Longrightarrow> m_first q = None \<longleftrightarrow> xs = []"
  by (cases xs) (auto simp: holds_def)

lemma holds_append:
  assumes "holds nxt q xs" "holds nxt r ys" "set xs \<inter> set ys = {}"
  shows "\<exists>nxt' q'. tq_append r (nxt, q) = Some (nxt', q') \<and> holds nxt' q' (xs @ ys)"
proof (cases "ys = [] \<or> xs = []")
  case True
  then show ?thesis using assms holds_first [OF assms(1)] holds_first [OF assms(2)]
    by (auto simp: tq_append_def tq_swap_def)
next
  case False
  define l zs where "l = last xs" and "zs = butlast xs"
  with False have xs: "xs = zs @ [l]" by simp
  have l: "m_last q = Some l" "l \<notin> set zs" "l \<notin> set ys" "chain nxt (m_first q) (zs @ [l])"
    using assms(1,3) by (auto simp: holds_def xs)
  have "chain (set_next l (m_first r) nxt) (m_first q) (zs @ l # ys)"
    using assms(2) l by (intro chain_join) (auto simp: holds_def)
  then show ?thesis
    using False assms l holds_first [OF assms(1)] holds_first [OF assms(2)]
    by (auto simp: tq_append_def holds_def xs)
qed

lemma holds_push_back:
  assumes "holds nxt q xs" "e \<notin> set xs"
  shows "case tq_push_back e (nxt, q) of (nxt', q') \<Rightarrow> holds nxt' q' (xs @ [e])"
proof (cases xs rule: rev_cases)
  case Nil
  then show ?thesis using assms by (auto simp: tq_push_back_def holds_def set_next_def)
next
  case (snoc zs l)
  have "chain (set_next e None nxt) (m_first q) (zs @ [l])" using assms snoc by (simp add: holds_def)
  then have "chain (set_next l (Some e) (set_next e None nxt)) (m_first q) (zs @ l # [e])"
    using assms snoc by (intro chain_join) (auto simp: holds_def)
  moreover have "set_next l (Some e) (set_next e None nxt) = set_next e None (set_next l (Some e) nxt)"
    using assms(2) snoc by (auto simp: set_next_def)
  ultimately have "chain (set_next e None (set_next l (Some e) nxt)) (m_first q) (zs @ [l, e])" by simp
  with assms snoc show ?thesis by (auto simp: tq_push_back_def holds_def)
qed

lemma holds_push_front:
  assumes "holds nxt q xs" "e \<notin> set xs"
  shows "case tq_push_front e (nxt, q) of (nxt', q') \<Rightarrow> holds nxt' q' (e # xs)"
  using assms by (auto simp: tq_push_front_def holds_def Let_def)

lemma holds_pop_front:
  assumes "holds nxt q (x # xs)"
  shows "\<exists>nxt' q'. tq_pop_front (nxt, q) = Some (x, nxt', q') \<and> holds nxt' q' xs \<and> nxt' x = None"
  using assms by (auto simp: tq_pop_front_def holds_def Let_def split: if_splits)

lemma holds_prepend:
  assumes "holds nxt q xs" "holds nxt r ys" "set xs \<inter> set ys = {}"
  shows "\<exists>nxt' q'. tq_prepend r (nxt, q) = Some (nxt', q') \<and> holds nxt' q' (ys @ xs)"
proof (cases "ys = [] \<or> xs = []")
  case True
  then show ?thesis using assms holds_first [OF assms(1)] holds_first [OF assms(2)]
    by (auto simp: tq_prepend_def tq_swap_def)
next
  case False
  then show ?thesis
    using holds_append [OF assms(2,1)] assms(3) holds_first [OF assms(1)] holds_first [OF assms(2)]
    by (auto simp: tq_prepend_def tq_swap_def)
qed

text \<open>
  A tail queue is the list of its nodes: pushing at either end, taking the first, and splicing
  another queue before or after do to the pointers what the list operation does, and the size and the
  last pointer stay right. Taking the first of an empty queue follows the null pointer.
\<close>

lemma tailqueue_refines_list:
  assumes "holds nxt q xs" "holds nxt r ys" "set xs \<inter> set ys = {}" "e \<notin> set xs"
  shows "(case tq_push_back e (nxt, q) of (nxt', q') \<Rightarrow> holds nxt' q' (xs @ [e]))
    \<and> (case tq_push_front e (nxt, q) of (nxt', q') \<Rightarrow> holds nxt' q' (e # xs))
    \<and> (case tq_pop_front (nxt, q) of
         None \<Rightarrow> xs = []
       | Some (x, nxt', q') \<Rightarrow> xs \<noteq> [] \<and> x = hd xs \<and> holds nxt' q' (tl xs) \<and> nxt' x = None)
    \<and> (case tq_append r (nxt, q) of None \<Rightarrow> False | Some (nxt', q') \<Rightarrow> holds nxt' q' (xs @ ys))
    \<and> (case tq_prepend r (nxt, q) of None \<Rightarrow> False | Some (nxt', q') \<Rightarrow> holds nxt' q' (ys @ xs))
    \<and> (case tq_get_all q of (e, q') \<Rightarrow> chain nxt e xs \<and> holds nxt q' [])
    \<and> tq_size q = int (length xs) \<and> tq_is_empty q = (xs = [])"
proof (intro conjI)
  show "case tq_pop_front (nxt, q) of None \<Rightarrow> xs = []
    | Some (x, nxt', q') \<Rightarrow> xs \<noteq> [] \<and> x = hd xs \<and> holds nxt' q' (tl xs) \<and> nxt' x = None"
    using holds_pop_front [of nxt q "hd xs" "tl xs"] holds_first [OF assms(1)] assms(1)
    by (cases xs) (auto simp: tq_pop_front_def)
  show "case tq_append r (nxt, q) of None \<Rightarrow> False | Some (nxt', q') \<Rightarrow> holds nxt' q' (xs @ ys)"
    using holds_append [OF assms(1-3)] by auto
  show "case tq_prepend r (nxt, q) of None \<Rightarrow> False | Some (nxt', q') \<Rightarrow> holds nxt' q' (ys @ xs)"
    using holds_prepend [OF assms(1-3)] by auto
qed (use assms holds_push_back [OF assms(1,4)] holds_push_front [OF assms(1,4)] in
  \<open>auto simp: tq_get_all_def tq_size_def tq_is_empty_def holds_def\<close>)

end
