(* ===== verification/Torrent_List.thy ===== *)
theory Torrent_List
  imports Digest
begin

text \<open>
  \<open>libtorrent/aux_/torrent_list.hpp\<close>: the session's torrents, an array of them and two hash indices,
  one by info hash and one by the hash of the encrypted handshake (encryption is enabled in this
  build). A torrent is its address. \<open>SHA1("req2" + info hash)\<close> comes from the prebuilt library's
  \<open>hasher\<close> and is the parameter \<open>obf\<close>. Every insertion may fail to allocate: the parameter \<open>ok\<close> says
  which of them, counted from 0, succeed, and a failure throws after rolling back.
\<close>

section \<open>State\<close>

record 'p torrent_list =
  m_array :: "'p list"
  m_index :: "digest \<rightharpoonup> 'p"
  m_obfuscated_index :: "digest \<rightharpoonup> 'p"

definition torrent_list_init :: "'p torrent_list" where
  "torrent_list_init = \<lparr>m_array = [], m_index = Map.empty, m_obfuscated_index = Map.empty\<rparr>"

definition tl_empty :: "'p torrent_list \<Rightarrow> bool" where
  "tl_empty s \<longleftrightarrow> m_array s = []"

definition tl_size :: "'p torrent_list \<Rightarrow> nat" where
  "tl_size s = length (m_array s)"

definition tl_at :: "'p torrent_list \<Rightarrow> nat \<Rightarrow> 'p option" where
  "tl_at s idx = (if idx < length (m_array s) then Some (m_array s ! idx) else None)"

definition tl_find :: "digest \<Rightarrow> 'p torrent_list \<Rightarrow> 'p option" where
  "tl_find ih s = m_index s ih"

definition tl_find_obfuscated :: "digest \<Rightarrow> 'p torrent_list \<Rightarrow> 'p option" where
  "tl_find_obfuscated ih s = m_obfuscated_index s ih"

definition tl_clear :: "'p torrent_list \<Rightarrow> 'p torrent_list" where
  "tl_clear s = \<lparr>m_array = [], m_index = Map.empty, m_obfuscated_index = Map.empty\<rparr>"

section \<open>Insertion\<close>

fun version_index :: "protocol_version \<Rightarrow> nat" where
  "version_index V1 = 0"
| "version_index V2 = 1"

text \<open>\<open>unordered_map::insert\<close>: nothing happens if the key is there.\<close>

definition map_insert :: "digest \<Rightarrow> 'p \<Rightarrow> (digest \<rightharpoonup> 'p) \<Rightarrow> (digest \<rightharpoonup> 'p) \<times> bool" where
  "map_insert key t m = (if m key = None then (m(key \<mapsto> t), True) else (m, False))"

text \<open>The insertions into the indices; the result says whether all of them succeeded.\<close>

fun insert_loop ::
    "(digest \<Rightarrow> digest) \<Rightarrow> (nat \<Rightarrow> bool) \<Rightarrow> nat \<Rightarrow> 'p \<Rightarrow> (digest \<times> protocol_version) list \<Rightarrow>
     'p torrent_list \<times> bool list \<Rightarrow> bool \<times> 'p torrent_list \<times> bool list" where
  "insert_loop obf ok k t [] (s, rollback) = (True, s, rollback)"
| "insert_loop obf ok k t ((hash, v) # hs) (s, rollback) =
     (if \<not> ok k then (False, s, rollback)
      else (case map_insert hash t (m_index s) of (index, new) \<Rightarrow>
        (let s1 = s\<lparr>m_index := index\<rparr>;
             rb1 = (if new then rollback[version_index v := True] else rollback)
         in if \<not> ok (k + 1) then (False, s1, rb1)
            else (case map_insert (obf hash) t (m_obfuscated_index s1) of (obf_index, new2) \<Rightarrow>
              insert_loop obf ok (k + 2) t hs
                (s1\<lparr>m_obfuscated_index := obf_index\<rparr>,
                 if new2 then rb1[2 + version_index v := True] else rb1)))))"

fun rollback_loop ::
    "(digest \<Rightarrow> digest) \<Rightarrow> bool list \<Rightarrow> (digest \<times> protocol_version) list \<Rightarrow> 'p torrent_list \<Rightarrow> 'p torrent_list" where
  "rollback_loop obf rollback [] s = s"
| "rollback_loop obf rollback ((hash, v) # hs) s =
     (let s1 = (if rollback ! version_index v then s\<lparr>m_index := (m_index s)(hash := None)\<rparr> else s);
          s2 = (if rollback ! (2 + version_index v)
                then s1\<lparr>m_obfuscated_index := (m_obfuscated_index s1)(obf hash := None)\<rparr> else s1)
      in rollback_loop obf rollback hs s2)"

text \<open>\<open>None\<close> is an exception.\<close>

definition tl_insert ::
    "(digest \<Rightarrow> digest) \<Rightarrow> (nat \<Rightarrow> bool) \<Rightarrow> info_hash_t \<Rightarrow> 'p \<Rightarrow> 'p torrent_list \<Rightarrow> bool option \<times> 'p torrent_list" where
  "tl_insert obf ok ih t s =
     (let hs = ih_for_each ih
      in if list_ex (\<lambda>(hash, v). m_index s hash \<noteq> None) hs then (Some False, s)
         else (case insert_loop obf ok 0 t hs (s, [False, False, False, False]) of
           (done, s1, rollback) \<Rightarrow>
             (if done \<and> ok (2 * length hs) then (Some True, s1\<lparr>m_array := m_array s1 @ [t]\<rparr>)
              else (None, rollback_loop obf rollback hs s1))))"

section \<open>Removal\<close>

fun erase_loop ::
    "(digest \<Rightarrow> digest) \<Rightarrow> (digest \<times> protocol_version) list \<Rightarrow> 'p option \<Rightarrow> 'p torrent_list \<Rightarrow> 'p option \<times> 'p torrent_list" where
  "erase_loop obf [] found s = (found, s)"
| "erase_loop obf ((hash, v) # hs) found s =
     (let (found1, s1) = (case m_index s hash of
                            None \<Rightarrow> (found, s)
                          | Some t \<Rightarrow> (Some t, s\<lparr>m_index := (m_index s)(hash := None)\<rparr>))
      in erase_loop obf hs found1
           (s1\<lparr>m_obfuscated_index := (m_obfuscated_index s1)(obf hash := None)\<rparr>))"

fun position :: "'p \<Rightarrow> 'p list \<Rightarrow> nat" where
  "position t [] = 0"
| "position t (x # xs) = (if x = t then 0 else Suc (position t xs))"

text \<open>Swapping with the last element and dropping it; \<open>None\<close> when the element is not there.\<close>

definition swap_pop :: "'p \<Rightarrow> 'p list \<Rightarrow> 'p list option" where
  "swap_pop t xs =
     (let i = position t xs
      in if i \<ge> length xs then None
         else (let ys = (if i \<noteq> length xs - 1 then xs[i := last xs, length xs - 1 := xs ! i] else xs)
               in Some (butlast ys)))"

definition tl_erase :: "(digest \<Rightarrow> digest) \<Rightarrow> info_hash_t \<Rightarrow> 'p torrent_list \<Rightarrow> (bool \<times> 'p torrent_list) option" where
  "tl_erase obf ih s =
     (case erase_loop obf (ih_for_each ih) None s of
        (None, s1) \<Rightarrow> Some (False, s1)
      | (Some found, s1) \<Rightarrow>
          map_option (\<lambda>xs. (True, s1\<lparr>m_array := xs\<rparr>)) (swap_pop found (m_array s1)))"

section \<open>What the list registers\<close>

definition hashes :: "info_hash_t \<Rightarrow> digest set" where
  "hashes ih = fst ` set (ih_for_each ih)"

text \<open>The torrents with the info hashes they were inserted under, and the state that represents them.\<close>

type_synonym 'p registered = "(info_hash_t \<times> 'p) set"

definition indexed_by :: "'p registered \<Rightarrow> digest \<Rightarrow> 'p \<Rightarrow> bool" where
  "indexed_by reg h t \<longleftrightarrow> (\<exists>ih. (ih, t) \<in> reg \<and> h \<in> hashes ih)"

definition tl_ok :: "(digest \<Rightarrow> digest) \<Rightarrow> 'p registered \<Rightarrow> 'p torrent_list \<Rightarrow> bool" where
  "tl_ok obf reg s \<longleftrightarrow>
     distinct (m_array s) \<and> set (m_array s) = snd ` reg \<and> inj_on snd reg
     \<and> (\<forall>(ih, t) \<in> reg. hashes ih \<noteq> {})
     \<and> (\<forall>h t. m_index s h = Some t \<longleftrightarrow> indexed_by reg h t)
     \<and> (\<forall>k t. m_obfuscated_index s k = Some t \<longleftrightarrow> (\<exists>h. indexed_by reg h t \<and> obf h = k))"

lemma for_each_cases:
  "ih_for_each ih = [] \<or> (\<exists>h. ih_for_each ih = [(h, V1)]) \<or> (\<exists>h. ih_for_each ih = [(h, V2)])
   \<or> (\<exists>h1 h2. ih_for_each ih = [(h1, V1), (h2, V2)])"
  by (auto simp: ih_for_each_def)

lemma insert_loop_done:
  "insert_loop obf ok k t hs (s, rb) = (True, s', rb') \<Longrightarrow>
   m_array s' = m_array s
   \<and> m_index s' = (\<lambda>h. if h \<in> fst ` set hs \<and> m_index s h = None then Some t else m_index s h)
   \<and> m_obfuscated_index s' = (\<lambda>k. if k \<in> obf ` fst ` set hs \<and> m_obfuscated_index s k = None then Some t
        else m_obfuscated_index s k)"
proof (induction hs arbitrary: k s rb)
  case (Cons p hs)
  obtain h v where p: "p = (h, v)" by fastforce
  from Cons.prems have ok: "ok k" "ok (k + 1)" by (auto simp: p Let_def split: if_splits prod.splits)
  let ?i = "fst (map_insert h t (m_index s))" and ?o = "fst (map_insert (obf h) t (m_obfuscated_index s))"
  let ?s1 = "s\<lparr>m_index := ?i, m_obfuscated_index := ?o\<rparr>"
  obtain rb1 where "insert_loop obf ok (k + 2) t hs (?s1, rb1) = (True, s', rb')"
    using Cons.prems ok by (auto simp: p Let_def split: prod.splits)
  from Cons.IH [OF this] show ?case
    by (auto simp: p map_insert_def fun_eq_iff)
qed auto

text \<open>
  What the flags record: an entry that an insertion changed was absent and is flagged, and what is
  flagged was absent.
\<close>

definition flags_cover ::
    "nat \<Rightarrow> ('a \<times> protocol_version) list \<Rightarrow> bool list \<Rightarrow> ('a \<rightharpoonup> 'p) \<Rightarrow> ('a \<rightharpoonup> 'p) \<Rightarrow> bool" where
  "flags_cover off hs rb m m' \<longleftrightarrow>
     (\<forall>x. m' x = m x \<or> m x = None \<and> (\<exists>v. (x, v) \<in> set hs \<and> rb ! (off + version_index v)))
     \<and> (\<forall>x v. (x, v) \<in> set hs \<and> rb ! (off + version_index v) \<longrightarrow> m x = None)"

definition obf_keys :: "(digest \<Rightarrow> digest) \<Rightarrow> (digest \<times> protocol_version) list \<Rightarrow> (digest \<times> protocol_version) list" where
  "obf_keys obf hs = map (\<lambda>(h, v). (obf h, v)) hs"

definition clear_flags :: "protocol_version set \<Rightarrow> bool list \<Rightarrow> bool" where
  "clear_flags vs rb \<longleftrightarrow> length rb = 4 \<and> (\<forall>v\<in>vs. \<not> rb ! version_index v \<and> \<not> rb ! (2 + version_index v))"

lemma version_index_simps [simp]:
  "version_index v < 2" "version_index v < 4" "version_index v = version_index w \<longleftrightarrow> v = w"
  "version_index v \<noteq> Suc (Suc (version_index w))" "Suc (Suc (version_index w)) \<noteq> version_index v"
  by (cases v; cases w; simp)+

lemma map_insert_cases:
  "map_insert x t m = (if m x = None then (m(x \<mapsto> t), True) else (m, False))"
  by (simp add: map_insert_def)

lemma flags_cover_step:
  assumes cover: "flags_cover off hs rb (if m h = None then m(h \<mapsto> t) else m) m'"
    and flag: "rb ! (off + version_index v) \<longleftrightarrow> m h = None"
  shows "flags_cover off ((h, v) # hs) rb m m'"
proof -
  let ?m1 = "if m h = None then m(h \<mapsto> t) else m"
  have m1: "?m1 x = m x \<or> x = h \<and> m h = None \<and> ?m1 x = Some t" for x by simp
  have "m' x = m x \<or> m x = None \<and> (\<exists>w. (x, w) \<in> set ((h, v) # hs) \<and> rb ! (off + version_index w))" for x
    using cover flag m1 [of x] unfolding flags_cover_def
    by (metis list.set_intros(1) list.set_intros(2))
  moreover have "m x = None" if "(x, w) \<in> set ((h, v) # hs)" "rb ! (off + version_index w)" for x w
    using that cover flag m1 [of x] unfolding flags_cover_def by (metis prod.inject set_ConsD)
  ultimately show ?thesis unfolding flags_cover_def by blast
qed

lemma insert_loop_flags:
  "insert_loop obf ok k t hs (s, rb) = (d, s', rb') \<Longrightarrow> distinct (map snd hs) \<Longrightarrow>
   clear_flags (snd ` set hs) rb \<Longrightarrow>
   length rb' = 4 \<and> m_array s' = m_array s
   \<and> (\<forall>v. v \<notin> snd ` set hs \<longrightarrow> rb' ! version_index v = rb ! version_index v
          \<and> rb' ! (2 + version_index v) = rb ! (2 + version_index v))
   \<and> flags_cover 0 hs rb' (m_index s) (m_index s')
   \<and> flags_cover 2 (obf_keys obf hs) rb' (m_obfuscated_index s) (m_obfuscated_index s')"
proof (induction hs arbitrary: k s rb)
  case Nil
  then show ?case by (simp add: flags_cover_def obf_keys_def clear_flags_def)
next
  case (Cons p hs)
  obtain h v where p: "p = (h, v)" by fastforce
  let ?new = "m_index s h = None" and ?new2 = "m_obfuscated_index s (obf h) = None"
  let ?s1 = "s\<lparr>m_index := if ?new then (m_index s)(h \<mapsto> t) else m_index s\<rparr>"
  let ?rb1 = "if ?new then rb[version_index v := True] else rb"
  let ?s2 = "?s1\<lparr>m_obfuscated_index := if ?new2 then (m_obfuscated_index s)(obf h \<mapsto> t) else m_obfuscated_index s\<rparr>"
  let ?rb2 = "if ?new2 then ?rb1[2 + version_index v := True] else ?rb1"
  have d: "v \<notin> snd ` set hs" "distinct (map snd hs)" using Cons.prems by (auto simp: p)
  have c: "length rb = 4" "\<not> rb ! version_index v" "\<not> rb ! (2 + version_index v)"
    "clear_flags (snd ` set hs) ?rb2"
    using Cons.prems(3) d by (auto simp: clear_flags_def p nth_list_update)
  consider "\<not> ok k" "(d, s', rb') = (False, s, rb)"
    | "ok k" "\<not> ok (k + 1)" "(d, s', rb') = (False, ?s1, ?rb1)"
    | "insert_loop obf ok (k + 2) t hs (?s2, ?rb2) = (d, s', rb')"
    using Cons.prems(1)
    by (cases "ok k"; cases "ok (k + 1)"; cases ?new; cases ?new2) (auto simp: p Let_def map_insert_cases)
  then show ?case
  proof cases
    case 1
    with c show ?thesis
      using Cons.prems(3) by (auto simp: p flags_cover_def obf_keys_def clear_flags_def)
  next
    case 2
    have eq: "s' = ?s1" "rb' = ?rb1" using 2(3) by simp_all
    have f: "\<not> rb ! version_index w" "\<not> rb ! (2 + version_index w)" if "(x, w) \<in> set (p # hs)" for x w
      using that Cons.prems(3) by (auto simp: clear_flags_def)
    have g: "rb[version_index v := True] ! version_index w = (w = v \<or> rb ! version_index w)"
      "rb[version_index v := True] ! (2 + version_index w) = rb ! (2 + version_index w)" for w
      using c(1) by (auto simp: nth_list_update)
    have u: "x = h" if "(x, v) \<in> set (p # hs)" for x using that d(1) by (auto simp: p rev_image_eqI)
    have "flags_cover 0 (p # hs) rb' (m_index s) (m_index s')"
    proof (cases ?new)
      case True
      then have rb: "rb' ! version_index w = (w = v \<or> rb ! version_index w)" for w
        by (simp only: eq if_True g simp_thms)
      from True have "m_index s' = (m_index s)(h \<mapsto> t)" by (simp add: eq)
      moreover have "(h, v) \<in> set (p # hs)" by (simp add: p)
      moreover have "x = h" if "(x, w) \<in> set (p # hs)" "w = v \<or> rb ! version_index w" for x w
        using that f(1) u by blast
      ultimately show ?thesis unfolding flags_cover_def add_0 rb
        using True by (metis (full_types) fun_upd_other)
    next
      case False
      then have e: "m_index s' = m_index s" "rb' = rb" by (simp_all add: eq del: not_None_eq)
      show ?thesis unfolding flags_cover_def add_0 e using f(1) by blast
    qed
    moreover have "rb' ! (2 + version_index w) = rb ! (2 + version_index w)" for w
      by (cases ?new) (simp_all only: eq g if_True if_False simp_thms)
    then have "flags_cover 2 (obf_keys obf (p # hs)) rb' (m_obfuscated_index s) (m_obfuscated_index s')"
      using f(2) unfolding flags_cover_def p by (auto simp: obf_keys_def eq p)
    moreover have "\<forall>w. w \<notin> snd ` set (p # hs) \<longrightarrow> rb' ! version_index w = rb ! version_index w
          \<and> rb' ! (2 + version_index w) = rb ! (2 + version_index w)"
      by (cases ?new) (auto simp: eq g [simplified] p)
    moreover have "length rb' = 4 \<and> m_array s' = m_array s" using c(1) by (simp add: eq)
    ultimately show ?thesis by blast
  next
    case 3
    note ih = Cons.IH [OF 3 d(2) c(4)]
    have "rb' ! version_index v = ?new" "rb' ! (2 + version_index v) = ?new2"
      using ih d(1) c(1-3) by (simp_all add: nth_list_update)
    moreover have "obf_keys obf (p # hs) = (obf h, v) # obf_keys obf hs" by (simp add: obf_keys_def p)
    moreover have "flags_cover 0 hs rb' (if ?new then (m_index s)(h \<mapsto> t) else m_index s) (m_index s')"
      "flags_cover 2 (obf_keys obf hs) rb'
        (if ?new2 then (m_obfuscated_index s)(obf h \<mapsto> t) else m_obfuscated_index s) (m_obfuscated_index s')"
      using ih by simp_all
    ultimately have "flags_cover 0 (p # hs) rb' (m_index s) (m_index s')"
      "flags_cover 2 (obf_keys obf (p # hs)) rb' (m_obfuscated_index s) (m_obfuscated_index s')"
      unfolding p by (simp_all add: flags_cover_step)
    moreover have "\<forall>w. w \<notin> snd ` set (p # hs) \<longrightarrow> rb' ! version_index w = rb ! version_index w
          \<and> rb' ! (2 + version_index w) = rb ! (2 + version_index w)"
      using ih c(1) by (auto simp: nth_list_update p)
    moreover have "length rb' = 4 \<and> m_array s' = m_array s" using ih by simp
    ultimately show ?thesis by blast
  qed
qed

lemma rollback_loop_maps:
  "m_array (rollback_loop obf rb hs s) = m_array s
   \<and> m_index (rollback_loop obf rb hs s) =
      (\<lambda>x. if \<exists>v. (x, v) \<in> set hs \<and> rb ! version_index v then None else m_index s x)
   \<and> m_obfuscated_index (rollback_loop obf rb hs s) =
      (\<lambda>x. if \<exists>v. (x, v) \<in> set (obf_keys obf hs) \<and> rb ! (2 + version_index v) then None
            else m_obfuscated_index s x)"
proof (induction hs arbitrary: s)
  case (Cons p hs)
  then show ?case by (cases p) (auto simp: Let_def obf_keys_def fun_eq_iff)
qed (simp add: obf_keys_def)

lemma flags_cover_undo:
  assumes "flags_cover off hs rb m m'"
  shows "(\<lambda>x. if \<exists>v. (x, v) \<in> set hs \<and> rb ! (off + version_index v) then None else m' x) = m"
proof
  fix x
  show "(if \<exists>v. (x, v) \<in> set hs \<and> rb ! (off + version_index v) then None else m' x) = m x"
    using assms unfolding flags_cover_def by (cases "\<exists>v. (x, v) \<in> set hs \<and> rb ! (off + version_index v)") auto
qed

lemma rollback_exact:
  assumes "insert_loop obf ok 0 t (ih_for_each ih) (s, [False, False, False, False]) = (d, s', rb)"
  shows "rollback_loop obf rb (ih_for_each ih) s' = s"
proof -
  have "\<not> [False, False, False, False] ! version_index v \<and> \<not> [False, False, False, False] ! (2 + version_index v)" for v
    by (cases v) simp_all
  then have "clear_flags (snd ` set (ih_for_each ih)) [False, False, False, False]"
    unfolding clear_flags_def by simp
  moreover have "distinct (map snd (ih_for_each ih))" by (simp add: ih_for_each_def)
  ultimately have "m_array s' = m_array s" "flags_cover 0 (ih_for_each ih) rb (m_index s) (m_index s')"
    "flags_cover 2 (obf_keys obf (ih_for_each ih)) rb (m_obfuscated_index s) (m_obfuscated_index s')"
    using insert_loop_flags [OF assms] by blast+
  then have "m_array (rollback_loop obf rb (ih_for_each ih) s') = m_array s"
    "m_index (rollback_loop obf rb (ih_for_each ih) s') = m_index s"
    "m_obfuscated_index (rollback_loop obf rb (ih_for_each ih) s') = m_obfuscated_index s"
    using flags_cover_undo [of 0] flags_cover_undo [of 2] by (simp_all add: rollback_loop_maps)
  then show ?thesis by simp
qed

text \<open>An insertion that does not return \<open>true\<close> leaves the list as it was, also when it throws.\<close>

lemma insert_unchanged: "tl_insert obf ok ih t s = (r, s') \<Longrightarrow> r \<noteq> Some True \<Longrightarrow> s' = s"
  using rollback_exact [of obf ok t ih s]
  by (auto simp: tl_insert_def Let_def split: if_splits prod.splits)

section \<open>The list represents the registered torrents\<close>

lemma hashes_for_each: "fst ` set (ih_for_each ih) = hashes ih"
  by (simp add: hashes_def)

lemma tl_ok_dom: "tl_ok obf reg s \<Longrightarrow> dom (m_index s) = {h. \<exists>t. indexed_by reg h t}"
  unfolding tl_ok_def by (auto simp: dom_def)

lemma insert_duplicate:
  "tl_insert obf ok ih t s = (Some False, s) \<longleftrightarrow> hashes ih \<inter> dom (m_index s) \<noteq> {}"
proof -
  have "list_ex (\<lambda>(h, v). m_index s h \<noteq> None) (ih_for_each ih) \<longleftrightarrow> hashes ih \<inter> dom (m_index s) \<noteq> {}"
    by (fastforce simp: hashes_def list_ex_iff)
  then show ?thesis by (auto simp: tl_insert_def Let_def split: prod.splits)
qed

lemma insert_loop_succeeds:
  "\<forall>i. i < k + 2 * length hs \<longrightarrow> ok i \<Longrightarrow> fst (insert_loop obf ok k t hs (s, rb))"
proof (induction hs arbitrary: k s rb)
  case (Cons p hs)
  obtain h v where p: "p = (h, v)" by fastforce
  from Cons.prems have "ok k" "ok (k + 1)" "\<forall>i. i < (k + 2) + 2 * length hs \<longrightarrow> ok i" by auto
  with Cons.IH show ?case by (simp add: p Let_def split: prod.split)
qed simp

lemma insert_done:
  "tl_insert obf ok ih t s = (Some True, s') \<Longrightarrow>
   hashes ih \<inter> dom (m_index s) = {} \<and> m_array s' = m_array s @ [t]
   \<and> m_index s' = (\<lambda>h. if h \<in> hashes ih then Some t else m_index s h)
   \<and> m_obfuscated_index s' = (\<lambda>k. if k \<in> obf ` hashes ih \<and> m_obfuscated_index s k = None then Some t
        else m_obfuscated_index s k)"
proof -
  assume ins: "tl_insert obf ok ih t s = (Some True, s')"
  have "\<not> list_ex (\<lambda>(h, v). m_index s h \<noteq> None) (ih_for_each ih)"
    using ins by (auto simp: tl_insert_def Let_def)
  then have fresh: "m_index s h = None" if "h \<in> hashes ih" for h
    using that by (fastforce simp: hashes_def list_ex_iff)
  obtain d s1 rb where loop: "insert_loop obf ok 0 t (ih_for_each ih) (s, [False, False, False, False]) = (d, s1, rb)"
    by (rule prod_cases3)
  with ins have "d" "s' = s1\<lparr>m_array := m_array s1 @ [t]\<rparr>"
    by (auto simp: tl_insert_def Let_def split: if_splits)
  with insert_loop_done [of obf ok 0 t "ih_for_each ih" s] loop fresh show ?thesis
    unfolding hashes_for_each by (auto simp: fun_eq_iff)
qed

lemma indexed_by_insert: "indexed_by (insert (ih, t) reg) h u \<longleftrightarrow> u = t \<and> h \<in> hashes ih \<or> indexed_by reg h u"
  by (auto simp: indexed_by_def)

lemma insert_keeps:
  assumes ok: "tl_ok obf reg s" and ins: "tl_insert obf ok ih t s = (Some True, s')"
    and inj: "inj_on obf (dom (m_index s) \<union> hashes ih)" and ne: "hashes ih \<noteq> {}" and t: "t \<notin> set (m_array s)"
  shows "tl_ok obf (insert (ih, t) reg) s'"
proof -
  note s' = insert_done [OF ins]
  have fresh: "m_index s h = None" if "h \<in> hashes ih" for h using s' that by auto
  have idx: "m_index s h = Some u \<longleftrightarrow> indexed_by reg h u"
    and obf: "m_obfuscated_index s k = Some u \<longleftrightarrow> (\<exists>h. indexed_by reg h u \<and> obf h = k)" for h k u
    using ok unfolding tl_ok_def by auto
  have new: "m_obfuscated_index s (obf h) = None" if h: "h \<in> hashes ih" for h
  proof (rule ccontr)
    assume "m_obfuscated_index s (obf h) \<noteq> None"
    then obtain u h' where "indexed_by reg h' u" "obf h' = obf h" using obf by blast
    moreover from this have "h' \<in> dom (m_index s)" using idx by auto
    ultimately have "h' = h" using inj h by (auto dest: inj_onD)
    with \<open>h' \<in> dom (m_index s)\<close> fresh [OF h] show False by auto
  qed
  have "m_index s' h = Some u \<longleftrightarrow> indexed_by (insert (ih, t) reg) h u" for h u
    using s' fresh by (auto simp: indexed_by_insert idx [symmetric])
  moreover have "m_obfuscated_index s' k = Some u \<longleftrightarrow> (\<exists>h. indexed_by (insert (ih, t) reg) h u \<and> obf h = k)" for k u
  proof (cases "k \<in> obf ` hashes ih")
    case True
    with new have "m_obfuscated_index s k = None" by auto
    with True s' obf [of k] show ?thesis by (auto simp: indexed_by_insert)
  next
    case False
    with s' obf [of k] show ?thesis by (auto simp: indexed_by_insert)
  qed
  moreover have "inj_on snd (insert (ih, t) reg)" using ok t unfolding tl_ok_def by auto
  moreover have "distinct (m_array s')" "set (m_array s') = snd ` insert (ih, t) reg"
    "\<forall>(ih', _) \<in> insert (ih, t) reg. hashes ih' \<noteq> {}"
    using ok s' ne t unfolding tl_ok_def by auto
  ultimately show ?thesis unfolding tl_ok_def by blast
qed

lemma erase_loop_maps:
  "erase_loop obf hs found s = (f, s') \<Longrightarrow>
   m_array s' = m_array s
   \<and> m_index s' = (\<lambda>h. if h \<in> fst ` set hs then None else m_index s h)
   \<and> m_obfuscated_index s' = (\<lambda>k. if k \<in> obf ` fst ` set hs then None else m_obfuscated_index s k)"
proof (induction hs arbitrary: found s)
  case (Cons p hs)
  then show ?case by (cases p) (auto simp: Let_def fun_eq_iff split: option.splits)
qed auto

lemma erase_loop_found:
  "(\<forall>h \<in> fst ` set hs. m_index s h \<in> {None, Some t}) \<Longrightarrow> found \<in> {None, Some t} \<Longrightarrow>
   fst (erase_loop obf hs found s) = (if found = None \<and> (\<forall>h \<in> fst ` set hs. m_index s h = None) then None else Some t)"
proof (induction hs arbitrary: found s)
  case (Cons p hs)
  obtain h v where p: "p = (h, v)" by fastforce
  have h: "m_index s h \<in> {None, Some t}" using Cons.prems by (simp add: p)
  let ?f = "case m_index s h of None \<Rightarrow> found | Some u \<Rightarrow> Some u"
  let ?s = "s\<lparr>m_index := (m_index s)(h := None), m_obfuscated_index := (m_obfuscated_index s)(obf h := None)\<rparr>"
  have step: "erase_loop obf (p # hs) found s = erase_loop obf hs ?f ?s"
    by (cases "m_index s h") (simp_all add: p Let_def fun_upd_idem)
  have "fst (erase_loop obf hs ?f ?s) =
      (if ?f = None \<and> (\<forall>h \<in> fst ` set hs. m_index ?s h = None) then None else Some t)"
    by (rule Cons.IH) (use Cons.prems h in \<open>auto simp: p\<close>)
  with Cons.prems h show ?case unfolding step by (auto simp: p split: if_splits)
qed auto

lemma position_le: "position t xs \<le> length xs"
  by (induction xs) simp_all

lemma position_member: "position t xs < length xs \<longleftrightarrow> t \<in> set xs"
  by (induction xs) auto

lemma nth_position: "t \<in> set xs \<Longrightarrow> xs ! position t xs = t"
  by (induction xs) auto

lemma butlast_distinct:
  "ys \<noteq> [] \<Longrightarrow> last ys = t \<Longrightarrow> distinct ys \<Longrightarrow>
   distinct (butlast ys) \<and> set (butlast ys) = set ys - {t}"
  by (cases ys rule: rev_cases) auto

lemma swap_pop_removes:
  assumes "t \<in> set xs" "distinct xs"
  obtains ys where "swap_pop t xs = Some ys" "distinct ys" "set ys = set xs - {t}"
proof -
  let ?i = "position t xs" and ?n = "length xs - 1"
  have i: "?i < length xs" "xs ! ?i = t" using assms(1) by (simp_all add: position_member nth_position)
  have ne: "xs \<noteq> []" using assms(1) by auto
  let ?ys = "if ?i \<noteq> ?n then xs[?i := last xs, ?n := xs ! ?i] else xs"
  have perm: "set ?ys = set xs" "distinct ?ys"
    using set_swap [of ?i xs ?n] distinct_swap [of ?i xs ?n] i(1) ne assms(2) by (simp_all add: last_conv_nth)
  have last: "?ys \<noteq> []" "last ?ys = t"
  proof -
    show ne': "?ys \<noteq> []" using ne by simp
    have "last ys = ys ! ?n" if "length ys = length xs" "ys \<noteq> []" for ys
      using that by (simp add: last_conv_nth)
    from this [OF _ ne'] have "last ?ys = ?ys ! ?n" by simp
    also have "\<dots> = t"
    proof (cases "?i = ?n")
      case True
      then show ?thesis using i(2) by simp
    next
      case False
      have "?n < length (xs[?i := last xs])" using i(1) by simp
      with False show ?thesis by (simp only: nth_list_update_eq i(2) simp_thms if_True)
    qed
    finally show "last ?ys = t" .
  qed
  from butlast_distinct [OF last perm(2)]
  have "distinct (butlast ?ys)" "set (butlast ?ys) = set xs - {t}" unfolding perm(1) by blast+
  moreover have "swap_pop t xs = Some (butlast ?ys)" using i by (simp add: swap_pop_def Let_def)
  ultimately show thesis by (intro that)
qed

lemma registered_once: "inj_on snd reg \<Longrightarrow> (ih, t) \<in> reg \<Longrightarrow> (ih', t) \<in> reg \<Longrightarrow> ih' = ih"
  by (auto dest: inj_onD [of snd reg "(ih, t)" "(ih', t)"])

lemma indexed_by_remove:
  "inj_on snd reg \<Longrightarrow> (ih, t) \<in> reg \<Longrightarrow> indexed_by (reg - {(ih, t)}) h u \<longleftrightarrow> indexed_by reg h u \<and> u \<noteq> t"
  unfolding indexed_by_def using registered_once by fast

lemma erase_keeps:
  assumes ok: "tl_ok obf reg s" and reg: "(ih, t) \<in> reg"
  obtains s' where "tl_erase obf ih s = Some (True, s')" "tl_ok obf (reg - {(ih, t)}) s'"
proof -
  have idx: "m_index s h = Some u \<longleftrightarrow> indexed_by reg h u"
    and obf: "m_obfuscated_index s k = Some u \<longleftrightarrow> (\<exists>h. indexed_by reg h u \<and> obf h = k)"
    and arr: "distinct (m_array s)" "set (m_array s) = snd ` reg" and inj: "inj_on snd reg"
    and ne: "hashes ih \<noteq> {}" for h k u
    using ok reg unfolding tl_ok_def by auto
  have mine: "m_index s h = Some t" if "h \<in> hashes ih" for h
    using that reg idx unfolding indexed_by_def by blast
  obtain f s1 where loop: "erase_loop obf (ih_for_each ih) None s = (f, s1)" by fastforce
  note s1 = erase_loop_maps [OF loop, unfolded hashes_for_each]
  have "f = Some t"
    using erase_loop_found [of "ih_for_each ih" s t None obf] mine ne
    unfolding hashes_for_each loop by auto
  moreover have "t \<in> set (m_array s)" using reg arr(2) by force
  then obtain ys where ys: "swap_pop t (m_array s) = Some ys" "distinct ys" "set ys = set (m_array s) - {t}"
    using arr(1) by (rule swap_pop_removes)
  ultimately have "tl_erase obf ih s = Some (True, s1\<lparr>m_array := ys\<rparr>)"
    using s1 by (simp add: tl_erase_def loop)
  moreover have "tl_ok obf (reg - {(ih, t)}) (s1\<lparr>m_array := ys\<rparr>)"
  proof -
    note rm = indexed_by_remove [OF inj reg]
    have own: "h \<in> hashes ih" if "indexed_by reg h t" for h
      using that registered_once [OF inj reg] unfolding indexed_by_def by blast
    have a: "(m_index s1 h = Some u) = indexed_by (reg - {(ih, t)}) h u" for h u
      using s1 mine own by (auto simp: rm idx [symmetric])
    have b: "(m_obfuscated_index s1 k = Some u) = (\<exists>h. indexed_by (reg - {(ih, t)}) h u \<and> obf h = k)" for k u
    proof (cases "k \<in> obf ` hashes ih")
      case True
      with mine idx obf have "m_obfuscated_index s k = Some t" by blast
      with True s1 obf [of k u] show ?thesis by (auto simp: rm)
    next
      case False
      with s1 own obf [of k u] show ?thesis by (auto simp: rm)
    qed
    have c: "inj_on snd (reg - {(ih, t)})" using inj by (rule inj_on_subset) auto
    have d: "set ys = snd ` (reg - {(ih, t)})"
      using inj_on_image_set_diff [OF inj, of reg "{(ih, t)}"] reg unfolding ys(3) arr(2) by simp
    have e: "\<forall>(ih', _) \<in> reg - {(ih, t)}. hashes ih' \<noteq> {}" using ok unfolding tl_ok_def by auto
    have sel: "m_array (s1\<lparr>m_array := ys\<rparr>) = ys" "m_index (s1\<lparr>m_array := ys\<rparr>) = m_index s1"
      "m_obfuscated_index (s1\<lparr>m_array := ys\<rparr>) = m_obfuscated_index s1"
      by simp_all
    show ?thesis unfolding tl_ok_def sel by (intro conjI allI ys(2) a b c d e)
  qed
  ultimately show thesis by (rule that)
qed

lemma erase_absent:
  assumes ok: "tl_ok obf reg s" and none: "hashes ih \<inter> dom (m_index s) = {}"
    and inj: "inj_on obf (dom (m_index s) \<union> hashes ih)"
  shows "tl_erase obf ih s = Some (False, s)"
proof -
  have idx: "m_index s h = None" if "h \<in> hashes ih" for h using none that by auto
  have obf: "m_obfuscated_index s (obf h) = None" if h: "h \<in> hashes ih" for h
  proof (rule ccontr)
    assume "m_obfuscated_index s (obf h) \<noteq> None"
    then obtain u h' where "m_index s h' = Some u" "obf h' = obf h" using ok unfolding tl_ok_def by blast
    moreover from this inj h have "h' = h" by (auto dest: inj_onD)
    ultimately show False using idx [OF h] by simp
  qed
  obtain f s1 where loop: "erase_loop obf (ih_for_each ih) None s = (f, s1)" by fastforce
  note s1 = erase_loop_maps [OF loop, unfolded hashes_for_each]
  have "f = None"
    using erase_loop_found [of "ih_for_each ih" s undefined None obf] idx
    unfolding hashes_for_each loop by simp
  moreover have "s1 = s"
    using s1 idx obf by (intro torrent_list.equality) (auto simp: fun_eq_iff)
  ultimately show ?thesis by (simp add: tl_erase_def loop)
qed

section \<open>The operations refine those of the registry\<close>

datatype 'p tl_op = Tl_Insert info_hash_t 'p "nat \<Rightarrow> bool" | Tl_Erase info_hash_t | Tl_Clear

datatype tl_result = Returned bool | Threw | Cleared | Undefined

fun tl_step :: "(digest \<Rightarrow> digest) \<Rightarrow> 'p torrent_list \<Rightarrow> 'p tl_op \<Rightarrow> tl_result \<times> 'p torrent_list" where
  "tl_step obf s (Tl_Insert ih t ok) =
     (case tl_insert obf ok ih t s of (Some b, s') \<Rightarrow> (Returned b, s') | (None, s') \<Rightarrow> (Threw, s'))"
| "tl_step obf s (Tl_Erase ih) =
     (case tl_erase obf ih s of Some (b, s') \<Rightarrow> (Returned b, s') | None \<Rightarrow> (Undefined, s))"
| "tl_step obf s Tl_Clear = (Cleared, tl_clear s)"

definition overlaps :: "'p registered \<Rightarrow> info_hash_t \<Rightarrow> bool" where
  "overlaps reg ih \<longleftrightarrow> (\<exists>h \<in> hashes ih. \<exists>t. indexed_by reg h t)"

fun registry_step :: "'p registered \<Rightarrow> 'p tl_op \<Rightarrow> tl_result \<times> 'p registered" where
  "registry_step reg (Tl_Insert ih t ok) =
     (if overlaps reg ih then (Returned False, reg)
      else if \<forall>i \<le> 2 * length (ih_for_each ih). ok i then (Returned True, insert (ih, t) reg)
      else (Threw, reg))"
| "registry_step reg (Tl_Erase ih) =
     (if overlaps reg ih then (Returned True, {(ih', t) \<in> reg. ih' \<noteq> ih}) else (Returned False, reg))"
| "registry_step reg Tl_Clear = (Cleared, {})"

text \<open>
  What the callers provide: no collision among the obfuscated hashes in use, a torrent is inserted
  once and has a hash, and it is erased by all of its hashes.
\<close>

definition obfuscates :: "(digest \<Rightarrow> digest) \<Rightarrow> 'p registered \<Rightarrow> info_hash_t \<Rightarrow> bool" where
  "obfuscates obf reg ih \<longleftrightarrow> inj_on obf ({h. \<exists>t. indexed_by reg h t} \<union> hashes ih)"

fun tl_allowed :: "(digest \<Rightarrow> digest) \<Rightarrow> 'p registered \<Rightarrow> 'p tl_op \<Rightarrow> bool" where
  "tl_allowed obf reg (Tl_Insert ih t ok) \<longleftrightarrow> obfuscates obf reg ih \<and> hashes ih \<noteq> {} \<and> t \<notin> snd ` reg"
| "tl_allowed obf reg (Tl_Erase ih) \<longleftrightarrow> obfuscates obf reg ih \<and> (overlaps reg ih \<longrightarrow> ih \<in> fst ` reg)"
| "tl_allowed obf reg Tl_Clear \<longleftrightarrow> True"

lemma insert_loop_fails:
  "fst (insert_loop obf ok k t hs (s, rb)) \<Longrightarrow> i < 2 * length hs \<Longrightarrow> ok (k + i)"
proof (induction hs arbitrary: k s rb i)
  case (Cons p hs)
  obtain h v where p: "p = (h, v)" by fastforce
  from Cons.prems(1) have ok: "ok k" "ok (k + 1)" by (auto simp: p Let_def split: if_splits prod.splits)
  obtain s1 rb1 where "fst (insert_loop obf ok (k + 2) t hs (s1, rb1))"
    using Cons.prems(1) ok by (auto simp: p Let_def split: prod.splits)
  note ih = Cons.IH [OF this]
  consider "i = 0" | "i = 1" | j where "i = j + 2" by (cases i rule: nat.exhaust; metis Suc_1 add_2_eq_Suc' not0_implies_Suc One_nat_def)
  then show ?case using ok ih Cons.prems(2) by cases (auto simp: add.assoc add.commute)
qed simp

lemma insert_outcome:
  assumes "tl_insert obf ok ih t s = (r, s')" "hashes ih \<inter> dom (m_index s) = {}"
  shows "r = (if \<forall>i \<le> 2 * length (ih_for_each ih). ok i then Some True else None)"
proof -
  let ?hs = "ih_for_each ih" and ?rb = "[False, False, False, False]"
  obtain d s1 rb where loop: "insert_loop obf ok 0 t ?hs (s, ?rb) = (d, s1, rb)" by (rule prod_cases3)
  have "\<not> list_ex (\<lambda>(h, v). m_index s h \<noteq> None) ?hs"
    using assms(2) by (fastforce simp: hashes_def list_ex_iff)
  then have r: "r = (if d \<and> ok (2 * length ?hs) then Some True else None)"
    using assms(1) loop by (auto simp: tl_insert_def Let_def split: if_splits)
  have "d \<longleftrightarrow> (\<forall>i < 2 * length ?hs. ok i)"
    using insert_loop_succeeds [of 0 ?hs ok obf t s ?rb] insert_loop_fails [of obf ok 0 t ?hs s ?rb]
    by (auto simp: loop)
  then show ?thesis unfolding r by (auto simp: order_le_less)
qed

text \<open>
  C4. The torrent list refines the registry of torrents: from a state that represents the registered
  torrents, an insertion, a removal or \<open>clear\<close> gives the registry's result and a state that
  represents the new registry. In particular an insertion that throws half way through leaves
  the list as it was, and a removal never fails to find the torrent in the array.
\<close>

theorem torrent_list_refines:
  assumes "tl_ok obf reg s" "tl_allowed obf reg op"
  shows "fst (tl_step obf s op) = fst (registry_step reg op)
    \<and> tl_ok obf (snd (registry_step reg op)) (snd (tl_step obf s op))"
proof -
  have over: "overlaps reg ih \<longleftrightarrow> hashes ih \<inter> dom (m_index s) \<noteq> {}" for ih
    using tl_ok_dom [OF assms(1)] by (auto simp: overlaps_def)
  have inj: "obfuscates obf reg ih \<longleftrightarrow> inj_on obf (dom (m_index s) \<union> hashes ih)" for ih
    by (simp add: obfuscates_def tl_ok_dom [OF assms(1)])
  show ?thesis
  proof (cases op)
    case (Tl_Insert ih t ok)
    obtain r s' where ins: "tl_insert obf ok ih t s = (r, s')" by fastforce
    show ?thesis
    proof (cases "overlaps reg ih")
      case True
      with insert_duplicate [of obf ok ih t s] over assms(1) show ?thesis by (simp add: Tl_Insert)
    next
      case False
      note r = insert_outcome [OF ins] False [unfolded over, simplified]
      have "t \<notin> set (m_array s)" using assms unfolding tl_ok_def Tl_Insert by simp
      then have "r = Some True \<Longrightarrow> tl_ok obf (insert (ih, t) reg) s'"
        using insert_keeps [of obf reg s ok ih t s'] assms ins by (simp add: Tl_Insert inj)
      with r False insert_unchanged [OF ins] assms(1) show ?thesis
        by (auto simp: Tl_Insert ins)
    qed
  next
    case (Tl_Erase ih)
    show ?thesis
    proof (cases "overlaps reg ih")
      case True
      with assms(2) obtain t where t: "(ih, t) \<in> reg" by (auto simp: Tl_Erase)
      have once: "{(ih', t) \<in> reg. ih' \<noteq> ih} = reg - {(ih, t)}"
      proof -
        have "u = t" if "(ih, u) \<in> reg" for u
        proof -
          obtain h where h: "h \<in> hashes ih" using assms(1) t unfolding tl_ok_def by fastforce
          then have "m_index s h = Some u" "m_index s h = Some t"
            using assms(1) that t unfolding tl_ok_def indexed_by_def by blast+
          then show ?thesis by simp
        qed
        then show ?thesis by auto
      qed
      obtain s' where "tl_erase obf ih s = Some (True, s')" "tl_ok obf (reg - {(ih, t)}) s'"
        using assms(1) t by (rule erase_keeps)
      with True show ?thesis by (simp add: Tl_Erase once)
    next
      case False
      with erase_absent [OF assms(1), of ih] assms show ?thesis by (simp add: Tl_Erase over inj)
    qed
  next
    case Tl_Clear
    then show ?thesis by (simp add: tl_ok_def tl_clear_def indexed_by_def)
  qed
qed

lemma init_ok: "tl_ok obf {} torrent_list_init"
  by (simp add: tl_ok_def torrent_list_init_def indexed_by_def)

theorem torrent_list_refines_witness:
  "let obf = map (\<lambda>w. w + 1);
       ih = (\<lambda>n. \<lparr>ih_v1 = [n, 0, 0, 0, 0], ih_v2 = digest_clear sha256_size\<rparr>);
       s = snd (tl_step obf torrent_list_init (Tl_Insert (ih 1) (7::nat) (\<lambda>_. True)));
       (r, s') = tl_step obf s (Tl_Insert (ih 2) 8 (\<lambda>i. i < 2))
   in r = Threw \<and> tl_ok obf {(ih 1, 7)} s'"
proof -
  let ?obf = "map (\<lambda>w. w + 1) :: digest \<Rightarrow> digest"
  let ?ih = "\<lambda>n. \<lparr>ih_v1 = [n, 0, 0, 0, 0], ih_v2 = digest_clear sha256_size\<rparr>"
  let ?a = "Tl_Insert (?ih 1) (7::nat) (\<lambda>_. True)" and ?b = "Tl_Insert (?ih 2) (8::nat) (\<lambda>i. i < 2)"
  let ?s = "snd (tl_step ?obf torrent_list_init ?a)"
  have h: "ih_for_each (?ih 1) = [([1, 0, 0, 0, 0], V1)]" "ih_for_each (?ih 2) = [([2, 0, 0, 0, 0], V1)]"
    by (simp_all add: ih_for_each_def has_v1_def has_v2_def digest_is_all_zeros_def digest_clear_def
        sha256_size_def eval_nat_numeral)
  then have hs: "hashes (?ih 1) = {[1, 0, 0, 0, 0]}" "hashes (?ih 2) = {[2, 0, 0, 0, 0]}"
    by (simp_all add: hashes_def)
  have inj: "inj_on ?obf A" for A by (auto simp: inj_on_def inj_map_eq_map inj_def)
  have a: "tl_allowed ?obf {} ?a" by (simp add: obfuscates_def hs inj del: inj_on_insert)
  have b: "tl_allowed ?obf {(?ih 1, 7)} ?b" by (simp add: obfuscates_def hs inj del: inj_on_insert)
  have ra: "registry_step {} ?a = (Returned True, {(?ih 1, 7)})"
    by (simp add: overlaps_def indexed_by_def)
  have "\<not> overlaps {(?ih 1, 7::nat)} (?ih 2)" by (auto simp: overlaps_def indexed_by_def hs)
  then have rb: "registry_step {(?ih 1, 7)} ?b = (Threw, {(?ih 1, 7)})" by (auto simp: h)
  from torrent_list_refines [OF init_ok a] ra have "tl_ok ?obf {(?ih 1, 7)} ?s" by simp
  from torrent_list_refines [OF this b] rb show ?thesis by (auto simp: Let_def split: prod.splits)
qed

end
