(* ===== verification/Alert_Types.thy ===== *)
theory Alert_Types
  imports Flags
begin

text \<open>
  \<open>libtorrent/alert_types.hpp\<close> and \<open>alert.hpp\<close>: the classes of alerts, each with its number, priority
  and category as the macros \<open>TORRENT_DEFINE_ALERT\<close> declare them in this build (ABI version 1,
  nothing disabled), and \<open>alert_cast\<close>, which tells the class of an alert by its number.
\<close>

section \<open>Alert classes\<close>

datatype alert_priority = Normal | High | Critical | Meta

primrec priority_value :: "alert_priority \<Rightarrow> nat" where
  "priority_value Normal = 0"
| "priority_value High = 1"
| "priority_value Critical = 2"
| "priority_value Meta = 3"

record alert_class =
  alert_type :: nat
  priority :: alert_priority
  static_category :: alert_category_t

definition user_alert_id :: nat where "user_alert_id = 10000"

definition num_alert_types :: nat where "num_alert_types = 105"

definition abi_alert_count :: nat where "abi_alert_count = 128"

definition define_alert_prio :: "nat \<Rightarrow> alert_priority \<Rightarrow> alert_category_t \<Rightarrow> alert_class" where
  "define_alert_prio seq prio cat = \<lparr>alert_type = seq, priority = prio, static_category = cat\<rparr>"

definition define_alert :: "nat \<Rightarrow> alert_category_t \<Rightarrow> alert_class" where
  "define_alert seq cat = define_alert_prio seq Normal cat"

text \<open>The numbers of the three base classes, which are not alerts of their own.\<close>

definition torrent_alert_type :: nat where "torrent_alert_type = 0"

definition peer_alert_type :: nat where "peer_alert_type = 1"

definition tracker_alert_type :: nat where "tracker_alert_type = 2"

definition progress_notification :: alert_category_t where "progress_notification = flag_bit 7"

definition torrent_added_alert :: alert_class where
  "torrent_added_alert = define_alert 3 alert_status"
definition torrent_removed_alert :: alert_class where
  "torrent_removed_alert = define_alert_prio 4 Critical alert_status"
definition read_piece_alert :: alert_class where
  "read_piece_alert = define_alert_prio 5 Critical alert_storage"
definition file_completed_alert :: alert_class where
  "file_completed_alert = define_alert 6 (flag_or alert_file_progress progress_notification)"
definition file_renamed_alert :: alert_class where
  "file_renamed_alert = define_alert_prio 7 Critical alert_storage"
definition file_rename_failed_alert :: alert_class where
  "file_rename_failed_alert = define_alert_prio 8 Critical alert_storage"
definition performance_alert :: alert_class where
  "performance_alert = define_alert 9 alert_performance_warning"
definition state_changed_alert :: alert_class where
  "state_changed_alert = define_alert_prio 10 High alert_status"
definition tracker_error_alert :: alert_class where
  "tracker_error_alert = define_alert_prio 11 High (flag_or alert_tracker alert_error)"
definition tracker_warning_alert :: alert_class where
  "tracker_warning_alert = define_alert 12 (flag_or alert_tracker alert_error)"
definition scrape_reply_alert :: alert_class where
  "scrape_reply_alert = define_alert_prio 13 Critical alert_tracker"
definition scrape_failed_alert :: alert_class where
  "scrape_failed_alert = define_alert_prio 14 Critical (flag_or alert_tracker alert_error)"
definition tracker_reply_alert :: alert_class where
  "tracker_reply_alert = define_alert 15 alert_tracker"
definition dht_reply_alert :: alert_class where
  "dht_reply_alert = define_alert 16 (flag_or alert_dht alert_tracker)"
definition tracker_announce_alert :: alert_class where
  "tracker_announce_alert = define_alert 17 alert_tracker"
definition hash_failed_alert :: alert_class where "hash_failed_alert = define_alert 18 alert_status"
definition peer_ban_alert :: alert_class where "peer_ban_alert = define_alert 19 alert_peer"
definition peer_unsnubbed_alert :: alert_class where
  "peer_unsnubbed_alert = define_alert 20 alert_peer"
definition peer_snubbed_alert :: alert_class where "peer_snubbed_alert = define_alert 21 alert_peer"
definition peer_error_alert :: alert_class where "peer_error_alert = define_alert 22 alert_peer"
definition peer_connect_alert :: alert_class where
  "peer_connect_alert = define_alert 23 alert_connect"
definition peer_disconnected_alert :: alert_class where
  "peer_disconnected_alert = define_alert 24 alert_connect"
definition invalid_request_alert :: alert_class where
  "invalid_request_alert = define_alert 25 alert_peer"
definition torrent_finished_alert :: alert_class where
  "torrent_finished_alert = define_alert_prio 26 High alert_status"
definition piece_finished_alert :: alert_class where
  "piece_finished_alert = define_alert 27 (flag_or alert_piece_progress progress_notification)"
definition request_dropped_alert :: alert_class where
  "request_dropped_alert = define_alert 28 (flag_or (flag_or alert_block_progress alert_peer) progress_notification)"
definition block_timeout_alert :: alert_class where
  "block_timeout_alert = define_alert 29 (flag_or (flag_or alert_block_progress alert_peer) progress_notification)"
definition block_finished_alert :: alert_class where
  "block_finished_alert = define_alert 30 (flag_or alert_block_progress progress_notification)"
definition block_downloading_alert :: alert_class where
  "block_downloading_alert = define_alert 31 (flag_or alert_block_progress progress_notification)"
definition unwanted_block_alert :: alert_class where
  "unwanted_block_alert = define_alert 32 alert_peer"
definition storage_moved_alert :: alert_class where
  "storage_moved_alert = define_alert_prio 33 Critical alert_storage"
definition storage_moved_failed_alert :: alert_class where
  "storage_moved_failed_alert = define_alert_prio 34 Critical alert_storage"
definition torrent_deleted_alert :: alert_class where
  "torrent_deleted_alert = define_alert_prio 35 Critical alert_storage"
definition torrent_delete_failed_alert :: alert_class where
  "torrent_delete_failed_alert = define_alert_prio 36 Critical (flag_or alert_storage alert_error)"
definition save_resume_data_alert :: alert_class where
  "save_resume_data_alert = define_alert_prio 37 Critical alert_storage"
definition save_resume_data_failed_alert :: alert_class where
  "save_resume_data_failed_alert = define_alert_prio 38 Critical (flag_or alert_storage alert_error)"
definition torrent_paused_alert :: alert_class where
  "torrent_paused_alert = define_alert_prio 39 High alert_status"
definition torrent_resumed_alert :: alert_class where
  "torrent_resumed_alert = define_alert_prio 40 High alert_status"
definition torrent_checked_alert :: alert_class where
  "torrent_checked_alert = define_alert_prio 41 High alert_status"
definition url_seed_alert :: alert_class where
  "url_seed_alert = define_alert 42 (flag_or alert_peer alert_error)"
definition file_error_alert :: alert_class where
  "file_error_alert = define_alert_prio 43 High (flag_or (flag_or alert_status alert_error) alert_storage)"
definition metadata_failed_alert :: alert_class where
  "metadata_failed_alert = define_alert 44 alert_error"
definition metadata_received_alert :: alert_class where
  "metadata_received_alert = define_alert 45 alert_status"
definition udp_error_alert :: alert_class where "udp_error_alert = define_alert 46 alert_error"
definition external_ip_alert :: alert_class where "external_ip_alert = define_alert 47 alert_status"
definition listen_failed_alert :: alert_class where
  "listen_failed_alert = define_alert_prio 48 Critical (flag_or alert_status alert_error)"
definition listen_succeeded_alert :: alert_class where
  "listen_succeeded_alert = define_alert_prio 49 Critical alert_status"
definition portmap_error_alert :: alert_class where
  "portmap_error_alert = define_alert 50 (flag_or alert_port_mapping alert_error)"
definition portmap_alert :: alert_class where "portmap_alert = define_alert 51 alert_port_mapping"
definition portmap_log_alert :: alert_class where
  "portmap_log_alert = define_alert 52 alert_port_mapping_log"
definition fastresume_rejected_alert :: alert_class where
  "fastresume_rejected_alert = define_alert_prio 53 Critical (flag_or alert_status alert_error)"
definition peer_blocked_alert :: alert_class where
  "peer_blocked_alert = define_alert 54 alert_ip_block"
definition dht_announce_alert :: alert_class where "dht_announce_alert = define_alert 55 alert_dht"
definition dht_get_peers_alert :: alert_class where
  "dht_get_peers_alert = define_alert 56 alert_dht"
definition stats_alert :: alert_class where "stats_alert = define_alert 57 alert_stats"
definition cache_flushed_alert :: alert_class where
  "cache_flushed_alert = define_alert_prio 58 High alert_storage"
definition anonymous_mode_alert :: alert_class where
  "anonymous_mode_alert = define_alert 59 alert_error"
definition lsd_peer_alert :: alert_class where "lsd_peer_alert = define_alert 60 alert_peer"
definition trackerid_alert :: alert_class where "trackerid_alert = define_alert 61 alert_status"
definition dht_bootstrap_alert :: alert_class where
  "dht_bootstrap_alert = define_alert 62 alert_dht"
definition torrent_error_alert :: alert_class where
  "torrent_error_alert = define_alert_prio 64 High (flag_or alert_error alert_status)"
definition torrent_need_cert_alert :: alert_class where
  "torrent_need_cert_alert = define_alert_prio 65 Critical alert_status"
definition incoming_connection_alert :: alert_class where
  "incoming_connection_alert = define_alert 66 alert_peer"
definition add_torrent_alert :: alert_class where
  "add_torrent_alert = define_alert_prio 67 Critical alert_status"
definition state_update_alert :: alert_class where
  "state_update_alert = define_alert_prio 68 High alert_status"
definition mmap_cache_alert :: alert_class where "mmap_cache_alert = define_alert 69 alert_error"
definition session_stats_alert :: alert_class where
  "session_stats_alert = define_alert_prio 70 Critical flag_none"
definition dht_error_alert :: alert_class where
  "dht_error_alert = define_alert 73 (flag_or alert_error alert_dht)"
definition dht_immutable_item_alert :: alert_class where
  "dht_immutable_item_alert = define_alert_prio 74 Critical alert_dht"
definition dht_mutable_item_alert :: alert_class where
  "dht_mutable_item_alert = define_alert_prio 75 Critical alert_dht"
definition dht_put_alert :: alert_class where "dht_put_alert = define_alert 76 alert_dht"
definition i2p_alert :: alert_class where "i2p_alert = define_alert 77 alert_error"
definition dht_outgoing_get_peers_alert :: alert_class where
  "dht_outgoing_get_peers_alert = define_alert 78 alert_dht"
definition log_alert :: alert_class where "log_alert = define_alert 79 alert_session_log"
definition torrent_log_alert :: alert_class where
  "torrent_log_alert = define_alert 80 alert_torrent_log"
definition peer_log_alert :: alert_class where "peer_log_alert = define_alert 81 alert_peer_log"
definition lsd_error_alert :: alert_class where "lsd_error_alert = define_alert 82 alert_error"
definition dht_stats_alert :: alert_class where "dht_stats_alert = define_alert 83 flag_none"
definition incoming_request_alert :: alert_class where
  "incoming_request_alert = define_alert 84 alert_incoming_request"
definition dht_log_alert :: alert_class where "dht_log_alert = define_alert 85 alert_dht_log"
definition dht_pkt_alert :: alert_class where "dht_pkt_alert = define_alert 86 alert_dht_log"
definition dht_get_peers_reply_alert :: alert_class where
  "dht_get_peers_reply_alert = define_alert 87 alert_dht_operation"
definition dht_direct_response_alert :: alert_class where
  "dht_direct_response_alert = define_alert_prio 88 Critical alert_dht"
definition picker_log_alert :: alert_class where
  "picker_log_alert = define_alert 89 alert_picker_log"
definition session_error_alert :: alert_class where
  "session_error_alert = define_alert 90 alert_error"
definition dht_live_nodes_alert :: alert_class where
  "dht_live_nodes_alert = define_alert 91 alert_dht"
definition session_stats_header_alert :: alert_class where
  "session_stats_header_alert = define_alert 92 flag_none"
definition dht_sample_infohashes_alert :: alert_class where
  "dht_sample_infohashes_alert = define_alert 93 alert_dht_operation"
definition block_uploaded_alert :: alert_class where
  "block_uploaded_alert = define_alert 94 (flag_or alert_upload progress_notification)"
definition alerts_dropped_alert :: alert_class where
  "alerts_dropped_alert = define_alert_prio 95 Meta alert_error"
definition socks5_alert :: alert_class where "socks5_alert = define_alert 96 alert_error"
definition file_prio_alert :: alert_class where "file_prio_alert = define_alert 97 alert_storage"
definition oversized_file_alert :: alert_class where
  "oversized_file_alert = define_alert 98 alert_storage"
definition torrent_conflict_alert :: alert_class where
  "torrent_conflict_alert = define_alert_prio 99 High alert_error"
definition peer_info_alert :: alert_class where
  "peer_info_alert = define_alert_prio 100 Critical alert_status"
definition file_progress_alert :: alert_class where
  "file_progress_alert = define_alert_prio 101 Critical alert_file_progress"
definition piece_info_alert :: alert_class where
  "piece_info_alert = define_alert_prio 102 Critical alert_piece_progress"
definition piece_availability_alert :: alert_class where
  "piece_availability_alert = define_alert_prio 103 Critical alert_status"
definition tracker_list_alert :: alert_class where
  "tracker_list_alert = define_alert_prio 104 Critical alert_status"

definition alert_classes :: "alert_class list" where
  "alert_classes =
     [torrent_added_alert, torrent_removed_alert, read_piece_alert, file_completed_alert,
      file_renamed_alert, file_rename_failed_alert, performance_alert, state_changed_alert,
      tracker_error_alert, tracker_warning_alert, scrape_reply_alert, scrape_failed_alert,
      tracker_reply_alert, dht_reply_alert, tracker_announce_alert, hash_failed_alert,
      peer_ban_alert, peer_unsnubbed_alert, peer_snubbed_alert, peer_error_alert,
      peer_connect_alert, peer_disconnected_alert, invalid_request_alert, torrent_finished_alert,
      piece_finished_alert, request_dropped_alert, block_timeout_alert, block_finished_alert,
      block_downloading_alert, unwanted_block_alert, storage_moved_alert,
      storage_moved_failed_alert, torrent_deleted_alert, torrent_delete_failed_alert,
      save_resume_data_alert, save_resume_data_failed_alert, torrent_paused_alert,
      torrent_resumed_alert, torrent_checked_alert, url_seed_alert, file_error_alert,
      metadata_failed_alert, metadata_received_alert, udp_error_alert, external_ip_alert,
      listen_failed_alert, listen_succeeded_alert, portmap_error_alert, portmap_alert,
      portmap_log_alert, fastresume_rejected_alert, peer_blocked_alert, dht_announce_alert,
      dht_get_peers_alert, stats_alert, cache_flushed_alert, anonymous_mode_alert,
      lsd_peer_alert, trackerid_alert, dht_bootstrap_alert, torrent_error_alert,
      torrent_need_cert_alert, incoming_connection_alert, add_torrent_alert, state_update_alert,
      mmap_cache_alert, session_stats_alert, dht_error_alert, dht_immutable_item_alert,
      dht_mutable_item_alert, dht_put_alert, i2p_alert, dht_outgoing_get_peers_alert, log_alert,
      torrent_log_alert, peer_log_alert, lsd_error_alert, dht_stats_alert,
      incoming_request_alert, dht_log_alert, dht_pkt_alert, dht_get_peers_reply_alert,
      dht_direct_response_alert, picker_log_alert, session_error_alert, dht_live_nodes_alert,
      session_stats_header_alert, dht_sample_infohashes_alert, block_uploaded_alert,
      alerts_dropped_alert, socks5_alert, file_prio_alert, oversized_file_alert,
      torrent_conflict_alert, peer_info_alert, file_progress_alert, piece_info_alert,
      piece_availability_alert, tracker_list_alert]"

section \<open>Alert objects\<close>

text \<open>An alert is an object of its class; its members are \<open>'m\<close>.\<close>

record 'm alert =
  class_of :: alert_class
  alert_members :: 'm

definition type_number :: "'m alert \<Rightarrow> nat" where
  "type_number a = alert_type (class_of a)"

definition category :: "'m alert \<Rightarrow> alert_category_t" where
  "category a = static_category (class_of a)"

text \<open>\<open>alert_cast\<close> to a class with a given number: \<open>None\<close> is the null pointer.\<close>

definition alert_cast :: "nat \<Rightarrow> 'm alert option \<Rightarrow> 'm alert option" where
  "alert_cast to_type a =
     (case a of
        None \<Rightarrow> None
      | Some x \<Rightarrow> (if type_number x = to_type then Some x else None))"

section \<open>The numbers identify the classes\<close>

lemmas alert_class_defs =
  torrent_added_alert_def torrent_removed_alert_def read_piece_alert_def file_completed_alert_def
  file_renamed_alert_def file_rename_failed_alert_def performance_alert_def
  state_changed_alert_def tracker_error_alert_def tracker_warning_alert_def scrape_reply_alert_def
  scrape_failed_alert_def tracker_reply_alert_def dht_reply_alert_def tracker_announce_alert_def
  hash_failed_alert_def peer_ban_alert_def peer_unsnubbed_alert_def peer_snubbed_alert_def
  peer_error_alert_def peer_connect_alert_def peer_disconnected_alert_def
  invalid_request_alert_def torrent_finished_alert_def piece_finished_alert_def
  request_dropped_alert_def block_timeout_alert_def block_finished_alert_def
  block_downloading_alert_def unwanted_block_alert_def storage_moved_alert_def
  storage_moved_failed_alert_def torrent_deleted_alert_def torrent_delete_failed_alert_def
  save_resume_data_alert_def save_resume_data_failed_alert_def torrent_paused_alert_def
  torrent_resumed_alert_def torrent_checked_alert_def url_seed_alert_def file_error_alert_def
  metadata_failed_alert_def metadata_received_alert_def udp_error_alert_def external_ip_alert_def
  listen_failed_alert_def listen_succeeded_alert_def portmap_error_alert_def portmap_alert_def
  portmap_log_alert_def fastresume_rejected_alert_def peer_blocked_alert_def
  dht_announce_alert_def dht_get_peers_alert_def stats_alert_def cache_flushed_alert_def
  anonymous_mode_alert_def lsd_peer_alert_def trackerid_alert_def dht_bootstrap_alert_def
  torrent_error_alert_def torrent_need_cert_alert_def incoming_connection_alert_def
  add_torrent_alert_def state_update_alert_def mmap_cache_alert_def session_stats_alert_def
  dht_error_alert_def dht_immutable_item_alert_def dht_mutable_item_alert_def dht_put_alert_def
  i2p_alert_def dht_outgoing_get_peers_alert_def log_alert_def torrent_log_alert_def
  peer_log_alert_def lsd_error_alert_def dht_stats_alert_def incoming_request_alert_def
  dht_log_alert_def dht_pkt_alert_def dht_get_peers_reply_alert_def dht_direct_response_alert_def
  picker_log_alert_def session_error_alert_def dht_live_nodes_alert_def
  session_stats_header_alert_def dht_sample_infohashes_alert_def block_uploaded_alert_def
  alerts_dropped_alert_def socks5_alert_def file_prio_alert_def oversized_file_alert_def
  torrent_conflict_alert_def peer_info_alert_def file_progress_alert_def piece_info_alert_def
  piece_availability_alert_def tracker_list_alert_def

lemma alert_numbers:
  "map alert_type alert_classes = filter (\<lambda>n. n \<notin> {63, 71, 72}) [3..<105]"
  by (simp add: alert_classes_def alert_class_defs define_alert_def define_alert_prio_def upt_rec)

lemma alert_types_distinct: "distinct (map alert_type alert_classes)"
  unfolding alert_numbers by simp

lemma alert_type_bounds: "c \<in> set alert_classes \<Longrightarrow> 3 \<le> alert_type c \<and> alert_type c < num_alert_types"
proof -
  assume "c \<in> set alert_classes"
  then have "alert_type c \<in> set (map alert_type alert_classes)" by simp
  then show ?thesis unfolding alert_numbers by (auto simp: num_alert_types_def simp del: upt_rec_numeral)
qed

lemma alert_type_inj: "c \<in> set alert_classes \<Longrightarrow> d \<in> set alert_classes \<Longrightarrow> alert_type c = alert_type d \<Longrightarrow> c = d"
  using alert_types_distinct by (auto simp: distinct_map dest: inj_onD)

text \<open>
  \<open>alert_cast\<close> is exact: cast to the number of a class, an alert of one of the classes is
  returned exactly when it is of that class, so the \<open>static_cast\<close> that follows the comparison is
  always to the alert's own type; it is never returned as one of the base classes, a torrent, peer
  or tracker alert.
\<close>

lemma alert_cast_exact:
  assumes "class_of a \<in> set alert_classes" "d \<in> set alert_classes"
  shows "alert_cast (alert_type d) (Some a) = (if class_of a = d then Some a else None)
    \<and> list_all (\<lambda>base. alert_cast base (Some a) = None) [torrent_alert_type, peer_alert_type, tracker_alert_type]"
  using alert_type_inj [OF assms] alert_type_bounds [OF assms(1)]
  by (auto simp: alert_cast_def type_number_def torrent_alert_type_def peer_alert_type_def tracker_alert_type_def)

end
