(* ===== verification/Hetero_Queue.thy ===== *)
theory Hetero_Queue
  imports Getzy_Prelude
begin

text \<open>
  \<open>libtorrent/aux_/heterogeneous_queue.hpp\<close>: objects of different classes one after the other in one
  allocation, each behind a header that says where it starts and where the next header is. The
  allocation is a map from offsets to the header or object that starts there; \<open>malloc\<close> answers with
  an address or the null pointer, and its answer is an argument of the operation that calls it. A
  header carries the \<open>move\<close> function of the object's class, so the class is part of it.
\<close>

section \<open>Layout\<close>

datatype pointer_width = Bits32 | Bits64

text \<open>\<open>sizeof(header_t)\<close> and \<open>alignof(header_t)\<close>: 16 and 8 bits, padding, and a pointer.\<close>

fun header_size :: "pointer_width \<Rightarrow> nat" where
  "header_size Bits32 = 8"
| "header_size Bits64 = 16"

fun header_align :: "pointer_width \<Rightarrow> nat" where
  "header_align Bits32 = 4"
| "header_align Bits64 = 8"

text \<open>\<open>sizeof(U)\<close> and \<open>alignof(U)\<close> of an element's class.\<close>

record elem_type =
  size_of :: nat
  align_of :: nat

datatype 'a slot = Header (hdr_len: nat) (hdr_pad: nat) (hdr_move: elem_type) | Object 'a

record 'a hqueue =
  m_storage :: "nat option"
  m_slots :: "nat \<rightharpoonup> 'a slot"
  m_capacity :: nat
  m_size :: nat
  m_num_items :: nat

definition hq_init :: "'a hqueue" where
  "hq_init = \<lparr>m_storage = None, m_slots = Map.empty, m_capacity = 0, m_size = 0, m_num_items = 0\<rparr>"

definition calculate_pad_bytes :: "nat \<Rightarrow> nat \<Rightarrow> nat" where
  "calculate_pad_bytes inptr alignment =
     (let offset = inptr AND (alignment - 1) in (alignment - offset) AND (alignment - 1))"

section \<open>Operations\<close>

text \<open>
  Each loop walks from header to header; \<open>None\<close> is a read of memory that holds no header or no
  object. Moving an object to the new allocation keeps its offset.
\<close>

lemma header_size_pos [simp]: "0 < header_size w"
  by (cases w) simp_all

lemma walk_decreases: "src < used \<Longrightarrow> used - (src + header_size w + pad + len) < used - src"
  using header_size_pos [of w] by linarith

function (sequential) move_loop ::
    "pointer_width \<Rightarrow> nat \<Rightarrow> nat \<Rightarrow> (nat \<rightharpoonup> 'a slot) \<Rightarrow> (nat \<rightharpoonup> 'a slot) \<Rightarrow> (nat \<rightharpoonup> 'a slot) option" where
  "move_loop w used src old new =
     (if src < used
      then (case old src of
              Some (Header len pad ty) \<Rightarrow>
                (let obj = src + header_size w + pad
                 in case old obj of
                      Some (Object x) \<Rightarrow>
                        move_loop w used (obj + len) old (new(src \<mapsto> Header len pad ty, obj \<mapsto> Object x))
                    | _ \<Rightarrow> None)
            | _ \<Rightarrow> None)
      else Some new)"
  by pat_completeness auto
termination
  by (relation "measure (\<lambda>(w, used, src, _). used - src)") (auto simp: walk_decreases)

function (sequential) walk_loop ::
    "pointer_width \<Rightarrow> nat \<Rightarrow> nat \<Rightarrow> (nat \<rightharpoonup> 'a slot) \<Rightarrow> (nat \<times> 'a) list option" where
  "walk_loop w used ptr slots =
     (if ptr < used
      then (case slots ptr of
              Some (Header len pad ty) \<Rightarrow>
                (let obj = ptr + header_size w + pad
                 in case slots obj of
                      Some (Object x) \<Rightarrow> map_option (\<lambda>out. (obj, x) # out) (walk_loop w used (obj + len) slots)
                    | _ \<Rightarrow> None)
            | _ \<Rightarrow> None)
      else Some [])"
  by pat_completeness auto
termination
  by (relation "measure (\<lambda>(w, used, ptr, _). used - ptr)") (auto simp: walk_decreases)

declare move_loop.simps [simp del] walk_loop.simps [simp del]

datatype 'q grown = Grown 'q | Bad_Alloc | Grow_Undefined

definition grow_capacity :: "pointer_width \<Rightarrow> nat option \<Rightarrow> nat \<Rightarrow> 'a hqueue \<Rightarrow> 'a hqueue grown" where
  "grow_capacity w new_storage amount q =
     (let amount_to_grow = max amount (max (m_capacity q * 3 div 2) 128)
      in if m_capacity q * 3 > 2147483647 \<or> m_capacity q + amount_to_grow > 2147483647 then Grow_Undefined
         else (case new_storage of
                 None \<Rightarrow> Bad_Alloc
               | Some a \<Rightarrow>
                   (case move_loop w (m_size q) 0 (m_slots q) Map.empty of
                      None \<Rightarrow> Grow_Undefined
                    | Some slots \<Rightarrow>
                        Grown (q\<lparr>m_storage := Some a, m_slots := slots,
                                 m_capacity := m_capacity q + amount_to_grow\<rparr>))))"

text \<open>
  \<open>emplace_back\<close>: the offset of the new object, or an exception, from \<open>malloc\<close> or from the object's
  constructor (\<open>None\<close>). The header's fields are 16 and 8 bits wide.
\<close>

datatype emplaced = Emplaced nat | Emplace_Threw | Emplace_Undefined

definition place_back :: "pointer_width \<Rightarrow> elem_type \<Rightarrow> 'a option \<Rightarrow> 'a hqueue \<Rightarrow> emplaced \<times> 'a hqueue" where
  "place_back w ty constructed q =
     (case m_storage q of
        None \<Rightarrow> (Emplace_Undefined, q)
      | Some base \<Rightarrow>
          (let ptr = m_size q;
               pad_bytes = calculate_pad_bytes (base + ptr + header_size w) (align_of ty);
               obj = ptr + header_size w + pad_bytes;
               len = (size_of ty + calculate_pad_bytes (base + obj + size_of ty) (header_align w)) mod 65536;
               q1 = q\<lparr>m_slots := (m_slots q)(ptr \<mapsto> Header len (pad_bytes mod 256) ty)\<rparr>
           in case constructed of
                None \<Rightarrow> (Emplace_Threw, q1)
              | Some x \<Rightarrow>
                  (Emplaced obj, q1\<lparr>m_slots := (m_slots q1)(obj \<mapsto> Object x),
                                    m_num_items := m_num_items q1 + 1,
                                    m_size := m_size q1 + (header_size w + pad_bytes + len)\<rparr>)))"

definition emplace_back ::
    "pointer_width \<Rightarrow> elem_type \<Rightarrow> nat option \<Rightarrow> 'a option \<Rightarrow> 'a hqueue \<Rightarrow> emplaced \<times> 'a hqueue" where
  "emplace_back w ty new_storage constructed q =
     (let need = header_size w + align_of ty + size_of ty
      in if m_size q + need > m_capacity q
         then (case grow_capacity w new_storage need q of
                 Grown q1 \<Rightarrow> place_back w ty constructed q1
               | Bad_Alloc \<Rightarrow> (Emplace_Threw, q)
               | Grow_Undefined \<Rightarrow> (Emplace_Undefined, q))
         else place_back w ty constructed q)"

definition get_pointers :: "pointer_width \<Rightarrow> 'a hqueue \<Rightarrow> nat list option" where
  "get_pointers w q = map_option (map fst) (walk_loop w (m_size q) 0 (m_slots q))"

definition hq_swap :: "'a hqueue \<times> 'a hqueue \<Rightarrow> 'a hqueue \<times> 'a hqueue" where
  "hq_swap p = (snd p, fst p)"

definition hq_size :: "'a hqueue \<Rightarrow> nat" where
  "hq_size q = m_num_items q"

definition hq_empty :: "'a hqueue \<Rightarrow> bool" where
  "hq_empty q \<longleftrightarrow> m_num_items q = 0"

text \<open>\<open>clear\<close> with the objects whose destructors run.\<close>

definition hq_clear :: "pointer_width \<Rightarrow> 'a hqueue \<Rightarrow> ('a list \<times> 'a hqueue) option" where
  "hq_clear w q =
     map_option (\<lambda>out. (map snd out, q\<lparr>m_slots := Map.empty, m_size := 0, m_num_items := 0\<rparr>))
       (walk_loop w (m_size q) 0 (m_slots q))"

text \<open>The offset of the first object; the null pointer is \<open>Some None\<close>.\<close>

definition hq_front :: "pointer_width \<Rightarrow> 'a hqueue \<Rightarrow> nat option option" where
  "hq_front w q =
     (if m_size q = 0 then Some None
      else (case m_slots q 0 of
              Some (Header len pad ty) \<Rightarrow> Some (Some (header_size w + pad))
            | _ \<Rightarrow> None))"

section \<open>The list a queue holds\<close>

text \<open>
  From the header at \<open>p\<close> the objects follow one another up to \<open>e\<close>, each within the bytes its header
  gives it: their offsets, classes and values.
\<close>

type_synonym 'a item = "nat \<times> elem_type \<times> 'a"

fun layout :: "pointer_width \<Rightarrow> (nat \<rightharpoonup> 'a slot) \<Rightarrow> nat \<Rightarrow> 'a item list \<Rightarrow> nat \<Rightarrow> bool" where
  "layout w m p [] e \<longleftrightarrow> p = e"
| "layout w m p ((obj, ty, x) # xs) e \<longleftrightarrow>
     (\<exists>len pad. m p = Some (Header len pad ty) \<and> obj = p + header_size w + pad \<and> m obj = Some (Object x)
        \<and> 0 < len \<and> size_of ty \<le> len \<and> layout w m (obj + len) xs e)"

lemma layout_le: "layout w m p xs e \<Longrightarrow> p \<le> e"
  by (induction w m p xs e rule: layout.induct) fastforce+

lemma layout_less:
  assumes "layout w m p (x # xs) e"
  shows "p < e"
proof -
  obtain len pad where "layout w m (p + header_size w + pad + len) xs e"
    using assms by (cases x) auto
  then have "p + header_size w + pad + len \<le> e" by (rule layout_le)
  with header_size_pos [of w] show ?thesis by linarith
qed

lemma layout_frame: "layout w m p xs e \<Longrightarrow> (\<And>i. p \<le> i \<Longrightarrow> i < e \<Longrightarrow> m' i = m i) \<Longrightarrow> layout w m' p xs e"
proof (induction w m p xs e rule: layout.induct)
  case (2 w m p obj ty x xs e)
  from "2.prems"(1) obtain len pad where l: "m p = Some (Header len pad ty)"
    "obj = p + header_size w + pad" "m obj = Some (Object x)" "0 < len" "size_of ty \<le> len"
    "layout w m (obj + len) xs e"
    by auto
  have e: "obj + len \<le> e" using l(6) by (rule layout_le)
  have "layout w m' (obj + len) xs e" using "2.IH" l(6) "2.prems"(2) l(2) by simp
  moreover have "m' p = m p" "m' obj = m obj" using e l(2,4) "2.prems"(2) by simp_all
  ultimately show ?case using l by auto
qed simp

lemma layout_append: "layout w m p (xs @ ys) e \<longleftrightarrow> (\<exists>q. layout w m p xs q \<and> layout w m q ys e)"
proof (induction xs arbitrary: p)
  case (Cons y xs)
  then show ?case by (cases y) (simp; blast)
qed simp

lemma walk_layout:
  "layout w m p xs e \<Longrightarrow> walk_loop w e p m = Some (map (\<lambda>(obj, ty, x). (obj, x)) xs)"
proof (induction xs arbitrary: p)
  case Nil
  then show ?case by (simp add: walk_loop.simps)
next
  case (Cons y xs)
  obtain obj ty x where y: "y = (obj, ty, x)" by (cases y)
  have "p < e" using Cons.prems by (rule layout_less)
  with Cons show ?case by (subst walk_loop.simps) (auto simp: y Let_def)
qed

lemma move_layout:
  "layout w old p xs e \<Longrightarrow>
   \<exists>new'. move_loop w e p old new = Some new' \<and> layout w new' p xs e \<and> (\<forall>i < p. new' i = new i)"
proof (induction xs arbitrary: p new)
  case Nil
  then show ?case by (simp add: move_loop.simps)
next
  case (Cons y xs)
  obtain obj ty x where y: "y = (obj, ty, x)" by (cases y)
  from Cons.prems obtain len pad where l: "old p = Some (Header len pad ty)"
    "obj = p + header_size w + pad" "old obj = Some (Object x)" "0 < len" "size_of ty \<le> len"
    "layout w old (obj + len) xs e"
    by (auto simp: y)
  let ?new = "new(p \<mapsto> Header len pad ty, obj \<mapsto> Object x)"
  from Cons.IH [OF l(6), of ?new] obtain new' where n: "move_loop w e (obj + len) old ?new = Some new'"
    "layout w new' (obj + len) xs e" "\<forall>i < obj + len. new' i = ?new i"
    by blast
  have lt: "p < obj" using l(2) header_size_pos [of w] by linarith
  have "p < e" using Cons.prems by (rule layout_less)
  with l n(1) have "move_loop w e p old new = Some new'"
    by (subst move_loop.simps) (simp add: Let_def)
  moreover have "new' p = Some (Header len pad ty)" "new' obj = Some (Object x)"
    using n(3) lt l(4) by simp_all
  then have "layout w new' p (y # xs) e" using n(2) l by (auto simp: y)
  moreover have "\<forall>i < p. new' i = new i" using n(3) lt by simp
  ultimately show ?case by blast
qed

section \<open>Alignment\<close>

lemma calculate_pad: "calculate_pad_bytes p (2 ^ k) = (2 ^ k - p mod 2 ^ k) mod 2 ^ k"
proof -
  have "x AND (2 ^ k - 1) = x mod 2 ^ k" for x :: nat
    by (metis mask_eq_exp_minus_1 take_bit_eq_mask take_bit_eq_mod)
  then show ?thesis by (simp add: calculate_pad_bytes_def Let_def)
qed

lemma pad_less: "calculate_pad_bytes p (2 ^ k) < 2 ^ k"
  by (simp add: calculate_pad)

lemma pad_aligns: "2 ^ k dvd p + calculate_pad_bytes p (2 ^ k)"
proof (cases "p mod 2 ^ k = 0")
  case True
  then show ?thesis by (simp add: calculate_pad mod_eq_0_iff_dvd)
next
  case False
  then have "calculate_pad_bytes p (2 ^ k) = 2 ^ k - p mod 2 ^ k" by (simp add: calculate_pad)
  moreover have "p mod 2 ^ k < 2 ^ k" "p = p div 2 ^ k * 2 ^ k + p mod 2 ^ k" by (simp_all only: div_mult_mod_eq) simp
  ultimately have "p + calculate_pad_bytes p (2 ^ k) = (p div 2 ^ k + 1) * 2 ^ k" by simp
  then show ?thesis by simp
qed

lemma pad_none: "2 ^ k dvd p \<Longrightarrow> calculate_pad_bytes p (2 ^ k) = 0"
  by (simp add: calculate_pad mod_eq_0_iff_dvd)

text \<open>
  What the queue relies on: \<open>malloc\<close> aligns for every fundamental type (twice the pointer's size), and
  an element's class has a virtual table, so it is aligned at least like a pointer, at most like
  a fundamental type, and its size is a multiple of its alignment.
\<close>

fun header_align_bits :: "pointer_width \<Rightarrow> nat" where
  "header_align_bits Bits32 = 2"
| "header_align_bits Bits64 = 3"

lemma header_align_power: "header_align w = 2 ^ header_align_bits w"
  by (cases w) simp_all

definition malloc_aligned :: "pointer_width \<Rightarrow> nat \<Rightarrow> bool" where
  "malloc_aligned w a \<longleftrightarrow> 2 * header_align w dvd a"

definition elem_ok :: "pointer_width \<Rightarrow> elem_type \<Rightarrow> bool" where
  "elem_ok w ty \<longleftrightarrow>
     align_of ty \<in> {header_align w, 2 * header_align w} \<and> 0 < size_of ty \<and> size_of ty < 65536
     \<and> align_of ty dvd size_of ty"

definition hq_holds :: "pointer_width \<Rightarrow> 'a hqueue \<Rightarrow> 'a item list \<Rightarrow> bool" where
  "hq_holds w q xs \<longleftrightarrow>
     layout w (m_slots q) 0 xs (m_size q) \<and> m_num_items q = length xs \<and> m_size q \<le> m_capacity q
     \<and> header_align w dvd m_size q \<and> (\<forall>(obj, ty, x) \<in> set xs. align_of ty dvd obj)
     \<and> (case m_storage q of None \<Rightarrow> m_capacity q = 0 | Some base \<Rightarrow> malloc_aligned w base)"

lemma elem_align_power:
  assumes "elem_ok w ty"
  obtains k where "align_of ty = 2 ^ k" "header_align w dvd align_of ty" "align_of ty dvd 2 * header_align w"
    "align_of ty \<le> 16"
proof -
  have "align_of ty = header_align w \<or> align_of ty = 2 * header_align w"
    using assms by (simp add: elem_ok_def)
  then have "align_of ty \<le> 16" by (cases w) auto
  moreover have "header_align w dvd align_of ty" "align_of ty dvd 2 * header_align w"
    using assms by (auto simp: elem_ok_def)
  moreover have "align_of ty = 2 ^ header_align_bits w \<or> align_of ty = 2 ^ Suc (header_align_bits w)"
    using assms by (auto simp: elem_ok_def header_align_power)
  then obtain k where "align_of ty = 2 ^ k" by blast
  ultimately show thesis using that by blast
qed

lemma place_back_holds:
  assumes q: "hq_holds w q xs" and ty: "elem_ok w ty" and base: "m_storage q = Some base"
    and room: "m_size q + (header_size w + align_of ty + size_of ty) \<le> m_capacity q"
  shows "case place_back w ty c q of
      (Emplaced obj, q') \<Rightarrow> (\<exists>x. c = Some x \<and> hq_holds w q' (xs @ [(obj, ty, x)]) \<and> m_capacity q' = m_capacity q
        \<and> m_size q' \<le> m_size q + (header_size w + align_of ty + size_of ty))
    | (Emplace_Threw, q') \<Rightarrow> c = None \<and> hq_holds w q' xs \<and> m_capacity q' = m_capacity q \<and> m_size q' = m_size q
    | (Emplace_Undefined, q') \<Rightarrow> False"
proof -
  obtain k where k: "align_of ty = 2 ^ k" "header_align w dvd align_of ty" "align_of ty dvd 2 * header_align w"
    "align_of ty \<le> 16"
    using ty by (rule elem_align_power)
  let ?pad = "calculate_pad_bytes (base + m_size q + header_size w) (align_of ty)"
  let ?obj = "m_size q + header_size w + ?pad"
  have lay: "layout w (m_slots q) 0 xs (m_size q)" using q by (simp add: hq_holds_def)
  have b: "align_of ty dvd base" using q base k(3) by (auto simp: hq_holds_def malloc_aligned_def intro: dvd_trans)
  have pad: "?pad < align_of ty" using pad_less [of _ k] by (simp add: k(1))
  have "align_of ty dvd base + ?obj" using pad_aligns [of k "base + m_size q + header_size w"] by (simp add: k(1) add.assoc)
  then have obj: "align_of ty dvd ?obj" using b by (simp add: dvd_add_right_iff)
  have sz: "align_of ty dvd size_of ty" using ty by (simp add: elem_ok_def)
  have "header_align w dvd base + ?obj + size_of ty"
    by (rule dvd_trans [OF k(2) dvd_add [OF dvd_add [OF b obj] sz]])
  then have tail: "calculate_pad_bytes (base + ?obj + size_of ty) (header_align w) = 0"
    unfolding header_align_power by (rule pad_none)
  have len: "size_of ty mod 65536 = size_of ty" "0 < size_of ty" "?pad mod 256 = ?pad"
    using ty pad k(4) by (simp_all add: elem_ok_def)
  show ?thesis
  proof (cases c)
    case None
    have "layout w ((m_slots q)(m_size q \<mapsto> Header (size_of ty) ?pad ty)) 0 xs (m_size q)"
      using lay by (rule layout_frame) simp
    then show ?thesis
      using q base tail len by (simp add: place_back_def None hq_holds_def Let_def)
  next
    case (Some x)
    let ?m = "(m_slots q)(m_size q \<mapsto> Header (size_of ty) ?pad ty, ?obj \<mapsto> Object x)"
    have "layout w ?m 0 xs (m_size q)"
      using lay by (rule layout_frame) simp
    moreover have "layout w ?m (m_size q) [(?obj, ty, x)] (?obj + size_of ty)"
      using len header_size_pos [of w] by simp
    ultimately have "layout w ?m 0 (xs @ [(?obj, ty, x)]) (?obj + size_of ty)"
      unfolding layout_append by blast
    moreover have "header_align w dvd ?obj + size_of ty"
      by (rule dvd_trans [OF k(2) dvd_add [OF obj sz]])
    ultimately show ?thesis
      using q base tail len obj pad room
      by (simp add: place_back_def Some hq_holds_def Let_def add.assoc)
  qed
qed

definition int_room :: "pointer_width \<Rightarrow> 'a hqueue \<Rightarrow> bool" where
  "int_room w q \<longleftrightarrow> m_capacity q * 3 \<le> 2147483647"

lemma grow_capacity_holds:
  assumes q: "hq_holds w q xs" and cap: "int_room w q" and need: "need \<le> 100000"
    and alloc: "pred_option (malloc_aligned w) alloc"
  shows "case grow_capacity w alloc need q of
      Grown q' \<Rightarrow> hq_holds w q' xs \<and> m_storage q' \<noteq> None \<and> m_size q' = m_size q
        \<and> m_capacity q' = m_capacity q + max need (max (m_capacity q * 3 div 2) 128)
    | Bad_Alloc \<Rightarrow> alloc = None
    | Grow_Undefined \<Rightarrow> False"
proof -
  have "m_capacity q \<le> 715827882" "m_capacity q * 3 div 2 \<le> 1073741823"
    using cap unfolding int_room_def by linarith+
  then have fits: "m_capacity q + max need (max (m_capacity q * 3 div 2) 128) \<le> 2147483647"
    using need by linarith
  show ?thesis
  proof (cases alloc)
    case None
    then show ?thesis using fits cap by (simp add: grow_capacity_def Let_def int_room_def)
  next
    case (Some a)
    have "layout w (m_slots q) 0 xs (m_size q)" using q by (simp add: hq_holds_def)
    from move_layout [OF this, of Map.empty] obtain new' where
      n: "move_loop w (m_size q) 0 (m_slots q) Map.empty = Some new'" "layout w new' 0 xs (m_size q)"
      by blast
    then show ?thesis
      using q fits cap alloc by (simp add: grow_capacity_def Let_def Some hq_holds_def int_room_def)
  qed
qed

lemma need_small: "elem_ok w ty \<Longrightarrow> header_size w + align_of ty + size_of ty \<le> 100000"
  by (cases w) (auto simp: elem_ok_def)

lemma emplace_back_holds:
  assumes q: "hq_holds w q xs" and ty: "elem_ok w ty" and cap: "int_room w q"
    and alloc: "pred_option (malloc_aligned w) alloc"
  shows "case emplace_back w ty alloc c q of
      (Emplaced obj, q') \<Rightarrow> (\<exists>x. c = Some x \<and> hq_holds w q' (xs @ [(obj, ty, x)]))
    | (Emplace_Threw, q') \<Rightarrow> (c = None \<or> alloc = None) \<and> hq_holds w q' xs
    | (Emplace_Undefined, q') \<Rightarrow> False"
proof -
  let ?need = "header_size w + align_of ty + size_of ty"
  show ?thesis
  proof (cases "m_size q + ?need > m_capacity q")
    case True
    note g = grow_capacity_holds [OF q cap need_small [OF ty] alloc]
    show ?thesis
    proof (cases "grow_capacity w alloc ?need q")
      case (Grown q1)
      with g have q1: "hq_holds w q1 xs" "m_size q1 + ?need \<le> m_capacity q1"
        using q by (auto simp: hq_holds_def max_def)
      from g Grown obtain base where "m_storage q1 = Some base" by auto
      from place_back_holds [OF q1(1) ty this q1(2), of c] show ?thesis
        by (auto simp: emplace_back_def Let_def True Grown split: prod.splits emplaced.splits)
    next
      case Bad_Alloc
      with g q True show ?thesis by (simp add: emplace_back_def Let_def)
    next
      case Grow_Undefined
      with g show ?thesis by simp
    qed
  next
    case False
    then have "m_capacity q \<noteq> 0" using header_size_pos [of w] by linarith
    then obtain base where "m_storage q = Some base" using q by (auto simp: hq_holds_def split: option.splits)
    from place_back_holds [OF q ty this, of c] False show ?thesis
      by (auto simp: emplace_back_def Let_def split: prod.splits emplaced.splits)
  qed
qed

lemma get_pointers_holds: "hq_holds w q xs \<Longrightarrow> get_pointers w q = Some (map fst xs)"
  by (auto simp: get_pointers_def hq_holds_def walk_layout)

lemma hq_clear_holds:
  "hq_holds w q xs \<Longrightarrow> \<exists>q'. hq_clear w q = Some (map (snd \<circ> snd) xs, q') \<and> hq_holds w q' []
     \<and> m_capacity q' = m_capacity q"
proof -
  assume q: "hq_holds w q xs"
  let ?q = "q\<lparr>m_slots := Map.empty, m_size := 0, m_num_items := 0\<rparr>"
  have "walk_loop w (m_size q) 0 (m_slots q) = Some (map (\<lambda>(obj, ty, x). (obj, x)) xs)"
    using q by (simp add: hq_holds_def walk_layout)
  then have "hq_clear w q = Some (map (snd \<circ> snd) xs, ?q)"
    by (simp add: hq_clear_def case_prod_beta)
  moreover have "hq_holds w ?q []" using q by (cases "m_storage q") (simp_all add: hq_holds_def)
  ultimately show ?thesis by force
qed

lemma hq_front_holds: "hq_holds w q xs \<Longrightarrow> hq_front w q = Some (case xs of [] \<Rightarrow> None | x # _ \<Rightarrow> Some (fst x))"
proof (cases xs)
  case (Cons y ys)
  assume q: "hq_holds w q xs"
  obtain obj ty x where y: "y = (obj, ty, x)" by (cases y)
  have lay: "layout w (m_slots q) 0 (y # ys) (m_size q)" using q by (simp add: hq_holds_def Cons)
  have "0 < m_size q" using lay by (rule layout_less)
  with lay show ?thesis by (auto simp: hq_front_def Cons y)
qed (simp add: hq_front_def hq_holds_def)

text \<open>
  C27. The heterogeneous queue is the list of its objects: \<open>emplace_back\<close> appends one, also when the
  storage has to grow, and when \<open>malloc\<close> or the constructor fails the queue is unchanged;
  \<open>get_pointers\<close> and \<open>front\<close> give the addresses of the objects in order, each aligned for its class
  and none reaching into the next; \<open>clear\<close> destroys each of them exactly once.
\<close>

theorem hetero_queue_refines_list:
  assumes "hq_holds w q xs" "elem_ok w ty" "int_room w q" "pred_option (malloc_aligned w) alloc"
  shows "(case emplace_back w ty alloc c q of
        (Emplaced obj, q') \<Rightarrow> (\<exists>x. c = Some x \<and> hq_holds w q' (xs @ [(obj, ty, x)])
          \<and> get_pointers w q' = Some (map fst xs @ [obj]))
      | (Emplace_Threw, q') \<Rightarrow> (c = None \<or> alloc = None) \<and> hq_holds w q' xs
      | (Emplace_Undefined, q') \<Rightarrow> False)
    \<and> get_pointers w q = Some (map fst xs) \<and> hq_size q = length xs \<and> m_size q \<le> m_capacity q
    \<and> hq_front w q = Some (case xs of [] \<Rightarrow> None | x # _ \<Rightarrow> Some (fst x))
    \<and> (\<exists>q'. hq_clear w q = Some (map (snd \<circ> snd) xs, q') \<and> hq_holds w q' [])"
proof -
  have "case emplace_back w ty alloc c q of
        (Emplaced obj, q') \<Rightarrow> (\<exists>x. c = Some x \<and> hq_holds w q' (xs @ [(obj, ty, x)])
          \<and> get_pointers w q' = Some (map fst xs @ [obj]))
      | (Emplace_Threw, q') \<Rightarrow> (c = None \<or> alloc = None) \<and> hq_holds w q' xs
      | (Emplace_Undefined, q') \<Rightarrow> False"
    using emplace_back_holds [OF assms, where c = c]
    by (fastforce split: prod.splits emplaced.splits simp: get_pointers_holds)
  moreover have "hq_size q = length xs" "m_size q \<le> m_capacity q"
    using assms(1) by (simp_all add: hq_size_def hq_holds_def)
  moreover have "\<exists>q'. hq_clear w q = Some (map (snd \<circ> snd) xs, q') \<and> hq_holds w q' []"
    using hq_clear_holds [OF assms(1)] by blast
  ultimately show ?thesis
    using get_pointers_holds [OF assms(1)] hq_front_holds [OF assms(1)] by blast
qed

lemma hq_init_holds: "hq_holds w hq_init []"
  by (simp add: hq_holds_def hq_init_def)

theorem hetero_queue_refines_list_witness:
  "let ty = \<lparr>size_of = 40, align_of = 8\<rparr>;
       (r, q) = emplace_back Bits64 ty (Some 4096) (Some ''added'') hq_init
   in hq_holds Bits64 q [(16, ty, ''added'')] \<and> get_pointers Bits64 q = Some [16]"
proof -
  let ?ty = "\<lparr>size_of = 40, align_of = 8\<rparr>"
  have ty: "elem_ok Bits64 ?ty" by (simp add: elem_ok_def)
  have "move_loop Bits64 0 0 Map.empty Map.empty = Some (Map.empty :: nat \<rightharpoonup> string slot)"
    by (simp add: move_loop.simps)
  then have r: "fst (emplace_back Bits64 ?ty (Some 4096) (Some ''added'') hq_init) = Emplaced 16"
    by (simp add: emplace_back_def hq_init_def Let_def grow_capacity_def place_back_def calculate_pad_bytes_def)
  have "malloc_aligned Bits64 4096" by (simp add: malloc_aligned_def)
  with hetero_queue_refines_list [OF hq_init_holds ty, of "Some 4096" "Some ''added''"] r
  show ?thesis
    by (auto simp: int_room_def hq_init_def Let_def split: prod.splits)
qed

end
