(* ===== verification/Alert_Manager.thy ===== *)
theory Alert_Manager
  imports Alert_Types Hetero_Queue "HOL-Library.Sublist"
begin

text \<open>
  \<open>libtorrent/aux_/alert_manager.hpp\<close>: posting an alert to the client. The manager has two queues of
  alerts, of which \<open>m_generation\<close> is the one it may use, a limit on their sizes and a set of the
  types of which an alert was dropped. \<open>maybe_notify\<close>, which the prebuilt library defines, may change
  the client's state \<open>'c\<close> and may throw \<open>bad_alloc\<close>; it is a parameter. A notification that posts
  alerts itself, which the recursive mutex would allow, is outside the model. What the constructors of the
  alerts allocate from the stack allocator is part of whether they succeed.
\<close>

section \<open>The manager\<close>

record ('m, 'c) alert_manager =
  m_alert_mask :: alert_category_t
  m_queue_size_limit :: int
  m_dropped :: "nat set"
  m_generation :: nat
  m_alerts :: "'m alert hqueue list"
  m_client :: 'c

definition should_post :: "('m, 'c) alert_manager \<Rightarrow> alert_class \<Rightarrow> bool" where
  "should_post am T \<longleftrightarrow> flag_and (m_alert_mask am) (static_category T) \<noteq> flag_none"

definition set_alert_mask :: "alert_category_t \<Rightarrow> ('m, 'c) alert_manager \<Rightarrow> ('m, 'c) alert_manager" where
  "set_alert_mask m am = am\<lparr>m_alert_mask := m\<rparr>"

definition alert_mask :: "('m, 'c) alert_manager \<Rightarrow> alert_category_t" where
  "alert_mask am = m_alert_mask am"

definition alert_queue_size_limit :: "('m, 'c) alert_manager \<Rightarrow> int" where
  "alert_queue_size_limit am = m_queue_size_limit am"

text \<open>\<open>std::bitset::set\<close> throws \<open>out_of_range\<close> past the last bit.\<close>

datatype posting = Posting_Returned | Threw_Out_Of_Range | Posting_Undefined

definition record_dropped :: "alert_class \<Rightarrow> ('m, 'c) alert_manager \<Rightarrow> posting \<times> ('m, 'c) alert_manager" where
  "record_dropped T am =
     (if alert_type T < abi_alert_count
      then (Posting_Returned, am\<lparr>m_dropped := insert (alert_type T) (m_dropped am)\<rparr>)
      else (Threw_Out_Of_Range, am))"

text \<open>
  An alert to post: its class, the size and alignment of the class, what \<open>malloc\<close> answers if the
  queue grows, and the members that the constructor sets, unless it throws.
\<close>

record 'm post =
  post_class :: alert_class
  post_type :: elem_type
  post_alloc :: "nat option"
  post_members :: "'m option"

definition post_alert :: "'m post \<Rightarrow> 'm alert option" where
  "post_alert e = map_option (\<lambda>m. \<lparr>class_of = post_class e, alert_members = m\<rparr>) (post_members e)"

definition emplace_alert ::
    "pointer_width \<Rightarrow> (nat \<Rightarrow> 'c \<Rightarrow> bool \<times> 'c) \<Rightarrow> 'm post \<Rightarrow> ('m, 'c) alert_manager \<Rightarrow>
     posting \<times> ('m, 'c) alert_manager" where
  "emplace_alert w maybe_notify e am =
     (let T = post_class e; queue = m_alerts am ! m_generation am
      in if int (hq_size queue) div (1 + int (priority_value (priority T))) \<ge> m_queue_size_limit am
         then record_dropped T am
         else (case emplace_back w (post_type e) (post_alloc e) (post_alert e) queue of
                 (Emplaced obj, queue1) \<Rightarrow>
                   (let am1 = am\<lparr>m_alerts := (m_alerts am)[m_generation am := queue1]\<rparr>
                    in case maybe_notify obj (m_client am1) of
                         (True, c) \<Rightarrow> (Posting_Returned, am1\<lparr>m_client := c\<rparr>)
                       | (False, c) \<Rightarrow> record_dropped T (am1\<lparr>m_client := c\<rparr>))
               | (Emplace_Threw, queue1) \<Rightarrow>
                   record_dropped T (am\<lparr>m_alerts := (m_alerts am)[m_generation am := queue1]\<rparr>)
               | (Emplace_Undefined, queue1) \<Rightarrow> (Posting_Undefined, am)))"

fun emplace_all ::
    "pointer_width \<Rightarrow> (nat \<Rightarrow> 'c \<Rightarrow> bool \<times> 'c) \<Rightarrow> 'm post list \<Rightarrow> ('m, 'c) alert_manager \<Rightarrow>
     posting list \<times> ('m, 'c) alert_manager" where
  "emplace_all w notify [] am = ([], am)"
| "emplace_all w notify (e # es) am =
     (let (r, am1) = emplace_alert w notify e am; (rs, am2) = emplace_all w notify es am1 in (r # rs, am2))"

section \<open>Room for the counters\<close>

text \<open>
  With objects of at most 1024 bytes and at most \<open>n\<close> of them the storage never grows beyond what an
  \<open>int\<close> can count.
\<close>

definition small_elem :: "pointer_width \<Rightarrow> elem_type \<Rightarrow> bool" where
  "small_elem w ty \<longleftrightarrow> elem_ok w ty \<and> size_of ty \<le> 1024"

definition hq_sized :: "nat \<Rightarrow> 'a hqueue \<Rightarrow> bool" where
  "hq_sized n q \<longleftrightarrow> m_size q \<le> 1056 * m_num_items q \<and> m_num_items q \<le> n \<and> m_capacity q \<le> 2640 * (n + 1)"

lemma small_need: "small_elem w ty \<Longrightarrow> header_size w + align_of ty + size_of ty \<le> 1056"
  by (cases w) (auto simp: small_elem_def elem_ok_def)

lemma sized_room: "hq_sized n q \<Longrightarrow> n \<le> 250000 \<Longrightarrow> int_room w q"
  by (auto simp: hq_sized_def int_room_def)

lemma emplace_back_sized:
  assumes q: "hq_holds w q xs" and ty: "small_elem w ty" and sized: "hq_sized n q"
    and less: "m_num_items q < n" "n \<le> 250000" and alloc: "pred_option (malloc_aligned w) alloc"
  shows "case emplace_back w ty alloc c q of
      (Emplaced obj, q') \<Rightarrow> (\<exists>x. c = Some x \<and> hq_holds w q' (xs @ [(obj, ty, x)]) \<and> hq_sized n q')
    | (Emplace_Threw, q') \<Rightarrow> hq_holds w q' xs \<and> hq_sized n q'
    | (Emplace_Undefined, q') \<Rightarrow> False"
proof -
  let ?need = "header_size w + align_of ty + size_of ty"
  have ok: "elem_ok w ty" using ty by (simp add: small_elem_def)
  have need: "?need \<le> 1056" using ty by (rule small_need)
  have items: "m_num_items q = length xs" using q by (simp add: hq_holds_def)
  have place: "case place_back w ty c q1 of
      (Emplaced obj, q') \<Rightarrow> (\<exists>x. c = Some x \<and> hq_holds w q' (xs @ [(obj, ty, x)]) \<and> hq_sized n q')
    | (Emplace_Threw, q') \<Rightarrow> hq_holds w q' xs \<and> hq_sized n q'
    | (Emplace_Undefined, q') \<Rightarrow> False"
    if q1: "hq_holds w q1 xs" "m_storage q1 \<noteq> None" "m_size q1 = m_size q" "m_size q + ?need \<le> m_capacity q1"
      "m_capacity q1 \<le> 2640 * (n + 1)" for q1
  proof -
    obtain base where base: "m_storage q1 = Some base" using q1(2) by blast
    have "m_size q1 + ?need \<le> m_capacity q1" using q1(3,4) by simp
    from place_back_holds [OF q1(1) ok base this, of c]
    have p: "case place_back w ty c q1 of
        (Emplaced obj, q') \<Rightarrow> (\<exists>x. c = Some x \<and> hq_holds w q' (xs @ [(obj, ty, x)]) \<and> m_capacity q' = m_capacity q1
          \<and> m_size q' \<le> m_size q + ?need)
      | (Emplace_Threw, q') \<Rightarrow> c = None \<and> hq_holds w q' xs \<and> m_capacity q' = m_capacity q1 \<and> m_size q' = m_size q
      | (Emplace_Undefined, q') \<Rightarrow> False"
      unfolding q1(3) .
    have "m_num_items q' = length ys" if "hq_holds w q' ys" for q' and ys :: "'a item list"
      using that by (simp add: hq_holds_def)
    with p need sized less(1) items q1(5) show ?thesis
      by (fastforce simp: hq_sized_def split: prod.splits emplaced.splits)
  qed
  show ?thesis
  proof (cases "m_size q + ?need > m_capacity q")
    case True
    note g = grow_capacity_holds [OF q sized_room [OF sized less(2)] need_small [OF ok] alloc]
    show ?thesis
    proof (cases "grow_capacity w alloc ?need q")
      case (Grown q1)
      with g have q1: "hq_holds w q1 xs" "m_storage q1 \<noteq> None" "m_size q1 = m_size q"
        "m_capacity q1 = m_capacity q + max ?need (max (m_capacity q * 3 div 2) 128)"
        by simp_all
      have "m_capacity q < 1056 * (n + 1)" using True need sized less(1) by (simp add: hq_sized_def)
      then have "m_capacity q1 \<le> 2640 * (n + 1)" using q1(4) need by simp
      moreover have "m_size q \<le> m_capacity q" using q by (simp add: hq_holds_def)
      then have "m_size q + ?need \<le> m_capacity q1" unfolding q1(4) by (intro add_mono max.cobounded1)
      ultimately show ?thesis using place [OF q1(1-3)] by (simp add: emplace_back_def Let_def True Grown)
    next
      case Bad_Alloc
      with g q sized True show ?thesis by (simp add: emplace_back_def Let_def)
    next
      case Grow_Undefined
      with g show ?thesis by simp
    qed
  next
    case False
    then have "m_capacity q \<noteq> 0" using header_size_pos [of w] by linarith
    then have "m_storage q \<noteq> None" using q by (auto simp: hq_holds_def split: option.splits)
    with place [OF q _ refl] False sized show ?thesis
      by (simp add: emplace_back_def Let_def hq_sized_def)
  qed
qed

section \<open>What is posted and what is dropped\<close>

definition post_ok :: "pointer_width \<Rightarrow> 'm post \<Rightarrow> bool" where
  "post_ok w e \<longleftrightarrow>
     post_class e \<in> set alert_classes \<and> small_elem w (post_type e) \<and> pred_option (malloc_aligned w) (post_alloc e)"

definition item_alert :: "'m alert item \<Rightarrow> 'm alert" where
  "item_alert i = snd (snd i)"

definition queued :: "'m alert item \<Rightarrow> 'm alert option" where
  "queued i = Some (item_alert i)"

text \<open>The queue in use holds the alerts \<open>xs\<close>, each of which was posted within its class's share of the limit.\<close>

definition manager_holds :: "pointer_width \<Rightarrow> nat \<Rightarrow> ('m, 'c) alert_manager \<Rightarrow> 'm alert item list \<Rightarrow> bool" where
  "manager_holds w limit am xs \<longleftrightarrow>
     m_queue_size_limit am = int limit \<and> m_generation am < length (m_alerts am)
     \<and> hq_holds w (m_alerts am ! m_generation am) xs \<and> hq_sized (4 * limit) (m_alerts am ! m_generation am)
     \<and> (\<forall>i < length xs. i < limit * (1 + priority_value (priority (class_of (item_alert (xs ! i))))))"

lemma record_dropped_known:
  assumes "T \<in> set alert_classes"
  shows "record_dropped T am = (Posting_Returned, am\<lparr>m_dropped := insert (alert_type T) (m_dropped am)\<rparr>)"
  using alert_type_bounds [OF assms] by (simp add: record_dropped_def num_alert_types_def abi_alert_count_def)

lemma limit_division:
  "int n div (1 + int p) < int limit \<longleftrightarrow> n < limit * (1 + p)"
proof -
  have "int n div (1 + int p) = int (n div (1 + p))" by (simp add: zdiv_int)
  then show ?thesis by (simp add: div_less_iff_less_mult)
qed

lemma priority_small: "priority_value p \<le> 3"
  by (cases p) simp_all

lemma emplace_alert_accounts:
  assumes am: "manager_holds w limit am xs" and limit: "limit \<le> 60000" and e: "post_ok w e"
  obtains am' where "emplace_alert w notify e am = (Posting_Returned, am')"
    "(\<exists>i. post_alert e = Some (item_alert i) \<and> manager_holds w limit am' (xs @ [i]) \<and> m_dropped am \<subseteq> m_dropped am')
     \<or> manager_holds w limit am' xs \<and> m_dropped am' = insert (alert_type (post_class e)) (m_dropped am)"
proof -
  let ?T = "post_class e" and ?q = "m_alerts am ! m_generation am"
  let ?p = "priority_value (priority ?T)"
  note drop = record_dropped_known [of ?T]
  have T: "?T \<in> set alert_classes" "small_elem w (post_type e)" "pred_option (malloc_aligned w) (post_alloc e)"
    using e by (simp_all add: post_ok_def)
  have q: "hq_holds w ?q xs" "hq_sized (4 * limit) ?q" "m_queue_size_limit am = int limit"
    "m_generation am < length (m_alerts am)"
    using am by (simp_all add: manager_holds_def)
  have n: "hq_size ?q = length xs" "m_num_items ?q = length xs" using q(1) by (simp_all add: hq_size_def hq_holds_def)
  show thesis
  proof (cases "length xs < limit * (1 + ?p)")
    case False
    then have dropped: "emplace_alert w notify e am =
        (Posting_Returned, am\<lparr>m_dropped := insert (alert_type ?T) (m_dropped am)\<rparr>)"
      using limit_division [of "length xs" ?p limit] drop [OF T(1)]
      by (simp add: emplace_alert_def Let_def n q(3))
    have "manager_holds w limit (am\<lparr>m_dropped := d\<rparr>) xs" for d using am by (simp add: manager_holds_def)
    then show thesis by (intro that [OF dropped]) simp
  next
    case True
    then have step: "emplace_alert w notify e am =
        (case emplace_back w (post_type e) (post_alloc e) (post_alert e) ?q of
           (Emplaced obj, queue1) \<Rightarrow>
             (let am1 = am\<lparr>m_alerts := (m_alerts am)[m_generation am := queue1]\<rparr>
              in case notify obj (m_client am1) of
                   (True, c) \<Rightarrow> (Posting_Returned, am1\<lparr>m_client := c\<rparr>)
                 | (False, c) \<Rightarrow> record_dropped ?T (am1\<lparr>m_client := c\<rparr>))
         | (Emplace_Threw, queue1) \<Rightarrow>
             record_dropped ?T (am\<lparr>m_alerts := (m_alerts am)[m_generation am := queue1]\<rparr>)
         | (Emplace_Undefined, queue1) \<Rightarrow> (Posting_Undefined, am))"
      using limit_division [of "length xs" ?p limit] by (simp add: emplace_alert_def Let_def n q(3))
    have "limit * (1 + ?p) \<le> limit * 4" using priority_small [of "priority ?T"] by (intro mult_left_mono) simp_all
    with True have less: "m_num_items ?q < 4 * limit" unfolding n by linarith
    have big: "4 * limit \<le> 250000" using limit by simp
    obtain r queue1 where b: "emplace_back w (post_type e) (post_alloc e) (post_alert e) ?q = (r, queue1)" by fastforce
    note sized = emplace_back_sized [OF q(1) T(2) q(2) less big T(3), of "post_alert e", unfolded b]
    let ?am1 = "am\<lparr>m_alerts := (m_alerts am)[m_generation am := queue1]\<rparr>"
    have holds: "manager_holds w limit (?am1\<lparr>m_client := c, m_dropped := d\<rparr>) ys"
      if "hq_holds w queue1 ys" "hq_sized (4 * limit) queue1"
        "ys = xs \<or> (\<exists>i. ys = xs @ [i] \<and> class_of (item_alert i) = ?T)" for c d ys
      using am that True q(4) by (auto simp: manager_holds_def nth_append less_Suc_eq)
    show thesis
    proof (cases r)
      case (Emplaced obj)
      with sized obtain x where x: "post_alert e = Some x" "hq_holds w queue1 (xs @ [(obj, post_type e, x)])"
        "hq_sized (4 * limit) queue1"
        by auto
      let ?i = "(obj, post_type e, x)"
      have cls: "class_of (item_alert ?i) = ?T" using x(1) by (auto simp: post_alert_def item_alert_def)
      obtain ret c where not: "notify obj (m_client am) = (ret, c)" by fastforce
      have posted: "manager_holds w limit (?am1\<lparr>m_client := c, m_dropped := d\<rparr>) (xs @ [?i])" for d
        using x(2,3) cls by (intro holds) auto
      show thesis
      proof (cases ret)
        case True
        with step b not have "emplace_alert w notify e am = (Posting_Returned, ?am1\<lparr>m_client := c\<rparr>)"
          by (simp add: Emplaced Let_def)
        moreover have "?am1\<lparr>m_client := c, m_dropped := m_dropped am\<rparr> = ?am1\<lparr>m_client := c\<rparr>" by simp
        then have "manager_holds w limit (?am1\<lparr>m_client := c\<rparr>) (xs @ [?i])" using posted [of "m_dropped am"] by simp
        ultimately show thesis using that x(1) by (fastforce simp: item_alert_def)
      next
        case False
        with step b not have "emplace_alert w notify e am =
            (Posting_Returned, ?am1\<lparr>m_client := c, m_dropped := insert (alert_type ?T) (m_dropped am)\<rparr>)"
          by (simp add: Emplaced Let_def drop [OF T(1)])
        with posted show thesis using that x(1) by (fastforce simp: item_alert_def)
      qed
    next
      case Emplace_Threw
      with sized have "hq_holds w queue1 xs" "hq_sized (4 * limit) queue1" by simp_all
      with holds [where ys = xs and c = "m_client am"] have holds': "manager_holds w limit (?am1\<lparr>m_dropped := d\<rparr>) xs" for d by simp
      have "emplace_alert w notify e am =
          (Posting_Returned, ?am1\<lparr>m_dropped := insert (alert_type ?T) (m_dropped am)\<rparr>)"
        using step b by (simp add: Emplace_Threw drop [OF T(1)])
      then show thesis by (rule that) (simp add: holds')
    next
      case Emplace_Undefined
      with sized show thesis by simp
    qed
  qed
qed

lemma emplace_all_accounts:
  assumes "manager_holds w limit am xs" "limit \<le> 60000" "list_all (post_ok w) es"
    and "emplace_all w notify es am = (rs, am')"
  shows "\<exists>ys. manager_holds w limit am' (xs @ ys)
    \<and> subseq (map queued ys) (map post_alert es)
    \<and> m_dropped am \<subseteq> m_dropped am' \<and> set rs \<subseteq> {Posting_Returned}
    \<and> (\<forall>e \<in> set es. post_alert e \<in> queued ` set ys \<or> alert_type (post_class e) \<in> m_dropped am')"
  using assms(1,3,4)
proof (induction es arbitrary: am xs rs)
  case Nil
  then show ?case by (intro exI [of _ "[]"]) simp
next
  case (Cons e es)
  have e: "post_ok w e" "list_all (post_ok w) es" using Cons.prems(2) by simp_all
  obtain am1 where s: "emplace_alert w notify e am = (Posting_Returned, am1)"
    and d: "(\<exists>i. post_alert e = Some (item_alert i) \<and> manager_holds w limit am1 (xs @ [i]) \<and> m_dropped am \<subseteq> m_dropped am1)
      \<or> manager_holds w limit am1 xs \<and> m_dropped am1 = insert (alert_type (post_class e)) (m_dropped am)"
    using emplace_alert_accounts [OF Cons.prems(1) assms(2) e(1), of notify] by blast
  obtain rs1 where rest: "emplace_all w notify es am1 = (rs1, am')" "rs = Posting_Returned # rs1"
    using Cons.prems(3) s by (auto simp: Let_def split: prod.splits)
  from d show ?case
  proof (elim disjE exE conjE)
    fix i
    assume i: "post_alert e = Some (item_alert i)" "manager_holds w limit am1 (xs @ [i])" "m_dropped am \<subseteq> m_dropped am1"
    from Cons.IH [OF i(2) e(2) rest(1)] obtain ys where ys: "manager_holds w limit am' (xs @ i # ys)"
      "subseq (map queued ys) (map post_alert es)" "m_dropped am1 \<subseteq> m_dropped am'"
      "set rs1 \<subseteq> {Posting_Returned}"
      "\<forall>e \<in> set es. post_alert e \<in> queued ` set ys \<or> alert_type (post_class e) \<in> m_dropped am'"
      by auto
    moreover have "post_alert e = queued i" using i(1) by (simp add: queued_def)
    ultimately show ?thesis using i(2,3) by (intro exI [of _ "i # ys"]) (auto simp: rest(2))
  next
    assume dr: "manager_holds w limit am1 xs" "m_dropped am1 = insert (alert_type (post_class e)) (m_dropped am)"
    from Cons.IH [OF dr(1) e(2) rest(1)] obtain ys where ys: "manager_holds w limit am' (xs @ ys)"
      "subseq (map queued ys) (map post_alert es)" "m_dropped am1 \<subseteq> m_dropped am'"
      "set rs1 \<subseteq> {Posting_Returned}"
      "\<forall>e \<in> set es. post_alert e \<in> queued ` set ys \<or> alert_type (post_class e) \<in> m_dropped am'"
      by auto
    with dr(2) show ?thesis by (intro exI [of _ ys]) (auto simp: rest(2))
  qed
qed

definition manager_init :: "alert_category_t \<Rightarrow> nat \<Rightarrow> 'c \<Rightarrow> ('m, 'c) alert_manager" where
  "manager_init am_mask limit client =
     \<lparr>m_alert_mask = am_mask, m_queue_size_limit = int limit, m_dropped = {}, m_generation = 0,
      m_alerts = [hq_init, hq_init], m_client = client\<rparr>"

lemma manager_init_holds: "manager_holds w limit (manager_init am_mask limit client) []"
  using hq_init_holds [of w] by (simp add: manager_holds_def manager_init_def hq_sized_def hq_init_def)



end
