(* ===== verification/Packet_Pool.thy ===== *)
theory Packet_Pool
  imports Getzy_Prelude "HOL-Library.Multiset"
begin

text \<open>
  \<open>libtorrent/aux_/packet_pool.hpp\<close>: the buffers of uTP packets and three slabs of free ones. A packet
  is its address and the number of bytes behind its header; an owning pointer is an optional packet.
  The address that \<open>malloc\<close> answers, or the null pointer, is an argument of the operations that call
  it, and what an operation frees is part of its result.
\<close>

section \<open>Packets\<close>

definition ipv4_header :: int where "ipv4_header = 20"

definition udp_header :: int where "udp_header = 8"

definition utp_header :: int where "utp_header = 20"

definition ethernet_mtu :: int where "ethernet_mtu = 1500"

definition inet_min_mtu :: int where "inet_min_mtu = 576"

record packet =
  address :: nat
  allocated :: u16

text \<open>\<open>numeric_cast<std::uint16_t>\<close> without assertions is a conversion; \<open>None\<close> is \<open>bad_alloc\<close>.\<close>

definition create_packet :: "nat option \<Rightarrow> int \<Rightarrow> packet option" where
  "create_packet malloc n = map_option (\<lambda>a. \<lparr>address = a, allocated = word_of_int n\<rparr>) malloc"

section \<open>Slabs\<close>

record packet_slab =
  allocate_size :: int
  m_limit :: nat
  m_storage :: "packet list"

definition make_slab :: "int \<Rightarrow> packet_slab" where
  "make_slab alloc_size = \<lparr>allocate_size = alloc_size, m_limit = 10, m_storage = []\<rparr>"

text \<open>The pointer that is left with the caller, and the slab.\<close>

definition try_push_back :: "packet \<Rightarrow> packet_slab \<Rightarrow> packet option \<times> packet_slab" where
  "try_push_back p s =
     (if length (m_storage s) < m_limit s then (None, s\<lparr>m_storage := m_storage s @ [p]\<rparr>) else (Some p, s))"

definition slab_alloc :: "nat option \<Rightarrow> packet_slab \<Rightarrow> packet option \<times> packet_slab" where
  "slab_alloc malloc s =
     (if m_storage s = [] then (create_packet malloc (allocate_size s), s)
      else (Some (last (m_storage s)), s\<lparr>m_storage := butlast (m_storage s)\<rparr>))"

text \<open>The packet freed, if any.\<close>

definition slab_decay :: "packet_slab \<Rightarrow> packet option \<times> packet_slab" where
  "slab_decay s =
     (if m_storage s = [] then (None, s)
      else (Some (last (m_storage s)), s\<lparr>m_storage := butlast (m_storage s)\<rparr>))"

section \<open>The pool\<close>

record packet_pool =
  m_syn_slab :: packet_slab
  m_mtu_floor_slab :: packet_slab
  m_mtu_ceiling_slab :: packet_slab

definition mtu_floor_size :: int where "mtu_floor_size = inet_min_mtu - ipv4_header - udp_header"

definition mtu_ceiling_size :: int where "mtu_ceiling_size = ethernet_mtu - ipv4_header - udp_header"

definition make_pool :: packet_pool where
  "make_pool =
     \<lparr>m_syn_slab = make_slab utp_header, m_mtu_floor_slab = make_slab mtu_floor_size,
      m_mtu_ceiling_slab = make_slab mtu_ceiling_size\<rparr>"

definition pool_alloc :: "nat option \<Rightarrow> int \<Rightarrow> packet_pool \<Rightarrow> packet option \<times> packet_pool" where
  "pool_alloc malloc n pool =
     (if n \<le> allocate_size (m_syn_slab pool)
      then (case slab_alloc malloc (m_syn_slab pool) of (p, s) \<Rightarrow> (p, pool\<lparr>m_syn_slab := s\<rparr>))
      else if n \<le> allocate_size (m_mtu_floor_slab pool)
      then (case slab_alloc malloc (m_mtu_floor_slab pool) of (p, s) \<Rightarrow> (p, pool\<lparr>m_mtu_floor_slab := s\<rparr>))
      else if n \<le> allocate_size (m_mtu_ceiling_slab pool)
      then (case slab_alloc malloc (m_mtu_ceiling_slab pool) of (p, s) \<Rightarrow> (p, pool\<lparr>m_mtu_ceiling_slab := s\<rparr>))
      else (create_packet malloc n, pool))"

definition pool_acquire :: "nat option \<Rightarrow> int \<Rightarrow> packet_pool \<Rightarrow> packet option \<times> packet_pool" where
  "pool_acquire malloc n pool = pool_alloc malloc n pool"

text \<open>What is not put into a slab is freed when the argument goes out of scope.\<close>

definition pool_release :: "packet option \<Rightarrow> packet_pool \<Rightarrow> packet option \<times> packet_pool" where
  "pool_release p pool =
     (case p of
        None \<Rightarrow> (None, pool)
      | Some p \<Rightarrow>
          (let n = uint (allocated p)
           in if n = allocate_size (m_syn_slab pool)
              then (case try_push_back p (m_syn_slab pool) of (q, s) \<Rightarrow> (q, pool\<lparr>m_syn_slab := s\<rparr>))
              else if n = allocate_size (m_mtu_floor_slab pool)
              then (case try_push_back p (m_mtu_floor_slab pool) of (q, s) \<Rightarrow> (q, pool\<lparr>m_mtu_floor_slab := s\<rparr>))
              else if n = allocate_size (m_mtu_ceiling_slab pool)
              then (case try_push_back p (m_mtu_ceiling_slab pool) of (q, s) \<Rightarrow> (q, pool\<lparr>m_mtu_ceiling_slab := s\<rparr>))
              else (Some p, pool)))"

definition pool_decay :: "packet_pool \<Rightarrow> packet option list \<times> packet_pool" where
  "pool_decay pool =
     (let (p1, s1) = slab_decay (m_syn_slab pool);
          (p2, s2) = slab_decay (m_mtu_floor_slab pool);
          (p3, s3) = slab_decay (m_mtu_ceiling_slab pool)
      in ([p1, p2, p3], \<lparr>m_syn_slab = s1, m_mtu_floor_slab = s2, m_mtu_ceiling_slab = s3\<rparr>))"

section \<open>The pool and its users\<close>

text \<open>
  The packets that the users of the pool own, with the size they asked for, and the addresses that are allocated. \<open>malloc\<close> answers
  with an address that is not allocated; freeing one that is not would be undefined behaviour.
\<close>

record pool_users =
  the_pool :: packet_pool
  in_use :: "(int \<times> packet) list"
  heap :: "nat set"

datatype pool_event = Acquire "nat option" int | Release nat | Decay

definition pooled :: "packet_pool \<Rightarrow> packet list" where
  "pooled pool = m_storage (m_syn_slab pool) @ m_storage (m_mtu_floor_slab pool) @ m_storage (m_mtu_ceiling_slab pool)"

definition free_all :: "packet option list \<Rightarrow> nat set \<Rightarrow> nat set" where
  "free_all ps h = h - {address p | p. Some p \<in> set ps}"

text \<open>The memory that \<open>malloc\<close> hands out is allocated whether it goes into a slab or not.\<close>

fun pool_step :: "pool_users \<Rightarrow> pool_event \<Rightarrow> pool_users" where
  "pool_step u (Acquire malloc n) =
     (if 0 \<le> n \<and> n < 65536 \<and> (\<forall>a. malloc = Some a \<longrightarrow> a \<notin> heap u)
      then (case pool_acquire malloc n (the_pool u) of
              (None, pool) \<Rightarrow> u\<lparr>the_pool := pool\<rparr>
            | (Some p, pool) \<Rightarrow>
                u\<lparr>the_pool := pool, in_use := (n, p) # in_use u, heap := insert (address p) (heap u)\<rparr>)
      else u)"
| "pool_step u (Release i) =
     (if i < length (in_use u)
      then (case pool_release (Some (snd (in_use u ! i))) (the_pool u) of
              (freed, pool) \<Rightarrow>
                u\<lparr>the_pool := pool, in_use := take i (in_use u) @ drop (Suc i) (in_use u),
                  heap := free_all [freed] (heap u)\<rparr>)
      else u)"
| "pool_step u Decay =
     (case pool_decay (the_pool u) of
        (freed, pool) \<Rightarrow> u\<lparr>the_pool := pool, heap := free_all freed (heap u)\<rparr>)"

definition slab_ok :: "int \<Rightarrow> packet_slab \<Rightarrow> bool" where
  "slab_ok n s \<longleftrightarrow>
     allocate_size s = n \<and> m_limit s = 10 \<and> length (m_storage s) \<le> 10
     \<and> list_all (\<lambda>p. uint (allocated p) = n) (m_storage s)"

definition pool_ok :: "packet_pool \<Rightarrow> bool" where
  "pool_ok pool \<longleftrightarrow>
     slab_ok 20 (m_syn_slab pool) \<and> slab_ok 548 (m_mtu_floor_slab pool) \<and> slab_ok 1472 (m_mtu_ceiling_slab pool)"

definition users_ok :: "pool_users \<Rightarrow> bool" where
  "users_ok u \<longleftrightarrow>
     pool_ok (the_pool u) \<and> distinct (map address (map snd (in_use u) @ pooled (the_pool u)))
     \<and> heap u = address ` set (map snd (in_use u) @ pooled (the_pool u))
     \<and> list_all (\<lambda>(n, p). n \<le> uint (allocated p)) (in_use u)"

section \<open>Nothing is lost, freed twice or handed out twice\<close>

definition live :: "pool_users \<Rightarrow> nat list" where
  "live u = map address (map snd (in_use u) @ pooled (the_pool u))"

definition sized :: "pool_users \<Rightarrow> bool" where
  "sized u \<longleftrightarrow> list_all (\<lambda>(n, p). n \<le> uint (allocated p)) (in_use u)"

lemma users_ok_live:
  "users_ok u \<longleftrightarrow> pool_ok (the_pool u) \<and> distinct (live u) \<and> heap u = set (live u) \<and> sized u"
  unfolding users_ok_def live_def sized_def set_map by blast

lemma live_moved:
  assumes "users_ok u" "mset (live v) = mset (live u)" "heap v = heap u" "pool_ok (the_pool v)" "sized v"
  shows "users_ok v"
  using assms mset_eq_imp_distinct_iff [OF assms(2)] mset_eq_setD [OF assms(2)] by (simp add: users_ok_live)

lemma live_added:
  assumes "users_ok u" "mset (live v) = add_mset a (mset (live u))" "a \<notin> heap u" "heap v = insert a (heap u)"
    "pool_ok (the_pool v)" "sized v"
  shows "users_ok v"
proof -
  have m: "mset (live v) = mset (a # live u)" using assms(2) by simp
  from mset_eq_imp_distinct_iff [OF m] mset_eq_setD [OF m] assms show ?thesis
    by (simp add: users_ok_live)
qed

lemma live_removed:
  assumes "users_ok u" "mset (live u) = mset (freed @ live v)" "heap v = heap u - set freed" "pool_ok (the_pool v)" "sized v"
  shows "users_ok v"
proof -
  from mset_eq_imp_distinct_iff [OF assms(2)] mset_eq_setD [OF assms(2)] assms(1,3-5) show ?thesis
    by (auto simp: users_ok_live)
qed

lemma slab_alloc_cases:
  assumes "slab_ok n s" "0 \<le> n" "n < 65536" "slab_alloc malloc s = (q, s')"
  shows "(q = None \<and> malloc = None \<and> s' = s)
    \<or> (\<exists>p. q = Some p \<and> slab_ok n s' \<and> uint (allocated p) = n
        \<and> (m_storage s = m_storage s' @ [p] \<or> malloc = Some (address p) \<and> s' = s))"
proof (cases "m_storage s = []")
  case True
  have "n mod 65536 = n" using assms(2,3) by simp
  with True assms show ?thesis
    by (cases malloc) (auto simp: slab_alloc_def create_packet_def slab_ok_def uint_word_of_int)
next
  case False
  then obtain xs p where "m_storage s = xs @ [p]" by (meson rev_exhaust)
  with assms show ?thesis by (auto simp: slab_alloc_def slab_ok_def)
qed

lemma try_push_back_cases:
  assumes "slab_ok n s" "uint (allocated p) = n" "try_push_back p s = (q, s')"
  shows "q = None \<and> slab_ok n s' \<and> m_storage s' = m_storage s @ [p] \<or> q = Some p \<and> s' = s"
  using assms by (auto simp: try_push_back_def slab_ok_def split: if_splits)

lemma slab_decay_cases:
  assumes "slab_ok n s" "slab_decay s = (q, s')"
  shows "slab_ok n s' \<and> m_storage s = m_storage s' @ (case q of None \<Rightarrow> [] | Some p \<Rightarrow> [p])"
proof (cases "m_storage s = []")
  case False
  then obtain xs p where "m_storage s = xs @ [p]" by (meson rev_exhaust)
  with assms show ?thesis by (auto simp: slab_decay_def slab_ok_def)
qed (use assms in \<open>auto simp: slab_decay_def\<close>)

lemma pool_acquire_cases:
  assumes "pool_ok pool" "0 \<le> n" "n < 65536" "pool_acquire malloc n pool = (q, pool')"
  shows "(q = None \<and> malloc = None \<and> pool' = pool)
    \<or> (\<exists>p. q = Some p \<and> pool_ok pool' \<and> n \<le> uint (allocated p)
        \<and> (mset (pooled pool) = add_mset p (mset (pooled pool')) \<or> malloc = Some (address p) \<and> pool' = pool))"
proof -
  have ok: "slab_ok 20 (m_syn_slab pool)" "slab_ok 548 (m_mtu_floor_slab pool)" "slab_ok 1472 (m_mtu_ceiling_slab pool)"
    using assms(1) by (simp_all add: pool_ok_def)
  then have sz: "allocate_size (m_syn_slab pool) = 20" "allocate_size (m_mtu_floor_slab pool) = 548"
    "allocate_size (m_mtu_ceiling_slab pool) = 1472"
    by (simp_all add: slab_ok_def)
  consider "n \<le> 20" | "\<not> n \<le> 20" "n \<le> 548" | "\<not> n \<le> 548" "n \<le> 1472" | "\<not> n \<le> 1472" by linarith
  then show ?thesis
  proof cases
    case 1
    obtain s where s: "slab_alloc malloc (m_syn_slab pool) = (q, s)" "pool' = pool\<lparr>m_syn_slab := s\<rparr>"
      using assms(4) 1 by (auto simp: pool_acquire_def pool_alloc_def sz split: prod.splits)
    from slab_alloc_cases [OF ok(1) _ _ s(1)] 1 ok s(2) show ?thesis by (auto simp: pooled_def pool_ok_def)
  next
    case 2
    obtain s where s: "slab_alloc malloc (m_mtu_floor_slab pool) = (q, s)" "pool' = pool\<lparr>m_mtu_floor_slab := s\<rparr>"
      using assms(4) 2 by (auto simp: pool_acquire_def pool_alloc_def sz split: prod.splits)
    from slab_alloc_cases [OF ok(2) _ _ s(1)] 2 ok s(2) show ?thesis by (auto simp: pooled_def pool_ok_def)
  next
    case 3
    obtain s where s: "slab_alloc malloc (m_mtu_ceiling_slab pool) = (q, s)" "pool' = pool\<lparr>m_mtu_ceiling_slab := s\<rparr>"
      using assms(4) 3 by (auto simp: pool_acquire_def pool_alloc_def sz split: prod.splits)
    from slab_alloc_cases [OF ok(3) _ _ s(1)] 3 ok s(2) show ?thesis by (auto simp: pooled_def pool_ok_def)
  next
    case 4
    have "n mod 65536 = n" using assms(2,3) by simp
    with 4 assms show ?thesis
      by (cases malloc) (auto simp: pool_acquire_def pool_alloc_def sz create_packet_def uint_word_of_int)
  qed
qed

lemma pool_release_cases:
  assumes "pool_ok pool" "pool_release (Some p) pool = (q, pool')"
  shows "q = None \<and> pool_ok pool' \<and> mset (pooled pool') = add_mset p (mset (pooled pool)) \<or> q = Some p \<and> pool' = pool"
proof -
  have ok: "slab_ok 20 (m_syn_slab pool)" "slab_ok 548 (m_mtu_floor_slab pool)" "slab_ok 1472 (m_mtu_ceiling_slab pool)"
    using assms(1) by (simp_all add: pool_ok_def)
  then have sz: "allocate_size (m_syn_slab pool) = 20" "allocate_size (m_mtu_floor_slab pool) = 548"
    "allocate_size (m_mtu_ceiling_slab pool) = 1472"
    by (simp_all add: slab_ok_def)
  consider "uint (allocated p) = 20" | "uint (allocated p) = 548" | "uint (allocated p) = 1472"
    | "uint (allocated p) \<notin> {20, 548, 1472}" by blast
  then show ?thesis
  proof cases
    case 1
    obtain s where s: "try_push_back p (m_syn_slab pool) = (q, s)" "pool' = pool\<lparr>m_syn_slab := s\<rparr>"
      using assms(2) 1 by (auto simp: pool_release_def sz split: prod.splits)
    from try_push_back_cases [OF ok(1) 1 s(1)] ok s(2) show ?thesis by (auto simp: pooled_def pool_ok_def)
  next
    case 2
    obtain s where s: "try_push_back p (m_mtu_floor_slab pool) = (q, s)" "pool' = pool\<lparr>m_mtu_floor_slab := s\<rparr>"
      using assms(2) 2 by (auto simp: pool_release_def sz split: prod.splits)
    from try_push_back_cases [OF ok(2) 2 s(1)] ok s(2) show ?thesis by (auto simp: pooled_def pool_ok_def)
  next
    case 3
    obtain s where s: "try_push_back p (m_mtu_ceiling_slab pool) = (q, s)" "pool' = pool\<lparr>m_mtu_ceiling_slab := s\<rparr>"
      using assms(2) 3 by (auto simp: pool_release_def sz split: prod.splits)
    from try_push_back_cases [OF ok(3) 3 s(1)] ok s(2) show ?thesis by (auto simp: pooled_def pool_ok_def)
  next
    case 4
    with assms(2) show ?thesis by (auto simp: pool_release_def sz)
  qed
qed

lemma pool_decay_cases:
  assumes "pool_ok pool" "pool_decay pool = (freed, pool')"
  shows "pool_ok pool' \<and> mset (pooled pool) = mset (map the (filter (\<lambda>p. p \<noteq> None) freed)) + mset (pooled pool')"
proof -
  obtain p1 s1 p2 s2 p3 s3 where d: "slab_decay (m_syn_slab pool) = (p1, s1)"
    "slab_decay (m_mtu_floor_slab pool) = (p2, s2)" "slab_decay (m_mtu_ceiling_slab pool) = (p3, s3)"
    by fastforce
  with assms(2) have f: "freed = [p1, p2, p3]"
    "pool' = \<lparr>m_syn_slab = s1, m_mtu_floor_slab = s2, m_mtu_ceiling_slab = s3\<rparr>"
    by (auto simp: pool_decay_def)
  have "slab_ok 20 (m_syn_slab pool)" "slab_ok 548 (m_mtu_floor_slab pool)" "slab_ok 1472 (m_mtu_ceiling_slab pool)"
    using assms(1) by (simp_all add: pool_ok_def)
  from slab_decay_cases [OF this(1) d(1)] slab_decay_cases [OF this(2) d(2)] slab_decay_cases [OF this(3) d(3)]
  show ?thesis by (auto simp: f pooled_def pool_ok_def split: option.splits)
qed

lemma free_all_addresses: "free_all ps h = h - set (map address (map the (filter (\<lambda>p. p \<noteq> None) ps)))"
  by (force simp: free_all_def)

lemma mset_remove_nth: "i < length xs \<Longrightarrow> mset xs = add_mset (xs ! i) (mset (take i xs @ drop (Suc i) xs))"
  by (metis append_take_drop_id Cons_nth_drop_Suc mset.simps(2) mset_append union_mset_add_mset_right)

lemma pool_step_ok:
  assumes "users_ok u"
  shows "users_ok (pool_step u e)"
proof -
  have u: "pool_ok (the_pool u)" "heap u = set (live u)" "sized u"
    using assms by (simp_all add: users_ok_live)
  show ?thesis
  proof (cases e)
    case (Acquire malloc n)
    show ?thesis
    proof (cases "0 \<le> n \<and> n < 65536 \<and> (\<forall>a. malloc = Some a \<longrightarrow> a \<notin> heap u)")
      case ok: True
      obtain q pool where a: "pool_acquire malloc n (the_pool u) = (q, pool)" by fastforce
      from pool_acquire_cases [OF u(1) _ _ a] ok consider "q = None" "pool = the_pool u"
        | p where "q = Some p" "pool_ok pool" "n \<le> uint (allocated p)"
          "mset (pooled (the_pool u)) = add_mset p (mset (pooled pool))"
        | p where "q = Some p" "n \<le> uint (allocated p)" "malloc = Some (address p)" "pool = the_pool u"
        by blast
      then show ?thesis
      proof cases
        case 1
        with assms ok a show ?thesis by (simp add: Acquire)
      next
        case (2 p)
        let ?v = "u\<lparr>the_pool := pool, in_use := (n, p) # in_use u, heap := insert (address p) (heap u)\<rparr>"
        have "mset (live ?v) = mset (live u)" using 2(4) by (simp add: live_def)
        moreover have "p \<in> set (pooled (the_pool u))" using 2(4) by (metis set_mset_mset union_single_eq_member)
        then have "heap ?v = heap u" using u(2) by (auto simp: live_def)
        moreover have "sized ?v" using u(3) 2(3) by (simp add: sized_def)
        ultimately have "users_ok ?v" using live_moved [OF assms] 2(2) by simp
        with ok a 2(1) show ?thesis by (simp add: Acquire)
      next
        case (3 p)
        let ?v = "u\<lparr>the_pool := pool, in_use := (n, p) # in_use u, heap := insert (address p) (heap u)\<rparr>"
        have "mset (live ?v) = add_mset (address p) (mset (live u))" by (simp add: live_def 3(4))
        moreover have "sized ?v" using u(3) 3(2) by (simp add: sized_def)
        ultimately have "users_ok ?v" using live_added [OF assms] u(1) ok 3(3,4) by simp
        with ok a 3(1) show ?thesis by (simp add: Acquire)
      qed
    next
      case False
      with assms show ?thesis by (auto simp: Acquire)
    qed
  next
    case (Release i)
    show ?thesis
    proof (cases "i < length (in_use u)")
      case i: True
      let ?p = "snd (in_use u ! i)" and ?rest = "take i (in_use u) @ drop (Suc i) (in_use u)"
      obtain q pool where r: "pool_release (Some ?p) (the_pool u) = (q, pool)" by fastforce
      let ?v = "u\<lparr>the_pool := pool, in_use := ?rest, heap := free_all [q] (heap u)\<rparr>"
      have "mset (map (address \<circ> snd) (in_use u)) = image_mset (address \<circ> snd) (add_mset (in_use u ! i) (mset ?rest))"
        by (subst mset_remove_nth [OF i, symmetric]) simp
      then have m: "mset (live u) = add_mset (address ?p) (mset (map (address \<circ> snd) ?rest @ map address (pooled (the_pool u))))"
        by (simp add: live_def)
      have sz: "sized ?v" using u(3) by (auto simp: sized_def list_all_iff dest: in_set_takeD in_set_dropD)
      have "users_ok ?v"
        using pool_release_cases [OF u(1) r]
      proof (elim disjE conjE)
        assume q: "q = None" "pool_ok pool" "mset (pooled pool) = add_mset ?p (mset (pooled (the_pool u)))"
        then have "mset (live ?v) = mset (live u)" by (simp add: m) (simp add: live_def)
        then show ?thesis using live_moved [OF assms] q(1,2) sz by (simp add: free_all_def)
      next
        assume q: "q = Some ?p" "pool = the_pool u"
        then have "mset (live u) = mset ([address ?p] @ live ?v)" by (simp add: m) (simp add: live_def)
        moreover have "heap ?v = heap u - set [address ?p]" using q(1) by (auto simp: free_all_def)
        ultimately show ?thesis using live_removed [OF assms] u(1) q(2) sz by simp
      qed
      with i r show ?thesis by (simp add: Release)
    next
      case False
      with assms show ?thesis by (simp add: Release)
    qed
  next
    case Decay
    obtain freed pool where d: "pool_decay (the_pool u) = (freed, pool)" by fastforce
    let ?v = "u\<lparr>the_pool := pool, heap := free_all freed (heap u)\<rparr>"
    let ?fs = "map address (map the (filter (\<lambda>p. p \<noteq> None) freed))"
    note c = pool_decay_cases [OF u(1) d]
    have 1: "mset (live u) = mset (?fs @ live ?v)" using c by (simp add: live_def multiset.map_comp)
    have 2: "heap ?v = heap u - set ?fs" by (simp add: free_all_addresses)
    have 3: "sized ?v" using u(3) by (simp add: sized_def)
    have "users_ok ?v" by (rule live_removed [OF assms 1 2 _ 3]) (simp add: c)
    with d show ?thesis by (simp add: Decay)
  qed
qed

interpretation packets: invariant_machine pool_step users_ok
  by unfold_locales (rule pool_step_ok)

definition new_users :: pool_users where
  "new_users = \<lparr>the_pool = make_pool, in_use = [], heap = {}\<rparr>"


end
