(* ===== verification/Bitfield.thy ===== *)
theory Bitfield
  imports Digest
begin

text \<open>
  \<open>libtorrent/bitfield.hpp\<close>: a bitfield is the array \<open>m_buf\<close> of 32-bit words, absent when empty; its
  first word is the number of bits, the others hold the bits in network order, so that the bytes in
  memory are the BitTorrent wire format. \<open>resize\<close> is implemented in the prebuilt library and is the
  parameter \<open>bitfield_lib\<close>. An index or a size is a natural number, since the functions assert that it
  is not negative; an access outside the array is \<open>None\<close>.
\<close>

section \<open>State\<close>

type_synonym bitfield = "u32 list option"

record bitfield_lib =
  resize_to :: "nat \<Rightarrow> bitfield \<Rightarrow> bitfield"
  resize_with :: "nat \<Rightarrow> bool \<Rightarrow> bitfield \<Rightarrow> bitfield"

definition bf_size :: "bitfield \<Rightarrow> nat" where
  "bf_size m_buf = (case m_buf of None \<Rightarrow> 0 | Some b \<Rightarrow> nat (sint (hd b)))"

definition bf_words :: "bitfield \<Rightarrow> u32 list" where
  "bf_words m_buf = (case m_buf of None \<Rightarrow> [] | Some b \<Rightarrow> tl b)"

definition num_words :: "bitfield \<Rightarrow> nat" where
  "num_words m = (bf_size m + 31) div 32"

definition num_bytes :: "bitfield \<Rightarrow> nat" where
  "num_bytes m = (bf_size m + 7) div 8"

definition bf_empty :: "bitfield \<Rightarrow> bool" where
  "bf_empty m \<longleftrightarrow> bf_size m = 0"

definition bf_data :: "bitfield \<Rightarrow> bytes option" where
  "bf_data m = map_option (\<lambda>b. digest_data (tl b)) m"

text \<open>\<open>buf()[j]\<close>, read and written.\<close>

definition word_at :: "bitfield \<Rightarrow> nat \<Rightarrow> u32 option" where
  "word_at m j = (if j < length (bf_words m) then Some (bf_words m ! j) else None)"

definition set_words :: "u32 list \<Rightarrow> bitfield \<Rightarrow> bitfield" where
  "set_words ws m = map_option (\<lambda>b. hd b # ws) m"

definition update_word :: "(u32 \<Rightarrow> u32) \<Rightarrow> nat \<Rightarrow> bitfield \<Rightarrow> bitfield option" where
  "update_word f j m =
     map_option (\<lambda>w. set_words ((bf_words m)[j := f w]) m) (word_at m j)"

section \<open>Bits\<close>

definition bit_mask :: "nat \<Rightarrow> u32" where
  "bit_mask index = drop_bit (index mod 32) 0x80000000"

definition get_bit :: "bitfield \<Rightarrow> nat \<Rightarrow> bool option" where
  "get_bit m index =
     map_option (\<lambda>w. w AND host_to_network (bit_mask index) \<noteq> 0) (word_at m (index div 32))"

definition clear_bit :: "nat \<Rightarrow> bitfield \<Rightarrow> bitfield option" where
  "clear_bit index = update_word (\<lambda>w. w AND host_to_network (NOT (bit_mask index))) (index div 32)"

definition set_bit :: "nat \<Rightarrow> bitfield \<Rightarrow> bitfield option" where
  "set_bit index = update_word (\<lambda>w. w OR host_to_network (bit_mask index)) (index div 32)"

definition none_set :: "bitfield \<Rightarrow> bool" where
  "none_set m = (if bf_size m = 0 then True else list_all (\<lambda>w. w = 0) (take (num_words m) (bf_words m)))"

definition clear_trailing_bits :: "bitfield \<Rightarrow> bitfield option" where
  "clear_trailing_bits m =
     (if bf_size m mod 32 \<noteq> 0
      then update_word (\<lambda>w. w AND host_to_network (push_bit (32 - bf_size m mod 32) 0xffffffff))
             (num_words m - 1) m
      else Some m)"

text \<open>\<open>memset(buf(), c, num_words() * 4)\<close>, the word \<open>w\<close> being four bytes \<open>c\<close>.\<close>

definition fill_words :: "u32 \<Rightarrow> bitfield \<Rightarrow> bitfield option" where
  "fill_words w m =
     (if num_words m \<le> length (bf_words m)
      then Some (set_words (replicate (num_words m) w @ drop (num_words m) (bf_words m)) m) else None)"

definition set_all :: "bitfield \<Rightarrow> bitfield option" where
  "set_all m =
     (if bf_size m = 0 then Some m
      else Option.bind (fill_words 0xffffffff m) clear_trailing_bits)"

definition clear_all :: "bitfield \<Rightarrow> bitfield option" where
  "clear_all m = (if bf_size m = 0 then Some m else fill_words 0 m)"

definition bf_clear :: "bitfield \<Rightarrow> bitfield" where
  "bf_clear m = None"

definition bf_swap :: "bitfield \<times> bitfield \<Rightarrow> bitfield \<times> bitfield" where
  "bf_swap p = (snd p, fst p)"

text \<open>\<open>memcpy(buf(), b, (bits + 7) / 8)\<close>\<close>

definition copy_bytes :: "bytes \<Rightarrow> nat \<Rightarrow> bitfield \<Rightarrow> bitfield option" where
  "copy_bytes b n m =
     (if n \<le> length b \<and> n \<le> 4 * length (bf_words m)
      then Some (set_words (words_of (take n b @ drop n (digest_data (bf_words m)))) m) else None)"

definition bf_assign :: "bitfield_lib \<Rightarrow> bytes \<Rightarrow> nat \<Rightarrow> bitfield \<Rightarrow> bitfield option" where
  "bf_assign lib b bits m =
     (let m1 = resize_to lib bits m
      in if bits > 0
         then Option.bind (copy_bytes b ((bits + 7) div 8) m1) clear_trailing_bits
         else Some m1)"

text \<open>The constructors and the copy assignment.\<close>

definition bf_of_size :: "bitfield_lib \<Rightarrow> nat \<Rightarrow> bitfield" where
  "bf_of_size lib bits = resize_to lib bits None"

definition bf_of_value :: "bitfield_lib \<Rightarrow> nat \<Rightarrow> bool \<Rightarrow> bitfield" where
  "bf_of_value lib bits val = resize_with lib bits val None"

definition bf_copy :: "bitfield_lib \<Rightarrow> bitfield \<Rightarrow> bitfield \<Rightarrow> bitfield option" where
  "bf_copy lib rhs m =
     bf_assign lib (case bf_data rhs of None \<Rightarrow> [] | Some b \<Rightarrow> b) (bf_size rhs) m"

section \<open>Iterators\<close>

record bit_iterator =
  it_word :: "nat option"
  it_bit :: u32

definition it_make :: "nat option \<Rightarrow> nat \<Rightarrow> bit_iterator" where
  "it_make ptr offset = \<lparr>it_word = ptr, it_bit = drop_bit offset 0x80000000\<rparr>"

definition it_deref :: "bitfield \<Rightarrow> bit_iterator \<Rightarrow> bool option" where
  "it_deref m it =
     (case it_word it of
        None \<Rightarrow> None
      | Some j \<Rightarrow> map_option (\<lambda>w. w AND host_to_network (it_bit it) \<noteq> 0) (word_at m j))"

definition it_inc :: "bit_iterator \<Rightarrow> bit_iterator" where
  "it_inc it =
     (if it_bit it = 1 then it\<lparr>it_bit := 0x80000000, it_word := map_option Suc (it_word it)\<rparr>
      else it\<lparr>it_bit := drop_bit 1 (it_bit it)\<rparr>)"

definition it_dec :: "bit_iterator \<Rightarrow> bit_iterator" where
  "it_dec it =
     (if it_bit it = 0x80000000 then it\<lparr>it_bit := 1, it_word := map_option (\<lambda>j. j - 1) (it_word it)\<rparr>
      else it\<lparr>it_bit := push_bit 1 (it_bit it)\<rparr>)"

definition it_equal :: "bit_iterator \<Rightarrow> bit_iterator \<Rightarrow> bool" where
  "it_equal a b \<longleftrightarrow> it_word a = it_word b \<and> it_bit a = it_bit b"

definition it_begin :: "bitfield \<Rightarrow> bit_iterator" where
  "it_begin m = it_make (map_option (\<lambda>_. 0) m) 0"

definition it_end :: "bitfield \<Rightarrow> bit_iterator" where
  "it_end m =
     (if m \<noteq> None
      then it_make (Some (num_words m - (if bf_size m mod 32 = 0 then 0 else 1))) (bf_size m mod 32)
      else it_make None (bf_size m mod 32))"

text \<open>\<open>for (auto it = begin(); it != end(); ++it)\<close> and the values it sees.\<close>

fun it_collect :: "nat \<Rightarrow> bitfield \<Rightarrow> bit_iterator \<Rightarrow> bool list option" where
  "it_collect 0 m it = None"
| "it_collect (Suc fuel) m it =
     (if it_equal it (it_end m) then Some []
      else Option.bind (it_deref m it) (\<lambda>v. map_option (Cons v) (it_collect fuel m (it_inc it))))"

section \<open>Masks in network order\<close>

text \<open>Where the \<open>k\<close>-th bit of a word, counted from the first byte's most significant bit, is stored.\<close>

definition bit_pos :: "nat \<Rightarrow> nat" where
  "bit_pos k = 8 * (k div 8) + (7 - k mod 8)"

lemma bit_pos_split: "r < 8 \<Longrightarrow> bit_pos (8 * q + r) = 8 * q + (7 - r)"
  by (simp add: bit_pos_def)

lemma byte_split:
  fixes k :: nat
  obtains q r where "k = 8 * q + r" "r < 8"
  using that [of "k div 8" "k mod 8"] by simp

lemma bit_pos_less: "k < 32 \<Longrightarrow> bit_pos k < 32"
proof (rule byte_split [of k])
  fix q r :: nat assume "k < 32" "k = 8 * q + r" "r < 8"
  moreover from this have "8 * q + 7 < 32" by arith
  ultimately show ?thesis by (simp add: bit_pos_split)
qed

lemma bit_pos_invol: "bit_pos (bit_pos k) = k"
proof (rule byte_split [of k])
  fix q r :: nat assume k: "k = 8 * q + r" "r < 8"
  then have "bit_pos (bit_pos k) = bit_pos (8 * q + (7 - r))" by (simp add: bit_pos_split)
  also have "\<dots> = k" using k by (subst bit_pos_split) simp_all
  finally show ?thesis .
qed

lemma bit_pos_eq: "bit_pos j = bit_pos k \<longleftrightarrow> j = k"
  by (metis bit_pos_invol)

lemma bit_network:
  assumes "k < 32"
  shows "bit (host_to_network w) (bit_pos k) \<longleftrightarrow> bit w (31 - k)"
proof -
  have "\<forall>k \<in> set [0..<32]. bit (host_to_network w) (bit_pos k) \<longleftrightarrow> bit w (31 - k)"
    by (simp add: upt_rec bit_pos_def host_to_network_def swap_byteorder_bytes bit_bytes_word
        bit_ucast_iff bit_drop_bit_eq)
  with assms show ?thesis by simp
qed

lemma word_eq_network:
  fixes v w :: u32
  assumes "\<And>k. k < 32 \<Longrightarrow> bit v (bit_pos k) = bit w (bit_pos k)"
  shows "v = w"
proof (rule bit_word_eqI)
  fix n :: nat assume "n < LENGTH(32)"
  then have "bit_pos n < 32" by (simp add: bit_pos_less)
  from assms [OF this] show "bit v n = bit w n" by (simp add: bit_pos_invol)
qed

lemma bit_mask_network: "bit (host_to_network (bit_mask i)) n \<longleftrightarrow> n = bit_pos (i mod 32)"
proof -
  have m: "(0x80000000 :: u32) = push_bit 31 1" by simp
  have b: "bit (host_to_network (bit_mask i)) (bit_pos k) \<longleftrightarrow> k = i mod 32" if "k < 32" for k
    using that mod_less_divisor [of 32 i]
    by (simp add: bit_network bit_mask_def m bit_drop_bit_eq bit_push_bit_iff bit_1_iff del: push_bit_of_1)
      arith
  show ?thesis
  proof (cases "n < 32")
    case True
    then have "bit (host_to_network (bit_mask i)) n \<longleftrightarrow> bit_pos n = i mod 32"
      using b [of "bit_pos n"] bit_pos_less [of n] by (simp add: bit_pos_invol)
    then show ?thesis by (metis bit_pos_invol)
  next
    case False
    with bit_imp_le_length [of "host_to_network (bit_mask i)" n] bit_pos_less [of "i mod 32"]
    show ?thesis by auto
  qed
qed

lemma and_mask_network: "w AND host_to_network (bit_mask i) \<noteq> 0 \<longleftrightarrow> bit w (bit_pos (i mod 32))"
proof -
  have "w AND v = 0 \<longleftrightarrow> (\<forall>n. \<not> (bit w n \<and> bit v n))" for v
  proof
    assume "w AND v = 0"
    then have "\<not> bit (w AND v) n" for n by simp
    then show "\<forall>n. \<not> (bit w n \<and> bit v n)" by (simp only: bit_and_iff) simp
  qed (rule bit_word_eqI, simp add: bit_and_iff)
  then show ?thesis by (simp add: bit_mask_network)
qed

lemma network_not: "host_to_network (NOT w) = NOT (host_to_network w)"
  by (rule word_eq_network) (simp add: bit_network bit_not_iff bit_pos_less less_imp_diff_less)

section \<open>The bits of a bitfield\<close>

definition bits :: "bitfield \<Rightarrow> bool list" where
  "bits m = map (\<lambda>i. get_bit m i = Some True) [0..<bf_size m]"

definition sized :: "bitfield \<Rightarrow> bool" where
  "sized m \<longleftrightarrow>
     (case m of None \<Rightarrow> True
      | Some b \<Rightarrow> b \<noteq> [] \<and> 0 \<le> sint (hd b) \<and> bf_size m \<le> 2147483616 \<and> length (tl b) = num_words m)"

definition wf_bitfield :: "bitfield \<Rightarrow> bool" where
  "wf_bitfield m \<longleftrightarrow> sized m \<and> list_all (\<lambda>i. get_bit m i = Some False) [bf_size m..<32 * num_words m]"

lemma length_bits [simp]: "length (bits m) = bf_size m"
  by (simp add: bits_def)

lemma get_bit_word:
  "get_bit m i = (if i div 32 < length (bf_words m)
     then Some (bit (bf_words m ! (i div 32)) (bit_pos (i mod 32))) else None)"
  by (simp add: get_bit_def word_at_def and_mask_network)

lemma sized_words: "sized m \<Longrightarrow> length (bf_words m) = num_words m"
  by (auto simp: sized_def bf_words_def num_words_def bf_size_def split: option.splits)

lemma wf_words: "wf_bitfield m \<Longrightarrow> length (bf_words m) = num_words m"
  by (simp add: wf_bitfield_def sized_words)

lemma wf_tail: "wf_bitfield m \<Longrightarrow> bf_size m \<le> i \<Longrightarrow> i < 32 * num_words m \<Longrightarrow> get_bit m i = Some False"
  by (simp add: wf_bitfield_def list_all_iff)

lemma size_words: "bf_size m \<le> 32 * num_words m" "32 * num_words m < bf_size m + 32"
  by (simp_all add: num_words_def)

lemma word_index: "wf_bitfield m \<Longrightarrow> i < 32 * num_words m \<Longrightarrow> i div 32 < length (bf_words m)"
  using wf_words [of m] by (simp add: less_mult_imp_div_less mult.commute)

lemma get_bit_bits: "wf_bitfield m \<Longrightarrow> i < bf_size m \<Longrightarrow> get_bit m i = Some (bits m ! i)"
  using word_index [of m i] size_words [of m] by (auto simp: bits_def get_bit_word)

lemma set_words_simps [simp]:
  "m \<noteq> None \<Longrightarrow> bf_words (set_words ws m) = ws" "bf_size (set_words ws m) = bf_size m"
  "num_words (set_words ws m) = num_words m"
  by (auto simp: bf_words_def set_words_def bf_size_def num_words_def split: option.splits)

text \<open>A change of the words of a bitfield of the same number, described bit by bit.\<close>

lemma sized_set_words: "sized m \<Longrightarrow> length ws = num_words m \<Longrightarrow> sized (set_words ws m)"
  by (auto simp: sized_def set_words_def bf_size_def num_words_def split: option.splits)

lemma bits_set_words:
  assumes "sized m" "m \<noteq> None" "length ws = num_words m"
    and "\<And>i. i < 32 * num_words m \<Longrightarrow> bit (ws ! (i div 32)) (bit_pos (i mod 32)) = (i < bf_size m \<and> f i)"
  shows "wf_bitfield (set_words ws m)" "bits (set_words ws m) = map f [0..<bf_size m]"
proof -
  have g: "get_bit (set_words ws m) i = Some (i < bf_size m \<and> f i)" if "i < 32 * num_words m" for i
    using that assms(2-4) by (simp add: get_bit_word less_mult_imp_div_less mult.commute)
  then show "wf_bitfield (set_words ws m)"
    using sized_set_words [OF assms(1,3)] by (simp add: wf_bitfield_def list_all_iff)
  show "bits (set_words ws m) = map f [0..<bf_size m]"
    using g size_words(1) [of m] by (auto simp: bits_def)
qed

lemma word_bits:
  assumes "wf_bitfield m" "i < 32 * num_words m"
  shows "bit (bf_words m ! (i div 32)) (bit_pos (i mod 32)) \<longleftrightarrow> i < bf_size m \<and> bits m ! i"
  using assms word_index [OF assms] get_bit_bits [of m i] wf_tail [of m i]
  by (cases "i < bf_size m") (simp_all add: get_bit_word)

lemma size_not_empty: "i < bf_size m \<Longrightarrow> m \<noteq> None"
  by (cases m) (auto simp: bf_size_def)

lemma update_bit:
  assumes wf: "wf_bitfield m" and i: "i < bf_size m"
    and f: "\<And>w k. k < 32 \<Longrightarrow> bit (f w) (bit_pos k) = (if k = i mod 32 then v else bit w (bit_pos k))"
  shows "\<exists>m'. update_word f (i div 32) m = Some m' \<and> wf_bitfield m' \<and> bits m' = (bits m)[i := v]"
proof -
  let ?ws = "(bf_words m)[i div 32 := f (bf_words m ! (i div 32))]"
  have j: "i div 32 < length (bf_words m)"
    using word_index [OF wf, of i] i size_words(1) [of m] by simp
  have b: "bit (?ws ! (n div 32)) (bit_pos (n mod 32)) = (n < bf_size m \<and> (if n = i then v else bits m ! n))"
    if n: "n < 32 * num_words m" for n
  proof (cases "n div 32 = i div 32")
    case True
    then have "n mod 32 = i mod 32 \<longleftrightarrow> n = i" by (metis div_mod_decomp)
    with True j i f [of "n mod 32"] word_bits [OF wf n] show ?thesis by auto
  next
    case False
    with word_bits [OF wf n] show ?thesis by (auto simp: nth_list_update)
  qed
  have l: "length ?ws = num_words m" using wf by (simp add: wf_words)
  note r = bits_set_words [OF conjunct1 [OF wf [unfolded wf_bitfield_def]] size_not_empty [OF i] l b]
  have "map (\<lambda>n. if n = i then v else bits m ! n) [0..<bf_size m] = (bits m)[i := v]"
    by (rule nth_equalityI) (auto simp: nth_list_update)
  with r j show ?thesis by (simp add: update_word_def word_at_def)
qed

lemma set_bit_bits:
  assumes "wf_bitfield m" "i < bf_size m"
  shows "\<exists>m'. set_bit i m = Some m' \<and> wf_bitfield m' \<and> bits m' = (bits m)[i := True]"
  unfolding set_bit_def
  by (rule update_bit [OF assms]) (auto simp: bit_or_iff bit_mask_network bit_pos_eq)

lemma clear_bit_bits:
  assumes "wf_bitfield m" "i < bf_size m"
  shows "\<exists>m'. clear_bit i m = Some m' \<and> wf_bitfield m' \<and> bits m' = (bits m)[i := False]"
  unfolding clear_bit_def
  by (rule update_bit [OF assms])
    (auto simp: bit_and_iff network_not bit_not_iff bit_mask_network bit_pos_eq bit_pos_less)

lemma words_zero:
  assumes "wf_bitfield m"
  shows "list_all (\<lambda>w. w = 0) (bf_words m) \<longleftrightarrow> True \<notin> set (bits m)"
proof -
  have z: "w = 0 \<longleftrightarrow> (\<forall>k<32. \<not> bit w (bit_pos k))" for w :: u32
    using word_eq_network [of w 0] by auto
  have "list_all (\<lambda>w. w = 0) (bf_words m) \<longleftrightarrow> (\<forall>j<num_words m. \<forall>k<32. \<not> bit (bf_words m ! j) (bit_pos k))"
    using wf_words [OF assms] by (simp add: list_all_length z)
  also have "\<dots> \<longleftrightarrow> (\<forall>i<32 * num_words m. \<not> bit (bf_words m ! (i div 32)) (bit_pos (i mod 32)))"
  proof (intro iffI allI impI)
    fix j k assume a: "\<forall>i<32 * num_words m. \<not> bit (bf_words m ! (i div 32)) (bit_pos (i mod 32))"
      "j < num_words m" "(k::nat) < 32"
    then have "32 * j + k < 32 * num_words m" by arith
    with a(1,3) show "\<not> bit (bf_words m ! j) (bit_pos k)" by fastforce
  qed (simp add: less_mult_imp_div_less mult.commute)
  also have "\<dots> \<longleftrightarrow> True \<notin> set (bits m)"
    using word_bits [OF assms] size_words(1) [of m] by (fastforce simp: in_set_conv_nth)
  finally show ?thesis .
qed

lemma none_set_bits: "wf_bitfield m \<Longrightarrow> none_set m \<longleftrightarrow> True \<notin> set (bits m)"
  using words_zero [of m] wf_words [of m] length_bits [of m] by (cases "bits m") (auto simp: none_set_def)

lemma clear_trailing:
  assumes "sized m" "m \<noteq> None"
  shows "\<exists>m'. clear_trailing_bits m = Some m' \<and> wf_bitfield m' \<and> bf_size m' = bf_size m \<and>
    bits m' = map (\<lambda>i. bit (bf_words m ! (i div 32)) (bit_pos (i mod 32))) [0..<bf_size m]"
proof (cases "bf_size m mod 32 = 0")
  case True
  then have n: "32 * num_words m = bf_size m" by (simp add: num_words_def) arith
  have w: "set_words (bf_words m) m = m"
    using assms by (auto simp: sized_def set_words_def bf_words_def split: option.splits)
  show ?thesis
    using bits_set_words [OF assms sized_words [OF assms(1)],
        of "\<lambda>i. bit (bf_words m ! (i div 32)) (bit_pos (i mod 32))"] n True
    by (simp add: clear_trailing_bits_def w)
next
  case False
  let ?r = "bf_size m mod 32" and ?j = "num_words m - 1"
  have r: "0 < ?r" "?r < 32" using False by simp_all
  have n: "num_words m = Suc ?j" "bf_size m = 32 * ?j + ?r"
  proof -
    have "(32 * q + k + 31) div 32 = Suc q" if "0 < k" "k < 32" for q k :: nat
      by (rule div_nat_eqI) (use that in simp_all)
    from this [OF r, of "bf_size m div 32"] have "num_words m = Suc (bf_size m div 32)"
      by (simp add: num_words_def)
    then show "num_words m = Suc ?j" "bf_size m = 32 * ?j + ?r" by simp_all
  qed
  let ?mask = "host_to_network (push_bit (32 - ?r) 0xffffffff)"
  have ones: "(0xffffffff :: u32) = mask 32" by (simp add: mask_eq_exp_minus_1)
  have mask: "bit ?mask (bit_pos k) \<longleftrightarrow> k < ?r" if "k < 32" for k
    using that r by (auto simp: bit_network ones bit_push_bit_iff bit_mask_iff)
  let ?ws = "(bf_words m)[?j := (bf_words m ! ?j) AND ?mask]"
  have l: "length ?ws = num_words m" "?j < length (bf_words m)"
    using sized_words [OF assms(1)] n by simp_all
  have b: "bit (?ws ! (i div 32)) (bit_pos (i mod 32)) =
      (i < bf_size m \<and> bit (bf_words m ! (i div 32)) (bit_pos (i mod 32)))"
    if i: "i < 32 * num_words m" for i
  proof (cases "i div 32 = ?j")
    case True
    then have "i < bf_size m \<longleftrightarrow> i mod 32 < ?r" using n(2) by (metis div_mod_decomp mult.commute nat_add_left_cancel_less)
    with True l mask [of "i mod 32"] show ?thesis by (auto simp: bit_and_iff)
  next
    case False
    with i n have "i div 32 < ?j" by (simp add: less_mult_imp_div_less mult.commute)
    then have "i < 32 * ?j" by arith
    with n(2) False show ?thesis by (simp add: nth_list_update)
  qed
  note res = bits_set_words [OF assms l(1) b]
  from False l(2) have "clear_trailing_bits m = Some (set_words ?ws m)"
    by (simp add: clear_trailing_bits_def update_word_def word_at_def)
  with res assms(2) show ?thesis by simp
qed

lemma fill_words_sized:
  assumes "sized m" "m \<noteq> None"
  shows "fill_words w m = Some (set_words (replicate (num_words m) w) m)"
    "sized (set_words (replicate (num_words m) w) m)"
  using sized_words [OF assms(1)] sized_set_words [OF assms(1)] by (simp_all add: fill_words_def)

lemma replicate_bit:
  "i < bf_size m \<Longrightarrow> replicate (num_words m) w ! (i div 32) = w"
  using size_words(1) [of m] by (simp add: less_mult_imp_div_less mult.commute)

lemma set_all_bits:
  assumes "wf_bitfield m"
  shows "\<exists>m'. set_all m = Some m' \<and> wf_bitfield m' \<and> bits m' = replicate (bf_size m) True"
proof (cases "bf_size m = 0")
  case True
  then show ?thesis using assms length_bits [of m] by (cases "bits m") (auto simp: set_all_def)
next
  case False
  then have m: "m \<noteq> None" "sized m" using assms size_not_empty [of 0 m] by (simp_all add: wf_bitfield_def)
  let ?m1 = "set_words (replicate (num_words m) 0xffffffff) m"
  have ones: "(0xffffffff :: u32) = mask 32" by (simp add: mask_eq_exp_minus_1)
  have "?m1 \<noteq> None" using m by (simp add: set_words_def)
  from clear_trailing [OF fill_words_sized(2) [OF m(2,1)] this] False m show ?thesis
    by (auto simp: set_all_def fill_words_sized [OF m(2,1)] replicate_bit ones bit_mask_iff bit_pos_less map_replicate_const
        intro!: nth_equalityI)
qed

lemma clear_all_bits:
  assumes "wf_bitfield m"
  shows "\<exists>m'. clear_all m = Some m' \<and> wf_bitfield m' \<and> bits m' = replicate (bf_size m) False"
proof (cases "bf_size m = 0")
  case True
  then show ?thesis using assms length_bits [of m] by (cases "bits m") (auto simp: clear_all_def)
next
  case False
  then have m: "m \<noteq> None" "sized m" using assms size_not_empty [of 0 m] by (simp_all add: wf_bitfield_def)
  have "bit (replicate (num_words m) (0::u32) ! (i div 32)) (bit_pos (i mod 32)) = (i < bf_size m \<and> False)"
    if "i < 32 * num_words m" for i
    using that by (simp add: less_mult_imp_div_less mult.commute)
  from bits_set_words [OF m(2,1) _ this] False m show ?thesis
    by (simp add: clear_all_def fill_words_sized [OF m(2,1)] map_replicate_const)
qed

text \<open>
  C12. A bitfield is the list of its bits: reading, setting and clearing a bit, \<open>none_set\<close>,
  \<open>set_all\<close> and \<open>clear_all\<close> do to the words exactly what the list operation does to the bits, stay
  inside the array, and keep the unused bits of the last word clear.
\<close>

theorem bitfield_refines_list:
  assumes "wf_bitfield m" "i < bf_size m"
  shows "get_bit m i = Some (bits m ! i)
    \<and> (case set_bit i m of None \<Rightarrow> False | Some m' \<Rightarrow> wf_bitfield m' \<and> bits m' = (bits m)[i := True])
    \<and> (case clear_bit i m of None \<Rightarrow> False | Some m' \<Rightarrow> wf_bitfield m' \<and> bits m' = (bits m)[i := False])
    \<and> none_set m = (True \<notin> set (bits m))
    \<and> (case set_all m of None \<Rightarrow> False | Some m' \<Rightarrow> wf_bitfield m' \<and> bits m' = replicate (bf_size m) True)
    \<and> (case clear_all m of None \<Rightarrow> False | Some m' \<Rightarrow> wf_bitfield m' \<and> bits m' = replicate (bf_size m) False)"
  using assms set_bit_bits [OF assms] clear_bit_bits [OF assms] set_all_bits [OF assms(1)] clear_all_bits [OF assms(1)]
  by (auto simp: get_bit_bits none_set_bits)

theorem bitfield_refines_list_witness:
  "let m = Some [32, 0xc0] in
     wf_bitfield m \<and> (case set_bit 9 m of None \<Rightarrow> False | Some m' \<Rightarrow> bits m' = (bits m)[9 := True])"
proof -
  have "wf_bitfield (Some [32, 0xc0])" "bf_size (Some [32, 0xc0]) = 32"
    by (simp_all add: wf_bitfield_def sized_def bf_size_def num_words_def)
  then show ?thesis
    using bitfield_refines_list [of "Some [32, 0xc0]" 9] by (auto simp: Let_def split: option.splits)
qed

section \<open>Iteration\<close>

definition it_at :: "nat \<Rightarrow> bit_iterator" where
  "it_at i = it_make (Some (i div 32)) (i mod 32)"

lemma top_bit: "(0x80000000 :: u32) = push_bit 31 1"
  by simp

lemma shifted_top:
  "bit (drop_bit k (0x80000000 :: u32)) n \<longleftrightarrow> k \<le> 31 \<and> n = 31 - k"
proof -
  have "bit (0x80000000 :: u32) j \<longleftrightarrow> j = 31" for j
    unfolding top_bit bit_push_bit_iff bit_1_iff by auto
  then have "bit (drop_bit k (0x80000000 :: u32)) n \<longleftrightarrow> k + n = 31"
    by (simp only: bit_drop_bit_eq comp_apply)
  then show ?thesis by arith
qed

lemma shifted_top_inj:
  "j < 32 \<Longrightarrow> k < 32 \<Longrightarrow> drop_bit j (0x80000000 :: u32) = drop_bit k 0x80000000 \<longleftrightarrow> j = k"
  using shifted_top [of j "31 - j"] shifted_top [of k "31 - j"] by auto

lemma it_inc_at: "it_inc (it_at i) = it_at (Suc i)"
proof -
  have one: "drop_bit (i mod 32) (0x80000000 :: u32) = 1 \<longleftrightarrow> i mod 32 = 31"
    using shifted_top_inj [of "i mod 32" 31] by simp
  show ?thesis
  proof (cases "i mod 32 = 31")
    case True
    then have "Suc i mod 32 = 0" "Suc i div 32 = Suc (i div 32)" by (simp_all add: mod_Suc div_Suc)
    with True one show ?thesis by (simp add: it_inc_def it_at_def it_make_def)
  next
    case False
    then have "Suc i mod 32 = Suc (i mod 32)" "Suc i div 32 = i div 32" by (simp_all add: mod_Suc div_Suc)
    with False one show ?thesis by (simp add: it_inc_def it_at_def it_make_def drop_bit_drop_bit)
  qed
qed

lemma it_ends:
  assumes "m \<noteq> None"
  shows "it_begin m = it_at 0" "it_end m = it_at (bf_size m)"
proof -
  show "it_begin m = it_at 0" using assms by (auto simp: it_begin_def it_at_def)
  have "(32 * q + k + 31) div 32 = (if k = 0 then q else Suc q)" if "k < 32" for q k :: nat
    by (rule div_nat_eqI) (use that in auto)
  from this [of "bf_size m mod 32" "bf_size m div 32"]
  have "num_words m - (if bf_size m mod 32 = 0 then 0 else 1) = bf_size m div 32"
    by (simp add: num_words_def)
  then show "it_end m = it_at (bf_size m)" using assms by (simp add: it_end_def it_at_def)
qed

lemma it_at_equal: "it_equal (it_at i) (it_at j) \<longleftrightarrow> i = j"
  using shifted_top_inj [of "i mod 32" "j mod 32"]
  by (auto simp: it_equal_def it_at_def it_make_def) (metis div_mod_decomp)

lemma it_deref_at: "wf_bitfield m \<Longrightarrow> i < bf_size m \<Longrightarrow> it_deref m (it_at i) = Some (bits m ! i)"
  using get_bit_bits [of m i] by (simp add: it_deref_def it_at_def it_make_def get_bit_def bit_mask_def)

lemma it_collect_from:
  "wf_bitfield m \<Longrightarrow> m \<noteq> None \<Longrightarrow> i \<le> bf_size m \<Longrightarrow> bf_size m - i < fuel \<Longrightarrow>
   it_collect fuel m (it_at i) = Some (drop i (bits m))"
proof (induction fuel arbitrary: i)
  case (Suc fuel)
  show ?case
  proof (cases "i = bf_size m")
    case False
    with Suc.prems have "it_collect fuel m (it_at (Suc i)) = Some (drop (Suc i) (bits m))"
      by (intro Suc.IH) auto
    with False Suc.prems show ?thesis
      by (simp add: it_ends it_at_equal it_deref_at it_inc_at Cons_nth_drop_Suc)
  qed (use Suc.prems in \<open>simp add: it_ends it_at_equal\<close>)
qed simp

text \<open>
  Iterating from \<open>begin()\<close> to \<open>end()\<close> ends after \<open>size()\<close> steps and sees the bits in order; the
  iterator never leaves the array before.
\<close>

lemma bitfield_iteration:
  assumes "wf_bitfield m"
  shows "it_collect (Suc (bf_size m)) m (it_begin m) = Some (bits m)"
proof (cases "m = None")
  case True
  then show ?thesis by (simp add: it_begin_def it_end_def it_equal_def bits_def bf_size_def)
next
  case False
  then show ?thesis using it_collect_from [OF assms False, of 0 "Suc (bf_size m)"] by (simp add: it_ends)
qed

section \<open>The wire format\<close>

text \<open>What \<open>assign\<close> relies on: a bitfield of the requested size.\<close>

definition resize_spec :: "bitfield_lib \<Rightarrow> bool" where
  "resize_spec lib \<longleftrightarrow> (\<forall>n m. wf_bitfield m \<longrightarrow> n \<le> 2147483616 \<longrightarrow>
     wf_bitfield (resize_to lib n m) \<and> bf_size (resize_to lib n m) = n)"

lemma nth_digest_data: "q < 4 \<Longrightarrow> digest_data ws ! (4 * j + q) = word_bytes (ws ! j) ! q" if "j < length ws"
  using that
proof (induction ws arbitrary: j)
  case (Cons w ws)
  show ?case
  proof (cases j)
    case 0
    with Cons.prems show ?thesis by (simp add: nth_append)
  next
    case (Suc i)
    with Cons show ?thesis by (simp add: nth_append)
  qed
qed simp

lemma bit_word_bytes:
  assumes "q < 4" "r < 8"
  shows "bit (word_bytes w ! q) (7 - r) \<longleftrightarrow> bit w (bit_pos (8 * q + r))"
proof -
  have "q = 0 \<or> q = 1 \<or> q = 2 \<or> q = 3" using assms(1) by arith
  moreover have "7 - r < 8" by simp
  ultimately show ?thesis
    unfolding bit_pos_split [OF assms(2)]
    by (elim disjE) (use assms(2) in \<open>simp_all add: word_bytes_def bit_ucast_iff bit_drop_bit_eq\<close>)
qed

lemma bit_of_words:
  assumes "length d = 4 * n" "i < 32 * n"
  shows "bit (words_of d ! (i div 32)) (bit_pos (i mod 32)) \<longleftrightarrow> bit (d ! (i div 8)) (7 - i mod 8)"
proof -
  let ?j = "i div 32" and ?q = "i mod 32 div 8" and ?r = "i mod 8"
  have "?j < length (words_of d)" using assms by (simp add: length_words_of less_mult_imp_div_less mult.commute)
  then have w: "digest_data (words_of d) ! (4 * ?j + ?q) = word_bytes (words_of d ! ?j) ! ?q"
    by (rule nth_digest_data) (simp add: less_mult_imp_div_less)
  have "i mod 32 mod 8 = ?r" by (simp add: mod_mod_cancel)
  then have i: "i mod 32 = 8 * ?q + ?r" by (metis div_mult_mod_eq mult.commute)
  have "(32 * j + (8 * q + r)) div 8 = 4 * j + q" if "r < 8" for j q r :: nat
    by (rule div_nat_eqI) (use that in simp_all)
  from this [of ?r ?j ?q] have "i div 8 = 4 * ?j + ?q" by (simp add: i [symmetric])
  moreover have "?q < 4" "?r < 8" by (simp_all add: less_mult_imp_div_less)
  ultimately show ?thesis
    using w bit_word_bytes [of ?q ?r "words_of d ! ?j"]
    by (simp only: i [symmetric] data_words_of [OF assms(1)])
qed

text \<open>
  Assigning a bitfield from a received buffer: bit \<open>i\<close> is bit \<open>7 - i mod 8\<close> of byte \<open>i div 8\<close> of
  the buffer, the wire format of BitTorrent, and the surplus bits of the last byte are dropped.
\<close>

lemma bitfield_assign:
  assumes "resize_spec lib" "wf_bitfield m" "n \<le> 2147483616" "(n + 7) div 8 \<le> length b"
  shows "case bf_assign lib b n m of
      None \<Rightarrow> False
    | Some m' \<Rightarrow> wf_bitfield m' \<and> bits m' = map (\<lambda>i. bit (b ! (i div 8)) (7 - i mod 8)) [0..<n]"
proof -
  let ?m1 = "resize_to lib n m" and ?k = "(n + 7) div 8"
  have wf: "wf_bitfield ?m1" and sz: "bf_size ?m1 = n" using assms by (auto simp: resize_spec_def)
  show ?thesis
  proof (cases "n = 0")
    case True
    then show ?thesis using wf sz by (simp add: bf_assign_def bits_def)
  next
    case False
    have some: "?m1 \<noteq> None" and sized: "sized ?m1"
      using size_not_empty [of 0 ?m1] wf False sz by (simp_all add: wf_bitfield_def)
    let ?old = "digest_data (bf_words ?m1)"
    let ?d = "take ?k b @ drop ?k ?old"
    have len: "length ?old = 4 * num_words ?m1" using wf_words [OF wf] by simp
    have k: "?k \<le> 4 * num_words ?m1" by (simp add: num_words_def sz)
    then have d: "length ?d = 4 * num_words ?m1" using len assms(4) by simp
    let ?m2 = "set_words (words_of ?d) ?m1"
    have m2: "copy_bytes b ?k ?m1 = Some ?m2" using k assms(4) wf_words [OF wf] by (simp add: copy_bytes_def)
    have "sized ?m2" "?m2 \<noteq> None"
      using sized_set_words [OF sized length_words_of [OF d]] some by (simp_all add: set_words_def)
    from clear_trailing [OF this] obtain m3 where
      m3: "clear_trailing_bits ?m2 = Some m3" "wf_bitfield m3"
        "bits m3 = map (\<lambda>i. bit (words_of ?d ! (i div 32)) (bit_pos (i mod 32))) [0..<n]"
      using some sz by auto
    have "bit (words_of ?d ! (i div 32)) (bit_pos (i mod 32)) = bit (b ! (i div 8)) (7 - i mod 8)" if "i < n" for i
    proof -
      have "i < 32 * num_words ?m1" using that size_words(1) [of ?m1] sz by simp
      moreover have "?d ! (i div 8) = b ! (i div 8)"
      proof -
        have "i div 8 < ?k" using that by arith
        then show ?thesis using assms(4) by (simp add: nth_append)
      qed
      ultimately show ?thesis using bit_of_words [OF d, of i] by simp
    qed
    then have "bits m3 = map (\<lambda>i. bit (b ! (i div 8)) (7 - i mod 8)) [0..<n]" by (simp add: m3(3))
    then show ?thesis using False m2 m3 by (simp add: bf_assign_def)
  qed
qed

end
