(* ===== verification/Suggest_Piece.thy ===== *)
theory Suggest_Piece
  imports Bitfield "HOL-Library.Signed_Division"
begin

text \<open>
  \<open>libtorrent/sliding_average.hpp\<close> and \<open>libtorrent/aux_/suggest_piece.hpp\<close>: a moving average in fixed
  point, and the queue of pieces worth suggesting to peers, which the pieces of no more than average
  availability enter. An overflow of \<open>int\<close>, and an access outside a vector or a bitfield, is
  undefined behaviour, the result \<open>None\<close>.
\<close>

section \<open>Moving average\<close>

record sliding_average =
  m_mean :: int
  m_average_deviation :: int
  m_num_samples :: int

definition sliding_average_init :: sliding_average where
  "sliding_average_init = \<lparr>m_mean = 0, m_average_deviation = 0, m_num_samples = 0\<rparr>"

definition sample_deviation :: "int \<Rightarrow> sliding_average \<Rightarrow> int option" where
  "sample_deviation s a =
     (if m_num_samples a > 0 then Option.bind (c_int (m_mean a - s)) (\<lambda>d. c_int \<bar>d\<bar>) else Some 0)"

definition add_sample :: "int \<Rightarrow> int \<Rightarrow> sliding_average \<Rightarrow> sliding_average option" where
  "add_sample inverted_gain sample a =
     Option.bind (c_int (sample * 64)) (\<lambda>s.
     Option.bind (sample_deviation s a) (\<lambda>deviation.
     let n = (if m_num_samples a < inverted_gain then m_num_samples a + 1 else m_num_samples a)
     in Option.bind (c_int (s - m_mean a)) (\<lambda>d.
        Option.bind (c_int (m_mean a + d sdiv n)) (\<lambda>avg.
        if n > 1
        then Option.bind (c_int (deviation - m_average_deviation a)) (\<lambda>e.
             map_option (\<lambda>dev. \<lparr>m_mean = avg, m_average_deviation = dev, m_num_samples = n\<rparr>)
               (c_int (m_average_deviation a + e sdiv (n - 1))))
        else Some \<lparr>m_mean = avg, m_average_deviation = m_average_deviation a, m_num_samples = n\<rparr>))))"

definition sa_mean :: "sliding_average \<Rightarrow> int option" where
  "sa_mean a = (if m_num_samples a > 0 then map_option (\<lambda>x. x sdiv 64) (c_int (m_mean a + 32)) else Some 0)"

definition avg_deviation :: "sliding_average \<Rightarrow> int option" where
  "avg_deviation a =
     (if m_num_samples a > 1 then map_option (\<lambda>x. x sdiv 64) (c_int (m_average_deviation a + 32)) else Some 0)"

definition num_samples :: "sliding_average \<Rightarrow> int" where
  "num_samples a = m_num_samples a"

section \<open>Pieces to suggest\<close>

record suggest_piece =
  m_priority_pieces :: "nat list"
  m_availability :: sliding_average

text \<open>
  The loop of \<open>get_pieces\<close>, over the priority pieces from the back: the pieces pushed so far are not
  compared, \<open>p\<close> is what was there before.
\<close>

fun get_pieces_loop :: "nat list \<Rightarrow> bitfield \<Rightarrow> nat list \<Rightarrow> nat list \<Rightarrow> int \<Rightarrow> nat list option" where
  "get_pieces_loop p peer_has [] pushed n = Some pushed"
| "get_pieces_loop p peer_has (piece # pieces) pushed n =
     (case get_bit peer_has piece of
        None \<Rightarrow> None
      | Some True \<Rightarrow> get_pieces_loop p peer_has pieces pushed n
      | Some False \<Rightarrow>
          (if piece \<in> set p then get_pieces_loop p peer_has pieces pushed n
           else if n - 1 = 0 then Some (pushed @ [piece])
           else get_pieces_loop p peer_has pieces (pushed @ [piece]) (n - 1)))"

text \<open>The extended vector and the number of pieces added to it.\<close>

definition get_pieces :: "nat list \<Rightarrow> bitfield \<Rightarrow> int \<Rightarrow> suggest_piece \<Rightarrow> (nat list \<times> nat) option" where
  "get_pieces p peer_has n sp =
     (if m_priority_pieces sp = [] then Some (p, 0)
      else map_option (\<lambda>pushed. (p @ rev pushed, length pushed))
             (get_pieces_loop p peer_has (rev (m_priority_pieces sp)) [] n))"

text \<open>\<open>find\<close> and \<open>erase\<close> of the first occurrence are \<open>remove1\<close>.\<close>

definition add_piece :: "nat \<Rightarrow> int \<Rightarrow> int \<Rightarrow> suggest_piece \<Rightarrow> suggest_piece option" where
  "add_piece index availability max_queue_size sp =
     Option.bind (sa_mean (m_availability sp)) (\<lambda>avg.
     Option.bind (add_sample 30 availability (m_availability sp)) (\<lambda>a.
     let sp1 = sp\<lparr>m_availability := a\<rparr>
     in if availability > avg then Some sp1
        else (let q = remove1 index (m_priority_pieces sp1);
                  to_remove = int (length q) - max_queue_size + 1
              in if int (length q) \<ge> max_queue_size
                 then (if to_remove > int (length q) then None
                       else Some (sp1\<lparr>m_priority_pieces := drop (nat to_remove) q @ [index]\<rparr>))
                 else Some (sp1\<lparr>m_priority_pieces := q @ [index]\<rparr>))))"

section \<open>The average lies between the samples\<close>

lemma int_div_le: "0 \<le> x \<Longrightarrow> 0 < n \<Longrightarrow> x div n \<le> x" for x n :: int
  using zdiv_mono2 [of x 1 n] by simp

lemma sdiv_between:
  fixes m s n :: int
  assumes "0 < n" "lo \<le> m" "m \<le> hi" "lo \<le> s" "s \<le> hi"
  shows "lo \<le> m + (s - m) sdiv n \<and> m + (s - m) sdiv n \<le> hi"
proof (cases "m \<le> s")
  case True
  then have e: "(s - m) sdiv n = (s - m) div n" using assms(1) by (cases "s = m") (simp_all add: signed_divide_int_def sgn_if)
  have "0 \<le> (s - m) div n" "(s - m) div n \<le> s - m"
    using True assms(1) by (simp_all add: pos_imp_zdiv_nonneg_iff int_div_le)
  with e assms True show ?thesis by linarith
next
  case False
  then have e: "(s - m) sdiv n = - ((m - s) div n)" using assms(1) by (simp add: signed_divide_int_def sgn_if)
  have "0 \<le> (m - s) div n" "(m - s) div n \<le> m - s"
    using False assms(1) by (simp_all add: pos_imp_zdiv_nonneg_iff int_div_le)
  with e assms False show ?thesis by linarith
qed

definition average_ok :: "int \<Rightarrow> int \<Rightarrow> sliding_average \<Rightarrow> bool" where
  "average_ok lo hi a \<longleftrightarrow>
     (m_num_samples a = 0 \<and> m_mean a = 0 \<and> m_average_deviation a = 0
      \<or> 0 < m_num_samples a \<and> lo * 64 \<le> m_mean a \<and> m_mean a \<le> hi * 64
        \<and> 0 \<le> m_average_deviation a \<and> m_average_deviation a \<le> (hi - lo) * 64)"

text \<open>The range of samples for which the code's own assertion, \<open>s < max / 64\<close>, holds.\<close>

definition sample_range :: "int \<Rightarrow> int \<Rightarrow> bool" where
  "sample_range lo hi \<longleftrightarrow> 0 \<le> lo \<and> lo \<le> hi \<and> hi < 33554431"

lemma add_sample_ok:
  assumes a: "average_ok lo hi a" and r: "sample_range lo hi" and s: "lo \<le> s" "s \<le> hi" and g: "1 < gain"
  shows "\<exists>a'. add_sample gain s a = Some a' \<and> average_ok lo hi a'
    \<and> m_num_samples a' = (if m_num_samples a < gain then m_num_samples a + 1 else m_num_samples a)"
proof (cases "m_num_samples a = 0")
  case True
  then have "m_mean a = 0" "m_average_deviation a = 0" using a by (auto simp: average_ok_def)
  with True r s g show ?thesis
    by (auto simp: add_sample_def sample_deviation_def c_int_def in_int32_def sample_range_def average_ok_def
        signed_divide_int_def sgn_if)
next
  case False
  let ?s = "s * 64" and ?n = "if m_num_samples a < gain then m_num_samples a + 1 else m_num_samples a"
  let ?d = "\<bar>m_mean a - ?s\<bar>"
  have m: "0 < m_num_samples a" "lo * 64 \<le> m_mean a" "m_mean a \<le> hi * 64" "0 \<le> m_average_deviation a"
    "m_average_deviation a \<le> (hi - lo) * 64"
    using a False by (auto simp: average_ok_def)
  have n: "1 < ?n" using m(1) g by simp
  have lim: "0 \<le> lo" "hi * 64 \<le> 2147483520" using r by (simp_all add: sample_range_def)
  have sr: "lo * 64 \<le> ?s" "?s \<le> hi * 64" using s by simp_all
  have mean: "lo * 64 \<le> m_mean a + (?s - m_mean a) sdiv ?n" "m_mean a + (?s - m_mean a) sdiv ?n \<le> hi * 64"
    using sdiv_between [of ?n "lo * 64" "m_mean a" "hi * 64" ?s] n m(2,3) sr by linarith+
  have d: "0 \<le> ?d" "?d \<le> (hi - lo) * 64"
  proof -
    show "?d \<le> (hi - lo) * 64"
      unfolding left_diff_distrib abs_le_iff using m(2,3) sr by linarith
  qed simp
  have dev: "0 \<le> m_average_deviation a + (?d - m_average_deviation a) sdiv (?n - 1)"
    "m_average_deviation a + (?d - m_average_deviation a) sdiv (?n - 1) \<le> (hi - lo) * 64"
    using sdiv_between [of "?n - 1" 0 "m_average_deviation a" "(hi - lo) * 64" ?d] n m(4,5) d by linarith+
  have w: "(hi - lo) * 64 \<le> 2147483520" using lim unfolding left_diff_distrib by linarith
  have fits: "in_int32 ?s" "in_int32 (m_mean a - ?s)" "in_int32 ?d" "in_int32 (?s - m_mean a)"
    "in_int32 (m_mean a + (?s - m_mean a) sdiv ?n)" "in_int32 (?d - m_average_deviation a)"
    "in_int32 (m_average_deviation a + (?d - m_average_deviation a) sdiv (?n - 1))"
    using mean dev d m sr lim w unfolding in_int32_def by linarith+
  have "add_sample gain s a = Some \<lparr>m_mean = m_mean a + (?s - m_mean a) sdiv ?n,
      m_average_deviation = m_average_deviation a + (?d - m_average_deviation a) sdiv (?n - 1), m_num_samples = ?n\<rparr>"
    using m(1) n fits by (simp add: add_sample_def sample_deviation_def c_int_def Let_def)
  with mean dev n show ?thesis by (simp add: average_ok_def)
qed

lemma sa_mean_ok:
  assumes "average_ok lo hi a" "sample_range lo hi"
  shows "\<exists>m. sa_mean a = Some m \<and> (m_num_samples a = 0 \<and> m = 0 \<or> lo \<le> m \<and> m \<le> hi)"
proof (cases "m_num_samples a = 0")
  case False
  then have m: "0 < m_num_samples a" "lo * 64 \<le> m_mean a" "m_mean a \<le> hi * 64" using assms(1) by (auto simp: average_ok_def)
  have lim: "0 \<le> lo" "hi * 64 \<le> 2147483520" using assms(2) by (simp_all add: sample_range_def)
  have e: "(m_mean a + 32) sdiv 64 = (m_mean a + 32) div 64" using m(2) lim(1) by (simp add: signed_divide_int_def sgn_if)
  have "lo \<le> (m_mean a + 32) div 64" "(m_mean a + 32) div 64 \<le> hi" using m(2,3) by linarith+
  moreover have "in_int32 (m_mean a + 32)" using m(2,3) lim unfolding in_int32_def by linarith
  ultimately show ?thesis using m(1) by (simp add: sa_mean_def c_int_def e)
qed (simp add: sa_mean_def)

section \<open>The pieces suggested\<close>

definition wanted :: "nat list \<Rightarrow> bitfield \<Rightarrow> nat \<Rightarrow> bool" where
  "wanted p peer_has piece \<longleftrightarrow> get_bit peer_has piece = Some False \<and> piece \<notin> set p"

lemma get_pieces_loop_all:
  "list_all (\<lambda>x. get_bit peer_has x \<noteq> None) xs \<Longrightarrow> n \<le> 0 \<Longrightarrow>
   get_pieces_loop p peer_has xs pushed n = Some (pushed @ filter (wanted p peer_has) xs)"
  by (induction xs arbitrary: pushed n) (auto simp: wanted_def split: bool.splits)

lemma get_pieces_loop_some:
  "list_all (\<lambda>x. get_bit peer_has x \<noteq> None) xs \<Longrightarrow>
   get_pieces_loop p peer_has xs pushed (1 + int n) = Some (pushed @ take (Suc n) (filter (wanted p peer_has) xs))"
proof (induction xs arbitrary: pushed n)
  case (Cons x xs)
  show ?case
  proof (cases "wanted p peer_has x")
    case True
    then have w: "get_bit peer_has x = Some False" "x \<notin> set p" by (simp_all add: wanted_def)
    show ?thesis
    proof (cases n)
      case 0
      with w True show ?thesis by simp
    next
      case (Suc k)
      have "get_pieces_loop p peer_has (x # xs) pushed (1 + int n) =
          get_pieces_loop p peer_has xs (pushed @ [x]) (1 + int k)"
        using w by (simp add: Suc add.commute)
      with Cons.IH [of "pushed @ [x]" k] Cons.prems True show ?thesis by (simp add: Suc)
    qed
  next
    case False
    then have "get_pieces_loop p peer_has (x # xs) pushed (1 + int n) = get_pieces_loop p peer_has xs pushed (1 + int n)"
      using Cons.prems by (auto simp: wanted_def split: bool.splits)
    with Cons False show ?thesis by simp
  qed
qed simp

definition last_n :: "int \<Rightarrow> nat list \<Rightarrow> nat list" where
  "last_n n xs = (if n \<le> 0 then xs else drop (length xs - nat n) xs)"

lemma get_pieces_spec:
  assumes "list_all (\<lambda>x. get_bit peer_has x \<noteq> None) (m_priority_pieces sp)"
  shows "get_pieces p peer_has n sp =
    (let w = last_n n (filter (wanted p peer_has) (m_priority_pieces sp)) in Some (p @ w, length w))"
proof -
  let ?w = "filter (wanted p peer_has) (m_priority_pieces sp)"
  have r: "list_all (\<lambda>x. get_bit peer_has x \<noteq> None) (rev (m_priority_pieces sp))" using assms by simp
  show ?thesis
  proof (cases "n \<le> 0")
    case True
    from get_pieces_loop_all [OF r True, of p "[]"] True show ?thesis
      by (auto simp: get_pieces_def last_n_def rev_filter [symmetric] Let_def)
  next
    case False
    then have n: "n = 1 + int (nat n - 1)" "Suc (nat n - 1) = nat n" by simp_all
    from get_pieces_loop_some [OF r, of p "[]" "nat n - 1"]
    have "get_pieces_loop p peer_has (rev (m_priority_pieces sp)) [] n = Some (take (nat n) (rev ?w))"
      unfolding n(1) [symmetric] n(2) by (simp add: rev_filter)
    moreover have "rev (take (nat n) (rev ?w)) = drop (length ?w - nat n) ?w" by (simp add: rev_take)
    ultimately show ?thesis using False
      by (cases "m_priority_pieces sp = []") (simp_all add: get_pieces_def last_n_def Let_def min_def)
  qed
qed

definition suggest_init :: suggest_piece where
  "suggest_init = \<lparr>m_priority_pieces = [], m_availability = sliding_average_init\<rparr>"

definition suggest_ok :: "int \<Rightarrow> int \<Rightarrow> nat \<Rightarrow> suggest_piece \<Rightarrow> bool" where
  "suggest_ok lo hi limit sp \<longleftrightarrow>
     average_ok lo hi (m_availability sp) \<and> distinct (m_priority_pieces sp) \<and> length (m_priority_pieces sp) \<le> limit"

lemma add_piece_ok:
  assumes sp: "suggest_ok lo hi limit sp" and r: "sample_range lo hi" and s: "lo \<le> av" "av \<le> hi" and l: "0 < limit"
  shows "\<exists>sp'. add_piece index av (int limit) sp = Some sp' \<and> suggest_ok lo hi limit sp'
    \<and> set (m_priority_pieces sp') \<subseteq> insert index (set (m_priority_pieces sp))
    \<and> (m_priority_pieces sp' = m_priority_pieces sp \<or> last (m_priority_pieces sp') = index)"
proof -
  obtain a where a: "add_sample 30 av (m_availability sp) = Some a" "average_ok lo hi a"
    using add_sample_ok [of lo hi "m_availability sp" av 30] sp r s by (auto simp: suggest_ok_def)
  obtain avg where m: "sa_mean (m_availability sp) = Some avg"
    using sa_mean_ok [of lo hi "m_availability sp"] sp r by (auto simp: suggest_ok_def)
  let ?q = "remove1 index (m_priority_pieces sp)"
  have q: "distinct ?q" "length ?q \<le> limit" "set ?q \<subseteq> set (m_priority_pieces sp)" "index \<notin> set ?q"
    using sp by (auto simp: suggest_ok_def length_remove1 dest: notin_set_remove1)
  have dropped: "distinct (drop k ?q @ [index])" "set (drop k ?q @ [index]) \<subseteq> insert index (set (m_priority_pieces sp))" for k
    using q(1,3,4) by (auto dest: in_set_dropD)
  show ?thesis
  proof (cases "av > avg")
    case True
    with sp a m show ?thesis by (auto simp: add_piece_def suggest_ok_def)
  next
    case False
    show ?thesis
    proof (cases "length ?q < limit")
      case True
      with False a m q dropped [of 0] show ?thesis by (auto simp: add_piece_def suggest_ok_def Let_def)
    next
      case full: False
      with q(2) have len: "length ?q = limit" by simp
      with False a m l have "add_piece index av (int limit) sp =
          Some (sp\<lparr>m_availability := a, m_priority_pieces := drop 1 ?q @ [index]\<rparr>)"
        by (simp add: add_piece_def Let_def)
      moreover have "length (drop 1 ?q @ [index]) \<le> limit" using len l by simp
      ultimately show ?thesis using a(2) dropped [of 1] by (auto simp: suggest_ok_def)
    qed
  qed
qed

fun add_pieces :: "(nat \<times> int) list \<Rightarrow> int \<Rightarrow> suggest_piece \<Rightarrow> suggest_piece option" where
  "add_pieces [] limit sp = Some sp"
| "add_pieces ((index, av) # ps) limit sp = Option.bind (add_piece index av limit sp) (add_pieces ps limit)"

lemma add_pieces_ok:
  assumes "suggest_ok lo hi limit sp" "sample_range lo hi" "list_all (\<lambda>(i, av). lo \<le> av \<and> av \<le> hi) ps" "0 < limit"
  shows "\<exists>sp'. add_pieces ps (int limit) sp = Some sp' \<and> suggest_ok lo hi limit sp'
    \<and> set (m_priority_pieces sp') \<subseteq> fst ` set ps \<union> set (m_priority_pieces sp)"
  using assms(1,3)
proof (induction ps arbitrary: sp)
  case (Cons x ps)
  obtain i av where x: "x = (i, av)" by fastforce
  obtain sp1 where sp1: "add_piece i av (int limit) sp = Some sp1" "suggest_ok lo hi limit sp1"
    "set (m_priority_pieces sp1) \<subseteq> insert i (set (m_priority_pieces sp))"
    using add_piece_ok [OF Cons.prems(1) assms(2) _ _ assms(4), of av i] Cons.prems(2) by (auto simp: x)
  from Cons.IH [OF sp1(2)] Cons.prems(2) obtain sp2 where sp2: "add_pieces ps (int limit) sp1 = Some sp2" "suggest_ok lo hi limit sp2"
    "set (m_priority_pieces sp2) \<subseteq> fst ` set ps \<union> set (m_priority_pieces sp1)"
    by auto
  have "set (m_priority_pieces sp2) \<subseteq> fst ` set (x # ps) \<union> set (m_priority_pieces sp)"
    using sp1(3) sp2(3) by (auto simp: x)
  with sp1 sp2 show ?case by (simp add: x)
qed simp

text \<open>
  The pieces suggested: with samples of availability for which the code's assertions hold and a
  positive limit, no sequence of \<open>add_piece\<close> overflows or leaves its vector, the queue holds
  different pieces, at most the limit, all of them added; \<open>get_pieces\<close> appends the last \<open>n\<close> of those
  the peer neither has nor was suggested, in the order of the queue, but all of them when \<open>n\<close> is
  not positive.
\<close>

lemma suggest_pieces_sound:
  assumes "sample_range lo hi" "list_all (\<lambda>(i, av). lo \<le> av \<and> av \<le> hi) ps" "0 < limit"
    and "list_all (\<lambda>(i, av). get_bit peer_has i \<noteq> None) ps"
  shows "case add_pieces ps (int limit) suggest_init of
      None \<Rightarrow> False
    | Some sp \<Rightarrow>
        distinct (m_priority_pieces sp) \<and> length (m_priority_pieces sp) \<le> limit
        \<and> set (m_priority_pieces sp) \<subseteq> fst ` set ps
        \<and> get_pieces p peer_has n sp =
            (let w = last_n n (filter (wanted p peer_has) (m_priority_pieces sp)) in Some (p @ w, length w))"
proof -
  have "suggest_ok lo hi limit suggest_init"
    by (simp add: suggest_ok_def suggest_init_def average_ok_def sliding_average_init_def)
  from add_pieces_ok [OF this assms(1-3)] obtain sp where sp: "add_pieces ps (int limit) suggest_init = Some sp"
    "suggest_ok lo hi limit sp" "set (m_priority_pieces sp) \<subseteq> fst ` set ps"
    by (auto simp: suggest_init_def)
  have "list_all (\<lambda>x. get_bit peer_has x \<noteq> None) (m_priority_pieces sp)"
  proof (unfold list_all_iff, rule ballI)
    fix x
    assume "x \<in> set (m_priority_pieces sp)"
    with sp(3) obtain av where "(x, av) \<in> set ps" by force
    with assms(4) show "get_bit peer_has x \<noteq> None" unfolding list_all_iff by blast
  qed
  from get_pieces_spec [OF this] sp show ?thesis by (simp add: suggest_ok_def)
qed

end
