(* ===== verification/Piece_Pos.thy ===== *)
theory Piece_Pos
  imports Flags
begin

text \<open>
  The inline part of \<open>libtorrent/piece_picker.hpp\<close>: the state the piece picker keeps of a piece, packed
  into bit fields of 26, 3 and 3 bits, its changes of state, and the effective priority that orders
  the pieces to pick. The picker's own operations are in the prebuilt library.
\<close>

section \<open>Options and constants\<close>

type_synonym picker_options_t = "16 word"

definition rarest_first :: picker_options_t where "rarest_first = flag_bit 0"
definition reverse_option :: picker_options_t where "reverse_option = flag_bit 1"
definition on_parole :: picker_options_t where "on_parole = flag_bit 2"
definition prioritize_partials :: picker_options_t where "prioritize_partials = flag_bit 3"
definition sequential :: picker_options_t where "sequential = flag_bit 4"
definition align_expanded_pieces :: picker_options_t where "align_expanded_pieces = flag_bit 6"
definition piece_extent_affinity :: picker_options_t where "piece_extent_affinity = flag_bit 7"

definition priority_levels :: int where "priority_levels = 8"
definition prio_factor :: int where "prio_factor = 3"
definition max_blocks_per_piece :: int where "max_blocks_per_piece = push_bit 15 1 - 1"

section \<open>Blocks and pieces being downloaded\<close>

datatype block_state = State_None | State_Requested | State_Writing | State_Finished

record 'p block_info =
  bi_peer :: "'p option"
  bi_num_peers :: "14 word"
  bi_state :: block_state

definition block_info_init :: "'p block_info" where
  "block_info_init = \<lparr>bi_peer = None, bi_num_peers = 0, bi_state = State_None\<rparr>"

record downloading_piece =
  dp_index :: int
  dp_info_idx :: "16 word"
  dp_finished :: "15 word"
  dp_passed_hash_check :: bool
  dp_writing :: "15 word"
  dp_locked :: bool
  dp_requested :: "15 word"
  dp_hashing :: bool

definition downloading_piece_init :: downloading_piece where
  "downloading_piece_init =
     \<lparr>dp_index = 2147483647, dp_info_idx = 65535, dp_finished = 0, dp_passed_hash_check = False,
      dp_writing = 0, dp_locked = False, dp_requested = 0, dp_hashing = False\<rparr>"

definition dp_less :: "downloading_piece \<Rightarrow> downloading_piece \<Rightarrow> bool" where
  "dp_less a b \<longleftrightarrow> dp_index a < dp_index b"

section \<open>The state of a piece\<close>

record piece_pos =
  peer_count :: "26 word"
  download_state :: "3 word"
  piece_priority :: "3 word"
  index :: int

type_synonym download_queue_t = "8 word"

definition piece_downloading :: download_queue_t where "piece_downloading = 0"
definition piece_full :: download_queue_t where "piece_full = 1"
definition piece_finished :: download_queue_t where "piece_finished = 2"
definition piece_zero_prio :: download_queue_t where "piece_zero_prio = 3"
definition num_download_categories :: download_queue_t where "num_download_categories = 4"
definition piece_open :: download_queue_t where "piece_open = 4"
definition piece_downloading_reverse :: download_queue_t where "piece_downloading_reverse = 5"
definition piece_full_reverse :: download_queue_t where "piece_full_reverse = 6"

definition we_have_index :: int where "we_have_index = - 1"
definition filter_priority :: "3 word" where "filter_priority = 0"
definition max_peer_count :: nat where "max_peer_count = 0xffff"

text \<open>\<open>default_priority\<close> is 4, from \<open>download_priority.hpp\<close>.\<close>

definition piece_default_priority :: "8 word" where "piece_default_priority = 4"

definition make_piece_pos :: "int \<Rightarrow> int \<Rightarrow> piece_pos" where
  "make_piece_pos peer_count' index' =
     \<lparr>peer_count = ucast (word_of_int peer_count' :: 16 word), download_state = ucast piece_open,
      piece_priority = ucast piece_default_priority, index = index'\<rparr>"

definition pp_state :: "piece_pos \<Rightarrow> download_queue_t" where
  "pp_state p = ucast (download_state p)"

definition pp_set_state :: "download_queue_t \<Rightarrow> piece_pos \<Rightarrow> piece_pos" where
  "pp_set_state q p = p\<lparr>download_state := ucast q\<rparr>"

definition download_queue :: "piece_pos \<Rightarrow> download_queue_t" where
  "download_queue p =
     (if pp_state p = piece_downloading_reverse then piece_downloading
      else if pp_state p = piece_full_reverse then piece_full
      else pp_state p)"

definition pp_reverse :: "piece_pos \<Rightarrow> bool" where
  "pp_reverse p \<longleftrightarrow> pp_state p = piece_downloading_reverse \<or> pp_state p = piece_full_reverse"

definition unreverse :: "piece_pos \<Rightarrow> piece_pos" where
  "unreverse p =
     (if pp_state p = piece_downloading_reverse then pp_set_state piece_downloading p
      else if pp_state p = piece_full_reverse then pp_set_state piece_full p
      else p)"

definition make_reverse :: "piece_pos \<Rightarrow> piece_pos" where
  "make_reverse p =
     (if pp_state p = piece_downloading then pp_set_state piece_downloading_reverse p
      else if pp_state p = piece_full then pp_set_state piece_full_reverse p
      else p)"

definition pp_have :: "piece_pos \<Rightarrow> bool" where
  "pp_have p \<longleftrightarrow> index p = we_have_index"

definition set_have :: "piece_pos \<Rightarrow> piece_pos" where
  "set_have p = p\<lparr>index := we_have_index\<rparr>"

definition set_not_have :: "piece_pos \<Rightarrow> piece_pos" where
  "set_not_have p = p\<lparr>index := 0\<rparr>"

definition downloading :: "piece_pos \<Rightarrow> bool" where
  "downloading p \<longleftrightarrow> pp_state p \<noteq> piece_open"

definition filtered :: "piece_pos \<Rightarrow> bool" where
  "filtered p \<longleftrightarrow> piece_priority p = filter_priority"

definition pp_equal :: "piece_pos \<Rightarrow> piece_pos \<Rightarrow> bool" where
  "pp_equal p q \<longleftrightarrow> index p = index q \<and> peer_count p = peer_count q"

text \<open>
  \<open>peer_count + m_seeds\<close> is a sum of an \<open>unsigned\<close> and an \<open>int\<close>: the bit field is promoted to \<open>int\<close>
  (26 bits fit), so the sum is of type \<open>int\<close>. \<open>None\<close> is an overflow.
\<close>

definition effective_priority :: "int \<Rightarrow> piece_pos \<Rightarrow> int option" where
  "effective_priority m_seeds p =
     (if filtered p \<or> pp_have p then Some (- 1)
      else Option.bind (c_int (uint (peer_count p) + m_seeds)) (\<lambda>n.
        if n = 0 \<or> pp_state p = piece_full \<or> pp_state p = piece_finished then Some (- 1)
        else (let adjustment = (if pp_reverse p then - 1 else if pp_state p \<noteq> piece_open then - 3 else - 2);
                  availability = uint (peer_count p) + 1
              in Option.bind (c_int (availability * (priority_levels - uint (piece_priority p)))) (\<lambda>a.
                 Option.bind (c_int (a * prio_factor)) (\<lambda>b. c_int (b + adjustment))))))"

section \<open>The order of the pieces\<close>

definition pickable :: "int \<Rightarrow> piece_pos \<Rightarrow> bool" where
  "pickable m_seeds p \<longleftrightarrow>
     \<not> filtered p \<and> \<not> pp_have p \<and> uint (peer_count p) + m_seeds \<noteq> 0
     \<and> pp_state p \<noteq> piece_full \<and> pp_state p \<noteq> piece_finished"

text \<open>Downloading before open before reverse.\<close>

definition pick_rank :: "piece_pos \<Rightarrow> int" where
  "pick_rank p = (if pp_reverse p then 2 else if downloading p then 0 else 1)"

definition seeds_ok :: "int \<Rightarrow> bool" where
  "seeds_ok m_seeds \<longleftrightarrow> 0 \<le> m_seeds \<and> m_seeds \<le> 2000000000"

lemma peer_count_range: "0 \<le> uint (peer_count p)" "uint (peer_count p) < 67108864"
  using uint_lt2p [of "peer_count p"] by simp_all

lemma priority_range:
  assumes "\<not> filtered p"
  shows "1 \<le> uint (piece_priority p) \<and> uint (piece_priority p) \<le> 7"
proof -
  have "uint (piece_priority p) \<noteq> 0"
    using assms by (simp add: filtered_def filter_priority_def word_uint_eq_iff)
  moreover have "0 \<le> uint (piece_priority p)" "uint (piece_priority p) < 8"
    using uint_lt2p [of "piece_priority p"] by simp_all
  ultimately show ?thesis by linarith
qed

lemma seeds_sum: "seeds_ok m \<Longrightarrow> in_int32 (uint (peer_count p) + m)"
  using peer_count_range [of p] unfolding in_int32_def seeds_ok_def by linarith

lemma effective_priority_pickable:
  assumes "pickable m p" "seeds_ok m"
  shows "effective_priority m p =
      Some ((uint (peer_count p) + 1) * (8 - uint (piece_priority p)) * 3 - 3 + pick_rank p)"
proof -
  let ?n = "uint (peer_count p)" and ?k = "8 - uint (piece_priority p)"
  have k: "1 \<le> ?k" "?k \<le> 7" using priority_range [of p] assms(1) by (simp_all add: pickable_def)
  have a: "0 \<le> (?n + 1) * ?k" "(?n + 1) * ?k \<le> 67108864 * 7"
    using k peer_count_range [of p] by (simp, intro mult_mono) simp_all
  have "in_int32 (?n + m)" using assms(2) by (rule seeds_sum)
  moreover have "in_int32 ((?n + 1) * ?k)" "in_int32 ((?n + 1) * ?k * 3)" "in_int32 ((?n + 1) * ?k * 3 + (pick_rank p - 3))"
    using a by (auto simp: in_int32_def pick_rank_def)
  ultimately show ?thesis
    using assms(1)
    by (simp add: effective_priority_def pickable_def c_int_def priority_levels_def prio_factor_def
        pick_rank_def downloading_def Let_def split: if_splits)
qed

lemma rank_range: "0 \<le> pick_rank p" "pick_rank p \<le> 2"
  by (simp_all add: pick_rank_def)

lemma band_order:
  fixes A B k r s :: int
  assumes "1 \<le> k" "0 \<le> r" "r \<le> 2" "0 \<le> s" "s \<le> 2"
  shows "A * k * 3 - 3 + r < B * k * 3 - 3 + s \<longleftrightarrow> A < B \<or> A = B \<and> r < s"
proof -
  have "A * k + k \<le> B * k" if "A < B" using mult_right_mono [of "A + 1" B k] that assms(1) by (simp add: distrib_right)
  moreover have "B * k + k \<le> A * k" if "B < A" using mult_right_mono [of "B + 1" A k] that assms(1) by (simp add: distrib_right)
  ultimately show ?thesis using assms by (cases A B rule: linorder_cases) fastforce+
qed

lemma not_pickable_priority: "\<not> pickable m r \<Longrightarrow> seeds_ok m \<Longrightarrow> effective_priority m r = Some (- 1)"
  using seeds_sum [of m r] by (auto simp: pickable_def effective_priority_def c_int_def)

lemma state_cases:
  "download_state p \<in> {0, 1, 2, 3, 4, 5, 6, 7}"
proof -
  have "unat (download_state p) < 8" using unsigned_less [of "download_state p"] by simp
  then have "unat (download_state p) \<in> {0, 1, 2, 3, 4, 5, 6, 7}" by auto
  moreover have "download_state p = word_of_nat n" if "unat (download_state p) = n" for n
    using that by auto
  ultimately show ?thesis by fastforce
qed

lemma reverse_keeps_queue: "download_queue (make_reverse r) = download_queue r \<and> download_queue (unreverse r) = download_queue r"
  using state_cases [of r]
  by (auto simp: make_reverse_def unreverse_def download_queue_def pp_state_def pp_set_state_def
      piece_downloading_def piece_full_def piece_downloading_reverse_def piece_full_reverse_def)

text \<open>The manual priority does not take precedence over the availability.\<close>

lemma rare_before_prioritised:
  "let rare = \<lparr>peer_count = 1, download_state = ucast piece_open, piece_priority = 1, index = 0\<rparr>;
       preferred = \<lparr>peer_count = 20, download_state = ucast piece_open, piece_priority = 7, index = 1\<rparr>
   in the (effective_priority 0 rare) < the (effective_priority 0 preferred)"
  by (simp add: effective_priority_def filtered_def filter_priority_def pp_have_def we_have_index_def pp_state_def
      piece_open_def piece_full_def piece_finished_def pp_reverse_def piece_downloading_reverse_def
      piece_full_reverse_def c_int_def in_int32_def priority_levels_def prio_factor_def Let_def)

text \<open>
  The effective priority that orders the pieces: computing it never overflows; a piece that is
  filtered, had, unavailable, full or finished has \<open>-1\<close>, any other one a number that is not
  negative. Among pieces of the same manual priority the rarer one comes first and, of equally rare
  ones, those being downloaded come before open ones and these before reverse ones; among equally
  rare pieces the one of higher manual priority always comes first. Entering and leaving the
  reverse states keeps the download queue a piece is in. But the manual priority does not take
  precedence over the availability: a rare piece of the lowest priority comes before a common one
  of the highest.
\<close>

lemma piece_priority_order:
  assumes "pickable m p" "pickable m q" "seeds_ok m" "\<not> pickable m r"
  shows "(case (effective_priority m p, effective_priority m q) of
      (Some v, Some w) \<Rightarrow>
        0 \<le> v \<and> 0 \<le> w
        \<and> (piece_priority p = piece_priority q \<longrightarrow>
             (v < w \<longleftrightarrow> peer_count p < peer_count q \<or> peer_count p = peer_count q \<and> pick_rank p < pick_rank q))
        \<and> (peer_count p = peer_count q \<and> piece_priority q < piece_priority p \<longrightarrow> v < w)
    | _ \<Rightarrow> False)
    \<and> effective_priority m r = Some (- 1)
    \<and> download_queue (make_reverse p) = download_queue p \<and> download_queue (unreverse p) = download_queue p
    \<and> (let rare = \<lparr>peer_count = 1, download_state = ucast piece_open, piece_priority = 1, index = 0\<rparr>;
           preferred = \<lparr>peer_count = 20, download_state = ucast piece_open, piece_priority = 7, index = 1\<rparr>
       in the (effective_priority 0 rare) < the (effective_priority 0 preferred))"
proof -
  let ?k = "\<lambda>p. 8 - uint (piece_priority p)" and ?A = "\<lambda>p. uint (peer_count p) + 1"
  have k: "1 \<le> ?k x" "?k x \<le> 7" if "pickable m x" for x
    using priority_range [of x] that by (simp_all add: pickable_def)
  have A: "1 \<le> ?A x" for x using peer_count_range [of x] by simp
  have pos: "0 \<le> ?A x * ?k x * 3 - 3 + pick_rank x" if "pickable m x" for x
  proof -
    have "1 * 1 \<le> ?A x * ?k x" by (rule mult_mono) (use A [of x] k(1) [OF that] in simp_all)
    then show ?thesis using rank_range(1) [of x] by linarith
  qed
  have same: "?A p * ?k p * 3 - 3 + pick_rank p < ?A q * ?k q * 3 - 3 + pick_rank q
      \<longleftrightarrow> peer_count p < peer_count q \<or> peer_count p = peer_count q \<and> pick_rank p < pick_rank q"
    if "piece_priority p = piece_priority q"
    using band_order [OF k(1) [OF assms(1)] rank_range [of p] rank_range [of q], of "?A p" "?A q"] that
    by (simp add: word_less_def word_uint_eq_iff add1_zle_eq)
  have higher: "?A p * ?k p * 3 - 3 + pick_rank p < ?A q * ?k q * 3 - 3 + pick_rank q"
    if "peer_count p = peer_count q" "piece_priority q < piece_priority p"
  proof -
    have "?k p + 1 \<le> ?k q" using that(2) by (simp add: word_less_def)
    then have "?A p * (?k p + 1) \<le> ?A p * ?k q" using A [of p] by (intro mult_left_mono) simp_all
    then have "?A p * ?k p + ?A p \<le> ?A q * ?k q" unfolding that(1) distrib_left by simp
    then show ?thesis using A [of p] rank_range [of p] rank_range [of q] by linarith
  qed
  from same higher pos [OF assms(1)] pos [OF assms(2)] not_pickable_priority [OF assms(4,3)] reverse_keeps_queue
  show ?thesis
    unfolding effective_priority_pickable [OF assms(1,3)] effective_priority_pickable [OF assms(2,3)]
    using rare_before_prioritised by simp
qed

end
