(* ===== verification/Utp_Stream.thy ===== *)
theory Utp_Stream
  imports Proxy_Stream "HOL-Library.Multiset"
begin

text \<open>
  \<open>aux_/utp_stream.hpp\<close>: the packet header of uTP as it lies in a buffer, and \<open>utp_stream\<close>, the
  socket the peer connections use on top of it. The protocol itself is \<open>utp_socket_impl\<close>, whose
  code is in the prebuilt library: its operations are the fields of \<open>utp_impl\<close>. They get the
  whole stream, because they call its handlers back, and are parameters of everything below.

  A handler is a number, chosen by the caller. \<open>io_posted\<close> lists the calls that were handed to
  the \<open>io_context\<close>: the handler, its error code, and the byte count when it takes one.
\<close>

section \<open>Integers in network byte order\<close>

text \<open>
  \<open>big_endian_int<T>\<close> is \<open>sizeof(T)\<close> characters of storage; \<open>be_get\<close> is its conversion to \<open>T\<close>
  and \<open>be_set\<close> the assignment, for the storage at an offset of a buffer.
\<close>

definition be_get :: "nat \<Rightarrow> nat \<Rightarrow> bytes \<Rightarrow> 'a::len word option" where
  "be_get sizeof_T off buf = map_option fst (read_impl sizeof_T (drop off buf))"

definition be_set :: "nat \<Rightarrow> nat \<Rightarrow> 'a::len word \<Rightarrow> bytes \<Rightarrow> bytes option" where
  "be_set sizeof_T off v buf =
     map_option cbuf (write_impl put_ptr sizeof_T v \<lparr>cbuf = buf, cpos = off\<rparr>)"

section \<open>The packet header\<close>

datatype utp_socket_state_t = ST_DATA | ST_FIN | ST_STATE | ST_RESET | ST_SYN | NUM_TYPES

fun packet_type_value :: "utp_socket_state_t \<Rightarrow> nat" where
  "packet_type_value ST_DATA = 0"
| "packet_type_value ST_FIN = 1"
| "packet_type_value ST_STATE = 2"
| "packet_type_value ST_RESET = 3"
| "packet_type_value ST_SYN = 4"
| "packet_type_value NUM_TYPES = 5"

datatype utp_extensions_t = utp_no_extension | utp_sack | utp_close_reason

fun extension_value :: "utp_extensions_t \<Rightarrow> nat" where
  "extension_value utp_no_extension = 0"
| "extension_value utp_sack = 1"
| "extension_value utp_close_reason = 3"

text \<open>
  The members of \<open>utp_header\<close> lie in a buffer one after the other, without padding. A
  \<open>utp_header\<close> is the values they have; \<open>header_of\<close> reads them through the structure and
  \<open>fill_header\<close> assigns them.
\<close>

record utp_header_t =
  type_ver :: byte
  extension :: byte
  connection_id :: u16
  timestamp_microseconds :: u32
  timestamp_difference_microseconds :: u32
  wnd_size :: u32
  seq_nr :: u16
  ack_nr :: u16

definition get_type :: "utp_header_t \<Rightarrow> int" where
  "get_type h = uint (drop_bit 4 (type_ver h))"

definition get_version :: "utp_header_t \<Rightarrow> int" where
  "get_version h = uint (type_ver h AND 15)"

definition sizeof_utp_header :: nat where
  "sizeof_utp_header = 20"

definition header_of :: "bytes \<Rightarrow> utp_header_t option" where
  "header_of buf =
     do {
       tv \<leftarrow> be_get 1 0 buf;
       ext \<leftarrow> be_get 1 1 buf;
       cid \<leftarrow> be_get 2 2 buf;
       ts \<leftarrow> be_get 4 4 buf;
       td \<leftarrow> be_get 4 8 buf;
       wnd \<leftarrow> be_get 4 12 buf;
       sn \<leftarrow> be_get 2 16 buf;
       an \<leftarrow> be_get 2 18 buf;
       Some \<lparr>type_ver = tv, extension = ext, connection_id = cid, timestamp_microseconds = ts,
             timestamp_difference_microseconds = td, wnd_size = wnd, seq_nr = sn, ack_nr = an\<rparr>
     }"

definition fill_header :: "utp_header_t \<Rightarrow> bytes \<Rightarrow> bytes option" where
  "fill_header h buf =
     do {
       b1 \<leftarrow> be_set 1 0 (type_ver h) buf;
       b2 \<leftarrow> be_set 1 1 (extension h) b1;
       b3 \<leftarrow> be_set 2 2 (connection_id h) b2;
       b4 \<leftarrow> be_set 4 4 (timestamp_microseconds h) b3;
       b5 \<leftarrow> be_set 4 8 (timestamp_difference_microseconds h) b4;
       b6 \<leftarrow> be_set 4 12 (wnd_size h) b5;
       b7 \<leftarrow> be_set 2 16 (seq_nr h) b6;
       be_set 2 18 (ack_nr h) b7
     }"

section \<open>The stream\<close>

text \<open>
  \<open>async_wait\<close> stores a read handler that drops the byte count: \<open>Drop_size\<close>.
\<close>

datatype read_handler = Sized nat | Drop_size nat

type_synonym posted_call = "nat \<times> error_code \<times> nat option"

record 'i utp_stream =
  m_connect_handler :: "nat option"
  m_read_handler :: "read_handler option"
  m_write_handler :: "nat option"
  m_writeable_handler :: "nat option"
  m_impl :: "'i option"
  m_open :: bool
  io_posted :: "posted_call list"

fun handler_id :: "read_handler \<Rightarrow> nat" where
  "handler_id (Sized h) = h"
| "handler_id (Drop_size h) = h"

text \<open>\<open>std::bind(handler, ec, n)\<close> and \<open>std::bind(handler, ec)\<close>.\<close>

fun bind_read :: "read_handler \<Rightarrow> error_code \<Rightarrow> nat \<Rightarrow> posted_call" where
  "bind_read (Sized h) ec n = (h, ec, Some n)"
| "bind_read (Drop_size h) ec n = (h, ec, None)"

definition post_handler :: "posted_call \<Rightarrow> 'i utp_stream \<Rightarrow> 'i utp_stream" where
  "post_handler c s = s\<lparr>io_posted := io_posted s @ [c]\<rparr>"

text \<open>A buffer of a sequence: its address and its size.\<close>

type_synonym io_buffer = "nat \<times> u64"

record ('i, 'e) utp_impl =
  do_connect :: "endpoint \<Rightarrow> 'i utp_stream \<Rightarrow> 'i utp_stream"
  add_read_buffer :: "nat \<Rightarrow> int \<Rightarrow> 'i utp_stream \<Rightarrow> 'i utp_stream"
  issue_read :: "'i utp_stream \<Rightarrow> 'i utp_stream"
  add_write_buffer :: "nat \<Rightarrow> int \<Rightarrow> 'i utp_stream \<Rightarrow> 'i utp_stream"
  issue_write :: "'i utp_stream \<Rightarrow> 'i utp_stream"
  subscribe_writeable :: "'i utp_stream \<Rightarrow> 'i utp_stream"
  check_fin_sent :: "'i utp_stream \<Rightarrow> bool"
  read_buffer_size :: "'i utp_stream \<Rightarrow> int"
  impl_read_some :: "bool \<Rightarrow> error_code \<Rightarrow> 'i utp_stream \<Rightarrow> (nat \<times> error_code) \<times> 'i utp_stream"
  impl_write_some :: "bool \<Rightarrow> 'i utp_stream \<Rightarrow> nat \<times> 'i utp_stream"
  cancel_handlers :: "error_code \<Rightarrow> 'i utp_stream \<Rightarrow> 'i utp_stream"
  network_event :: "'e \<Rightarrow> 'i utp_stream \<Rightarrow> 'i utp_stream"

definition utp_stream_init :: "'i utp_stream" where
  "utp_stream_init =
     \<lparr>m_connect_handler = None, m_read_handler = None, m_write_handler = None,
      m_writeable_handler = None, m_impl = None, m_open = False, io_posted = []\<rparr>"

section \<open>Operations\<close>

text \<open>
  The loops over a buffer sequence. The asynchronous operations skip empty buffers and count the
  bytes in a \<open>size_t\<close>; the size is passed on as an \<open>int\<close>.
\<close>

definition buffer_size :: "u64 \<Rightarrow> int" where
  "buffer_size n = to_int32 (uint n)"

fun add_buffers ::
    "(nat \<Rightarrow> int \<Rightarrow> 'i utp_stream \<Rightarrow> 'i utp_stream) \<Rightarrow> io_buffer list \<Rightarrow> u64 \<Rightarrow>
     'i utp_stream \<Rightarrow> u64 \<times> 'i utp_stream" where
  "add_buffers add [] bytes_added s = (bytes_added, s)"
| "add_buffers add ((p, n) # bufs) bytes_added s =
     (if n = 0 then add_buffers add bufs bytes_added s
      else add_buffers add bufs (bytes_added + n) (add p (buffer_size n) s))"

fun add_all_buffers ::
    "(nat \<Rightarrow> int \<Rightarrow> 'i utp_stream \<Rightarrow> 'i utp_stream) \<Rightarrow> io_buffer list \<Rightarrow>
     'i utp_stream \<Rightarrow> 'i utp_stream" where
  "add_all_buffers add [] s = s"
| "add_all_buffers add ((p, n) # bufs) s = add_all_buffers add bufs (add p (buffer_size n) s)"

definition utp_async_connect ::
    "('i, 'e) utp_impl \<Rightarrow> endpoint \<Rightarrow> nat \<Rightarrow> 'i utp_stream \<Rightarrow> 'i utp_stream" where
  "utp_async_connect L ep h s =
     (if m_impl s = None then post_handler (h, Asio not_connected, None) s
      else do_connect L ep (s\<lparr>m_connect_handler := Some h\<rparr>))"

definition async_read_some ::
    "('i, 'e) utp_impl \<Rightarrow> io_buffer list \<Rightarrow> nat \<Rightarrow> 'i utp_stream \<Rightarrow> 'i utp_stream" where
  "async_read_some L buffers h s =
     (if m_impl s = None then post_handler (h, Asio not_connected, Some 0) s
      else if m_read_handler s \<noteq> None then post_handler (h, Asio operation_not_supported, Some 0) s
      else (let (bytes_added, s1) = add_buffers (add_read_buffer L) buffers 0 s in
        if bytes_added = 0 then post_handler (h, Success, Some 0) s1
        else issue_read L (s1\<lparr>m_read_handler := Some (Sized h)\<rparr>)))"

definition async_wait_read :: "('i, 'e) utp_impl \<Rightarrow> read_handler \<Rightarrow> 'i utp_stream \<Rightarrow> 'i utp_stream" where
  "async_wait_read L h s =
     (if m_impl s = None then post_handler (bind_read h (Asio not_connected) 0) s
      else if m_read_handler s \<noteq> None then post_handler (bind_read h (Asio operation_not_supported) 0) s
      else issue_read L (s\<lparr>m_read_handler := Some h\<rparr>))"

definition utp_open :: "'i utp_stream \<Rightarrow> 'i utp_stream" where
  "utp_open s = s\<lparr>m_open := True\<rparr>"

definition is_open :: "'i utp_stream \<Rightarrow> bool" where
  "is_open s = m_open s"

text \<open>The operations that do not wait return a byte count; \<open>ec\<close> is the caller's error code.\<close>

definition read_some ::
    "('i, 'e) utp_impl \<Rightarrow> io_buffer list \<Rightarrow> error_code \<Rightarrow> 'i utp_stream \<Rightarrow>
     (nat \<times> error_code) \<times> 'i utp_stream" where
  "read_some L buffers ec s =
     (if m_impl s = None then ((0, Asio not_connected), s)
      else if read_buffer_size L s = 0 then ((0, Asio would_block), s)
      else impl_read_some L True ec (add_all_buffers (add_read_buffer L) buffers s))"

definition write_some ::
    "('i, 'e) utp_impl \<Rightarrow> io_buffer list \<Rightarrow> error_code \<Rightarrow> 'i utp_stream \<Rightarrow>
     (nat \<times> error_code) \<times> 'i utp_stream" where
  "write_some L buffers ec s =
     (if m_impl s = None then ((0, Asio not_connected), s)
      else if check_fin_sent L s then ((0, Asio broken_pipe), s)
      else (let (ret, s1) = impl_write_some L True (add_all_buffers (add_write_buffer L) buffers s) in
        if ret = 0 then ((0, Asio would_block), s1) else ((ret, ec), s1)))"

text \<open>The overloads without an error code throw it: \<open>Inl\<close>.\<close>

definition read_some_throw ::
    "('i, 'e) utp_impl \<Rightarrow> io_buffer list \<Rightarrow> 'i utp_stream \<Rightarrow> (error_code + nat) \<times> 'i utp_stream" where
  "read_some_throw L buffers s =
     (let ((ret, ec), s1) = read_some L buffers Success s in
      (if failed ec then Inl ec else Inr ret, s1))"

definition write_some_throw ::
    "('i, 'e) utp_impl \<Rightarrow> io_buffer list \<Rightarrow> 'i utp_stream \<Rightarrow> (error_code + nat) \<times> 'i utp_stream" where
  "write_some_throw L buffers s =
     (let ((ret, ec), s1) = write_some L buffers Success s in
      (if failed ec then Inl ec else Inr ret, s1))"

definition async_write_some ::
    "('i, 'e) utp_impl \<Rightarrow> io_buffer list \<Rightarrow> nat \<Rightarrow> 'i utp_stream \<Rightarrow> 'i utp_stream" where
  "async_write_some L buffers h s =
     (if m_impl s = None then post_handler (h, Asio not_connected, Some 0) s
      else if m_write_handler s \<noteq> None then post_handler (h, Asio operation_not_supported, Some 0) s
      else if check_fin_sent L s then post_handler (h, Asio broken_pipe, Some 0) s
      else (let (bytes_added, s1) = add_buffers (add_write_buffer L) buffers 0 s in
        if bytes_added = 0 then post_handler (h, Success, Some 0) s1
        else issue_write L (s1\<lparr>m_write_handler := Some h\<rparr>)))"

definition async_wait_write :: "('i, 'e) utp_impl \<Rightarrow> nat \<Rightarrow> 'i utp_stream \<Rightarrow> 'i utp_stream" where
  "async_wait_write L h s =
     (if m_impl s = None then post_handler (h, Asio not_connected, None) s
      else if m_writeable_handler s \<noteq> None then post_handler (h, Asio operation_not_supported, None) s
      else if check_fin_sent L s then post_handler (h, Asio broken_pipe, None) s
      else subscribe_writeable L (s\<lparr>m_writeable_handler := Some h\<rparr>))"

datatype wait_type = wait_read | wait_write | wait_error

definition async_wait :: "('i, 'e) utp_impl \<Rightarrow> wait_type \<Rightarrow> nat \<Rightarrow> 'i utp_stream \<Rightarrow> 'i utp_stream" where
  "async_wait L t h s =
     (case t of
        wait_read \<Rightarrow> async_wait_read L (Drop_size h) s
      | wait_write \<Rightarrow> async_wait_write L h s
      | wait_error \<Rightarrow> post_handler (h, Asio operation_not_supported, None) s)"

definition utp_cancel :: "('i, 'e) utp_impl \<Rightarrow> 'i utp_stream \<Rightarrow> 'i utp_stream" where
  "utp_cancel L s = cancel_handlers L (Asio operation_aborted) s"

section \<open>A stream in use\<close>

text \<open>What the owner of the stream and the network do with it.\<close>

datatype 'e utp_call =
    Connect_to endpoint nat
  | Read_into "io_buffer list" nat
  | Wait_read nat
  | Write_from "io_buffer list" nat
  | Wait_write nat
  | Wait wait_type nat
  | Open
  | Read_now "io_buffer list"
  | Write_now "io_buffer list"
  | Cancel
  | Network 'e

fun utp_step :: "('i, 'e) utp_impl \<Rightarrow> 'i utp_stream \<Rightarrow> 'e utp_call \<Rightarrow> 'i utp_stream" where
  "utp_step L s (Connect_to ep h) = utp_async_connect L ep h s"
| "utp_step L s (Read_into bufs h) = async_read_some L bufs h s"
| "utp_step L s (Wait_read h) = async_wait_read L (Sized h) s"
| "utp_step L s (Write_from bufs h) = async_write_some L bufs h s"
| "utp_step L s (Wait_write h) = async_wait_write L h s"
| "utp_step L s (Wait t h) = async_wait L t h s"
| "utp_step L s Open = utp_open s"
| "utp_step L s (Read_now bufs) = snd (read_some L bufs Success s)"
| "utp_step L s (Write_now bufs) = snd (write_some L bufs Success s)"
| "utp_step L s Cancel = utp_cancel L s"
| "utp_step L s (Network e) = network_event L e s"

definition utp_run :: "('i, 'e) utp_impl \<Rightarrow> 'i utp_stream \<Rightarrow> 'e utp_call list \<Rightarrow> 'i utp_stream" where
  "utp_run L s cs = foldl (utp_step L) s cs"

text \<open>The handlers a call brings in, and the one that \<open>async_connect\<close> assigns over.\<close>

fun submits :: "'e utp_call \<Rightarrow> nat multiset" where
  "submits (Connect_to ep h) = {#h#}"
| "submits (Read_into bufs h) = {#h#}"
| "submits (Wait_read h) = {#h#}"
| "submits (Write_from bufs h) = {#h#}"
| "submits (Wait_write h) = {#h#}"
| "submits (Wait t h) = {#h#}"
| "submits c = {#}"

definition held :: "nat option \<Rightarrow> nat multiset" where
  "held h = (case h of None \<Rightarrow> {#} | Some n \<Rightarrow> {#n#})"

fun overwrites :: "'i utp_stream \<Rightarrow> 'e utp_call \<Rightarrow> nat multiset" where
  "overwrites s (Connect_to ep h) = (if m_impl s = None then {#} else held (m_connect_handler s))"
| "overwrites s c = {#}"

fun overwritten :: "('i, 'e) utp_impl \<Rightarrow> 'i utp_stream \<Rightarrow> 'e utp_call list \<Rightarrow> nat multiset" where
  "overwritten L s [] = {#}"
| "overwritten L s (c # cs) = overwrites s c + overwritten L (utp_step L s c) cs"

text \<open>The handlers that wait, and those that wait or were posted.\<close>

definition waiting_handlers :: "'i utp_stream \<Rightarrow> nat multiset" where
  "waiting_handlers s = held (m_connect_handler s) + held (map_option handler_id (m_read_handler s)) +
     held (m_write_handler s) + held (m_writeable_handler s)"

definition called :: "'i utp_stream \<Rightarrow> nat multiset" where
  "called s = mset (map fst (io_posted s))"

definition accounted :: "'i utp_stream \<Rightarrow> nat multiset" where
  "accounted s = waiting_handlers s + called s"

text \<open>
  The contract under which the lemmas on handlers hold: the protocol posts a handler it takes, exactly
  once, and adding a buffer does not touch the handlers. No header states this of the prebuilt code.
\<close>

definition posts_what_it_takes :: "('i utp_stream \<Rightarrow> 'i utp_stream) \<Rightarrow> bool" where
  "posts_what_it_takes f \<longleftrightarrow> (\<forall>s. accounted (f s) = accounted s)"

definition leaves_handlers :: "('i utp_stream \<Rightarrow> 'i utp_stream) \<Rightarrow> bool" where
  "leaves_handlers f \<longleftrightarrow> (\<forall>s. m_connect_handler (f s) = m_connect_handler s \<and>
     m_read_handler (f s) = m_read_handler s \<and> m_write_handler (f s) = m_write_handler s \<and>
     m_writeable_handler (f s) = m_writeable_handler s \<and> io_posted (f s) = io_posted s)"

definition utp_contract :: "('i, 'e) utp_impl \<Rightarrow> bool" where
  "utp_contract L \<longleftrightarrow>
     (\<forall>ep. posts_what_it_takes (do_connect L ep)) \<and>
     (\<forall>p n. leaves_handlers (add_read_buffer L p n)) \<and>
     posts_what_it_takes (issue_read L) \<and>
     (\<forall>p n. leaves_handlers (add_write_buffer L p n)) \<and>
     posts_what_it_takes (issue_write L) \<and>
     posts_what_it_takes (subscribe_writeable L) \<and>
     (\<forall>b ec. posts_what_it_takes (\<lambda>s. snd (impl_read_some L b ec s))) \<and>
     (\<forall>b. posts_what_it_takes (\<lambda>s. snd (impl_write_some L b s))) \<and>
     (\<forall>ec. posts_what_it_takes (cancel_handlers L ec)) \<and>
     (\<forall>e. posts_what_it_takes (network_event L e))"

section \<open>No handler is lost\<close>

lemma held_simps [simp]: "held None = {#}" "held (Some h) = {#h#}"
  by (simp_all add: held_def)

lemma fst_bind_read [simp]: "fst (bind_read h ec n) = handler_id h"
  by (cases h) simp_all

lemma accounted_post [simp]: "accounted (post_handler c s) = add_mset (fst c) (accounted s)"
  by (simp add: accounted_def waiting_handlers_def called_def post_handler_def)

lemma accounted_store [simp]:
  "m_read_handler s = None \<Longrightarrow>
    accounted (s\<lparr>m_read_handler := Some r\<rparr>) = add_mset (handler_id r) (accounted s)"
  "m_write_handler s = None \<Longrightarrow> accounted (s\<lparr>m_write_handler := Some h\<rparr>) = add_mset h (accounted s)"
  "m_writeable_handler s = None \<Longrightarrow>
    accounted (s\<lparr>m_writeable_handler := Some h\<rparr>) = add_mset h (accounted s)"
  by (simp_all add: accounted_def waiting_handlers_def called_def)

lemma accounted_connect:
  "accounted (s\<lparr>m_connect_handler := Some h\<rparr>) + held (m_connect_handler s) = add_mset h (accounted s)"
  by (simp add: accounted_def waiting_handlers_def called_def)

lemma add_buffers_leave:
  "(\<forall>p n. leaves_handlers (add p n)) \<Longrightarrow> leaves_handlers (\<lambda>s. snd (add_buffers add bufs k s))"
proof (induction bufs arbitrary: k)
  case Nil
  then show ?case by (simp add: leaves_handlers_def)
next
  case (Cons b bufs)
  then show ?case by (cases b) (simp add: leaves_handlers_def)
qed

lemma add_all_buffers_leave:
  "(\<forall>p n. leaves_handlers (add p n)) \<Longrightarrow> leaves_handlers (add_all_buffers add bufs)"
proof (induction bufs)
  case Nil
  then show ?case by (simp add: leaves_handlers_def)
next
  case (Cons b bufs)
  then show ?case by (cases b) (simp add: leaves_handlers_def)
qed

lemma leaves_accounted: "leaves_handlers f \<Longrightarrow> accounted (f s) = accounted s"
  by (simp add: leaves_handlers_def accounted_def waiting_handlers_def called_def)

lemma read_conserves:
  assumes "utp_contract L"
  shows "accounted (async_read_some L bufs h s) = add_mset h (accounted s)"
proof -
  obtain k s1 where b: "add_buffers (add_read_buffer L) bufs 0 s = (k, s1)" by fastforce
  have "leaves_handlers (\<lambda>s. snd (add_buffers (add_read_buffer L) bufs 0 s))"
    using assms by (intro add_buffers_leave) (simp add: utp_contract_def)
  then have "accounted s1 = accounted s" "m_read_handler s1 = m_read_handler s"
    using leaves_accounted [of "\<lambda>s. snd (add_buffers (add_read_buffer L) bufs 0 s)" s] b
    by (simp_all add: leaves_handlers_def) (metis snd_conv)
  moreover have "accounted (issue_read L t) = accounted t" for t
    using assms by (simp add: utp_contract_def posts_what_it_takes_def)
  ultimately show ?thesis
    by (simp add: async_read_some_def b)
qed

lemma write_conserves:
  assumes "utp_contract L"
  shows "accounted (async_write_some L bufs h s) = add_mset h (accounted s)"
proof -
  obtain k s1 where b: "add_buffers (add_write_buffer L) bufs 0 s = (k, s1)" by fastforce
  have "leaves_handlers (\<lambda>s. snd (add_buffers (add_write_buffer L) bufs 0 s))"
    using assms by (intro add_buffers_leave) (simp add: utp_contract_def)
  then have "accounted s1 = accounted s" "m_write_handler s1 = m_write_handler s"
    using leaves_accounted [of "\<lambda>s. snd (add_buffers (add_write_buffer L) bufs 0 s)" s] b
    by (simp_all add: leaves_handlers_def) (metis snd_conv)
  moreover have "accounted (issue_write L t) = accounted t" for t
    using assms by (simp add: utp_contract_def posts_what_it_takes_def)
  ultimately show ?thesis
    by (simp add: async_write_some_def b)
qed

lemma wait_conserves:
  assumes "utp_contract L"
  shows "accounted (async_wait_read L r s) = add_mset (handler_id r) (accounted s)"
    and "accounted (async_wait_write L h s) = add_mset h (accounted s)"
  using assms by (simp_all add: async_wait_read_def async_wait_write_def utp_contract_def posts_what_it_takes_def)

lemma connect_conserves:
  "utp_contract L \<Longrightarrow> accounted (utp_async_connect L ep h s) + overwrites s (Connect_to ep h) =
    add_mset h (accounted s)"
  using accounted_connect [where s=s and h=h]
  by (simp add: utp_async_connect_def utp_contract_def posts_what_it_takes_def)

lemma now_conserves:
  assumes "utp_contract L"
  shows "accounted (snd (read_some L bufs ec s)) = accounted s"
    and "accounted (snd (write_some L bufs ec s)) = accounted s"
proof -
  have "leaves_handlers (add_all_buffers (add_read_buffer L) bufs)"
    "leaves_handlers (add_all_buffers (add_write_buffer L) bufs)"
    using assms by (simp_all add: add_all_buffers_leave utp_contract_def)
  moreover have "accounted (snd (impl_read_some L b ec t)) = accounted t"
    "accounted (snd (impl_write_some L b t)) = accounted t" for b ec t
    using assms by (simp_all add: utp_contract_def posts_what_it_takes_def)
  ultimately show "accounted (snd (read_some L bufs ec s)) = accounted s"
    "accounted (snd (write_some L bufs ec s)) = accounted s"
    by (auto simp: read_some_def write_some_def leaves_accounted split: prod.split)
      (metis leaves_accounted snd_conv)+
qed

lemma utp_step_conserves:
  assumes "utp_contract L"
  shows "accounted (utp_step L s c) + overwrites s c = accounted s + submits c"
proof (cases c)
  case (Wait t h)
  then show ?thesis using wait_conserves [OF assms] by (cases t) (simp_all add: async_wait_def)
next
  case Open
  then show ?thesis by (simp add: utp_open_def accounted_def waiting_handlers_def called_def)
qed (use assms in \<open>simp_all add: connect_conserves read_conserves write_conserves wait_conserves
  now_conserves utp_cancel_def utp_contract_def posts_what_it_takes_def del: overwrites.simps(1)\<close>)

text \<open>
  Under the contract every handler handed to the stream waits in one of its four slots or was posted,
  as often as it was handed in, except those that a second \<open>async_connect\<close> assigned over.
\<close>

lemma utp_run_conserves:
  assumes "utp_contract L"
  shows "accounted (utp_run L s cs) + overwritten L s cs = accounted s + (\<Sum>c\<leftarrow>cs. submits c)"
proof (induction cs arbitrary: s)
  case Nil
  show ?case by (simp add: utp_run_def)
next
  case (Cons c cs)
  let ?t = "utp_step L s c"
  have "accounted (utp_run L s (c # cs)) + overwritten L s (c # cs) =
      (accounted (utp_run L ?t cs) + overwritten L ?t cs) + overwrites s c"
    by (simp add: utp_run_def ac_simps)
  also have "\<dots> = (accounted ?t + overwrites s c) + (\<Sum>c\<leftarrow>cs. submits c)"
    using Cons.IH [of ?t] by simp
  also have "\<dots> = accounted s + submits c + (\<Sum>c\<leftarrow>cs. submits c)"
    by (simp only: utp_step_conserves [OF assms])
  finally show ?case by (simp add: add.assoc)
qed

section \<open>The wire format\<close>

lemma put_list:
  "write_string put_ptr cs \<lparr>cbuf = buf, cpos = off\<rparr> =
    (if off + length cs \<le> length buf \<or> cs = []
     then Some \<lparr>cbuf = take off buf @ cs @ drop (off + length cs) buf, cpos = off + length cs\<rparr>
     else None)"
proof (induction cs arbitrary: buf off)
  case Nil
  then show ?case by simp
next
  case (Cons b cs)
  show ?case
  proof (cases "off < length buf")
    case True
    have "take (Suc off) (buf[off := b]) = take off buf @ [b]"
      using True by (rule take_append_update)
    moreover have "put_ptr b \<lparr>cbuf = buf, cpos = off\<rparr> = Some \<lparr>cbuf = buf[off := b], cpos = Suc off\<rparr>"
      using True by (simp add: put_ptr_def)
    ultimately show ?thesis
      using True by (simp add: Cons.IH drop_update_cancel)
  qed (simp add: put_ptr_def)
qed

lemma be_set_eq:
  "0 < k \<Longrightarrow> be_set k off v buf =
    (if off + k \<le> length buf then Some (take off buf @ be_bytes k v @ drop (off + k) buf) else None)"
proof -
  assume "0 < k"
  then have "be_bytes k v \<noteq> []" by (metis length_be_bytes length_greater_0_conv)
  then show ?thesis by (simp add: be_set_def write_impl_def write_loop_string put_list)
qed

lemma be_set_at:
  "0 < k \<Longrightarrow> k \<le> length ys \<Longrightarrow> off = length xs \<Longrightarrow>
    be_set k off v (xs @ ys) = Some ((xs @ be_bytes k v) @ drop k ys)"
  by (simp add: be_set_eq)

lemma be_get_at:
  fixes v :: "'a::len word"
  shows "LENGTH('a) \<le> 8 * k \<Longrightarrow> off = length xs \<Longrightarrow> be_get k off (xs @ be_bytes k v @ r) = Some v"
  by (simp add: be_get_def read_impl_be_bytes)

text \<open>The header as the members one after the other.\<close>

definition header_bytes :: "utp_header_t \<Rightarrow> bytes" where
  "header_bytes h = be_bytes 1 (type_ver h) @ be_bytes 1 (extension h) @
     be_bytes 2 (connection_id h) @ be_bytes 4 (timestamp_microseconds h) @
     be_bytes 4 (timestamp_difference_microseconds h) @ be_bytes 4 (wnd_size h) @
     be_bytes 2 (seq_nr h) @ be_bytes 2 (ack_nr h)"

lemma length_header_bytes [simp]: "length (header_bytes h) = 20"
  by (simp add: header_bytes_def del: be_bytes.simps)


lemma set_next:
  "length p = off \<Longrightarrow> off + k \<le> length buf \<Longrightarrow> 0 < k \<Longrightarrow>
    be_set k off v (p @ drop off buf) = Some ((p @ be_bytes k v) @ drop (off + k) buf)"
  by (simp add: be_set_eq add.commute)

lemma fill_header_long:
  assumes "20 \<le> length buf"
  shows "fill_header h buf = Some (header_bytes h @ drop 20 buf)"
proof -
  define p1 where "p1 = [] @ be_bytes 1 (type_ver h)"
  define p2 where "p2 = p1 @ be_bytes 1 (extension h)"
  define p3 where "p3 = p2 @ be_bytes 2 (connection_id h)"
  define p4 where "p4 = p3 @ be_bytes 4 (timestamp_microseconds h)"
  define p5 where "p5 = p4 @ be_bytes 4 (timestamp_difference_microseconds h)"
  define p6 where "p6 = p5 @ be_bytes 4 (wnd_size h)"
  define p7 where "p7 = p6 @ be_bytes 2 (seq_nr h)"
  define p8 where "p8 = p7 @ be_bytes 2 (ack_nr h)"
  note p = p1_def p2_def p3_def p4_def p5_def p6_def p7_def p8_def
  have s1: "be_set 1 0 (type_ver h) buf = Some (p1 @ drop 1 buf)"
    using set_next [of "[]" 0 1 buf "type_ver h"] assms by (simp add: p del: be_bytes.simps be_bytes_1)
  have s2: "be_set 1 1 (extension h) (p1 @ drop 1 buf) = Some (p2 @ drop 2 buf)"
    using set_next [of p1 1 1 buf "extension h"] assms by (simp add: p numeral_2_eq_2 del: be_bytes.simps be_bytes_1)
  have s3: "be_set 2 2 (connection_id h) (p2 @ drop 2 buf) = Some (p3 @ drop 4 buf)"
    using set_next [of p2 2 2 buf "connection_id h"] assms by (simp add: p del: be_bytes.simps be_bytes_1)
  have s4: "be_set 4 4 (timestamp_microseconds h) (p3 @ drop 4 buf) = Some (p4 @ drop 8 buf)"
    using set_next [of p3 4 4 buf "timestamp_microseconds h"] assms by (simp add: p del: be_bytes.simps be_bytes_1)
  have s5: "be_set 4 8 (timestamp_difference_microseconds h) (p4 @ drop 8 buf) = Some (p5 @ drop 12 buf)"
    using set_next [of p4 8 4 buf "timestamp_difference_microseconds h"] assms by (simp add: p del: be_bytes.simps be_bytes_1)
  have s6: "be_set 4 12 (wnd_size h) (p5 @ drop 12 buf) = Some (p6 @ drop 16 buf)"
    using set_next [of p5 12 4 buf "wnd_size h"] assms by (simp add: p del: be_bytes.simps be_bytes_1)
  have s7: "be_set 2 16 (seq_nr h) (p6 @ drop 16 buf) = Some (p7 @ drop 18 buf)"
    using set_next [of p6 16 2 buf "seq_nr h"] assms by (simp add: p del: be_bytes.simps be_bytes_1)
  have s8: "be_set 2 18 (ack_nr h) (p7 @ drop 18 buf) = Some (p8 @ drop 20 buf)"
    using set_next [of p7 18 2 buf "ack_nr h"] assms by (simp add: p del: be_bytes.simps be_bytes_1)
  show ?thesis
    unfolding fill_header_def s1 bind.bind_lunit s2 s3 s4 s5 s6 s7 s8
    by (simp add: header_bytes_def p)
qed

lemma header_of_bytes: "header_of (header_bytes h @ r) = Some h"
proof -
  let ?b = "header_bytes h @ r"
  have g1: "be_get 1 0 ?b = Some (type_ver h)"
    unfolding header_bytes_def append_assoc
    by (rule be_get_at [where xs = "[]",
        unfolded append_assoc append_Nil]) (simp_all del: be_bytes.simps be_bytes_1)
  have g2: "be_get 1 1 ?b = Some (extension h)"
    unfolding header_bytes_def append_assoc
    by (rule be_get_at [where xs = "be_bytes 1 (type_ver h)",
        unfolded append_assoc append_Nil]) (simp_all del: be_bytes.simps be_bytes_1)
  have g3: "be_get 2 2 ?b = Some (connection_id h)"
    unfolding header_bytes_def append_assoc
    by (rule be_get_at [where xs = "be_bytes 1 (type_ver h) @ be_bytes 1 (extension h)",
        unfolded append_assoc append_Nil]) (simp_all del: be_bytes.simps be_bytes_1)
  have g4: "be_get 4 4 ?b = Some (timestamp_microseconds h)"
    unfolding header_bytes_def append_assoc
    by (rule be_get_at [where xs = "be_bytes 1 (type_ver h) @ be_bytes 1 (extension h) @ be_bytes 2 (connection_id h)",
        unfolded append_assoc append_Nil]) (simp_all del: be_bytes.simps be_bytes_1)
  have g5: "be_get 4 8 ?b = Some (timestamp_difference_microseconds h)"
    unfolding header_bytes_def append_assoc
    by (rule be_get_at [where xs = "be_bytes 1 (type_ver h) @ be_bytes 1 (extension h) @ be_bytes 2 (connection_id h) @ be_bytes 4 (timestamp_microseconds h)",
        unfolded append_assoc append_Nil]) (simp_all del: be_bytes.simps be_bytes_1)
  have g6: "be_get 4 12 ?b = Some (wnd_size h)"
    unfolding header_bytes_def append_assoc
    by (rule be_get_at [where xs = "be_bytes 1 (type_ver h) @ be_bytes 1 (extension h) @ be_bytes 2 (connection_id h) @ be_bytes 4 (timestamp_microseconds h) @ be_bytes 4 (timestamp_difference_microseconds h)",
        unfolded append_assoc append_Nil]) (simp_all del: be_bytes.simps be_bytes_1)
  have g7: "be_get 2 16 ?b = Some (seq_nr h)"
    unfolding header_bytes_def append_assoc
    by (rule be_get_at [where xs = "be_bytes 1 (type_ver h) @ be_bytes 1 (extension h) @ be_bytes 2 (connection_id h) @ be_bytes 4 (timestamp_microseconds h) @ be_bytes 4 (timestamp_difference_microseconds h) @ be_bytes 4 (wnd_size h)",
        unfolded append_assoc append_Nil]) (simp_all del: be_bytes.simps be_bytes_1)
  have g8: "be_get 2 18 ?b = Some (ack_nr h)"
    unfolding header_bytes_def append_assoc
    by (rule be_get_at [where xs = "be_bytes 1 (type_ver h) @ be_bytes 1 (extension h) @ be_bytes 2 (connection_id h) @ be_bytes 4 (timestamp_microseconds h) @ be_bytes 4 (timestamp_difference_microseconds h) @ be_bytes 4 (wnd_size h) @ be_bytes 2 (seq_nr h)",
        unfolded append_assoc append_Nil]) (simp_all del: be_bytes.simps be_bytes_1)
  show ?thesis
    unfolding header_of_def g1 bind.bind_lunit g2 g3 g4 g5 g6 g7 g8 by simp
qed

lemma fill_header_short:
  assumes "length buf < 20"
  shows "fill_header h buf = None"
proof (rule ccontr)
  have set_length: "length b' = length b" "off + k \<le> length b"
    if "be_set k off v b = Some b'" "0 < k" for k off b b' and v :: "'a::len word"
    using that by (auto simp: be_set_eq split: if_splits)
  assume "fill_header h buf \<noteq> None"
  then obtain b1 b2 b3 b4 b5 b6 b7 b8 where
    b: "be_set 1 0 (type_ver h) buf = Some b1" "be_set 1 1 (extension h) b1 = Some b2"
      "be_set 2 2 (connection_id h) b2 = Some b3" "be_set 4 4 (timestamp_microseconds h) b3 = Some b4"
      "be_set 4 8 (timestamp_difference_microseconds h) b4 = Some b5"
      "be_set 4 12 (wnd_size h) b5 = Some b6" "be_set 2 16 (seq_nr h) b6 = Some b7"
      "be_set 2 18 (ack_nr h) b7 = Some b8"
    unfolding fill_header_def by (auto simp only: not_None_eq bind_eq_Some_conv)
  have "length b7 = length buf"
    using set_length(1) [OF b(1)] set_length(1) [OF b(2)] set_length(1) [OF b(3)]
      set_length(1) [OF b(4)] set_length(1) [OF b(5)] set_length(1) [OF b(6)]
      set_length(1) [OF b(7)] by linarith
  with set_length(2) [OF b(8)] assms show False by simp
qed


section \<open>Properties\<close>

text \<open>
  \<open>async_connect\<close> assigns over a handler that still waits: on a stream with an implementation,
  whatever that is, the earlier handler makes no difference to anything that happens afterwards, so it
  is never called.
\<close>

lemma connect_forgets_handler:
  "m_impl s \<noteq> None \<Longrightarrow>
   utp_async_connect L ep h (s\<lparr>m_connect_handler := earlier\<rparr>) = utp_async_connect L ep h s"
  by (auto simp: utp_async_connect_def)

text \<open>
  The header of a uTP packet survives the wire: filling the structure in a buffer of at least
  20 bytes and reading the members back gives the same header and touches nothing behind it, and
  a shorter buffer is overrun. The first byte is the packet type above the protocol version.
\<close>

lemma utp_header_roundtrip:
  "case fill_header h buf of
     None \<Rightarrow> length buf < sizeof_utp_header
   | Some p \<Rightarrow> sizeof_utp_header \<le> length buf \<and> length p = length buf \<and>
       drop sizeof_utp_header p = drop sizeof_utp_header buf \<and> header_of p = Some h \<and>
       uint (p ! 0) = 16 * get_type h + get_version h \<and> 0 \<le> get_type h \<and> get_type h < 16 \<and>
       0 \<le> get_version h \<and> get_version h < 16"
proof (cases "20 \<le> length buf")
  case True
  have ty: "uint (drop_bit 4 (type_ver h)) = uint (type_ver h) div 16"
    "uint (type_ver h AND 15) = uint (type_ver h) mod 16"
  proof -
    show "uint (drop_bit 4 (type_ver h)) = uint (type_ver h) div 16"
      by (simp add: drop_bit_eq_div uint_div)
    have "type_ver h AND 15 = type_ver h mod 16"
      using take_bit_eq_mask [of 4 "type_ver h"] by (simp add: take_bit_eq_mod mask_eq_exp_minus_1)
    then show "uint (type_ver h AND 15) = uint (type_ver h) mod 16"
      by (simp add: uint_mod)
  qed
  have "uint (type_ver h) < 256" using uint_lt2p [of "type_ver h"] by simp
  then have "uint (type_ver h) div 16 < 16" by linarith
  moreover have "(header_bytes h @ drop 20 buf) ! 0 = type_ver h"
    by (simp add: header_bytes_def and_255 take_bit_word_eq_self)
  moreover have "0 \<le> uint (type_ver h) div 16" by (simp add: pos_imp_zdiv_nonneg_iff)
  ultimately show ?thesis
    using True by (simp add: fill_header_long header_of_bytes sizeof_utp_header_def get_type_def
        get_version_def ty)
qed (simp add: fill_header_short sizeof_utp_header_def)

end
