(* ===== verification/Peer_Class_Filter.thy ===== *)
theory Peer_Class_Filter
  imports Getzy_Prelude
begin

text \<open>
  \<open>peer_class_type_filter.hpp\<close>: which of the 32 peer classes a new peer gets because of the type
  of its socket. The masks are 32-bit words, as in the code; \<open>classes\<close> reads one as the set of
  the peer classes whose bit it has. A \<open>socket_type_t\<close> is an enumeration over \<open>uint8_t\<close>, so that
  every 8-bit value may be passed.
\<close>

section \<open>State\<close>

type_synonym socket_type_t = "8 word"
type_synonym peer_class_t = "32 word"

definition tcp_socket :: socket_type_t where "tcp_socket = 0"
definition utp_socket :: socket_type_t where "utp_socket = 1"
definition ssl_tcp_socket :: socket_type_t where "ssl_tcp_socket = 2"
definition ssl_utp_socket :: socket_type_t where "ssl_utp_socket = 3"
definition i2p_socket :: socket_type_t where "i2p_socket = 4"
definition num_socket_types :: socket_type_t where "num_socket_types = 5"

record peer_class_type_filter =
  m_peer_class_type_mask :: "u32 list"
  m_peer_class_type :: "u32 list"

definition make_filter :: peer_class_type_filter where
  "make_filter =
     \<lparr>m_peer_class_type_mask = replicate (unat num_socket_types) 0xFFFFFFFF,
      m_peer_class_type = replicate (unat num_socket_types) 0\<rparr>"

section \<open>Operations\<close>

text \<open>\<open>1 << static_cast<uint32_t>(peer_class)\<close>, for a class that is at most 31.\<close>

definition class_bit :: "peer_class_t \<Rightarrow> u32" where
  "class_bit c = push_bit (unat c) 1"

text \<open>\<open>a[st] |= m\<close> and \<open>a[st] &= m\<close>.\<close>

definition or_at :: "u32 list \<Rightarrow> socket_type_t \<Rightarrow> u32 \<Rightarrow> u32 list" where
  "or_at a st m = a[unat st := a ! unat st OR m]"

definition and_at :: "u32 list \<Rightarrow> socket_type_t \<Rightarrow> u32 \<Rightarrow> u32 list" where
  "and_at a st m = a[unat st := a ! unat st AND m]"

definition add_class ::
    "socket_type_t \<Rightarrow> peer_class_t \<Rightarrow> peer_class_type_filter \<Rightarrow> peer_class_type_filter" where
  "add_class st c f =
     (if c > 31 then f
      else if st \<ge> num_socket_types then f
      else f\<lparr>m_peer_class_type := or_at (m_peer_class_type f) st (class_bit c)\<rparr>)"

definition remove_class ::
    "socket_type_t \<Rightarrow> peer_class_t \<Rightarrow> peer_class_type_filter \<Rightarrow> peer_class_type_filter" where
  "remove_class st c f =
     (if c > 31 then f
      else if st \<ge> num_socket_types then f
      else f\<lparr>m_peer_class_type := and_at (m_peer_class_type f) st (NOT (class_bit c))\<rparr>)"

definition disallow ::
    "socket_type_t \<Rightarrow> peer_class_t \<Rightarrow> peer_class_type_filter \<Rightarrow> peer_class_type_filter" where
  "disallow st c f =
     (if c > 31 then f
      else if st \<ge> num_socket_types then f
      else f\<lparr>m_peer_class_type_mask := and_at (m_peer_class_type_mask f) st (NOT (class_bit c))\<rparr>)"

definition allow ::
    "socket_type_t \<Rightarrow> peer_class_t \<Rightarrow> peer_class_type_filter \<Rightarrow> peer_class_type_filter" where
  "allow st c f =
     (if c > 31 then f
      else if st \<ge> num_socket_types then f
      else f\<lparr>m_peer_class_type_mask := or_at (m_peer_class_type_mask f) st (class_bit c)\<rparr>)"

definition apply_filter :: "socket_type_t \<Rightarrow> u32 \<Rightarrow> peer_class_type_filter \<Rightarrow> u32" where
  "apply_filter st peer_class_mask f =
     (if st \<ge> num_socket_types then peer_class_mask
      else (peer_class_mask AND m_peer_class_type_mask f ! unat st) OR m_peer_class_type f ! unat st)"

definition filter_equal :: "peer_class_type_filter \<Rightarrow> peer_class_type_filter \<Rightarrow> bool" where
  "filter_equal lhs rhs \<longleftrightarrow> m_peer_class_type_mask lhs = m_peer_class_type_mask rhs \<and>
     m_peer_class_type lhs = m_peer_class_type rhs"

section \<open>Rules\<close>

text \<open>A rule that the user sets, and the filter that a sequence of them makes.\<close>

datatype rule = Add | Remove | Disallow | Allow

type_synonym rule_call = "rule \<times> socket_type_t \<times> peer_class_t"

fun set_rule :: "peer_class_type_filter \<Rightarrow> rule_call \<Rightarrow> peer_class_type_filter" where
  "set_rule f (Add, st, c) = add_class st c f"
| "set_rule f (Remove, st, c) = remove_class st c f"
| "set_rule f (Disallow, st, c) = disallow st c f"
| "set_rule f (Allow, st, c) = allow st c f"

definition set_rules :: "rule_call list \<Rightarrow> peer_class_type_filter" where
  "set_rules rs = foldl set_rule make_filter rs"

text \<open>
  The specification: of a class and a socket type, the last \<open>Add\<close> or \<open>Remove\<close> decides whether it
  is added, and the last \<open>Allow\<close> or \<open>Disallow\<close> whether it is let through.
\<close>

fun last_of :: "rule \<Rightarrow> rule \<Rightarrow> socket_type_t \<Rightarrow> nat \<Rightarrow> bool \<Rightarrow> rule_call list \<Rightarrow> bool" where
  "last_of yes no st n def [] = def"
| "last_of yes no st n def ((r, st', c) # rs) =
     last_of yes no st n
       (if st' = st \<and> unat c = n then (if r = yes then True else if r = no then False else def) else def) rs"

definition classes :: "u32 \<Rightarrow> nat set" where
  "classes w = {n. bit w n}"

definition class_added :: "rule_call list \<Rightarrow> socket_type_t \<Rightarrow> nat \<Rightarrow> bool" where
  "class_added rs st n = last_of Add Remove st n False rs"

definition class_allowed :: "rule_call list \<Rightarrow> socket_type_t \<Rightarrow> nat \<Rightarrow> bool" where
  "class_allowed rs st n = last_of Allow Disallow st n True rs"

section \<open>Facts\<close>

definition filter_wf :: "peer_class_type_filter \<Rightarrow> bool" where
  "filter_wf f \<longleftrightarrow> length (m_peer_class_type_mask f) = 5 \<and> length (m_peer_class_type f) = 5"

lemma socket_type_bound: "st < num_socket_types \<longleftrightarrow> unat st < 5"
  by (simp add: num_socket_types_def word_less_nat_alt)

lemma bit_class_bit: "bit (class_bit c) n \<longleftrightarrow> n = unat c \<and> n < 32"
  by (auto simp: class_bit_def bit_simps)

lemma class_bound: "c > 31 \<longleftrightarrow> \<not> unat (c :: peer_class_t) < 32"
  by (simp add: word_less_nat_alt not_less) linarith

lemma bit_or_at:
  assumes "length a = 5" "unat st < 5"
  shows "bit (or_at a st' m ! unat st) n \<longleftrightarrow> bit (a ! unat st) n \<or> (st' = st \<and> bit m n)"
  using assms by (simp add: or_at_def nth_update_same_length word_unat_eq_iff bit_or_iff)

lemma bit_and_at:
  assumes "length a = 5" "unat st < 5"
  shows "bit (and_at a st' m ! unat st) n \<longleftrightarrow> bit (a ! unat st) n \<and> (st' = st \<longrightarrow> bit m n)"
  using assms by (simp add: and_at_def nth_update_same_length word_unat_eq_iff bit_and_iff)

lemma length_at [simp]: "length (or_at a st m) = length a" "length (and_at a st m) = length a"
  by (simp_all add: or_at_def and_at_def)

lemma set_rule_wf: "filter_wf f \<Longrightarrow> filter_wf (set_rule f r)"
  by (cases "(f, r)" rule: set_rule.cases)
    (auto simp: filter_wf_def add_class_def remove_class_def disallow_def allow_def)

interpretation filters: invariant_machine set_rule filter_wf
  by unfold_locales (rule set_rule_wf)

lemma set_rule_bits:
  assumes "filter_wf f" "unat st < 5" "n < 32"
  shows "bit (m_peer_class_type (set_rule f (r, st', c)) ! unat st) n =
      (if st' = st \<and> unat c = n then (if r = Add then True else if r = Remove then False
         else bit (m_peer_class_type f ! unat st) n) else bit (m_peer_class_type f ! unat st) n)"
    and "bit (m_peer_class_type_mask (set_rule f (r, st', c)) ! unat st) n =
      (if st' = st \<and> unat c = n then (if r = Allow then True else if r = Disallow then False
         else bit (m_peer_class_type_mask f ! unat st) n) else bit (m_peer_class_type_mask f ! unat st) n)"
  using assms
  by (cases r; auto simp: filter_wf_def add_class_def remove_class_def disallow_def allow_def
      bit_or_at bit_and_at bit_class_bit bit_not_iff class_bound not_less [symmetric]
      socket_type_bound)+

lemma run_bits:
  assumes "filter_wf f" "unat st < 5" "n < 32"
  shows "bit (m_peer_class_type (foldl set_rule f rs) ! unat st) n =
      last_of Add Remove st n (bit (m_peer_class_type f ! unat st) n) rs"
    and "bit (m_peer_class_type_mask (foldl set_rule f rs) ! unat st) n =
      last_of Allow Disallow st n (bit (m_peer_class_type_mask f ! unat st) n) rs"
proof (use assms(1) in \<open>induction rs arbitrary: f\<close>)
  case (Cons r rs)
  obtain k st' c where r: "r = (k, st', c)" by (cases r)
  case 1
  then show ?case
    using Cons.IH(1) [OF set_rule_wf [of f r]] set_rule_bits(1) [OF _ assms(2, 3), of f k st' c]
    by (simp only: r foldl_Cons last_of.simps)
  case 2
  then show ?case
    using Cons.IH(2) [OF set_rule_wf [of f r]] set_rule_bits(2) [OF _ assms(2, 3), of f k st' c]
    by (simp only: r foldl_Cons last_of.simps)
qed simp_all

lemma make_filter_bits:
  assumes "unat st < 5" "n < 32"
  shows "\<not> bit (m_peer_class_type make_filter ! unat st) n"
    and "bit (m_peer_class_type_mask make_filter ! unat st) n"
proof -
  have ones: "(0xFFFFFFFF :: u32) = - 1" by simp
  have "bit (0xFFFFFFFF :: u32) n" unfolding ones using assms(2) by simp
  then show "bit (m_peer_class_type_mask make_filter ! unat st) n"
    "\<not> bit (m_peer_class_type make_filter ! unat st) n"
    using assms by (simp_all add: make_filter_def num_socket_types_def)
qed

lemma make_filter_wf: "filter_wf make_filter"
  by (simp add: filter_wf_def make_filter_def num_socket_types_def)

section \<open>Property\<close>

text \<open>
  C13. The masks implement the rules. For a filter built by any sequence of \<open>add\<close>, \<open>remove\<close>,
  \<open>disallow\<close> and \<open>allow\<close>, with any arguments, a peer of a socket type gets exactly the classes it
  had that are not disallowed last, and those added last; rules with a class above 31 and types
  outside the enumeration have no effect.
\<close>

theorem peer_class_rules:
  "classes (apply_filter st w (set_rules rs)) =
     (if st < num_socket_types
      then {n \<in> classes w. class_allowed rs st n} \<union> {n. n < 32 \<and> class_added rs st n}
      else classes w)"
proof (cases "st < num_socket_types")
  case True
  then have st: "unat st < 5" by (simp add: socket_type_bound)
  have bits: "bit v n \<Longrightarrow> n < 32" for v :: u32 and n
    using bit_imp_le_length [of v n] by simp
  have iff: "n \<in> classes (apply_filter st w (set_rules rs)) \<longleftrightarrow>
      n \<in> classes w \<and> class_allowed rs st n \<or> class_added rs st n" if "n < 32" for n
    using True [unfolded not_le [symmetric]] that run_bits [OF make_filter_wf st that, of rs] make_filter_bits [OF st that]
    by (simp add: apply_filter_def set_rules_def classes_def class_added_def class_allowed_def
        bit_or_iff bit_and_iff)
  have "n < 32" if "n \<in> classes v" for n v
    using that bits by (simp add: classes_def)
  then show ?thesis using True by (auto dest: iff [THEN iffD1, rotated] intro: iff [THEN iffD2])
qed (auto simp: apply_filter_def)

end
