(* ===== verification/Transfer_Stat.thy ===== *)
theory Transfer_Stat
  imports Complex_Main Getzy_Prelude "HOL-Library.Monad_Syntax"
begin

text \<open>
  \<open>stat.hpp\<close>: the transfer statistics of a peer, a torrent and the session. Each of the six
  channels counts the bytes of the current second in 32 bits and all bytes in 64 bits; an
  addition that does not fit is undefined, here \<open>None\<close>. \<open>stat_channel::second_tick\<close> is in the
  prebuilt library and the argument \<open>tick\<close>.
\<close>

section \<open>A channel\<close>

record stat_channel =
  m_total_counter :: int
  m_counter :: int
  m_5_sec_average :: int

definition make_channel :: stat_channel where
  "make_channel = \<lparr>m_total_counter = 0, m_counter = 0, m_5_sec_average = 0\<rparr>"

definition channel_add :: "int \<Rightarrow> stat_channel \<Rightarrow> stat_channel option" where
  "channel_add count c =
     do {
       n \<leftarrow> c_int (m_counter c + count);
       t \<leftarrow> c_int64 (m_total_counter c + count);
       Some (c\<lparr>m_counter := n, m_total_counter := t\<rparr>)
     }"

text \<open>\<open>operator+=\<close>\<close>

definition channel_plus :: "stat_channel \<Rightarrow> stat_channel \<Rightarrow> stat_channel option" where
  "channel_plus c s =
     do {
       n \<leftarrow> c_int (m_counter c + m_counter s);
       t \<leftarrow> c_int64 (m_total_counter c + m_counter s);
       Some (c\<lparr>m_counter := n, m_total_counter := t\<rparr>)
     }"

definition channel_rate :: "stat_channel \<Rightarrow> int" where
  "channel_rate c = m_5_sec_average c"

definition low_pass_rate :: "stat_channel \<Rightarrow> int" where
  "low_pass_rate c = m_5_sec_average c"

definition channel_total :: "stat_channel \<Rightarrow> int" where
  "channel_total c = m_total_counter c"

definition channel_offset :: "int \<Rightarrow> stat_channel \<Rightarrow> stat_channel option" where
  "channel_offset n c =
     do { t \<leftarrow> c_int64 (m_total_counter c + n); Some (c\<lparr>m_total_counter := t\<rparr>) }"

definition channel_counter :: "stat_channel \<Rightarrow> int" where
  "channel_counter c = m_counter c"

definition channel_clear :: "stat_channel \<Rightarrow> stat_channel" where
  "channel_clear c = c\<lparr>m_counter := 0, m_5_sec_average := 0, m_total_counter := 0\<rparr>"

section \<open>The channels of a connection\<close>

definition upload_payload :: nat where "upload_payload = 0"
definition upload_protocol :: nat where "upload_protocol = 1"
definition download_payload :: nat where "download_payload = 2"
definition download_protocol :: nat where "download_protocol = 3"
definition upload_ip_protocol :: nat where "upload_ip_protocol = 4"
definition download_ip_protocol :: nat where "download_ip_protocol = 5"
definition num_channels :: nat where "num_channels = 6"

lemmas channel_names = upload_payload_def upload_protocol_def download_payload_def
  download_protocol_def upload_ip_protocol_def download_ip_protocol_def num_channels_def

text \<open>\<open>m_stat\<close>\<close>

type_synonym stat = "stat_channel list"

definition make_stat :: stat where
  "make_stat = replicate num_channels make_channel"

text \<open>\<open>m_stat[ch].add(n)\<close>\<close>

definition add_to :: "nat \<Rightarrow> int \<Rightarrow> stat \<Rightarrow> stat option" where
  "add_to ch n s = map_option (\<lambda>c. s[ch := c]) (channel_add n (s ! ch))"

fun stat_plus :: "stat \<Rightarrow> stat \<Rightarrow> stat option" where
  "stat_plus (c # cs) (d # ds) =
     do { c' \<leftarrow> channel_plus c d; cs' \<leftarrow> stat_plus cs ds; Some (c' # cs') }"
| "stat_plus s t = Some s"

definition syn_bytes :: "bool \<Rightarrow> int" where
  "syn_bytes ipv6 = (if ipv6 then 60 else 40)"

definition sent_syn :: "bool \<Rightarrow> stat \<Rightarrow> stat option" where
  "sent_syn ipv6 s = add_to upload_ip_protocol (syn_bytes ipv6) s"

definition received_synack :: "bool \<Rightarrow> stat \<Rightarrow> stat option" where
  "received_synack ipv6 s =
     do {
       s1 \<leftarrow> add_to download_ip_protocol (syn_bytes ipv6) s;
       add_to upload_ip_protocol (syn_bytes ipv6) s1
     }"

definition received_bytes :: "int \<Rightarrow> int \<Rightarrow> stat \<Rightarrow> stat option" where
  "received_bytes bytes_payload bytes_protocol s =
     do {
       s1 \<leftarrow> add_to download_payload bytes_payload s;
       add_to download_protocol bytes_protocol s1
     }"

definition sent_bytes :: "int \<Rightarrow> int \<Rightarrow> stat \<Rightarrow> stat option" where
  "sent_bytes bytes_payload bytes_protocol s =
     do {
       s1 \<leftarrow> add_to upload_payload bytes_payload s;
       add_to upload_protocol bytes_protocol s1
     }"

text \<open>The division of C++ rounds towards zero.\<close>

definition packet_overhead :: "int \<Rightarrow> bool \<Rightarrow> int option" where
  "packet_overhead bytes_transferred ipv6 =
     (let header = (if ipv6 then 40 else 20) + 20;
          mtu = 1500;
          packet_size = mtu - header
      in do {
           a \<leftarrow> c_int (bytes_transferred + packet_size);
           b \<leftarrow> c_int (a - 1);
           c_int (max 1 (b sdiv packet_size) * header)
         })"

definition trancieve_ip_packet :: "int \<Rightarrow> bool \<Rightarrow> stat \<Rightarrow> stat option" where
  "trancieve_ip_packet bytes_transferred ipv6 s =
     do {
       overhead \<leftarrow> packet_overhead bytes_transferred ipv6;
       s1 \<leftarrow> add_to download_ip_protocol overhead s;
       add_to upload_ip_protocol overhead s1
     }"

definition upload_ip_overhead :: "stat \<Rightarrow> int" where
  "upload_ip_overhead s = channel_counter (s ! upload_ip_protocol)"

definition download_ip_overhead :: "stat \<Rightarrow> int" where
  "download_ip_overhead s = channel_counter (s ! download_ip_protocol)"

definition second_tick :: "(int \<Rightarrow> stat_channel \<Rightarrow> stat_channel) \<Rightarrow> int \<Rightarrow> stat \<Rightarrow> stat" where
  "second_tick tick tick_interval_ms s = map (tick tick_interval_ms) s"

text \<open>The sum of three values of type \<open>int\<close>, from left to right.\<close>

definition sum3 :: "(int \<Rightarrow> int option) \<Rightarrow> int \<Rightarrow> int \<Rightarrow> int \<Rightarrow> int option" where
  "sum3 fit a b c = do { ab \<leftarrow> fit (a + b); fit (ab + c) }"

definition low_pass_upload_rate :: "stat \<Rightarrow> int option" where
  "low_pass_upload_rate s = sum3 c_int (low_pass_rate (s ! upload_payload))
     (low_pass_rate (s ! upload_protocol)) (low_pass_rate (s ! upload_ip_protocol))"

definition low_pass_download_rate :: "stat \<Rightarrow> int option" where
  "low_pass_download_rate s = sum3 c_int (low_pass_rate (s ! download_payload))
     (low_pass_rate (s ! download_protocol)) (low_pass_rate (s ! download_ip_protocol))"

definition upload_rate :: "stat \<Rightarrow> int option" where
  "upload_rate s = sum3 c_int (channel_rate (s ! upload_payload))
     (channel_rate (s ! upload_protocol)) (channel_rate (s ! upload_ip_protocol))"

definition download_rate :: "stat \<Rightarrow> int option" where
  "download_rate s = sum3 c_int (channel_rate (s ! download_payload))
     (channel_rate (s ! download_protocol)) (channel_rate (s ! download_ip_protocol))"

definition total_upload :: "stat \<Rightarrow> int option" where
  "total_upload s = sum3 c_int64 (channel_total (s ! upload_payload))
     (channel_total (s ! upload_protocol)) (channel_total (s ! upload_ip_protocol))"

definition total_download :: "stat \<Rightarrow> int option" where
  "total_download s = sum3 c_int64 (channel_total (s ! download_payload))
     (channel_total (s ! download_protocol)) (channel_total (s ! download_ip_protocol))"

definition upload_payload_rate :: "stat \<Rightarrow> int" where
  "upload_payload_rate s = channel_rate (s ! upload_payload)"

definition download_payload_rate :: "stat \<Rightarrow> int" where
  "download_payload_rate s = channel_rate (s ! download_payload)"

definition total_payload_upload :: "stat \<Rightarrow> int" where
  "total_payload_upload s = channel_total (s ! upload_payload)"

definition total_payload_download :: "stat \<Rightarrow> int" where
  "total_payload_download s = channel_total (s ! download_payload)"

definition total_protocol_upload :: "stat \<Rightarrow> int" where
  "total_protocol_upload s = channel_total (s ! upload_protocol)"

definition total_protocol_download :: "stat \<Rightarrow> int" where
  "total_protocol_download s = channel_total (s ! download_protocol)"

definition total_transfer :: "nat \<Rightarrow> stat \<Rightarrow> int" where
  "total_transfer channel s = channel_total (s ! channel)"

definition transfer_rate :: "nat \<Rightarrow> stat \<Rightarrow> int" where
  "transfer_rate channel s = channel_rate (s ! channel)"

definition add_stat :: "int \<Rightarrow> int \<Rightarrow> stat \<Rightarrow> stat option" where
  "add_stat downloaded uploaded s =
     do {
       d \<leftarrow> channel_offset downloaded (s ! download_payload);
       let s1 = s[download_payload := d];
       u \<leftarrow> channel_offset uploaded (s1 ! upload_payload);
       Some (s1[upload_payload := u])
     }"

definition last_payload_downloaded :: "stat \<Rightarrow> int" where
  "last_payload_downloaded s = channel_counter (s ! download_payload)"

definition last_payload_uploaded :: "stat \<Rightarrow> int" where
  "last_payload_uploaded s = channel_counter (s ! upload_payload)"

definition last_protocol_downloaded :: "stat \<Rightarrow> int" where
  "last_protocol_downloaded s = channel_counter (s ! download_protocol)"

definition last_protocol_uploaded :: "stat \<Rightarrow> int" where
  "last_protocol_uploaded s = channel_counter (s ! upload_protocol)"

definition stat_clear :: "stat \<Rightarrow> stat" where
  "stat_clear s = map channel_clear s"

section \<open>Accounting\<close>

text \<open>What happens to the statistics of a connection.\<close>

datatype stat_event =
    Sent_Syn bool
  | Received_Synack bool
  | Received_Bytes int int
  | Sent_Bytes int int
  | Ip_Packet int bool
  | Add_Stat int int
  | Plus stat
  | Second_Tick int
  | Clear

fun stat_step :: "(int \<Rightarrow> stat_channel \<Rightarrow> stat_channel) \<Rightarrow> stat \<Rightarrow> stat_event \<Rightarrow> stat option" where
  "stat_step tick s (Sent_Syn v6) = sent_syn v6 s"
| "stat_step tick s (Received_Synack v6) = received_synack v6 s"
| "stat_step tick s (Received_Bytes a b) = received_bytes a b s"
| "stat_step tick s (Sent_Bytes a b) = sent_bytes a b s"
| "stat_step tick s (Ip_Packet n v6) = trancieve_ip_packet n v6 s"
| "stat_step tick s (Add_Stat d u) = add_stat d u s"
| "stat_step tick s (Plus t) = stat_plus s t"
| "stat_step tick s (Second_Tick ms) = Some (second_tick tick ms s)"
| "stat_step tick s Clear = Some (stat_clear s)"

fun stat_run :: "(int \<Rightarrow> stat_channel \<Rightarrow> stat_channel) \<Rightarrow> stat \<Rightarrow> stat_event list \<Rightarrow> stat option" where
  "stat_run tick s [] = Some s"
| "stat_run tick s (e # es) = Option.bind (stat_step tick s e) (\<lambda>t. stat_run tick t es)"

text \<open>
  The specification keeps, of each channel, the bytes of the running second and all bytes, as
  unbounded numbers. \<open>charged\<close> is what an event adds to both and \<open>offsets\<close> what it adds to the
  second only: an IP packet costs, in both directions, a header for each packet of a
  1500-byte MTU that its bytes need, and at least one.
\<close>

type_synonym ledger = "(int \<times> int) list"

fun charged :: "stat_event \<Rightarrow> int list" where
  "charged (Sent_Syn v6) = [0, 0, 0, 0, syn_bytes v6, 0]"
| "charged (Received_Synack v6) = [0, 0, 0, 0, syn_bytes v6, syn_bytes v6]"
| "charged (Received_Bytes a b) = [0, 0, a, b, 0, 0]"
| "charged (Sent_Bytes a b) = [a, b, 0, 0, 0, 0]"
| "charged (Ip_Packet n v6) =
     (let h = (if v6 then 60 else 40) in
      let cost = h * max 1 \<lceil>rat_of_int n / rat_of_int (1500 - h)\<rceil> in [0, 0, 0, 0, cost, cost])"
| "charged (Plus t) = map m_counter t"
| "charged e = [0, 0, 0, 0, 0, 0]"

fun offsets :: "stat_event \<Rightarrow> int list" where
  "offsets (Add_Stat d u) = [u, 0, d, 0, 0, 0]"
| "offsets e = [0, 0, 0, 0, 0, 0]"

fun ledger_step :: "ledger \<Rightarrow> stat_event \<Rightarrow> ledger" where
  "ledger_step l (Second_Tick ms) = map (\<lambda>(c, t). (0, t)) l"
| "ledger_step l Clear = map (\<lambda>(c, t). (0, 0)) l"
| "ledger_step l e =
     map (\<lambda>((c, t), (n, k)). (c + n, t + n + k)) (zip l (zip (charged e) (offsets e)))"

definition ledger_run :: "ledger \<Rightarrow> stat_event list \<Rightarrow> ledger" where
  "ledger_run l es = foldl ledger_step l es"

definition ledger_of :: "stat \<Rightarrow> ledger" where
  "ledger_of s = map (\<lambda>c. (m_counter c, m_total_counter c)) s"

definition ledger_fits :: "ledger \<Rightarrow> bool" where
  "ledger_fits l \<longleftrightarrow> (\<forall>(c, t) \<in> set l. in_int32 c \<and> in_int64 t)"

text \<open>
  What the code asserts of its arguments, and what it needs of \<open>tick\<close>: a new second starts with
  an empty accumulator and the total is kept.
\<close>

fun valid_event :: "stat_event \<Rightarrow> bool" where
  "valid_event (Received_Bytes a b) \<longleftrightarrow> 0 \<le> a \<and> 0 \<le> b"
| "valid_event (Sent_Bytes a b) \<longleftrightarrow> 0 \<le> a \<and> 0 \<le> b"
| "valid_event (Ip_Packet n v6) \<longleftrightarrow> 0 \<le> n \<and> n \<le> 2147482000"
| "valid_event (Plus t) \<longleftrightarrow> length t = 6"
| "valid_event e \<longleftrightarrow> True"

definition tick_contract :: "(int \<Rightarrow> stat_channel \<Rightarrow> stat_channel) \<Rightarrow> bool" where
  "tick_contract tick \<longleftrightarrow>
     (\<forall>ms c. m_counter (tick ms c) = 0 \<and> m_total_counter (tick ms c) = m_total_counter c)"

section \<open>Facts\<close>

lemma six_channels:
  assumes "length s = 6"
  obtains a b c d e f where "s = [a, b, c, d, e, f]"
  using assms by (auto simp: numeral_eq_Suc length_Suc_conv)

lemma channel_add_cases:
  "channel_add n c = (if in_int32 (m_counter c + n) \<and> in_int64 (m_total_counter c + n)
     then Some (c\<lparr>m_counter := m_counter c + n, m_total_counter := m_total_counter c + n\<rparr>) else None)"
  "channel_plus c d = (if in_int32 (m_counter c + m_counter d) \<and> in_int64 (m_total_counter c + m_counter d)
     then Some (c\<lparr>m_counter := m_counter c + m_counter d,
       m_total_counter := m_total_counter c + m_counter d\<rparr>) else None)"
  "channel_offset n c = (if in_int64 (m_total_counter c + n)
     then Some (c\<lparr>m_total_counter := m_total_counter c + n\<rparr>) else None)"
  by (simp_all add: channel_add_def channel_plus_def channel_offset_def c_int_def c_int64_def)

lemma ceiling_div:
  assumes "0 < (d :: int)"
  shows "\<lceil>rat_of_int n / rat_of_int d\<rceil> = (n + d - 1) div d"
proof (rule ceiling_unique)
  define q r where "q = (n + d - 1) div d" and "r = (n + d - 1) mod d"
  have "q * d + r = n + d - 1" "0 \<le> r" "r < d" using assms by (simp_all add: q_def r_def)
  then have "(q - 1) * d < n" "n \<le> q * d" by (simp_all add: left_diff_distrib)
  then have "rat_of_int ((q - 1) * d) < rat_of_int n" "rat_of_int n \<le> rat_of_int (q * d)"
    by (simp_all only: of_int_less_iff of_int_le_iff)
  then show "rat_of_int ((n + d - 1) div d) - 1 < rat_of_int n / rat_of_int d"
    "rat_of_int n / rat_of_int d \<le> rat_of_int ((n + d - 1) div d)"
    using assms by (simp_all only: q_def [symmetric]) (simp_all add: field_simps)
qed

lemma packet_overhead_cost:
  assumes "0 \<le> n" "n \<le> 2147482000"
  shows "packet_overhead n v6 =
    Some ((if v6 then 60 else 40) * max 1 \<lceil>rat_of_int n / rat_of_int (1500 - (if v6 then 60 else 40))\<rceil>)"
proof -
  have room: "c_int (n + d) = Some (n + d)" "c_int (n + d - 1) = Some (n + d - 1)"
    if "0 < d" "d \<le> 1460" for d
    using that assms by (simp_all add: c_int_def in_int32_def)
  have quot: "(n + d - 1) sdiv d = (n + d - 1) div d" if "0 < d" for d
    using that assms by (auto simp: signed_divide_int_def sgn_if)
  have bound: "c_int (max 1 ((n + d - 1) div d) * h) = Some (h * max 1 ((n + d - 1) div d))"
    if "1440 \<le> d" "d \<le> 1460" "0 \<le> h" "h \<le> 60" for d h
  proof -
    have "(n + d - 1) div d \<le> (n + d - 1) div 1440"
      using that assms by (intro zdiv_mono2) auto
    also have "\<dots> \<le> 1491308" using that assms by simp
    finally have "max 1 ((n + d - 1) div d) * h \<le> 1491308 * 60"
      using that by (intro mult_mono) auto
    moreover have "0 \<le> max 1 ((n + d - 1) div d) * h" using that by simp
    ultimately show ?thesis by (simp add: c_int_def in_int32_def mult.commute)
  qed
  show ?thesis
    using room [of 1440] room [of 1460] quot [of 1440] quot [of 1460] bound [of 1440 60]
      bound [of 1460 40] ceiling_div [of 1440 n] ceiling_div [of 1460 n]
    by (simp add: packet_overhead_def)
qed

lemma ledger_fits_simps:
  "ledger_fits [] = True"
  "ledger_fits ((c, t) # l) \<longleftrightarrow> in_int32 c \<and> in_int64 t \<and> ledger_fits l"
  by (simp_all add: ledger_fits_def)

lemma ledger_of_Cons [simp]:
  "ledger_of [] = []" "ledger_of (c # s) = (m_counter c, m_total_counter c) # ledger_of s"
  by (simp_all add: ledger_of_def)

text \<open>One event: the code keeps the ledger, or the ledger no longer fits.\<close>

definition keeps_ledger :: "stat option \<Rightarrow> ledger \<Rightarrow> bool" where
  "keeps_ledger r l \<longleftrightarrow> (case r of Some s \<Rightarrow> ledger_of s = l \<and> length s = 6 | None \<Rightarrow> \<not> ledger_fits l)"

lemma stat_plus_keeps:
  "length s = length t \<Longrightarrow>
    (case stat_plus s t of
       Some s' \<Rightarrow> length s' = length s \<and>
         ledger_of s' = map (\<lambda>((c, t), n). (c + n, t + n)) (zip (ledger_of s) (map m_counter t))
     | None \<Rightarrow> \<not> ledger_fits (map (\<lambda>((c, t), n). (c + n, t + n)) (zip (ledger_of s) (map m_counter t))))"
  by (induction s t rule: list_induct2)
    (auto simp: channel_add_cases ledger_fits_simps split: option.splits bind_splits)

lemma step_keeps_ledger:
  assumes "tick_contract tick" "valid_event e" "length s = 6"
  shows "keeps_ledger (stat_step tick s e) (ledger_step (ledger_of s) e)"
proof -
  obtain a b c d e' f where s: "s = [a, b, c, d, e', f]" using six_channels [OF assms(3)] .
  note ops = add_to_def channel_names channel_add_cases keeps_ledger_def ledger_fits_simps
  show ?thesis
  proof (cases e)
    case (Plus t)
    with assms(2) have "length t = 6" by simp
    then obtain p q r u v w where "t = [p, q, r, u, v, w]" by (rule six_channels)
    with Plus stat_plus_keeps [of s t] show ?thesis
      by (simp add: s keeps_ledger_def split: option.splits)
  next
    case (Ip_Packet n v6)
    with assms(2) have "packet_overhead n v6 = Some (charged e ! 4)"
      using packet_overhead_cost [of n v6] by (simp add: Let_def)
    then show ?thesis
      using Ip_Packet by (auto simp: s ops trancieve_ip_packet_def Let_def)
  next
    case (Second_Tick ms)
    then show ?thesis using assms(1) by (simp add: s ops second_tick_def tick_contract_def)
  qed (auto simp: s ops sent_syn_def received_synack_def received_bytes_def sent_bytes_def
      add_stat_def stat_clear_def channel_clear_def Let_def)
qed

lemma run_keeps_ledger:
  assumes "tick_contract tick"
  shows "\<forall>e\<in>set es. valid_event e \<Longrightarrow> length s = 6 \<Longrightarrow>
    (case stat_run tick s es of
       Some t \<Rightarrow> ledger_of t = ledger_run (ledger_of s) es
     | None \<Rightarrow> \<exists>n \<le> length es. \<not> ledger_fits (ledger_run (ledger_of s) (take n es)))"
proof (induction es arbitrary: s)
  case Nil
  then show ?case by (simp add: ledger_run_def)
next
  case (Cons e es)
  from Cons.prems have step: "keeps_ledger (stat_step tick s e) (ledger_step (ledger_of s) e)"
    by (simp add: step_keeps_ledger assms)
  show ?case
  proof (cases "stat_step tick s e")
    case None
    with step have "\<not> ledger_fits (ledger_run (ledger_of s) (take 1 (e # es)))"
      by (simp add: keeps_ledger_def ledger_run_def)
    then have "\<exists>n \<le> length (e # es). \<not> ledger_fits (ledger_run (ledger_of s) (take n (e # es)))"
      by (intro exI [of _ 1]) simp
    with None show ?thesis by simp
  next
    case (Some t)
    with step have t: "ledger_of t = ledger_step (ledger_of s) e" "length t = 6"
      by (simp_all add: keeps_ledger_def)
    have shift: "ledger_run (ledger_of t) fs = ledger_run (ledger_of s) (e # fs)" for fs
      by (simp add: ledger_run_def t(1))
    show ?thesis
    proof (cases "stat_run tick t es")
      case None
      with Cons.IH [of t] Cons.prems t(2) obtain n where
        "n \<le> length es" "\<not> ledger_fits (ledger_run (ledger_of s) (take (Suc n) (e # es)))"
        by (auto simp: shift)
      with Some None show ?thesis by (auto intro!: exI [of _ "Suc n"])
    next
      case (Some u)
      with Cons.IH [of t] Cons.prems t(2) \<open>stat_step tick s e = Some t\<close> show ?thesis
        by (simp add: shift)
    qed
  qed
qed

section \<open>Property\<close>

text \<open>
  C38. The statistics keep the ledger of what happened. Whatever is sent and received, in any
  order, the counters of the six channels are the sums of what the events cost: payload and
  protocol bytes, 40 or 60 bytes for a SYN, one header in each direction for every packet that the
  transferred bytes need at an MTU of 1500. A new second empties the per-second counters and keeps
  the totals. The code goes wrong only when a per-second sum leaves 32 bits or a total 64 bits.
\<close>

theorem transfer_stats_accounted:
  assumes "tick_contract tick" "\<forall>e\<in>set es. valid_event e" "length s = 6"
  shows "case stat_run tick s es of
      Some t \<Rightarrow> ledger_of t = ledger_run (ledger_of s) es
    | None \<Rightarrow> \<exists>n \<le> length es. \<not> ledger_fits (ledger_run (ledger_of s) (take n es))"
  using run_keeps_ledger [OF assms(1, 2, 3)] .

theorem transfer_stats_accounted_witness:
  "map_option ledger_of (stat_run (\<lambda>ms c. c\<lparr>m_counter := 0\<rparr>) make_stat
      [Sent_Syn False, Received_Synack True, Sent_Bytes 1000 20, Second_Tick 1000,
       Received_Bytes 5 6, Add_Stat 7 8, Ip_Packet 0 False]) =
    Some [(0, 1008), (0, 20), (5, 12), (6, 6), (40, 140), (40, 100)]"
proof -
  let ?tick = "\<lambda>(ms :: int) c. c\<lparr>m_counter := 0\<rparr>"
  let ?es = "[Sent_Syn False, Received_Synack True, Sent_Bytes 1000 20, Second_Tick 1000,
    Received_Bytes 5 6, Add_Stat 7 8, Ip_Packet 0 False]"
  have "ledger_run (ledger_of make_stat) ?es =
      [(0, 1008), (0, 20), (5, 12), (6, 6), (40, 140), (40, 100)]"
    by (simp add: ledger_run_def make_stat_def num_channels_def make_channel_def syn_bytes_def
        numeral_eq_Suc)
  moreover have "stat_run ?tick make_stat ?es \<noteq> None"
    by (simp add: make_stat_def make_channel_def channel_names channel_add_cases add_to_def
        sent_syn_def received_synack_def received_bytes_def sent_bytes_def add_stat_def
        second_tick_def trancieve_ip_packet_def packet_overhead_cost syn_bytes_def
        in_int32_def in_int64_def eval_nat_numeral)
  ultimately show ?thesis
    using transfer_stats_accounted [of ?tick ?es make_stat]
    by (auto simp: tick_contract_def make_stat_def num_channels_def)
qed

end
