(* ===== verification/Torrent_Content.thy ===== *)
theory Torrent_Content
  imports Flags
begin

text \<open>
  What a torrent consists of: the inline part of \<open>file_storage.hpp\<close> and \<open>torrent_info.hpp\<close>. The list
  of files and the functions that map pieces to files are in the prebuilt library; of the files only
  their number is kept. The info section is a buffer of \<open>m_info_section_size\<close> bytes, in which
  \<open>m_piece_hashes\<close> is the offset of the first SHA-1 hash; of the other members of \<open>torrent_info\<close> the
  record has those that the operations below use; a pointer into it is an offset, and one
  that is computed with an overflow of \<open>int\<close> or outside the buffer is \<open>None\<close>.
\<close>

section \<open>\<open>file_storage\<close>\<close>

record storage_layout =
  fs_piece_length :: int
  fs_num_pieces :: int
  fs_v2 :: bool
  fs_num_files :: nat
  fs_name :: bytes
  fs_total_size :: int

definition layout_init :: storage_layout where
  "layout_init = \<lparr>fs_piece_length = 0, fs_num_pieces = 0, fs_v2 = False, fs_num_files = 0,
     fs_name = [], fs_total_size = 0\<rparr>"

definition fs_is_valid :: "storage_layout \<Rightarrow> bool" where
  "fs_is_valid fs \<longleftrightarrow> fs_piece_length fs > 0"

definition set_num_pieces :: "int \<Rightarrow> storage_layout \<Rightarrow> storage_layout" where
  "set_num_pieces n fs = fs\<lparr>fs_num_pieces := n\<rparr>"

definition set_piece_length :: "int \<Rightarrow> storage_layout \<Rightarrow> storage_layout" where
  "set_piece_length l fs = fs\<lparr>fs_piece_length := l\<rparr>"

definition set_name :: "bytes \<Rightarrow> storage_layout \<Rightarrow> storage_layout" where
  "set_name n fs = fs\<lparr>fs_name := n\<rparr>"

definition fs_end_piece :: "storage_layout \<Rightarrow> int" where
  "fs_end_piece fs = fs_num_pieces fs"

definition fs_last_piece :: "storage_layout \<Rightarrow> int option" where
  "fs_last_piece fs = c_int (fs_num_pieces fs - 1)"

section \<open>\<open>torrent_info\<close>\<close>

type_synonym torrent_info_flags_t = byte

definition multifile :: torrent_info_flags_t where "multifile = flag_bit 0"
definition private_torrent :: torrent_info_flags_t where "private_torrent = flag_bit 1"
definition i2p_flag :: torrent_info_flags_t where "i2p_flag = flag_bit 2"
definition ssl_torrent_flag :: torrent_info_flags_t where "ssl_torrent_flag = flag_bit 3"
definition v2_has_piece_hashes :: torrent_info_flags_t where "v2_has_piece_hashes = flag_bit 4"

record torrent_info =
  m_files :: storage_layout
  m_urls :: "bytes list"
  m_web_seeds :: "bytes list"
  m_nodes :: "(bytes \<times> int) list"
  m_merkle_tree :: "bytes list"
  m_info_section :: bytes
  m_comment :: bytes
  m_created_by :: bytes
  m_creation_date :: int
  m_piece_hashes :: int
  m_info_section_size :: int
  m_info_flags :: torrent_info_flags_t

definition ti_is_valid :: "torrent_info \<Rightarrow> bool" where
  "ti_is_valid ti = fs_is_valid (m_files ti)"

definition ti_total_size :: "torrent_info \<Rightarrow> int" where
  "ti_total_size ti = fs_total_size (m_files ti)"

definition ti_piece_length :: "torrent_info \<Rightarrow> int" where
  "ti_piece_length ti = fs_piece_length (m_files ti)"

definition ti_num_pieces :: "torrent_info \<Rightarrow> int" where
  "ti_num_pieces ti = fs_num_pieces (m_files ti)"

definition ti_end_piece :: "torrent_info \<Rightarrow> int" where
  "ti_end_piece ti = fs_end_piece (m_files ti)"

definition ti_last_piece :: "torrent_info \<Rightarrow> int option" where
  "ti_last_piece ti = fs_last_piece (m_files ti)"

definition ti_num_files :: "torrent_info \<Rightarrow> nat" where
  "ti_num_files ti = fs_num_files (m_files ti)"

definition ti_name :: "torrent_info \<Rightarrow> bytes" where
  "ti_name ti = fs_name (m_files ti)"

definition is_loaded :: "torrent_info \<Rightarrow> bool" where
  "is_loaded ti \<longleftrightarrow> fs_num_files (m_files ti) > 0"

definition priv :: "torrent_info \<Rightarrow> bool" where
  "priv ti = flag_test (flag_and (m_info_flags ti) private_torrent)"

definition ti_is_i2p :: "torrent_info \<Rightarrow> bool" where
  "ti_is_i2p ti = flag_test (flag_and (m_info_flags ti) i2p_flag)"

definition v2_piece_hashes_verified :: "torrent_info \<Rightarrow> bool" where
  "v2_piece_hashes_verified ti = flag_test (flag_and (m_info_flags ti) v2_has_piece_hashes)"

definition add_node :: "bytes \<times> int \<Rightarrow> torrent_info \<Rightarrow> torrent_info" where
  "add_node node ti = ti\<lparr>m_nodes := m_nodes ti @ [node]\<rparr>"

text \<open>\<open>_internal_drain\<close> moves the three lists out.\<close>

definition internal_drain ::
    "torrent_info \<Rightarrow> (bytes list \<times> bytes list \<times> (bytes \<times> int) list) \<times> torrent_info" where
  "internal_drain ti =
     ((m_urls ti, m_web_seeds ti, m_nodes ti), ti\<lparr>m_urls := [], m_web_seeds := [], m_nodes := []\<rparr>)"

text \<open>\<open>set_merkle_tree\<close> swaps the tree with its argument.\<close>

definition set_merkle_tree :: "bytes list \<Rightarrow> torrent_info \<Rightarrow> bytes list \<times> torrent_info" where
  "set_merkle_tree h ti = (m_merkle_tree ti, ti\<lparr>m_merkle_tree := h\<rparr>)"

definition is_merkle_torrent :: "torrent_info \<Rightarrow> bool" where
  "is_merkle_torrent ti \<longleftrightarrow> m_merkle_tree ti \<noteq> []"

definition info_section :: "torrent_info \<Rightarrow> bytes" where
  "info_section ti = take (nat (m_info_section_size ti)) (m_info_section ti)"

definition metadata_size :: "torrent_info \<Rightarrow> int" where
  "metadata_size ti = m_info_section_size ti"

text \<open>
  \<open>&m_info_section[std::ptrdiff_t(m_piece_hashes) + idx * 20]\<close>: the product is an \<open>int\<close>.
\<close>

definition hash_for_piece_ptr :: "torrent_info \<Rightarrow> int \<Rightarrow> nat option" where
  "hash_for_piece_ptr ti idx =
     (case c_int (idx * 20) of
        None \<Rightarrow> None
      | Some n \<Rightarrow>
          (let off = m_piece_hashes ti + n in
           if 0 \<le> off \<and> off < int (length (m_info_section ti)) then Some (nat off) else None))"

section \<open>Properties\<close>

text \<open>
  The info section holds the hashes of the pieces one after the other, from \<open>m_piece_hashes\<close> on.
\<close>

definition hashes_at :: "bytes list \<Rightarrow> torrent_info \<Rightarrow> bool" where
  "hashes_at hs ti \<longleftrightarrow> (\<forall>h \<in> set hs. length h = 20) \<and>
     m_info_section_size ti = int (length (m_info_section ti)) \<and>
     in_int32 (m_info_section_size ti) \<and>
     (\<exists>pre post. m_info_section ti = pre @ concat hs @ post \<and> m_piece_hashes ti = int (length pre))"

lemma length_concat_hashes: "\<forall>h \<in> set hs. length h = 20 \<Longrightarrow> length (concat hs) = 20 * length hs"
  by (induction hs) auto

lemma concat_hash_nth:
  assumes "\<forall>h \<in> set hs. length h = 20" "i < length hs"
  shows "take 20 (drop (20 * i) (concat hs @ post)) = hs ! i"
proof -
  have "concat hs = concat (take i hs) @ hs ! i @ concat (drop (Suc i) hs)"
    using id_take_nth_drop [OF assms(2)] by (metis concat.simps(2) concat_append)
  moreover have "length (concat (take i hs)) = 20 * i" "length (hs ! i) = 20"
    using assms length_concat_hashes [of "take i hs"] by (auto dest: in_set_takeD)
  ultimately show ?thesis by simp
qed

text \<open>
  C29. The pointer to the hash of a piece. When the info section holds the hashes of the pieces from
  \<open>m_piece_hashes\<close> on, \<open>hash_for_piece_ptr\<close> computes, for every piece, without overflow, a pointer
  to exactly the hash of this piece, and all its 20 bytes are within the info section; for the index
  behind the last piece it points behind the hashes or leaves the section.
\<close>

theorem piece_hash_located:
  assumes "hashes_at hs ti"
  shows "(\<forall>i < length hs. \<exists>p. hash_for_piece_ptr ti (int i) = Some p \<and>
      p + 20 \<le> length (info_section ti) \<and> take 20 (drop p (info_section ti)) = hs ! i) \<and>
    (\<forall>p. hash_for_piece_ptr ti (int (length hs)) = Some p \<longrightarrow>
      int p = m_piece_hashes ti + 20 * int (length hs))"
proof -
  from assms obtain pre post where s: "m_info_section ti = pre @ concat hs @ post"
      "m_piece_hashes ti = int (length pre)"
    and len: "\<forall>h \<in> set hs. length h = 20"
    and size: "m_info_section_size ti = int (length (m_info_section ti))" "in_int32 (m_info_section_size ti)"
    by (auto simp: hashes_at_def)
  have all: "info_section ti = m_info_section ti" by (simp add: info_section_def size(1))
  have total: "length (m_info_section ti) = length pre + 20 * length hs + length post"
    by (simp add: s(1) length_concat_hashes [OF len])
  have "\<exists>p. hash_for_piece_ptr ti (int i) = Some p \<and> p + 20 \<le> length (info_section ti) \<and>
      take 20 (drop p (info_section ti)) = hs ! i" if i: "i < length hs" for i
  proof -
    have "in_int32 (int i * 20)" using i total size by (auto simp: in_int32_def)
    then have "hash_for_piece_ptr ti (int i) = Some (length pre + 20 * i)"
      using i total s(2) by (simp add: hash_for_piece_ptr_def c_int_def Let_def nat_add_distrib nat_mult_distrib)
    moreover have "take 20 (drop (length pre + 20 * i) (info_section ti)) = hs ! i"
      using concat_hash_nth [OF len i, of post] by (simp add: all s(1) add.commute)
    ultimately show ?thesis using i total by (simp add: all)
  qed
  moreover have "int p = m_piece_hashes ti + 20 * int (length hs)"
    if "hash_for_piece_ptr ti (int (length hs)) = Some p" for p
    using that by (auto simp: hash_for_piece_ptr_def c_int_def Let_def split: if_splits)
  ultimately show ?thesis by blast
qed

text \<open>The witness: two pieces behind a prefix of three bytes.\<close>

definition example_info :: torrent_info where
  "example_info = \<lparr>m_files = layout_init\<lparr>fs_piece_length := 16384, fs_num_pieces := 2\<rparr>, m_urls = [],
     m_web_seeds = [], m_nodes = [], m_merkle_tree = [],
     m_info_section = [1, 2, 3] @ replicate 20 7 @ replicate 20 9 @ [4],
     m_comment = [], m_created_by = [], m_creation_date = 0, m_piece_hashes = 3,
     m_info_section_size = 44, m_info_flags = private_torrent\<rparr>"

lemma example_hashes: "hashes_at [replicate 20 7, replicate 20 9] example_info"
  unfolding hashes_at_def
proof (intro conjI exI)
  show "m_info_section example_info = [1, 2, 3] @ concat [replicate 20 7, replicate 20 9] @ [4]"
    by (simp add: example_info_def)
qed (simp_all add: example_info_def in_int32_def)

theorem piece_hash_located_witness:
  "\<exists>p. hash_for_piece_ptr example_info 1 = Some p \<and>
     take 20 (drop p (info_section example_info)) = replicate 20 9"
  using piece_hash_located [OF example_hashes] by fastforce

end
