(* ===== verification/Sorted_Vector.thy ===== *)
theory Sorted_Vector
  imports Getzy_Prelude "HOL-Library.Multiset"
begin

text \<open>
  \<open>vector_utils.hpp\<close>: the sorted vectors in which torrents and sessions keep, for instance, their
  connections. The searches of the standard library are one binary search: \<open>partition_loop\<close> looks
  at the middle of a range of \<open>len\<close> elements from \<open>first\<close> on and goes on in one half;
  \<open>std::lower_bound\<close> asks which elements are below the value, \<open>std::upper_bound\<close> which are not
  above it. Iterators are positions, \<open>end()\<close> is the length.
\<close>

section \<open>Operations\<close>

function partition_loop :: "('a \<Rightarrow> bool) \<Rightarrow> 'a list \<Rightarrow> nat \<Rightarrow> nat \<Rightarrow> nat" where
  "partition_loop P xs first len =
     (if len = 0 then first
      else (let half = len div 2; mid = first + half in
        if P (xs ! mid) then partition_loop P xs (Suc mid) (len - Suc half)
        else partition_loop P xs first half))"
  by pat_completeness auto

termination by (relation "measure (\<lambda>(P, xs, first, len). len)") auto

declare partition_loop.simps [simp del]

definition partition_point :: "('a \<Rightarrow> bool) \<Rightarrow> 'a list \<Rightarrow> nat" where
  "partition_point P xs = partition_loop P xs 0 (length xs)"

definition lower_bound :: "'a::linorder list \<Rightarrow> 'a \<Rightarrow> nat" where
  "lower_bound xs v = partition_point (\<lambda>x. x < v) xs"

definition sorted_find :: "'a::linorder list \<Rightarrow> 'a \<Rightarrow> nat" where
  "sorted_find xs v =
     (let i = lower_bound xs v in
      if i = length xs then length xs
      else if xs ! i \<noteq> v then length xs
      else i)"

definition vector_insert :: "nat \<Rightarrow> 'a \<Rightarrow> 'a list \<Rightarrow> 'a list" where
  "vector_insert i v xs = take i xs @ v # drop i xs"

definition sorted_insert :: "'a::linorder list \<Rightarrow> 'a \<Rightarrow> 'a list" where
  "sorted_insert xs v = vector_insert (lower_bound xs v) v xs"

section \<open>Facts\<close>

text \<open>
  The search only looks at elements of its range. If the elements that satisfy the predicate come
  first, the result is the number of them.
\<close>

lemma partition_loop_unfold:
  "partition_loop P xs first 0 = first"
  "0 < len \<Longrightarrow> P (xs ! (first + len div 2)) \<Longrightarrow> partition_loop P xs first len =
    partition_loop P xs (Suc (first + len div 2)) (len - Suc (len div 2))"
  "0 < len \<Longrightarrow> \<not> P (xs ! (first + len div 2)) \<Longrightarrow> partition_loop P xs first len =
    partition_loop P xs first (len div 2)"
  by (simp_all add: partition_loop.simps [of P xs first] Let_def)

lemma partition_loop_finds:
  assumes "\<And>i. i < n \<Longrightarrow> P (xs ! i)"
    and "\<And>i. n \<le> i \<Longrightarrow> i < length xs \<Longrightarrow> \<not> P (xs ! i)"
  shows "first \<le> n \<Longrightarrow> n \<le> first + len \<Longrightarrow> first + len \<le> length xs \<Longrightarrow>
    partition_loop P xs first len = n"
proof (induction len arbitrary: first rule: less_induct)
  case (less len)
  let ?half = "len div 2" and ?mid = "first + len div 2"
  show ?case
  proof (cases "len = 0")
    case True
    with less.prems show ?thesis by (simp add: partition_loop_unfold)
  next
    case False
    then have len: "0 < len" "?half < len" "?mid < length xs" using less.prems(3) by simp_all
    show ?thesis
    proof (cases "P (xs ! ?mid)")
      case True
      then have "?mid < n" using assms(2) [of ?mid] len(3) by (meson not_le)
      with less.IH [of "len - Suc ?half" "Suc ?mid"] less.prems len show ?thesis
        by (simp add: partition_loop_unfold(2) [where P = P, OF len(1) True])
    next
      case False
      then have "n \<le> ?mid" using assms(1) [of ?mid] by (meson not_le)
      with less.IH [of ?half first] less.prems len show ?thesis
        by (simp add: partition_loop_unfold(3) [where P = P, OF len(1) False])
    qed
  qed
qed

lemma partition_point_append:
  assumes "\<forall>x \<in> set xs. P x" "\<forall>y \<in> set ys. \<not> P y"
  shows "partition_point P (xs @ ys) = length xs"
  unfolding partition_point_def using assms
  by (intro partition_loop_finds) (auto simp: nth_append)

lemma partition_point_sorted:
  assumes "sorted_wrt (\<lambda>x y. P y \<longrightarrow> P x) xs"
  shows "partition_point P xs = length (filter P xs) \<and> xs = filter P xs @ filter (Not \<circ> P) xs"
proof -
  have split: "xs = filter P xs @ filter (Not \<circ> P) xs"
    using assms by (induction xs) (auto simp: filter_empty_conv)
  have "partition_point P (filter P xs @ filter (Not \<circ> P) xs) = length (filter P xs)"
    by (rule partition_point_append) simp_all
  then have "partition_point P xs = length (filter P xs)" by (simp only: split [symmetric])
  with split show ?thesis by blast
qed

lemma lower_bound_splits:
  assumes "sorted xs"
  shows "lower_bound xs v \<le> length xs"
    and "i < lower_bound xs v \<Longrightarrow> xs ! i < v"
    and "lower_bound xs v \<le> i \<Longrightarrow> i < length xs \<Longrightarrow> v \<le> xs ! i"
proof -
  let ?ys = "filter (\<lambda>x. x < v) xs" and ?zs = "filter (Not \<circ> (\<lambda>x. x < v)) xs"
  have "sorted_wrt (\<lambda>x y. y < v \<longrightarrow> x < v) xs"
    by (rule sorted_wrt_mono_rel [OF _ assms]) (auto intro: le_less_trans)
  from partition_point_sorted [OF this] obtain ys zs where
    xs: "xs = ys @ zs" "ys = ?ys" "zs = ?zs" "lower_bound xs v = length ys"
    by (simp add: lower_bound_def)
  from xs(2,3) have below: "\<forall>y \<in> set ys. y < v" and above: "\<forall>z \<in> set zs. \<not> z < v" by auto
  show "lower_bound xs v \<le> length xs" using xs(1,4) by simp
  show "xs ! i < v" if "i < lower_bound xs v"
    using that below xs(1,4) by (simp add: nth_append)
  show "v \<le> xs ! i" if "lower_bound xs v \<le> i" "i < length xs"
    using that above xs(1,4) by (simp add: nth_append not_less)
qed

section \<open>Property\<close>

text \<open>
  A sorted vector stays sorted and is searched correctly. In a sorted vector \<open>sorted_find\<close>
  returns the position of the first element equal to the value, and \<open>end()\<close> exactly when there is
  none; \<open>sorted_insert\<close> adds the value once, in front of its equals, and the vector is sorted
  again.
\<close>

lemma sorted_vector_correct:
  assumes "sorted xs"
  shows "(sorted_find xs v = length xs \<longleftrightarrow> v \<notin> set xs) \<and>
    (v \<in> set xs \<longrightarrow> xs ! sorted_find xs v = v \<and> (\<forall>i < sorted_find xs v. xs ! i < v)) \<and>
    sorted (sorted_insert xs v) \<and> mset (sorted_insert xs v) = add_mset v (mset xs) \<and>
    sorted_insert xs v = filter (\<lambda>x. x < v) xs @ v # filter (\<lambda>x. v \<le> x) xs"
proof -
  let ?i = "lower_bound xs v"
  note split = lower_bound_splits [OF assms, where v = v]
  have below: "filter (\<lambda>x. x < v) (take ?i xs) = take ?i xs" "filter (\<lambda>x. v \<le> x) (take ?i xs) = []"
    using split(2) by (auto simp: filter_id_conv filter_empty_conv in_set_conv_nth not_le)
  have above: "filter (\<lambda>x. x < v) (drop ?i xs) = []" "filter (\<lambda>x. v \<le> x) (drop ?i xs) = drop ?i xs"
    using split(3) by (auto simp: filter_id_conv filter_empty_conv in_set_conv_nth not_less)
  have take_eq: "filter (\<lambda>x. x < v) xs = take ?i xs" "filter (\<lambda>x. v \<le> x) xs = drop ?i xs"
    using below above append_take_drop_id [of ?i xs] filter_append
    by (metis append_Nil append_Nil2)+
  have member: "v \<in> set xs \<longleftrightarrow> ?i < length xs \<and> xs ! ?i = v"
  proof
    assume "v \<in> set xs"
    then obtain j where j: "j < length xs" "xs ! j = v" by (auto simp: in_set_conv_nth)
    then have "?i \<le> j" using split(2) [of j] by (metis less_irrefl not_le)
    with j have "?i < length xs" "xs ! ?i \<le> v"
      using sorted_nth_mono [OF assms, of ?i j] by simp_all
    then show "?i < length xs \<and> xs ! ?i = v" using split(3) [of ?i] by simp
  qed (use nth_mem [of ?i xs] in auto)
  have find: "sorted_find xs v = (if v \<in> set xs then ?i else length xs)"
    using member split(1) by (auto simp: sorted_find_def Let_def)
  have "sorted (sorted_insert xs v)"
    using assms unfolding sorted_insert_def vector_insert_def take_eq [symmetric]
    by (auto simp: sorted_append intro: sorted_filter [where f = "\<lambda>x. x", simplified])
  moreover have "mset (sorted_insert xs v) = add_mset v (mset xs)"
    by (simp add: sorted_insert_def vector_insert_def)
      (metis append_take_drop_id mset_append)
  ultimately show ?thesis
    using member split(2) by (auto simp: find sorted_insert_def vector_insert_def take_eq)
qed

end
