(* ===== verification/Torrent_Peer.thy ===== *)
theory Torrent_Peer
  imports Socket_IO
begin

text \<open>
  \<open>torrent_peer.hpp\<close>: what a torrent remembers of a peer, and the order in which \<open>peer_list\<close> keeps
  its peers; \<open>union_endpoint.hpp\<close>: the compact form of an endpoint. The classes derived from
  \<open>torrent_peer\<close> hold the address, so that a peer is a value of the datatype \<open>peer\<close>: its
  constructor says what \<open>is_v6_addr\<close> and \<open>is_i2p_addr\<close> are. An IPv6 address is its 16 bytes: the scope id
  of link-local addresses, by which \<open>operator<\<close> of the library tells two of them apart, is taken to be 0,
  as it is for an address that came from the compact form or a torrent file. Constructors, \<open>rank\<close> and the totals
  are in the prebuilt library.
\<close>

section \<open>Peers\<close>

record torrent_peer =
  prev_amount_upload :: u32
  prev_amount_download :: u32
  connection :: "nat option"
  peer_rank :: u32
  last_optimistically_unchoked :: u16
  last_connected :: u16
  peer_port :: u16
  hashfails :: byte
  failcount :: nat
  connectable :: bool
  optimistically_unchoked :: bool
  seed :: bool
  maybe_upload_only :: bool
  fast_reconnects :: nat
  trust_points :: int
  source :: "6 word"
  pe_support :: bool
  peer_on_parole :: bool
  banned :: bool
  supports_utp :: bool
  confirmed_supports_utp :: bool
  supports_holepunch :: bool
  web_seed :: bool
  protocol_v2 :: bool

datatype peer =
    Ipv4_Peer torrent_peer u32
  | I2p_Peer torrent_peer bytes
  | Ipv6_Peer torrent_peer bytes

fun base :: "peer \<Rightarrow> torrent_peer" where
  "base (Ipv4_Peer t a) = t"
| "base (I2p_Peer t d) = t"
| "base (Ipv6_Peer t a) = t"

fun is_i2p_addr :: "peer \<Rightarrow> bool" where
  "is_i2p_addr (I2p_Peer t d) = True"
| "is_i2p_addr p = False"

fun is_v6_addr :: "peer \<Rightarrow> bool" where
  "is_v6_addr (Ipv6_Peer t a) = True"
| "is_v6_addr p = False"

text \<open>\<open>address()\<close> and \<open>dest()\<close>, which read the member that the flags choose.\<close>

fun peer_address :: "peer \<Rightarrow> address" where
  "peer_address (Ipv4_Peer t a) = IPv4 a"
| "peer_address (Ipv6_Peer t a) = IPv6 a"
| "peer_address (I2p_Peer t d) = ep_address default_endpoint"

fun dest :: "peer \<Rightarrow> bytes" where
  "dest (I2p_Peer t d) = d"
| "dest p = []"

definition peer_ip :: "peer \<Rightarrow> endpoint" where
  "peer_ip p = \<lparr>ep_address = peer_address p, ep_port = peer_port (base p)\<rparr>"

definition peer_source :: "peer \<Rightarrow> byte" where
  "peer_source p = ucast (source (base p))"

section \<open>The order\<close>

text \<open>
  Boost orders addresses by their version and then by their bytes; strings are ordered by their
  characters as unsigned bytes.
\<close>

definition string_less :: "bytes \<Rightarrow> bytes \<Rightarrow> bool" where
  "string_less a b = ord_class.lexordp a b"

instantiation address :: linorder
begin

definition less_address :: "address \<Rightarrow> address \<Rightarrow> bool" where
  "less_address a b =
     (case (a, b) of
        (IPv4 x, IPv4 y) \<Rightarrow> x < y
      | (IPv4 x, IPv6 y) \<Rightarrow> True
      | (IPv6 x, IPv4 y) \<Rightarrow> False
      | (IPv6 x, IPv6 y) \<Rightarrow> ord_class.lexordp x y)"

definition less_eq_address :: "address \<Rightarrow> address \<Rightarrow> bool" where
  "less_eq_address a b \<longleftrightarrow> a < b \<or> a = b"

instance
proof
  fix a b c :: address
  show "a < b \<longleftrightarrow> a \<le> b \<and> \<not> b \<le> a"
    by (cases a; cases b) (auto simp: less_address_def less_eq_address_def lexordp_irreflexive'
        dest: lexordp_antisym)
  show "a \<le> a" by (simp add: less_eq_address_def)
  show "a \<le> b \<Longrightarrow> b \<le> c \<Longrightarrow> a \<le> c"
    by (cases a; cases b; cases c) (auto simp: less_address_def less_eq_address_def
        intro: lexordp_trans)
  show "a \<le> b \<Longrightarrow> b \<le> a \<Longrightarrow> a = b"
    by (cases a; cases b) (auto simp: less_address_def less_eq_address_def dest: lexordp_antisym)
  show "a \<le> b \<or> b \<le> a"
    using lexordp_linear [where 'a = byte]
    by (cases a; cases b) (auto simp: less_address_def less_eq_address_def)
qed

end

text \<open>The overloads of \<open>peer_address_compare::operator()\<close>.\<close>

definition less_peer_address :: "peer \<Rightarrow> address \<Rightarrow> bool" where
  "less_peer_address lhs rhs = (if is_i2p_addr lhs then False else peer_address lhs < rhs)"

definition less_address_peer :: "address \<Rightarrow> peer \<Rightarrow> bool" where
  "less_address_peer lhs rhs = (if is_i2p_addr rhs then True else lhs < peer_address rhs)"

definition less_peer_dest :: "peer \<Rightarrow> bytes \<Rightarrow> bool" where
  "less_peer_dest lhs rhs = (if \<not> is_i2p_addr lhs then True else string_less (dest lhs) rhs)"

definition less_dest_peer :: "bytes \<Rightarrow> peer \<Rightarrow> bool" where
  "less_dest_peer lhs rhs = (if \<not> is_i2p_addr rhs then False else string_less lhs (dest rhs))"

definition peer_less :: "peer \<Rightarrow> peer \<Rightarrow> bool" where
  "peer_less lhs rhs =
     (if is_i2p_addr lhs \<noteq> is_i2p_addr rhs then is_i2p_addr lhs < is_i2p_addr rhs
      else if is_i2p_addr lhs then string_less (dest lhs) (dest rhs)
      else peer_address lhs < peer_address rhs)"

definition torrent_peer_equal :: "peer \<Rightarrow> peer \<Rightarrow> bool" where
  "torrent_peer_equal lhs rhs =
     (if is_i2p_addr lhs \<noteq> is_i2p_addr rhs then False
      else if is_i2p_addr lhs then dest lhs = dest rhs
      else peer_address lhs = peer_address rhs \<and> peer_port (base lhs) = peer_port (base rhs))"

section \<open>union_endpoint\<close>

text \<open>
  The union is its \<open>v4\<close> flag and the bytes of the member the flag chooses. The four bytes of an
  IPv4 address are in network order.
\<close>

record union_address =
  union_v4 :: bool
  union_bytes :: bytes

record union_endpoint =
  union_addr :: union_address
  union_port :: u16

fun to_union_address :: "address \<Rightarrow> union_address" where
  "to_union_address (IPv4 a) = \<lparr>union_v4 = True, union_bytes = be_bytes 4 a\<rparr>"
| "to_union_address (IPv6 bs) = \<lparr>union_v4 = False, union_bytes = bs\<rparr>"

definition of_union_address :: "union_address \<Rightarrow> address option" where
  "of_union_address u =
     (if union_v4 u then map_option (\<lambda>(a, r). IPv4 a) (read_uint32 (union_bytes u))
      else Some (IPv6 (union_bytes u)))"

definition union_address_equal :: "union_address \<Rightarrow> union_address \<Rightarrow> bool" where
  "union_address_equal lh rh =
     (if union_v4 lh \<noteq> union_v4 rh then False else union_bytes lh = union_bytes rh)"

definition union_address_differs :: "union_address \<Rightarrow> union_address \<Rightarrow> bool" where
  "union_address_differs lh rh = (\<not> union_address_equal lh rh)"

definition default_union_address :: union_address where
  "default_union_address = to_union_address (ep_address default_endpoint)"

definition to_union_endpoint :: "endpoint \<Rightarrow> union_endpoint" where
  "to_union_endpoint ep = \<lparr>union_addr = to_union_address (ep_address ep), union_port = ep_port ep\<rparr>"

definition of_union_endpoint :: "union_endpoint \<Rightarrow> endpoint option" where
  "of_union_endpoint u =
     map_option (\<lambda>a. \<lparr>ep_address = a, ep_port = union_port u\<rparr>) (of_union_address (union_addr u))"

lemma union_address_roundtrip: "of_union_address (to_union_address a) = Some a"
  using u32c.dec_enc [where r = "[]"] by (cases a) (simp_all add: of_union_address_def del: be_bytes.simps)

lemma union_endpoint_roundtrip: "of_union_endpoint (to_union_endpoint ep) = Some ep"
  by (simp add: of_union_endpoint_def to_union_endpoint_def union_address_roundtrip)

lemma union_address_equal_iff:
  "union_address_equal (to_union_address a) (to_union_address b) \<longleftrightarrow> a = b"
proof -
  have "of_union_address u = of_union_address v" if "union_address_equal u v" for u v
    using that by (simp add: union_address_equal_def of_union_address_def split: if_splits)
  from this [of "to_union_address a" "to_union_address b"] show ?thesis
    by (auto simp: union_address_roundtrip union_address_equal_def)
qed

section \<open>The order of the peer list\<close>

text \<open>
  The specification of the order: IP addresses before I2P destinations. All overloads compare
  these keys.
\<close>

datatype peer_key = Ip_Key address | Dest_Key bytes

instantiation peer_key :: linorder
begin

definition less_peer_key :: "peer_key \<Rightarrow> peer_key \<Rightarrow> bool" where
  "less_peer_key k l =
     (case (k, l) of
        (Ip_Key a, Ip_Key b) \<Rightarrow> a < b
      | (Ip_Key a, Dest_Key d) \<Rightarrow> True
      | (Dest_Key d, Ip_Key a) \<Rightarrow> False
      | (Dest_Key d, Dest_Key e) \<Rightarrow> string_less d e)"

definition less_eq_peer_key :: "peer_key \<Rightarrow> peer_key \<Rightarrow> bool" where
  "less_eq_peer_key k l \<longleftrightarrow> k < l \<or> k = l"

instance
proof
  fix a b c :: peer_key
  note defs = less_peer_key_def less_eq_peer_key_def string_less_def
  show "a < b \<longleftrightarrow> a \<le> b \<and> \<not> b \<le> a"
    by (cases a; cases b) (auto simp: defs lexordp_irreflexive' dest: lexordp_antisym less_asym)
  show "a \<le> a" by (simp add: less_eq_peer_key_def)
  show "a \<le> b \<Longrightarrow> b \<le> c \<Longrightarrow> a \<le> c"
    by (cases a; cases b; cases c) (auto simp: defs intro: lexordp_trans)
  show "a \<le> b \<Longrightarrow> b \<le> a \<Longrightarrow> a = b"
    by (cases a; cases b) (auto simp: defs dest: lexordp_antisym)
  show "a \<le> b \<or> b \<le> a"
    using lexordp_linear [where 'a = byte] by (cases a; cases b) (auto simp: defs)
qed

end

fun key_of :: "peer \<Rightarrow> peer_key" where
  "key_of (Ipv4_Peer t a) = Ip_Key (IPv4 a)"
| "key_of (Ipv6_Peer t a) = Ip_Key (IPv6 a)"
| "key_of (I2p_Peer t d) = Dest_Key d"

lemma compares_keys:
  "peer_less p q \<longleftrightarrow> key_of p < key_of q"
  "less_peer_address p a \<longleftrightarrow> key_of p < Ip_Key a"
  "less_address_peer a p \<longleftrightarrow> Ip_Key a < key_of p"
  "less_peer_dest p d \<longleftrightarrow> key_of p < Dest_Key d"
  "less_dest_peer d p \<longleftrightarrow> Dest_Key d < key_of p"
  by (cases p; cases q; simp add: peer_less_def less_peer_key_def)
    (cases p; simp add: less_peer_address_def less_address_peer_def less_peer_dest_def
      less_dest_peer_def less_peer_key_def)+

text \<open>In a list sorted by a key, what is below, at and above a key are three sections.\<close>

lemma sections:
  fixes f :: "'a \<Rightarrow> 'k::linorder"
  shows "sorted_wrt (\<lambda>p q. f p \<le> f q) ps \<Longrightarrow>
    ps = filter (\<lambda>p. f p < k) ps @ filter (\<lambda>p. f p = k) ps @ filter (\<lambda>p. k < f p) ps"
proof (induction ps)
  case (Cons p ps)
  then have ge: "\<forall>q\<in>set ps. f p \<le> f q" by simp
  consider "f p < k" | "f p = k" | "k < f p" by (rule linorder_cases)
  then show ?case
  proof cases
    case 2
    with ge have "filter (\<lambda>q. f q < k) ps = []" by (auto simp: filter_empty_conv)
    with 2 Cons show ?thesis by simp
  next
    case 3
    with ge have "filter (\<lambda>q. f q < k) ps = []" "filter (\<lambda>q. f q = k) ps = []"
      by (auto simp: filter_empty_conv)
    with 3 Cons show ?thesis by auto
  qed (use Cons in auto)
qed simp

text \<open>
  The order of the peer list can be searched. The comparison of two peers is a strict weak
  order whose equivalent peers are those with the same address or the same I2P destination, and
  the comparisons of a peer with an address or a destination agree with it: in a sorted list, the
  peers below an address (a destination), the peers that have it, and those above it are three
  consecutive sections, so that the binary searches of the list find exactly them. Peers that
  \<open>torrent_peer_equal\<close> identifies are equivalent, and equivalent ones are identified unless
  their ports differ.
\<close>

lemma peers_searchable:
  "\<not> peer_less p p \<and> (peer_less p q \<longrightarrow> peer_less q r \<longrightarrow> peer_less p r) \<and>
   ((\<not> peer_less p q \<and> \<not> peer_less q p) \<longleftrightarrow> is_i2p_addr p = is_i2p_addr q \<and>
      (if is_i2p_addr p then dest p = dest q else peer_address p = peer_address q)) \<and>
   (torrent_peer_equal p q \<longleftrightarrow> \<not> peer_less p q \<and> \<not> peer_less q p \<and>
      (is_i2p_addr p \<or> peer_port (base p) = peer_port (base q))) \<and>
   (sorted_wrt (\<lambda>p q. \<not> peer_less q p) ps \<longrightarrow>
      ps = filter (\<lambda>p. less_peer_address p a) ps @
           filter (\<lambda>p. \<not> is_i2p_addr p \<and> peer_address p = a) ps @ filter (less_address_peer a) ps \<and>
      ps = filter (\<lambda>p. less_peer_dest p d) ps @
           filter (\<lambda>p. is_i2p_addr p \<and> dest p = d) ps @ filter (less_dest_peer d) ps)"
proof -
  have key: "key_of p = key_of q \<longleftrightarrow> is_i2p_addr p = is_i2p_addr q \<and>
      (if is_i2p_addr p then dest p = dest q else peer_address p = peer_address q)"
    by (cases p; cases q) simp_all
  have at: "key_of x = Ip_Key a \<longleftrightarrow> \<not> is_i2p_addr x \<and> peer_address x = a"
    "key_of x = Dest_Key d \<longleftrightarrow> is_i2p_addr x \<and> dest x = d" for x
    by (cases x; simp)+
  have weak: "(\<not> peer_less p q \<and> \<not> peer_less q p) \<longleftrightarrow> key_of p = key_of q"
    by (auto simp: compares_keys not_less)
  have equal: "torrent_peer_equal p q \<longleftrightarrow> key_of p = key_of q \<and>
      (is_i2p_addr p \<or> peer_port (base p) = peer_port (base q))"
    by (auto simp: torrent_peer_equal_def key)
  have eta: "less_address_peer a = (\<lambda>p. Ip_Key a < key_of p)" "less_dest_peer d = (\<lambda>p. Dest_Key d < key_of p)"
    by (simp_all add: fun_eq_iff compares_keys)
  have "ps = filter (\<lambda>p. less_peer_address p a) ps @
      filter (\<lambda>p. \<not> is_i2p_addr p \<and> peer_address p = a) ps @ filter (less_address_peer a) ps"
    "ps = filter (\<lambda>p. less_peer_dest p d) ps @
      filter (\<lambda>p. is_i2p_addr p \<and> dest p = d) ps @ filter (less_dest_peer d) ps"
    if "sorted_wrt (\<lambda>p q. \<not> peer_less q p) ps"
    using sections [of key_of ps "Ip_Key a"] sections [of key_of ps "Dest_Key d"] that
    by (simp_all only: compares_keys eta not_less at simp_thms)
  then show ?thesis
    using weak equal key by (auto simp: compares_keys)
qed

text \<open>Two IPv4 peers and an I2P peer.\<close>

definition three_peers :: "peer list" where
  "three_peers =
     (let t = \<lparr>prev_amount_upload = 0, prev_amount_download = 0, connection = None, peer_rank = 0,
               last_optimistically_unchoked = 0, last_connected = 0, peer_port = 6881, hashfails = 0,
               failcount = 0, connectable = True, optimistically_unchoked = False, seed = False,
               maybe_upload_only = False, fast_reconnects = 0, trust_points = 0, source = 1,
               pe_support = True, peer_on_parole = False, banned = False, supports_utp = True,
               confirmed_supports_utp = False, supports_holepunch = False, web_seed = False,
               protocol_v2 = False\<rparr>
      in [Ipv4_Peer t 1, Ipv4_Peer t 2, I2p_Peer t [9]])"

end
