(* ===== verification/Sort_Orders.thy ===== *)
theory Sort_Orders
  imports Torrent_Peer Piece_Pos "HOL-Library.Product_Lexorder"
begin

text \<open>
  The orders by which the library sorts and searches: the \<open>operator<\<close> (and \<open>operator==\<close>) of DHT
  nodes, votes for an external address, hash requests, blocks, time-critical pieces, web seeds,
  rules of the IP filter and UPnP devices, with the data they compare; and the failure counter of a
  DHT node. Time points and strings are compared by the standard library.
\<close>

section \<open>DHT nodes (\<open>kademlia/node_entry.hpp\<close>, \<open>kademlia/types.hpp\<close>)\<close>

text \<open>
  \<open>timeout_count\<close> is 255 while the node was not pinged. \<open>first_seen\<close>, which only the log uses, is
  left out.
\<close>

record node_entry =
  last_queried :: int
  node_id :: bytes
  node_endpoint :: union_endpoint
  rtt :: u16
  timeout_count :: byte
  verified :: bool

definition pinged :: "node_entry \<Rightarrow> bool" where
  "pinged n \<longleftrightarrow> timeout_count n \<noteq> 0xff"

definition set_pinged :: "node_entry \<Rightarrow> node_entry" where
  "set_pinged n = (if timeout_count n = 0xff then n\<lparr>timeout_count := 0\<rparr> else n)"

definition node_timed_out :: "node_entry \<Rightarrow> node_entry" where
  "node_timed_out n =
     (if pinged n \<and> timeout_count n < 0xfe then n\<lparr>timeout_count := timeout_count n + 1\<rparr> else n)"

definition fail_count :: "node_entry \<Rightarrow> int" where
  "fail_count n = (if pinged n then uint (timeout_count n) else 0)"

definition reset_fail_count :: "node_entry \<Rightarrow> node_entry" where
  "reset_fail_count n = (if pinged n then n\<lparr>timeout_count := 0\<rparr> else n)"

definition node_ep :: "node_entry \<Rightarrow> endpoint option" where
  "node_ep n = of_union_endpoint (node_endpoint n)"

definition node_confirmed :: "node_entry \<Rightarrow> bool" where
  "node_confirmed n \<longleftrightarrow> timeout_count n = 0"

definition node_addr :: "node_entry \<Rightarrow> address option" where
  "node_addr n = of_union_address (union_addr (node_endpoint n))"

definition node_port :: "node_entry \<Rightarrow> int" where
  "node_port n = uint (union_port (node_endpoint n))"

text \<open>The tuples are compared component by component; \<open>False < True\<close>.\<close>

definition node_less :: "node_entry \<Rightarrow> node_entry \<Rightarrow> bool" where
  "node_less l r \<longleftrightarrow> (\<not> verified l) < (\<not> verified r) \<or>
     \<not> (\<not> verified r) < (\<not> verified l) \<and> rtt l < rtt r"

definition sequence_less :: "int \<Rightarrow> int \<Rightarrow> bool" where
  "sequence_less l r \<longleftrightarrow> l < r"

section \<open>Votes (\<open>ip_voter.hpp\<close>)\<close>

text \<open>The Bloom filter of the voters is in the prebuilt library and left out.\<close>

record external_ip_t =
  vote_addr :: address
  vote_sources :: byte
  num_votes :: u16

definition vote_less :: "external_ip_t \<Rightarrow> external_ip_t \<Rightarrow> bool" where
  "vote_less l r =
     (if num_votes l > num_votes r then True
      else if num_votes l < num_votes r then False
      else vote_sources l > vote_sources r)"

section \<open>Hash requests (\<open>hash_picker.hpp\<close>) and blocks (\<open>piece_block.hpp\<close>)\<close>

record priority_block_request =
  pbr_file :: int
  pbr_block :: int
  pbr_num_requests :: int

definition priority_request_equal :: "priority_block_request \<Rightarrow> priority_block_request \<Rightarrow> bool" where
  "priority_request_equal l r \<longleftrightarrow> pbr_file l = pbr_file r \<and> pbr_block l = pbr_block r"

definition priority_request_less :: "priority_block_request \<Rightarrow> priority_block_request \<Rightarrow> bool" where
  "priority_request_less l r \<longleftrightarrow> pbr_num_requests l < pbr_num_requests r"

record piece_block_request =
  req_file :: int
  req_block_piece :: int
  last_request :: int
  req_num_requests :: int

definition piece_request_equal :: "piece_block_request \<Rightarrow> piece_block_request \<Rightarrow> bool" where
  "piece_request_equal l r \<longleftrightarrow> req_file l = req_file r \<and> req_block_piece l = req_block_piece r"

definition piece_request_less :: "piece_block_request \<Rightarrow> piece_block_request \<Rightarrow> bool" where
  "piece_request_less l r \<longleftrightarrow> req_num_requests l < req_num_requests r"

record hash_request =
  hr_file :: int
  hr_base :: int
  hr_index :: int
  hr_count :: int
  hr_proof_layers :: int

definition hash_request_equal :: "hash_request \<Rightarrow> hash_request \<Rightarrow> bool" where
  "hash_request_equal l r \<longleftrightarrow> hr_file l = hr_file r \<and> hr_base l = hr_base r \<and>
     hr_index l = hr_index r \<and> hr_count l = hr_count r \<and> hr_proof_layers l = hr_proof_layers r"

record piece_block =
  pb_piece :: int
  pb_block :: int

definition piece_block_less :: "piece_block \<Rightarrow> piece_block \<Rightarrow> bool" where
  "piece_block_less l r =
     (if pb_piece l < pb_piece r then True
      else if pb_piece l = pb_piece r then pb_block l < pb_block r
      else False)"

definition piece_block_equal :: "piece_block \<Rightarrow> piece_block \<Rightarrow> bool" where
  "piece_block_equal l r \<longleftrightarrow> pb_piece l = pb_piece r \<and> pb_block l = pb_block r"

definition piece_block_differs :: "piece_block \<Rightarrow> piece_block \<Rightarrow> bool" where
  "piece_block_differs l r \<longleftrightarrow> pb_piece l \<noteq> pb_piece r \<or> pb_block l \<noteq> pb_block r"

section \<open>Torrents, devices and filters\<close>

text \<open>\<open>time_critical_piece\<close> of \<open>torrent.hpp\<close>.\<close>

record time_critical_piece =
  first_requested :: int
  last_requested :: int
  deadline :: int
  deadline_flags :: byte
  tcp_peers :: int
  tcp_piece :: int

definition time_critical_less :: "time_critical_piece \<Rightarrow> time_critical_piece \<Rightarrow> bool" where
  "time_critical_less l r \<longleftrightarrow> deadline l < deadline r"

text \<open>\<open>web_seed_entry\<close> of \<open>torrent_info.hpp\<close>.\<close>

record web_seed_entry =
  seed_url :: bytes
  seed_auth :: bytes
  seed_extra_headers :: "(bytes \<times> bytes) list"
  seed_type :: byte

definition web_seed_equal :: "web_seed_entry \<Rightarrow> web_seed_entry \<Rightarrow> bool" where
  "web_seed_equal l r \<longleftrightarrow> seed_type l = seed_type r \<and> seed_url l = seed_url r"

definition web_seed_less :: "web_seed_entry \<Rightarrow> web_seed_entry \<Rightarrow> bool" where
  "web_seed_less l r =
     (if string_less (seed_url l) (seed_url r) then True
      else if string_less (seed_url r) (seed_url l) then False
      else seed_type l < seed_type r)"

text \<open>\<open>rootdevice\<close> of \<open>upnp.hpp\<close> is compared by its URL.\<close>

definition rootdevice_less :: "bytes \<Rightarrow> bytes \<Rightarrow> bool" where
  "rootdevice_less l r = string_less l r"

text \<open>
  \<open>filter_impl::range\<close> of \<open>ip_filter.hpp\<close>, over addresses as arrays of bytes, and the neighbours
  of a port.
\<close>

record filter_range =
  range_start :: bytes
  range_access :: u32

definition range_less :: "filter_range \<Rightarrow> filter_range \<Rightarrow> bool" where
  "range_less l r \<longleftrightarrow> string_less (range_start l) (range_start r)"

definition range_less_addr :: "filter_range \<Rightarrow> bytes \<Rightarrow> bool" where
  "range_less_addr l a \<longleftrightarrow> string_less (range_start l) a"

definition range_equal :: "filter_range \<Rightarrow> filter_range \<Rightarrow> bool" where
  "range_equal l r \<longleftrightarrow> range_start l = range_start r \<and> range_access l = range_access r"

definition port_plus_one :: "u16 \<Rightarrow> u16" where
  "port_plus_one val = val + 1"

definition port_minus_one :: "u16 \<Rightarrow> u16" where
  "port_minus_one val = val - 1"

definition port_zero :: u16 where
  "port_zero = 0"

definition port_max :: u16 where
  "port_max = 0xFFFF"

section \<open>Strict weak orders\<close>

text \<open>What \<open>std::sort\<close>, \<open>std::set\<close> and the binary searches demand of a comparison.\<close>

definition strict_weak :: "('a \<Rightarrow> 'a \<Rightarrow> bool) \<Rightarrow> bool" where
  "strict_weak lt \<longleftrightarrow> (\<forall>a. \<not> lt a a) \<and> (\<forall>a b c. lt a b \<longrightarrow> lt b c \<longrightarrow> lt a c) \<and>
     (\<forall>a b c. \<not> lt a b \<longrightarrow> \<not> lt b a \<longrightarrow> \<not> lt b c \<longrightarrow> \<not> lt c b \<longrightarrow> \<not> lt a c \<and> \<not> lt c a)"

definition equivalent :: "('a \<Rightarrow> 'a \<Rightarrow> bool) \<Rightarrow> 'a \<Rightarrow> 'a \<Rightarrow> bool" where
  "equivalent lt a b \<longleftrightarrow> \<not> lt a b \<and> \<not> lt b a"

text \<open>A comparison of keys in a linear order is one, and equivalent means to have the same key.\<close>

lemma strict_weak_by_key:
  fixes key :: "'a \<Rightarrow> 'k::linorder"
  assumes "\<And>a b. lt a b \<longleftrightarrow> key a < key b"
  shows "strict_weak lt" "equivalent lt a b \<longleftrightarrow> key a = key b"
  unfolding strict_weak_def equivalent_def assms by auto

lemma string_less_key: "string_less a b \<longleftrightarrow> Dest_Key a < Dest_Key b"
  by (simp add: less_peer_key_def)

lemma string_less_weak: "strict_weak (\<lambda>a b. string_less (f a) (f b))"
  by (rule strict_weak_by_key) (rule string_less_key)

text \<open>The composite comparisons are those of pairs.\<close>

lemma composite_keys:
  "node_less a b \<longleftrightarrow> (\<not> verified a, rtt a) < (\<not> verified b, rtt b)"
  "vote_less x y \<longleftrightarrow>
    (- uint (num_votes x), - uint (vote_sources x)) < (- uint (num_votes y), - uint (vote_sources y))"
  "piece_block_less p q \<longleftrightarrow> (pb_piece p, pb_block p) < (pb_piece q, pb_block q)"
  "web_seed_less v w \<longleftrightarrow> (Dest_Key (seed_url v), seed_type v) < (Dest_Key (seed_url w), seed_type w)"
proof -
  show "node_less a b \<longleftrightarrow> (\<not> verified a, rtt a) < (\<not> verified b, rtt b)"
    by (auto simp: node_less_def)
  show "vote_less x y \<longleftrightarrow>
      (- uint (num_votes x), - uint (vote_sources x)) < (- uint (num_votes y), - uint (vote_sources y))"
    by (auto simp: vote_less_def word_less_def)
  show "piece_block_less p q \<longleftrightarrow> (pb_piece p, pb_block p) < (pb_piece q, pb_block q)"
    by (auto simp: piece_block_less_def)
  show "web_seed_less v w \<longleftrightarrow> (Dest_Key (seed_url v), seed_type v) < (Dest_Key (seed_url w), seed_type w)"
    unfolding web_seed_less_def string_less_key
    by (cases "Dest_Key (seed_url v)" "Dest_Key (seed_url w)" rule: linorder_cases) auto
qed

lemmas composite_orders = strict_weak_by_key [OF composite_keys(1)] strict_weak_by_key [OF composite_keys(2)]
  strict_weak_by_key [OF composite_keys(3)] strict_weak_by_key [OF composite_keys(4)]

lemma key_orders:
  "strict_weak priority_request_less" "strict_weak piece_request_less" "strict_weak time_critical_less"
  "strict_weak dp_less" "strict_weak sequence_less" "strict_weak peer_less"
  by (rule strict_weak_by_key, rule priority_request_less_def,
      rule strict_weak_by_key, rule piece_request_less_def,
      rule strict_weak_by_key, rule time_critical_less_def,
      rule strict_weak_by_key, rule dp_less_def,
      rule strict_weak_by_key [where key = "\<lambda>x. x"], rule sequence_less_def,
      rule strict_weak_by_key, rule compares_keys(1))

section \<open>The failure counter\<close>

text \<open>The counter of a node stays below the value that marks a node that was not pinged.\<close>

lemma node_counter:
  "pinged (set_pinged n)" "pinged (node_timed_out n) = pinged n" "pinged (reset_fail_count n) = pinged n"
  "fail_count (node_timed_out n) = (if pinged n then min 254 (fail_count n + 1) else 0)"
  "fail_count (reset_fail_count n) = 0" "fail_count (set_pinged n) = fail_count n"
proof -
  have small: "n + 1 \<noteq> 0xff \<and> uint (n + 1) = uint n + 1" if "n < 0xfe" for n :: byte
  proof -
    have "uint n < 254" using that by (simp add: word_less_def)
    then have "uint (n + 1) = uint n + 1" by (simp add: uint_plus_if_size word_size)
    with \<open>uint n < 254\<close> show ?thesis by (auto dest: arg_cong [where f = uint])
  qed
  show "pinged (set_pinged n)" "pinged (reset_fail_count n) = pinged n"
    "fail_count (reset_fail_count n) = 0" "fail_count (set_pinged n) = fail_count n"
    by (simp_all add: pinged_def set_pinged_def reset_fail_count_def fail_count_def)
  show "pinged (node_timed_out n) = pinged n"
    using small [of "timeout_count n"] by (auto simp: pinged_def node_timed_out_def)
  have "uint (timeout_count n) = 254" if "timeout_count n \<noteq> 0xff" "\<not> timeout_count n < 0xfe"
  proof -
    have "uint (timeout_count n) \<noteq> 255"
      using that(1) word_uint_eq_iff [of "timeout_count n" 255] by simp
    moreover have "254 \<le> uint (timeout_count n)" using that(2) by (simp add: word_less_def not_less)
    moreover have "uint (timeout_count n) < 256" using uint_lt2p [of "timeout_count n"] by simp
    ultimately show ?thesis by linarith
  qed
  then show "fail_count (node_timed_out n) = (if pinged n then min 254 (fail_count n + 1) else 0)"
    using small [of "timeout_count n"]
    by (auto simp: pinged_def node_timed_out_def fail_count_def word_less_def)
qed

section \<open>Property\<close>

text \<open>
  Every comparison the library sorts by is a strict weak order, as the standard library demands:
  irreflexive and transitive, with a transitive equivalence. For blocks and web seeds the
  equivalence is their \<open>operator==\<close>; DHT nodes are equivalent when they agree in being verified and
  in their round-trip time, and votes when they agree in number and sources.
\<close>

lemma sort_orders_strict_weak:
  "strict_weak peer_less \<and> strict_weak node_less \<and> strict_weak vote_less \<and>
   strict_weak piece_block_less \<and> strict_weak web_seed_less \<and> strict_weak rootdevice_less \<and>
   strict_weak range_less \<and> strict_weak dp_less \<and> strict_weak time_critical_less \<and>
   strict_weak priority_request_less \<and> strict_weak piece_request_less \<and> strict_weak sequence_less \<and>
   (equivalent piece_block_less p q \<longleftrightarrow> piece_block_equal p q) \<and>
   (equivalent web_seed_less w v \<longleftrightarrow> web_seed_equal w v) \<and>
   (equivalent node_less n m \<longleftrightarrow> verified n = verified m \<and> rtt n = rtt m) \<and>
   (equivalent vote_less x y \<longleftrightarrow> num_votes x = num_votes y \<and> vote_sources x = vote_sources y)"
  using key_orders composite_orders(1, 3, 5, 7) string_less_weak [of "\<lambda>x. x"] string_less_weak [of range_start]
  by (auto simp: rootdevice_less_def [abs_def] range_less_def [abs_def] composite_orders(2, 4, 6, 8)
      piece_block_equal_def web_seed_equal_def intro: word_uint_eqI)

end
