(* ===== verification/Pad_Files.thy ===== *)
theory Pad_Files
  imports Getzy_Prelude "HOL-Library.Monad_Syntax"
begin

text \<open>
  \<open>aux_/apply_pad_files.hpp\<close>: which bytes of which pieces are padding. The function walks over the
  files of a torrent and, for every pad file, over the pieces it covers from the last to the first.
  The \<open>file_storage\<close> is in the prebuilt library: the functions it is asked are the fields of
  \<open>file_storage\<close>, and what their documentation promises is \<open>storage_contract\<close>.
\<close>

section \<open>The code\<close>

record peer_request =
  req_piece :: int
  req_start :: int
  req_length :: int

definition peer_request_equal :: "peer_request \<Rightarrow> peer_request \<Rightarrow> bool" where
  "peer_request_equal l r \<longleftrightarrow> req_piece l = req_piece r \<and> req_start l = req_start r \<and>
     req_length l = req_length r"

record file_storage =
  num_files :: nat
  pad_file_at :: "nat \<Rightarrow> bool"
  file_size :: "nat \<Rightarrow> int"
  map_file :: "nat \<Rightarrow> int \<Rightarrow> int \<Rightarrow> peer_request"
  piece_length :: int
  piece_size :: "int \<Rightarrow> int"

text \<open>
  The \<open>while\<close> loop, which does not end (\<open>None\<close>) when a piece has no bytes. The calls of \<open>fun\<close> are
  the list of its arguments.
\<close>

partial_function (option) pad_loop ::
    "(int \<Rightarrow> int) \<Rightarrow> int \<Rightarrow> int \<Rightarrow> (int \<times> int) list option" where
  "pad_loop size_of pad_bytes_left piece =
     (if pad_bytes_left > 0
      then (let bytes = min pad_bytes_left (size_of piece) in
        do {
          calls \<leftarrow> pad_loop size_of (pad_bytes_left - bytes) (piece - 1);
          Some ((piece, bytes) # calls)
        })
      else Some [])"

text \<open>The body of the \<open>for\<close> loop; \<open>pr\<close> is the last byte of the file.\<close>

definition pad_file_calls :: "file_storage \<Rightarrow> nat \<Rightarrow> (int \<times> int) list option" where
  "pad_file_calls fs i =
     (if \<not> pad_file_at fs i \<or> file_size fs i = 0 then Some []
      else (let pr = map_file fs i (file_size fs i - 1) 0; size = piece_length fs in
        if (req_start pr + 1) smod size \<noteq> 0 \<and> i + 1 < num_files fs then Some []
        else pad_loop (piece_size fs) (file_size fs i) (req_piece pr)))"

fun pad_files_from :: "file_storage \<Rightarrow> nat list \<Rightarrow> (int \<times> int) list option" where
  "pad_files_from fs [] = Some []"
| "pad_files_from fs (i # is) =
     do {
       calls \<leftarrow> pad_file_calls fs i;
       rest \<leftarrow> pad_files_from fs is;
       Some (calls @ rest)
     }"

definition apply_pad_files :: "file_storage \<Rightarrow> (int \<times> int) list option" where
  "apply_pad_files fs = pad_files_from fs [0..<num_files fs]"

section \<open>What the files are\<close>

text \<open>
  The bytes of a torrent are those of its files one after the other. \<open>map_file\<close> gives the piece
  and the offset in it of a byte of a file; every piece has the length of a piece, except for the
  last, which ends where the torrent does.
\<close>

definition file_offset :: "file_storage \<Rightarrow> nat \<Rightarrow> int" where
  "file_offset fs i = (\<Sum>j<i. file_size fs j)"

definition total_size :: "file_storage \<Rightarrow> int" where
  "total_size fs = file_offset fs (num_files fs)"

definition storage_contract :: "file_storage \<Rightarrow> bool" where
  "storage_contract fs \<longleftrightarrow>
     0 < piece_length fs \<and> (\<forall>i. 0 \<le> file_size fs i) \<and>
     (\<forall>i off. i < num_files fs \<longrightarrow> 0 \<le> off \<longrightarrow> off < file_size fs i \<longrightarrow>
        req_piece (map_file fs i off 0) = (file_offset fs i + off) div piece_length fs \<and>
        req_start (map_file fs i off 0) = (file_offset fs i + off) mod piece_length fs) \<and>
     (\<forall>p. 0 \<le> p \<longrightarrow> p * piece_length fs < total_size fs \<longrightarrow>
        piece_size fs p = min (piece_length fs) (total_size fs - p * piece_length fs))"

text \<open>
  The specification: a pad file counts when it ends with a piece, or is the last file; of a piece
  \<open>p\<close>, the padding is what the pieces and the files that count have in common.
\<close>

definition overlap :: "int \<Rightarrow> int \<Rightarrow> int \<Rightarrow> int \<Rightarrow> int" where
  "overlap L lo hi p = max 0 (min hi ((p + 1) * L) - max lo (p * L))"

definition pad_counts :: "file_storage \<Rightarrow> nat \<Rightarrow> bool" where
  "pad_counts fs i \<longleftrightarrow> pad_file_at fs i \<and>
     (piece_length fs dvd file_offset fs (Suc i) \<or> Suc i = num_files fs)"

definition padding :: "file_storage \<Rightarrow> int \<Rightarrow> int" where
  "padding fs p = (\<Sum>i \<leftarrow> filter (pad_counts fs) [0..<num_files fs].
     overlap (piece_length fs) (file_offset fs i) (file_offset fs (Suc i)) p)"

text \<open>What \<open>fun\<close> is told of a piece.\<close>

definition told :: "(int \<times> int) list \<Rightarrow> int \<Rightarrow> int" where
  "told calls p = (\<Sum>(q, b) \<leftarrow> calls. if q = p then b else 0)"

section \<open>Facts\<close>

lemma told_simps [simp]:
  "told [] p = 0" "told ((q, b) # calls) p = (if q = p then b else 0) + told calls p"
  "told (xs @ ys) p = told xs p + told ys p"
  by (simp_all add: told_def)

text \<open>Pieces do not overlap: of two piece numbers, the smaller ends before the larger begins.\<close>

lemma piece_order: "0 < L \<Longrightarrow> p < q \<Longrightarrow> p * L + L \<le> q * (L :: int)"
  using mult_right_mono [of "p + 1" q L] by (simp add: distrib_right)

text \<open>Cutting the last piece off a range.\<close>

lemma overlap_cut:
  assumes "0 < L" "q * L < h" "h \<le> q * L + L" "lo \<le> h"
  shows "overlap L lo h p =
    (if p = q then h - max lo (q * L) else if lo < q * L then overlap L lo (q * L) p else 0)"
proof -
  consider "p < q" | "p = q" | "q < p" by linarith
  then show ?thesis
  proof cases
    case 1
    with piece_order [of L p q] assms show ?thesis by (auto simp: overlap_def distrib_right)
  next
    case 2
    with assms show ?thesis by (auto simp: overlap_def distrib_right)
  next
    case 3
    with piece_order [of L q p] assms show ?thesis by (auto simp: overlap_def distrib_right)
  qed
qed

text \<open>
  The loop, started at the piece of the last byte of a range that ends with a piece or with the
  torrent, ends and tells of every piece what it has in common with the range.
\<close>

lemma pad_loop_told:
  assumes "0 < L" "\<And>p. 0 \<le> p \<Longrightarrow> p * L < tot \<Longrightarrow> size_of p = min L (tot - p * L)"
    "0 < h" "h \<le> tot" "L dvd h \<or> h = tot" "0 \<le> left" "left \<le> h"
  shows "\<exists>calls. pad_loop size_of left ((h - 1) div L) = Some calls \<and>
    (\<forall>p. told calls p = overlap L (h - left) h p) \<and> (\<forall>(q, b) \<in> set calls. 0 < b)"
  using assms(3-)
proof (induction "nat left" arbitrary: left h rule: less_induct)
  case less
  let ?q = "(h - 1) div L"
  have q: "?q * L + (h - 1) mod L = h - 1" "0 \<le> (h - 1) mod L" "(h - 1) mod L < L"
    using assms(1) by simp_all
  have q0: "0 \<le> ?q" using less.prems(1) assms(1) by (simp add: pos_imp_zdiv_nonneg_iff)
  have below: "?q * L < h" "h \<le> ?q * L + L" using q by linarith+
  have size: "size_of ?q = h - ?q * L"
  proof (cases "h = tot")
    case True
    then show ?thesis using assms(2) [OF q0] below by simp
  next
    case False
    then obtain k where k: "h = L * k" using less.prems(3) by blast
    have "?q * L < k * L" "k * L \<le> (?q + 1) * L"
      using below k by (simp_all only: mult.commute [of L k] distrib_right mult_1)
    then have "k = ?q + 1"
      using mult_less_cancel_right_pos [OF assms(1), of ?q k]
        mult_le_cancel_right_pos [OF assms(1), of k "?q + 1"] by linarith
    then have "h = ?q * L + L" using k by (metis distrib_right mult.commute mult_1)
    then show ?thesis using assms(2) [OF q0] below less.prems(2) by simp
  qed
  show ?case
  proof (cases "left = 0")
    case True
    then show ?thesis by (simp add: pad_loop.simps overlap_def)
  next
    case False
    let ?b = "min left (h - ?q * L)"
    have step: "pad_loop size_of left ?q =
        Option.bind (pad_loop size_of (left - ?b) (?q - 1)) (\<lambda>calls. Some ((?q, ?b) # calls))"
      using False less.prems(4) by (subst pad_loop.simps) (simp add: size Let_def)
    have b: "0 < ?b" using False less.prems(4) below by simp
    show ?thesis
    proof (cases "left \<le> h - ?q * L")
      case True
      then have "pad_loop size_of left ?q = Some [(?q, left)]"
        by (simp add: step pad_loop.simps [of size_of 0])
      moreover have "told [(?q, left)] p = overlap L (h - left) h p" for p
        using True less.prems(4) overlap_cut [OF assms(1) below, of "h - left" p] by simp
      ultimately show ?thesis using b True by auto
    next
      case more: False
      let ?h = "?q * L" and ?left = "left - (h - ?q * L)"
      have "0 < ?h" using more less.prems(5) by simp
      moreover have "(?h - 1) div L = ?q - 1"
        using assms(1) by (intro int_div_pos_eq [where r = "L - 1"]) (simp_all add: algebra_simps)
      ultimately obtain calls where c: "pad_loop size_of ?left (?q - 1) = Some calls"
        "\<forall>p. told calls p = overlap L (?h - ?left) ?h p" "\<forall>(q, b) \<in> set calls. 0 < b"
        using less.hyps [of ?left ?h] less.prems below more by auto
      have eq: "?h - ?left = h - left" by simp
      have "told ((?q, ?b) # calls) p = overlap L (h - left) h p" for p
        using more less.prems(4) below overlap_cut [OF assms(1) below, of "h - left" p] c(2) eq
        by (auto simp: overlap_def)
      moreover have "pad_loop size_of left ?q = Some ((?q, ?b) # calls)"
        using more c(1) by (simp add: step)
      ultimately show ?thesis using b c(3) by auto
    qed
  qed
qed

lemma smod_nonneg: "0 \<le> a \<Longrightarrow> 0 < (L :: int) \<Longrightarrow> a smod L = a mod L"
  by (auto simp: signed_modulo_int_def signed_divide_int_def sgn_if minus_div_mult_eq_mod)

lemma file_offset_Suc: "file_offset fs (Suc i) = file_offset fs i + file_size fs i"
  by (simp add: file_offset_def)

lemma file_offset_mono:
  assumes "storage_contract fs"
  shows "0 \<le> file_offset fs i" "i \<le> j \<Longrightarrow> file_offset fs i \<le> file_offset fs j"
  using assms by (auto simp: storage_contract_def file_offset_def intro!: sum_nonneg sum_mono2)

lemma last_byte_aligned:
  assumes "0 < (L :: int)"
  shows "(h - 1) mod L + 1 = L \<longleftrightarrow> L dvd h"
proof
  assume "(h - 1) mod L + 1 = L"
  moreover have "(h - 1) div L * L + (h - 1) mod L = h - 1" by simp
  ultimately have "h = (h - 1) div L * L + L" by linarith
  then have "h = ((h - 1) div L + 1) * L" by (simp add: distrib_right)
  then show "L dvd h" by (metis dvd_triv_right)
next
  assume "L dvd h"
  then obtain k where "h = L * k" by blast
  then have "(h - 1) mod L = L - 1"
    using assms by (intro int_mod_pos_eq [where q = "k - 1"]) (simp_all add: algebra_simps)
  then show "(h - 1) mod L + 1 = L" by simp
qed

lemma pad_file_told:
  assumes "storage_contract fs" "i < num_files fs"
  shows "\<exists>calls. pad_file_calls fs i = Some calls \<and>
    (\<forall>p. told calls p = (if pad_counts fs i
       then overlap (piece_length fs) (file_offset fs i) (file_offset fs (Suc i)) p else 0)) \<and>
    (\<forall>(q, b) \<in> set calls. 0 < b)"
proof (cases "\<not> pad_file_at fs i \<or> file_size fs i = 0")
  case True
  then show ?thesis
    by (auto simp: pad_file_calls_def pad_counts_def overlap_def file_offset_Suc)
next
  case False
  let ?L = "piece_length fs" and ?h = "file_offset fs (Suc i)"
  have L: "0 < ?L" and size: "0 < file_size fs i"
    using assms(1) False by (auto simp: storage_contract_def less_le)
  have pr: "req_piece (map_file fs i (file_size fs i - 1) 0) = (?h - 1) div ?L"
    "req_start (map_file fs i (file_size fs i - 1) 0) = (?h - 1) mod ?L"
    using assms size by (simp_all add: storage_contract_def file_offset_Suc add_diff_eq)
  have m: "0 \<le> (?h - 1) mod ?L" "(?h - 1) mod ?L < ?L" using L by simp_all
  have "((?h - 1) mod ?L + 1) smod ?L = 0 \<longleftrightarrow> (?h - 1) mod ?L + 1 = ?L"
  proof (cases "(?h - 1) mod ?L + 1 = ?L")
    case True
    then show ?thesis using L by (simp add: smod_nonneg)
  next
    case False
    then have "((?h - 1) mod ?L + 1) mod ?L = (?h - 1) mod ?L + 1"
      using m by (intro mod_pos_pos_trivial) linarith+
    moreover have "((?h - 1) mod ?L + 1) smod ?L = ((?h - 1) mod ?L + 1) mod ?L"
      using m(1) L by (intro smod_nonneg) linarith+
    moreover have "(?h - 1) mod ?L + 1 \<noteq> 0" using m(1) by linarith
    ultimately show ?thesis using False by metis
  qed
  then have counts: "pad_counts fs i \<longleftrightarrow>
      \<not> (((?h - 1) mod ?L + 1) smod ?L \<noteq> 0 \<and> i + 1 < num_files fs)"
    using False assms(2) last_byte_aligned [OF L, of ?h] by (auto simp: pad_counts_def)
  show ?thesis
  proof (cases "pad_counts fs i")
    case False
    with \<open>\<not> (\<not> pad_file_at fs i \<or> file_size fs i = 0)\<close> show ?thesis
      using counts by (simp add: pad_file_calls_def pr Let_def)
  next
    case True
    have le: "?h \<le> total_size fs"
      using file_offset_mono(2) [OF assms(1), of "Suc i"] assms(2) by (simp add: total_size_def)
    have "?L dvd ?h \<or> ?h = total_size fs"
      using True by (auto simp: pad_counts_def total_size_def)
    moreover have "0 < ?h" "file_size fs i \<le> ?h"
      using size file_offset_mono(1) [OF assms(1), of i] by (simp_all add: file_offset_Suc)
    ultimately obtain calls where
      "pad_loop (piece_size fs) (file_size fs i) ((?h - 1) div ?L) = Some calls"
      "\<forall>p. told calls p = overlap ?L (?h - file_size fs i) ?h p" "\<forall>(q, b) \<in> set calls. 0 < b"
      using pad_loop_told [OF L, of "total_size fs" "piece_size fs" ?h "file_size fs i"] assms(1) le size
      by (auto simp: storage_contract_def)
    with \<open>\<not> (\<not> pad_file_at fs i \<or> file_size fs i = 0)\<close> True counts show ?thesis
      by (auto simp: pad_file_calls_def pr Let_def file_offset_Suc)
  qed
qed

lemma pad_files_from_told:
  assumes "storage_contract fs"
  shows "\<forall>i \<in> set is. i < num_files fs \<Longrightarrow>
    \<exists>calls. pad_files_from fs is = Some calls \<and>
      (\<forall>p. told calls p = (\<Sum>i \<leftarrow> filter (pad_counts fs) is.
        overlap (piece_length fs) (file_offset fs i) (file_offset fs (Suc i)) p)) \<and>
      (\<forall>(q, b) \<in> set calls. 0 < b)"
proof (induction "is")
  case (Cons i "is")
  then obtain rest where r: "pad_files_from fs is = Some rest"
    "\<forall>p. told rest p = (\<Sum>i \<leftarrow> filter (pad_counts fs) is.
        overlap (piece_length fs) (file_offset fs i) (file_offset fs (Suc i)) p)"
    "\<forall>(q, b) \<in> set rest. 0 < b" by auto
  from pad_file_told [OF assms, of i] Cons.prems obtain calls where c:
    "pad_file_calls fs i = Some calls"
    "\<forall>p. told calls p = (if pad_counts fs i
       then overlap (piece_length fs) (file_offset fs i) (file_offset fs (Suc i)) p else 0)"
    "\<forall>(q, b) \<in> set calls. 0 < b" by auto
  from r c show ?case by auto
qed simp

section \<open>Property\<close>

text \<open>
  C21. Padding is counted exactly. On a file storage that keeps its documentation, the function
  returns, whatever the sizes of files and pieces; every call tells of at least one byte; and of
  each piece it tells, in all calls together, the number of its bytes that lie in pad files which
  end with a piece or are the last file. Other pad files are treated as ordinary files.
\<close>

theorem pad_files_counted:
  assumes "storage_contract fs"
  shows "\<exists>calls. apply_pad_files fs = Some calls \<and> (\<forall>p. told calls p = padding fs p) \<and>
    (\<forall>(q, b) \<in> set calls. 0 < b)"
  using pad_files_from_told [OF assms, of "[0..<num_files fs]"]
  by (simp add: apply_pad_files_def padding_def)

text \<open>Three files of 10, 14 (padding) and 3 (padding) bytes, in pieces of 8 bytes.\<close>

definition three_files :: file_storage where
  "three_files =
     (let sz = (\<lambda>i. if i = 0 then 10 else if i = 1 then 14 else if i = 2 then 3 else 0);
          off = (\<lambda>i. if i = 0 then 0 else if i = 1 then 10 else if i = 2 then 24 else 27)
      in \<lparr>num_files = 3, pad_file_at = (\<lambda>i. i > 0), file_size = sz,
          map_file = (\<lambda>i o' n. \<lparr>req_piece = (off i + o') div 8, req_start = (off i + o') mod 8,
            req_length = n\<rparr>),
          piece_length = 8, piece_size = (\<lambda>p. min 8 (27 - p * 8))\<rparr>)"

theorem pad_files_counted_witness:
  "\<exists>calls. apply_pad_files three_files = Some calls \<and> told calls 1 = 6 \<and> told calls 2 = 8 \<and>
     told calls 3 = 3"
proof -
  have off: "file_offset three_files i =
      (if i = 0 then 0 else if i = 1 then 10 else if i = 2 then 24 else 27)" for i
    by (induction i) (auto simp: file_offset_def three_files_def Let_def numeral_eq_Suc)
  have "storage_contract three_files"
    unfolding storage_contract_def off total_size_def
    by (auto simp: three_files_def Let_def less_Suc_eq numeral_eq_Suc)
  moreover have "num_files three_files = 3" "piece_length three_files = 8"
    "pad_file_at three_files i \<longleftrightarrow> i > 0" for i
    by (simp_all add: three_files_def Let_def)
  then have "padding three_files 1 = 6" "padding three_files 2 = 8" "padding three_files 3 = 3"
    by (simp_all add: padding_def pad_counts_def off overlap_def upt_rec)
  ultimately show ?thesis using pad_files_counted [of three_files] by auto
qed

end
