(* ===== verification/Torrent_State.thy ===== *)
theory Torrent_State
  imports Torrent_Content Suggest_Piece Sorted_Vector Sort_Orders Pad_Files
begin

text \<open>
  The inline part of class \<open>torrent\<close> (\<open>torrent.hpp\<close>): which pieces the torrent has, when its state
  and its resume data count as changed, and the counters of connecting peers. The piece picker, the
  peer list and the functions \<open>update_gauge\<close>, \<open>set_queue_position\<close>, \<open>is_finished\<close> are in the prebuilt
  library: the answers of the first two are fields, the others parameters. Peer connections are
  numbered by their address. \<open>state_updates\<close> counts the calls of \<open>state_updated\<close>. A dereferenced
  null pointer is \<open>None\<close>.
\<close>

section \<open>State\<close>

text \<open>\<open>torrent_handle.hpp\<close>: what changed since the resume data was saved.\<close>

type_synonym resume_data_flags_t = byte

definition flush_disk_cache :: resume_data_flags_t where "flush_disk_cache = flag_bit 0"
definition save_info_dict :: resume_data_flags_t where "save_info_dict = flag_bit 1"
definition only_if_modified :: resume_data_flags_t where "only_if_modified = flag_bit 2"
definition if_counters_changed :: resume_data_flags_t where "if_counters_changed = flag_bit 3"
definition if_download_progress :: resume_data_flags_t where "if_download_progress = flag_bit 4"
definition if_config_changed :: resume_data_flags_t where "if_config_changed = flag_bit 5"
definition if_state_changed :: resume_data_flags_t where "if_state_changed = flag_bit 6"
definition if_metadata_changed :: resume_data_flags_t where "if_metadata_changed = flag_bit 7"

text \<open>What the picker and the peer list answer.\<close>

record picker_view =
  picker_have :: "int \<Rightarrow> bool"
  picker_num_pieces :: int

record peer_list_view =
  pl_num_peers :: int
  pl_num_connect_candidates :: int

record torrent =
  m_picker :: "picker_view option"
  m_torrent_file :: torrent_info
  m_connections :: "nat list"
  m_peers_to_disconnect :: "nat list"
  m_upload_mode :: bool
  m_have_all :: bool
  m_graceful_pause_mode :: bool
  m_max_connections :: "24 word"
  m_peer_list :: "peer_list_view option"
  m_suggest_pieces :: suggest_piece
  m_predictive_pieces :: "int list"
  m_verified :: bitfield
  m_verifying :: bitfield
  m_num_verified :: u32
  m_last_seen_complete :: int
  m_sequence_number :: int
  m_num_connecting :: u16
  m_num_connecting_seeds :: u16
  m_added :: bool
  m_sequential_download :: bool
  m_auto_sequential :: bool
  m_seed_mode :: bool
  m_max_uploads :: "24 word"
  m_num_uploads :: "24 word"
  m_need_save_resume_data :: resume_data_flags_t
  m_progress_ppm :: "20 word"
  state_updates :: nat

definition no_pos :: int where "no_pos = - 1"
definition default_block_size :: int where "default_block_size = 0x4000"

section \<open>Pieces\<close>

definition valid_metadata :: "torrent \<Rightarrow> bool" where
  "valid_metadata t = ti_is_valid (m_torrent_file t)"

definition has_picker :: "torrent \<Rightarrow> bool" where
  "has_picker t \<longleftrightarrow> m_picker t \<noteq> None"

definition have_piece :: "int \<Rightarrow> torrent \<Rightarrow> bool" where
  "have_piece ix t =
     (if \<not> valid_metadata t then False
      else case m_picker t of None \<Rightarrow> m_have_all t | Some p \<Rightarrow> picker_have p ix)"

definition user_have_piece :: "int \<Rightarrow> torrent \<Rightarrow> bool" where
  "user_have_piece ix t =
     (if \<not> valid_metadata t then False
      else if ix < 0 \<or> ix \<ge> ti_end_piece (m_torrent_file t) then False
      else case m_picker t of None \<Rightarrow> m_have_all t | Some p \<Rightarrow> picker_have p ix)"

definition num_have :: "torrent \<Rightarrow> int" where
  "num_have t =
     (if m_seed_mode t then ti_num_pieces (m_torrent_file t)
      else case m_picker t of
          Some p \<Rightarrow> picker_num_pieces p
        | None \<Rightarrow> if m_have_all t then ti_num_pieces (m_torrent_file t) else 0)"

text \<open>\<open>std::binary_search\<close> over \<open>std::lower_bound\<close>.\<close>

definition is_predictive_piece :: "int \<Rightarrow> torrent \<Rightarrow> bool" where
  "is_predictive_piece ix t =
     (let v = m_predictive_pieces t; i = lower_bound v ix in i < length v \<and> \<not> ix < v ! i)"

definition block_size :: "torrent \<Rightarrow> int" where
  "block_size t =
     (if valid_metadata t then min (ti_piece_length (m_torrent_file t)) default_block_size
      else default_block_size)"

definition all_verified :: "torrent \<Rightarrow> bool" where
  "all_verified t \<longleftrightarrow> sint (m_num_verified t) = ti_num_pieces (m_torrent_file t)"

definition verifying_piece :: "nat \<Rightarrow> torrent \<Rightarrow> bool option" where
  "verifying_piece piece t = get_bit (m_verifying t) piece"

definition verifying :: "nat \<Rightarrow> torrent \<Rightarrow> torrent option" where
  "verifying piece t = map_option (\<lambda>b. t\<lparr>m_verifying := b\<rparr>) (set_bit piece (m_verifying t))"

definition verified_piece :: "nat \<Rightarrow> torrent \<Rightarrow> bool option" where
  "verified_piece piece t = get_bit (m_verified t) piece"

definition get_suggest_pieces :: "nat list \<Rightarrow> bitfield \<Rightarrow> int \<Rightarrow> torrent \<Rightarrow> (nat list \<times> nat) option" where
  "get_suggest_pieces p peer_bits n t = get_pieces p peer_bits n (m_suggest_pieces t)"

section \<open>Modes and peers\<close>

definition upload_mode :: "torrent \<Rightarrow> bool" where
  "upload_mode t \<longleftrightarrow> m_upload_mode t \<or> m_graceful_pause_mode t"

definition is_upload_only :: "(torrent \<Rightarrow> bool) \<Rightarrow> torrent \<Rightarrow> bool" where
  "is_upload_only is_finished t \<longleftrightarrow> is_finished t \<or> upload_mode t"

definition is_sequential_download :: "torrent \<Rightarrow> bool" where
  "is_sequential_download t \<longleftrightarrow> m_sequential_download t \<or> m_auto_sequential t"

definition set_progress_ppm :: "int \<Rightarrow> torrent \<Rightarrow> torrent" where
  "set_progress_ppm p t = t\<lparr>m_progress_ppm := of_int p\<rparr>"

definition free_upload_slots :: "torrent \<Rightarrow> bool" where
  "free_upload_slots t \<longleftrightarrow> m_num_uploads t < m_max_uploads t"

definition has_peer :: "nat \<Rightarrow> torrent \<Rightarrow> bool" where
  "has_peer p t \<longleftrightarrow> sorted_find (m_connections t) p \<noteq> length (m_connections t)"

text \<open>The difference is one of \<open>std::size_t\<close>, converted to \<open>int\<close>.\<close>

definition num_peers :: "torrent \<Rightarrow> int" where
  "num_peers t = to_int32 ((int (length (m_connections t)) - int (length (m_peers_to_disconnect t))) mod 2 ^ 64)"

definition num_known_peers :: "torrent \<Rightarrow> int" where
  "num_known_peers t = (case m_peer_list t of None \<Rightarrow> 0 | Some l \<Rightarrow> pl_num_peers l)"

definition num_connect_candidates :: "torrent \<Rightarrow> int" where
  "num_connect_candidates t = (case m_peer_list t of None \<Rightarrow> 0 | Some l \<Rightarrow> pl_num_connect_candidates l)"

definition seen_complete :: "int \<Rightarrow> torrent \<Rightarrow> torrent" where
  "seen_complete posix_time t = t\<lparr>m_last_seen_complete := posix_time\<rparr>"

definition time_since_complete :: "int \<Rightarrow> torrent \<Rightarrow> int" where
  "time_since_complete posix_time t = to_int32 (posix_time - m_last_seen_complete t)"

text \<open>\<open>pp->seed\<close> is the argument.\<close>

definition inc_num_connecting :: "bool \<Rightarrow> torrent \<Rightarrow> torrent" where
  "inc_num_connecting sd t =
     (let t1 = t\<lparr>m_num_connecting := m_num_connecting t + 1\<rparr>
      in if sd then t1\<lparr>m_num_connecting_seeds := m_num_connecting_seeds t1 + 1\<rparr> else t1)"

definition dec_num_connecting :: "bool \<Rightarrow> torrent \<Rightarrow> torrent" where
  "dec_num_connecting sd t =
     (let t1 = t\<lparr>m_num_connecting := m_num_connecting t - 1\<rparr>
      in if sd then t1\<lparr>m_num_connecting_seeds := m_num_connecting_seeds t1 - 1\<rparr> else t1)"

section \<open>Changes\<close>

definition state_updated :: "torrent \<Rightarrow> torrent" where
  "state_updated t = t\<lparr>state_updates := Suc (state_updates t)\<rparr>"

definition set_queue_position_impl :: "int \<Rightarrow> torrent \<Rightarrow> torrent" where
  "set_queue_position_impl p t =
     (if m_sequence_number t = p then t else state_updated (t\<lparr>m_sequence_number := p\<rparr>))"

definition need_save_resume_data :: "resume_data_flags_t \<Rightarrow> torrent \<Rightarrow> bool" where
  "need_save_resume_data fl t = flag_test (flag_and (m_need_save_resume_data t) fl)"

definition set_need_save_resume :: "resume_data_flags_t \<Rightarrow> torrent \<Rightarrow> torrent" where
  "set_need_save_resume fl t =
     (let t1 = t\<lparr>m_need_save_resume_data := flag_or (m_need_save_resume_data t) only_if_modified\<rparr>
      in if flag_test (flag_and (m_need_save_resume_data t1) fl) then t1
         else state_updated (t1\<lparr>m_need_save_resume_data := flag_or (m_need_save_resume_data t1) fl\<rparr>))"

definition added :: "(torrent \<Rightarrow> torrent) \<Rightarrow> torrent \<Rightarrow> torrent" where
  "added update_gauge t = update_gauge (t\<lparr>m_added := True\<rparr>)"

definition removed :: "(torrent \<Rightarrow> torrent) \<Rightarrow> (int \<Rightarrow> torrent \<Rightarrow> torrent) \<Rightarrow> torrent \<Rightarrow> torrent" where
  "removed update_gauge set_queue_position t =
     update_gauge (set_queue_position no_pos (t\<lparr>m_added := False\<rparr>))"

section \<open>Pieces: what the queries agree on\<close>

text \<open>What the picker's documentation promises: \<open>have()\<close> counts the pieces \<open>have_piece\<close> answers yes for.\<close>

definition picker_counts :: "torrent \<Rightarrow> bool" where
  "picker_counts t \<longleftrightarrow> (\<forall>p. m_picker t = Some p \<longrightarrow> picker_num_pieces p =
     int (card {i. 0 \<le> i \<and> i < ti_num_pieces (m_torrent_file t) \<and> picker_have p i}))"

lemma binary_search_member:
  assumes "sorted v"
  shows "lower_bound v x < length v \<and> \<not> x < v ! lower_bound v x \<longleftrightarrow> x \<in> set v"
proof
  assume a: "lower_bound v x < length v \<and> \<not> x < v ! lower_bound v x"
  with lower_bound_splits(3) [OF assms, of x "lower_bound v x"] have "v ! lower_bound v x = x" by simp
  with a show "x \<in> set v" using nth_mem [of "lower_bound v x" v] by simp
next
  assume "x \<in> set v"
  then obtain j where j: "j < length v" "v ! j = x" by (auto simp: in_set_conv_nth)
  with lower_bound_splits(2) [OF assms, of j x] have le: "lower_bound v x \<le> j"
    by (metis less_irrefl not_le)
  then have "v ! lower_bound v x \<le> x"
    using j sorted_nth_mono [OF assms le j(1)] by simp
  with le j show "lower_bound v x < length v \<and> \<not> x < v ! lower_bound v x" by simp
qed

lemma card_pieces: "int (card {i :: int. 0 \<le> i \<and> i < n}) = max 0 n"
proof -
  have "{i :: int. 0 \<le> i \<and> i < n} = {0..<n}" by auto
  then show ?thesis by simp
qed

lemma num_have_counts:
  assumes "picker_counts t" "\<not> m_seed_mode t" "valid_metadata t" "0 \<le> ti_num_pieces (m_torrent_file t)"
  shows "num_have t = int (card {i. user_have_piece i t})"
proof (cases "m_picker t")
  case None
  have "{i. user_have_piece i t} =
      (if m_have_all t then {i. 0 \<le> i \<and> i < ti_num_pieces (m_torrent_file t)} else {})"
    using None assms(3) by (auto simp: user_have_piece_def ti_end_piece_def fs_end_piece_def ti_num_pieces_def)
  with None assms show ?thesis by (auto simp: num_have_def card_pieces)
next
  case (Some p)
  then have "{i. user_have_piece i t} =
      {i. 0 \<le> i \<and> i < ti_num_pieces (m_torrent_file t) \<and> picker_have p i}"
    using assms(3) by (auto simp: user_have_piece_def ti_end_piece_def fs_end_piece_def ti_num_pieces_def)
  with Some assms show ?thesis by (simp add: num_have_def picker_counts_def)
qed

text \<open>
  C28. The torrent's answers about its pieces agree with each other. \<open>user_have_piece\<close> is
  \<open>have_piece\<close> within the range of pieces; without metadata there is no piece; \<open>num_have\<close> is the
  number of pieces \<open>user_have_piece\<close> answers yes for, whether or not there is a piece picker, and all
  pieces in seed mode. A block has at most 16 KiB. The binary searches over predictive pieces and
  connections find exactly the members.
\<close>

theorem piece_queries_agree:
  assumes "picker_counts t" "0 \<le> ti_num_pieces (m_torrent_file t)"
    and "sorted (m_predictive_pieces t)" "sorted (m_connections t)"
  shows "(user_have_piece i t \<longleftrightarrow> have_piece i t \<and> 0 \<le> i \<and> i < ti_num_pieces (m_torrent_file t)) \<and>
    (valid_metadata t \<longrightarrow> num_have t =
       (if m_seed_mode t then ti_num_pieces (m_torrent_file t) else int (card {j. user_have_piece j t}))) \<and>
    (\<not> valid_metadata t \<longrightarrow> \<not> have_piece i t) \<and>
    0 < block_size t \<and> block_size t \<le> 0x4000 \<and>
    (is_predictive_piece i t \<longleftrightarrow> i \<in> set (m_predictive_pieces t)) \<and>
    (has_peer p t \<longleftrightarrow> p \<in> set (m_connections t))"
proof -
  have "has_peer p t \<longleftrightarrow> p \<in> set (m_connections t)"
  proof (cases "p \<in> set (m_connections t)")
    case True
    then obtain j where "j < length (m_connections t)" "m_connections t ! j = p"
      by (auto simp: in_set_conv_nth)
    with binary_search_member [OF assms(4), of p] True show ?thesis
      using lower_bound_splits(3) [OF assms(4), of p "lower_bound (m_connections t) p"]
      by (simp add: has_peer_def sorted_find_def Let_def)
  next
    case False
    then show ?thesis
      by (auto simp: has_peer_def sorted_find_def Let_def lower_bound_splits(1) [OF assms(4)]
          le_neq_implies_less dest!: nth_mem split: if_splits)
        (metis False nth_mem lower_bound_splits(1) [OF assms(4)] le_neq_implies_less)
  qed
  moreover have "is_predictive_piece i t \<longleftrightarrow> i \<in> set (m_predictive_pieces t)"
    using binary_search_member [OF assms(3), of i] by (simp add: is_predictive_piece_def Let_def)
  moreover have "0 < block_size t \<and> block_size t \<le> 0x4000"
    by (auto simp: block_size_def default_block_size_def valid_metadata_def ti_is_valid_def
        fs_is_valid_def ti_piece_length_def)
  ultimately show ?thesis
    using num_have_counts [OF assms(1) _ _ assms(2)]
    by (auto simp: user_have_piece_def have_piece_def num_have_def ti_end_piece_def fs_end_piece_def
        ti_num_pieces_def)
qed

text \<open>The torrent of the witnesses: three pieces, of which the picker has the last.\<close>

definition example_torrent :: torrent where
  "example_torrent = \<lparr>
     m_picker = Some \<lparr>picker_have = (\<lambda>i. i = 2), picker_num_pieces = 1\<rparr>,
     m_torrent_file = example_info\<lparr>m_files := layout_init\<lparr>fs_piece_length := 32768, fs_num_pieces := 3\<rparr>\<rparr>,
     m_connections = [4, 8], m_peers_to_disconnect = [], m_upload_mode = False, m_have_all = False,
     m_graceful_pause_mode = False, m_max_connections = 50, m_peer_list = None,
     m_suggest_pieces = \<lparr>m_priority_pieces = [], m_availability = sliding_average_init\<rparr>,
     m_predictive_pieces = [0, 2], m_verified = None, m_verifying = None, m_num_verified = 0,
     m_last_seen_complete = 0, m_sequence_number = 0, m_num_connecting = 0,
     m_num_connecting_seeds = 0, m_added = True, m_sequential_download = False,
     m_auto_sequential = False, m_seed_mode = False, m_max_uploads = 8, m_num_uploads = 0,
     m_need_save_resume_data = 0, m_progress_ppm = 0, state_updates = 0\<rparr>"

lemma example_picker_counts: "picker_counts example_torrent"
proof -
  have "{i :: int. 0 \<le> i \<and> i < 3 \<and> i = 2} = {2}" by auto
  then show ?thesis
    by (simp add: picker_counts_def example_torrent_def ti_num_pieces_def layout_init_def)
qed

theorem piece_queries_agree_witness:
  "num_have example_torrent = int (card {j. user_have_piece j example_torrent}) \<and>
   num_have example_torrent = 1 \<and> is_predictive_piece 2 example_torrent"
proof -
  have facts: "valid_metadata example_torrent" "\<not> m_seed_mode example_torrent"
      "m_predictive_pieces example_torrent = [0, 2]" "num_have example_torrent = 1"
      "0 \<le> ti_num_pieces (m_torrent_file example_torrent)"
      "sorted (m_predictive_pieces example_torrent)" "sorted (m_connections example_torrent)"
    by (simp_all add: example_torrent_def valid_metadata_def ti_is_valid_def fs_is_valid_def
        layout_init_def num_have_def ti_num_pieces_def)
  from piece_queries_agree [OF example_picker_counts facts(5-7), of 2 0] facts(1-4)
  show ?thesis by simp
qed

section \<open>Changes: when the resume data is out of date\<close>

text \<open>The categories are single flags, given by their bit; bit 2 is \<open>only_if_modified\<close>.\<close>

definition mark_changes :: "nat list \<Rightarrow> torrent \<Rightarrow> torrent" where
  "mark_changes ks t = foldl (\<lambda>t k. set_need_save_resume (flag_bit k) t) t ks"

lemma bit_only_if_modified: "bit only_if_modified n \<longleftrightarrow> n = 2"
  by (simp add: only_if_modified_def bit_flag_bit)

lemma set_need_save_resume_bits:
  assumes "k < 8"
  shows "bit (m_need_save_resume_data (set_need_save_resume (flag_bit k) t)) n \<longleftrightarrow>
      bit (m_need_save_resume_data t) n \<or> n = 2 \<or> n = k"
    and "state_updates (set_need_save_resume (flag_bit k) t) =
      state_updates t + (if k = 2 \<or> bit (m_need_save_resume_data t) k then 0 else 1)"
  using assms
  by (auto simp: set_need_save_resume_def Let_def flag_test_bit flag_or_def bit_or_iff
      bit_only_if_modified bit_flag_bit state_updated_def)

lemma mark_changes_effect:
  assumes "\<forall>k \<in> set ks. k < 8"
  shows "(bit (m_need_save_resume_data (mark_changes ks t)) n \<longleftrightarrow>
      bit (m_need_save_resume_data t) n \<or> ks \<noteq> [] \<and> n = 2 \<or> n \<in> set ks) \<and>
    state_updates (mark_changes ks t) =
      state_updates t + card {k \<in> set ks. k \<noteq> 2 \<and> \<not> bit (m_need_save_resume_data t) k}"
  using assms
proof (induction ks arbitrary: n rule: rev_induct)
  case Nil
  then show ?case by (simp add: mark_changes_def)
next
  case (snoc k ks)
  let ?old = "m_need_save_resume_data t" and ?t = "mark_changes ks t"
  have k: "k < 8" and IH: "bit (m_need_save_resume_data ?t) n \<longleftrightarrow> bit ?old n \<or> ks \<noteq> [] \<and> n = 2 \<or> n \<in> set ks"
      "state_updates ?t = state_updates t + card {k \<in> set ks. k \<noteq> 2 \<and> \<not> bit ?old k}" for n
    using snoc by auto
  let ?new = "\<lambda>s. {k \<in> s. k \<noteq> 2 \<and> \<not> bit ?old k}"
  have "?new (set (ks @ [k])) =
      (if k = 2 \<or> bit ?old k then ?new (set ks) else insert k (?new (set ks)))" by auto
  then have "card (?new (set (ks @ [k]))) =
      card (?new (set ks)) + (if k = 2 \<or> bit ?old k \<or> k \<in> set ks then 0 else 1)"
    by (auto simp: card_insert_if)
  moreover have "mark_changes (ks @ [k]) t = set_need_save_resume (flag_bit k) ?t"
    by (simp add: mark_changes_def)
  ultimately show ?case
    using IH set_need_save_resume_bits [OF k, of ?t] by auto
qed

text \<open>
  Changes are recorded, and reported once. After any sequence of changes, each of one category,
  every category that occurred needs the resume data saved, as does \<open>only_if_modified\<close>, and no
  other category is affected; \<open>state_updated\<close> was called exactly once for each category that was not
  marked before. Setting the queue position reports a change exactly when it differs.
\<close>

lemma changes_reported_once:
  assumes "\<forall>k \<in> set ks. k < 8" "n < 8"
  shows "(need_save_resume_data (flag_bit n) (mark_changes ks t) \<longleftrightarrow>
      need_save_resume_data (flag_bit n) t \<or> n \<in> set ks \<or> ks \<noteq> [] \<and> n = 2) \<and>
    state_updates (mark_changes ks t) = state_updates t +
      card {k \<in> set ks. k \<noteq> 2 \<and> \<not> need_save_resume_data (flag_bit k) t} \<and>
    m_sequence_number (set_queue_position_impl p t) = p \<and>
    state_updates (set_queue_position_impl p t) =
      state_updates t + (if m_sequence_number t = p then 0 else 1)"
proof -
  have "{k \<in> set ks. k \<noteq> 2 \<and> \<not> need_save_resume_data (flag_bit k) t} =
      {k \<in> set ks. k \<noteq> 2 \<and> \<not> bit (m_need_save_resume_data t) k}"
    using assms(1) by (auto simp: need_save_resume_data_def flag_test_bit)
  then show ?thesis
    using mark_changes_effect [OF assms(1)] assms(2)
    by (auto simp: need_save_resume_data_def flag_test_bit set_queue_position_impl_def state_updated_def)
qed

section \<open>Counters of connecting peers\<close>

text \<open>
  The callers count a peer when its connection attempt starts and uncount it when the attempt ends,
  with the same \<open>seed\<close> flag. The ghost list holds the peers whose attempts are under way.
\<close>

datatype conn_event = Attempt_Starts nat bool | Attempt_Ends nat

fun conn_step :: "torrent \<times> (nat \<times> bool) list \<Rightarrow> conn_event \<Rightarrow> torrent \<times> (nat \<times> bool) list" where
  "conn_step (t, cs) (Attempt_Starts p sd) =
     (if p \<in> fst ` set cs then (t, cs) else (inc_num_connecting sd t, (p, sd) # cs))"
| "conn_step (t, cs) (Attempt_Ends p) =
     (case map_of cs p of
        None \<Rightarrow> (t, cs)
      | Some sd \<Rightarrow> (dec_num_connecting sd t, remove1 (p, sd) cs))"

definition conn_counted :: "torrent \<times> (nat \<times> bool) list \<Rightarrow> bool" where
  "conn_counted s \<longleftrightarrow> distinct (map fst (snd s)) \<and>
     m_num_connecting (fst s) = of_nat (length (snd s)) \<and>
     m_num_connecting_seeds (fst s) = of_nat (length (filter snd (snd s)))"

lemma remove1_distinct_fst: "distinct (map fst cs) \<Longrightarrow> distinct (map fst (remove1 x cs))"
  by (induction cs) (auto dest: notin_set_remove1 intro: rev_image_eqI simp: image_iff)

lemma length_filter_remove1:
  "x \<in> set cs \<Longrightarrow> length (filter P cs) = length (filter P (remove1 x cs)) + (if P x then 1 else 0)"
  by (induction cs) auto

lemma conn_counted_step: "conn_counted s \<Longrightarrow> conn_counted (conn_step s e)"
proof (induction s e rule: conn_step.induct)
  case (1 t cs p sd)
  then show ?case
    by (auto simp: conn_counted_def inc_num_connecting_def Let_def)
next
  case (2 t cs p)
  show ?case
  proof (cases "map_of cs p")
    case None
    with 2 show ?thesis by simp
  next
    case (Some sd)
    then have mem: "(p, sd) \<in> set cs" by (rule map_of_SomeD)
    then have "0 < length cs" by auto
    then have "(of_nat (length cs) :: u16) - 1 = of_nat (length cs - 1)"
      by (cases cs) simp_all
    with 2 Some mem length_filter_remove1 [OF mem, of snd] show ?thesis
      by (auto simp: conn_counted_def dec_num_connecting_def Let_def remove1_distinct_fst length_remove1)
  qed
qed

interpretation connecting: invariant_machine conn_step conn_counted
  by unfold_locales (rule conn_counted_step)

text \<open>
  C30. The counters of connecting peers. Starting with no attempt under way, after any sequence of
  attempts that start and end, \<open>m_num_connecting\<close> is the number of attempts under way and
  \<open>m_num_connecting_seeds\<close> the number of those to seeds, as long as at most 65535 are under way at
  the end; the second never exceeds the first, and both are 0 when every attempt has ended.
\<close>

theorem connecting_counted:
  assumes "m_num_connecting t = 0" "m_num_connecting_seeds t = 0"
    and "foldl conn_step (t, []) es = (t', cs)" "length cs \<le> 65535"
  shows "distinct (map fst cs) \<and> unat (m_num_connecting t') = length cs \<and>
    unat (m_num_connecting_seeds t') = length (filter snd cs) \<and>
    m_num_connecting_seeds t' \<le> m_num_connecting t' \<and>
    (cs = [] \<longrightarrow> m_num_connecting t' = 0 \<and> m_num_connecting_seeds t' = 0)"
proof -
  have "conn_counted (t, [])" using assms(1,2) by (simp add: conn_counted_def)
  from connecting.inv_run [OF this, of es] have inv: "conn_counted (t', cs)" by (simp add: assms(3))
  have le: "length (filter snd cs) < 65536" using assms(4) length_filter_le [of snd cs] by linarith
  have n: "unat (m_num_connecting t') = length cs"
      "unat (m_num_connecting_seeds t') = length (filter snd cs)"
    using inv assms(4) le by (simp_all add: conn_counted_def unat_of_nat take_bit_nat_eq_self)
  then have "m_num_connecting_seeds t' \<le> m_num_connecting t'" by (simp add: word_le_nat_alt)
  with inv n show ?thesis by (auto simp: conn_counted_def)
qed

theorem connecting_counted_witness:
  "let (t', cs) = foldl conn_step (example_torrent, [])
       [Attempt_Starts 4 True, Attempt_Starts 8 False, Attempt_Ends 4, Attempt_Starts 8 True]
   in unat (m_num_connecting t') = 1 \<and> unat (m_num_connecting_seeds t') = 0 \<and> cs = [(8, False)]"
proof -
  let ?es = "[Attempt_Starts 4 True, Attempt_Starts 8 False, Attempt_Ends 4, Attempt_Starts 8 True]"
  let ?t = "dec_num_connecting True (inc_num_connecting False (inc_num_connecting True example_torrent))"
  have run: "foldl conn_step (example_torrent, []) ?es = (?t, [(8, False)])" by simp
  show ?thesis unfolding run
    using connecting_counted [OF _ _ run] by (simp add: example_torrent_def)
qed

section \<open>Web seeds\<close>

text \<open>
  \<open>web_seed_t\<close> and its move assignment, which the header defines for builds with the checked iterators
  of the GNU library. The state of the right-hand side afterwards is not modelled.
\<close>

record web_seed_t = web_seed_entry +
  ws_retry :: int
  ws_endpoints :: "endpoint list"
  ws_peer_info :: peer
  supports_keepalive :: bool
  resolving :: bool
  ws_removed :: bool
  interesting :: bool
  ephemeral :: bool
  no_local_ips :: bool
  disabled :: bool
  restart_request :: peer_request
  restart_piece :: bytes
  redirects :: "(int \<times> bytes) list"
  have_files :: bitfield

definition assign_web_seed :: "web_seed_t \<Rightarrow> web_seed_t \<Rightarrow> web_seed_t" where
  "assign_web_seed rhs l =
     (if rhs = l then l
      else l\<lparr>seed_url := seed_url rhs, seed_auth := seed_auth rhs,
        seed_extra_headers := seed_extra_headers rhs, seed_type := seed_type rhs,
        ws_retry := ws_retry rhs, ws_endpoints := ws_endpoints rhs, ws_peer_info := ws_peer_info rhs,
        supports_keepalive := supports_keepalive rhs, resolving := resolving rhs,
        ws_removed := ws_removed rhs, ephemeral := ephemeral rhs, no_local_ips := no_local_ips rhs,
        disabled := disabled rhs, restart_request := restart_request rhs,
        restart_piece := restart_piece rhs, redirects := redirects rhs, have_files := have_files rhs\<rparr>)"

text \<open>The assignment forgets \<open>interesting\<close>: the web seed keeps the flag it had.\<close>

lemma assigned_web_seed:
  "assign_web_seed rhs l = rhs\<lparr>interesting := interesting l\<rparr>"
  by (auto simp: assign_web_seed_def)

lemma assignment_loses_interesting:
  "assign_web_seed rhs l = rhs \<longleftrightarrow> interesting l = interesting rhs"
proof
  assume "assign_web_seed rhs l = rhs"
  then have "interesting (rhs\<lparr>interesting := interesting l\<rparr>) = interesting rhs"
    by (simp add: assigned_web_seed)
  then show "interesting l = interesting rhs" by simp
qed (simp add: assigned_web_seed)

end
