(* ===== verification/Peer_State.thy ===== *)
theory Peer_State
  imports Sort_Orders Transfer_Stat Flags
begin

text \<open>
  The inline part of class \<open>peer_connection\<close> (\<open>peer_connection.hpp\<close>, with \<open>aux_/has_block.hpp\<close> and
  \<open>aux_/bandwidth_limit.hpp\<close>): times relative to the start of the connection, requested blocks, the
  rate limit, and the \<open>cork\<close> that collects what several functions write into one send operation.
  \<open>is_seed\<close>, \<open>on_parole\<close>, \<open>setup_send\<close> and \<open>disconnect\<close> are in the prebuilt library and parameters.
\<close>

section \<open>Times relative to a reference\<close>

text \<open>
  A \<open>time_point\<close> counts nanoseconds in 64 bits, a \<open>relative_time\<close> milliseconds in 32 bits.
  \<open>duration_cast\<close> rounds towards zero and converts the quotient to 32 bits.
\<close>

definition relative_time_init :: int where
  "relative_time_init = 0"

definition relative_time_min :: int where
  "relative_time_min = - 2147483648"

definition relative_time_set :: "int \<Rightarrow> int \<Rightarrow> int option" where
  "relative_time_set reference new_value =
     map_option (\<lambda>d. to_int32 (d sdiv 1000000)) (c_int64 (new_value - reference))"

definition relative_time_get :: "int \<Rightarrow> int \<Rightarrow> int option" where
  "relative_time_get reference m_time_diff = c_int64 (reference + m_time_diff * 1000000)"

section \<open>Clamping\<close>

definition clamp_assign :: "int \<Rightarrow> 'a::len word" where
  "clamp_assign v =
     (let limit = - 1 :: 'a word in
      if v < 0 then 0 else if v > to_int32 (uint limit) then limit else of_int v)"

section \<open>Requested blocks\<close>

record pending_block =
  pending_piece :: piece_block
  send_buffer_offset :: "29 word"
  not_wanted :: bool
  block_timed_out :: bool
  busy :: bool

definition not_in_buffer :: "29 word" where
  "not_in_buffer = 0x1fffffff"

definition make_pending_block :: "piece_block \<Rightarrow> pending_block" where
  "make_pending_block b = \<lparr>pending_piece = b, send_buffer_offset = not_in_buffer, not_wanted = False,
     block_timed_out = False, busy = False\<rparr>"

definition pending_block_equal :: "pending_block \<Rightarrow> pending_block \<Rightarrow> bool" where
  "pending_block_equal a b \<longleftrightarrow> piece_block_equal (pending_piece b) (pending_piece a) \<and>
     not_wanted b = not_wanted a \<and> block_timed_out b = block_timed_out a"

definition has_block :: "piece_block \<Rightarrow> pending_block \<Rightarrow> bool" where
  "has_block b pb = piece_block_equal (pending_piece pb) b"

section \<open>The rate limit\<close>

record bandwidth_channel =
  m_quota_left :: int
  m_limit :: int

definition throttle :: "bandwidth_channel \<Rightarrow> int" where
  "throttle c = m_limit c"

definition need_queueing :: "int \<Rightarrow> bandwidth_channel \<Rightarrow> (bool \<times> bandwidth_channel) option" where
  "need_queueing amount c =
     map_option (\<lambda>d. if d < m_limit c then (True, c) else (False, c\<lparr>m_quota_left := d\<rparr>))
       (c_int64 (m_quota_left c - amount))"

section \<open>The connection\<close>

type_synonym bandwidth_state_flags_t = byte

definition bw_idle :: bandwidth_state_flags_t where "bw_idle = flag_bit 0"
definition bw_limit :: bandwidth_state_flags_t where "bw_limit = flag_bit 1"
definition bw_network :: bandwidth_state_flags_t where "bw_network = flag_bit 2"
definition bw_disk :: bandwidth_state_flags_t where "bw_disk = flag_bit 4"

datatype disconnect_reason = Not_Enough_Memory | Error_Code int

record peer_connection =
  upload_state :: bandwidth_state_flags_t
  m_endgame_mode :: bool
  m_snubbed :: bool
  m_desired_queue_size :: int
  m_prefer_contiguous_blocks :: u16
  m_superseed_piece :: "int \<times> int"
  m_upload_only :: bool
  m_peer_have_all :: bool
  m_statistics :: "stat_channel list"
  m_uploaded_at_last_round :: int
  m_downloaded_at_last_round :: int
  m_uploaded_at_last_unchoke :: int
  m_connect :: int
  m_last_unchoke :: int
  m_last_receive :: int
  m_peer_last_seen_complete :: int
  m_exceeded_limit :: bool
  m_received_listen_port :: bool
  m_send_barrier :: int
  async_sends :: nat
  m_disconnected :: "disconnect_reason list"

definition desired_queue_size :: "peer_connection \<Rightarrow> int" where
  "desired_queue_size p = (if m_endgame_mode p \<or> m_snubbed p then 1 else m_desired_queue_size p)"

definition prefer_contiguous_blocks :: "(peer_connection \<Rightarrow> bool) \<Rightarrow> peer_connection \<Rightarrow> int" where
  "prefer_contiguous_blocks parole p =
     (if parole p then 1 else uint (m_prefer_contiguous_blocks p))"

definition set_prefer_contiguous_blocks :: "int \<Rightarrow> peer_connection \<Rightarrow> peer_connection" where
  "set_prefer_contiguous_blocks num p = p\<lparr>m_prefer_contiguous_blocks := clamp_assign num\<rparr>"

definition super_seeded_piece :: "int \<Rightarrow> peer_connection \<Rightarrow> bool" where
  "super_seeded_piece i p \<longleftrightarrow> fst (m_superseed_piece p) = i \<or> snd (m_superseed_piece p) = i"

definition upload_only :: "(peer_connection \<Rightarrow> bool) \<Rightarrow> peer_connection \<Rightarrow> bool" where
  "upload_only is_seed p \<longleftrightarrow> m_upload_only p \<or> is_seed p \<or> m_peer_have_all p"

definition uploaded_in_last_round :: "peer_connection \<Rightarrow> int option" where
  "uploaded_in_last_round p =
     c_int64 (total_payload_upload (m_statistics p) - m_uploaded_at_last_round p)"

definition downloaded_in_last_round :: "peer_connection \<Rightarrow> int option" where
  "downloaded_in_last_round p =
     c_int64 (total_payload_download (m_statistics p) - m_downloaded_at_last_round p)"

definition uploaded_since_unchoked :: "peer_connection \<Rightarrow> int option" where
  "uploaded_since_unchoked p =
     c_int64 (total_payload_upload (m_statistics p) - m_uploaded_at_last_unchoke p)"

definition time_of_last_unchoke :: "peer_connection \<Rightarrow> int option" where
  "time_of_last_unchoke p = relative_time_get (m_connect p) (m_last_unchoke p)"

definition last_received :: "peer_connection \<Rightarrow> int option" where
  "last_received p = relative_time_get (m_connect p) (m_last_receive p)"

definition set_last_seen_complete :: "int \<Rightarrow> int \<Rightarrow> peer_connection \<Rightarrow> peer_connection" where
  "set_last_seen_complete posix_time ago p = p\<lparr>m_peer_last_seen_complete := posix_time - ago\<rparr>"

definition peer_exceeds_limit :: "peer_connection \<Rightarrow> peer_connection" where
  "peer_exceeds_limit p = p\<lparr>m_exceeded_limit := True\<rparr>"

definition peer_disconnected_other :: "peer_connection \<Rightarrow> peer_connection" where
  "peer_disconnected_other p = p\<lparr>m_exceeded_limit := False\<rparr>"

definition received_listen_port :: "peer_connection \<Rightarrow> peer_connection" where
  "received_listen_port p = p\<lparr>m_received_listen_port := True\<rparr>"

definition set_send_barrier :: "int \<Rightarrow> peer_connection \<Rightarrow> peer_connection" where
  "set_send_barrier n p = p\<lparr>m_send_barrier := n\<rparr>"

section \<open>\<open>cork\<close>\<close>

text \<open>
  What \<open>setup_send\<close> does is an outcome: it returns, or throws one of the three kinds of exceptions the
  destructor tells apart; \<open>disconnect\<close> gets the error code.
\<close>

datatype send_fault = Bad_Alloc | System_Error int | Other_Exception

datatype send_outcome = Returned peer_connection | Thrown send_fault peer_connection

text \<open>The error code \<open>disconnect\<close> is called with; the operation is always \<open>sock_write\<close>.\<close>

fun fault_reason :: "send_fault \<Rightarrow> disconnect_reason" where
  "fault_reason Bad_Alloc = Not_Enough_Memory"
| "fault_reason (System_Error e) = Error_Code e"
| "fault_reason Other_Exception = Not_Enough_Memory"

definition corked :: "peer_connection \<Rightarrow> bool" where
  "corked p = flag_test (flag_and (upload_state p) bw_network)"

text \<open>The constructor returns \<open>m_need_uncork\<close>.\<close>

definition cork_construct :: "peer_connection \<Rightarrow> bool \<times> peer_connection" where
  "cork_construct p =
     (if corked p then (False, p)
      else (True, p\<lparr>upload_state := flag_or (upload_state p) bw_network\<rparr>))"

definition cork_destruct ::
    "(peer_connection \<Rightarrow> send_outcome) \<Rightarrow> (disconnect_reason \<Rightarrow> peer_connection \<Rightarrow> peer_connection) \<Rightarrow>
     bool \<Rightarrow> peer_connection \<Rightarrow> peer_connection" where
  "cork_destruct setup_send disconnect need_uncork p =
     (if \<not> need_uncork then p
      else (case setup_send (p\<lparr>upload_state := flag_and (upload_state p) (flag_not bw_network)\<rparr>) of
          Returned q \<Rightarrow> q
        | Thrown f q \<Rightarrow> disconnect (fault_reason f) q))"

section \<open>Properties: times, clamping, limits\<close>

lemma sdiv_positive: "0 < k \<Longrightarrow> d sdiv k = (if 0 \<le> d then d div k else - (- d div k))" for d k :: int
  by (simp add: signed_divide_int_def sgn_if)

lemma clamp_assign_value:
  assumes "LENGTH('a::len) < 32"
  shows "uint (clamp_assign v :: 'a word) = max 0 (min v (2 ^ LENGTH('a) - 1))"
proof -
  have le: "(2 :: int) ^ LENGTH('a) \<le> 2147483648" "(0 :: int) < 2 ^ LENGTH('a)"
    using assms power_increasing [of "LENGTH('a)" 31 "2 :: int"] by simp_all
  have limit: "uint (- 1 :: 'a word) = 2 ^ LENGTH('a) - 1"
    by (simp add: unsigned_minus_1_eq_mask mask_eq_exp_minus_1)
  moreover have "to_int32 (2 ^ LENGTH('a) - 1) = 2 ^ LENGTH('a) - (1 :: int)"
    by (rule to_int32_id) (unfold in_int32_def, use le in linarith)
  ultimately show ?thesis
    by (auto simp: clamp_assign_def Let_def uint_word_of_int)
qed

text \<open>
  Times of a connection survive their 32 bits for 24 days. As long as a time is less than
  \<open>2 ^ 31\<close> milliseconds away from the reference, what \<open>get\<close> returns is defined, lies between the
  reference and the time, and is less than a millisecond away from it. A limit set through
  \<open>clamp_assign\<close> is the nearest value that 16 bits hold. A channel that does not need queueing has its
  quota reduced by the amount and keeps at least one second's worth of it.
\<close>

lemma peer_times_and_limits:
  assumes "\<bar>new_value - reference\<bar> < 2147483648 * 1000000" "in_int64 new_value" "in_int64 reference"
  shows "(\<exists>d r. relative_time_set reference new_value = Some d \<and> relative_time_get reference d = Some r \<and>
      \<bar>new_value - r\<bar> < 1000000 \<and> min reference new_value \<le> r \<and> r \<le> max reference new_value) \<and>
    prefer_contiguous_blocks (\<lambda>p. False) (set_prefer_contiguous_blocks n p) = max 0 (min n 65535) \<and>
    (need_queueing amount c = Some (False, c') \<longrightarrow>
      m_limit c \<le> m_quota_left c' \<and> m_quota_left c' = m_quota_left c - amount)"
proof -
  let ?d = "new_value - reference" and ?m = "(new_value - reference) sdiv 1000000"
  have m: "\<bar>?d - ?m * 1000000\<bar> < 1000000" "\<bar>?m * 1000000\<bar> \<le> \<bar>?d\<bar>" "\<bar>?m\<bar> < 2147483648"
      "0 \<le> ?d \<Longrightarrow> 0 \<le> ?m" "?d \<le> 0 \<Longrightarrow> ?m \<le> 0"
    using assms(1) by (auto simp: sdiv_positive)
  have "in_int64 ?d" using assms(1) by (auto simp: in_int64_def)
  moreover have "to_int32 ?m = ?m" using m(3) by (intro to_int32_id) (auto simp: in_int32_def)
  ultimately have set: "relative_time_set reference new_value = Some ?m"
    by (simp add: relative_time_set_def c_int64_def)
  have between: "min reference new_value \<le> reference + ?m * 1000000"
      "reference + ?m * 1000000 \<le> max reference new_value"
    using m by (auto simp: min_def max_def)
  with assms(2,3) have "in_int64 (reference + ?m * 1000000)"
    by (auto simp: in_int64_def min_def max_def split: if_splits)
  then have get: "relative_time_get reference ?m = Some (reference + ?m * 1000000)"
    by (simp add: relative_time_get_def c_int64_def)
  have "\<bar>new_value - (reference + ?m * 1000000)\<bar> < 1000000" using m(1) by simp
  with set get between show ?thesis
    by (auto simp: prefer_contiguous_blocks_def set_prefer_contiguous_blocks_def clamp_assign_value
        need_queueing_def c_int64_Some split: if_splits)
qed

text \<open>
  A time that is \<open>2 ^ 31\<close> milliseconds (24.8 days) after the reference comes back as one 49.7 days
  earlier.
\<close>

lemma relative_time_wraps:
  "relative_time_set 0 (2147483648 * 1000000) = Some (- 2147483648)"
  "relative_time_get 0 (- 2147483648) = Some (- 2147483648 * 1000000)"
  by (simp_all add: relative_time_set_def relative_time_get_def c_int64_def in_int64_def sdiv_positive
      to_int32_def signed_take_bit_eq_take_bit_shift take_bit_eq_mod)

section \<open>Properties: \<open>cork\<close>\<close>

text \<open>
  What a function does to the connection while it holds a cork: it calls \<open>setup_send\<close>, calls functions
  that hold corks of their own, and does any other work. An exception leaves the function.
\<close>

datatype cork_action =
    Call_Setup_Send
  | Work "peer_connection \<Rightarrow> send_outcome"
  | Corked "cork_action list"

fun run_action and run_actions where
  "run_action setup_send disconnect Call_Setup_Send p = setup_send p"
| "run_action setup_send disconnect (Work w) p = w p"
| "run_action setup_send disconnect (Corked body) p =
     (case run_actions setup_send disconnect body (snd (cork_construct p)) of
        Returned q \<Rightarrow> Returned (cork_destruct setup_send disconnect (fst (cork_construct p)) q)
      | Thrown f q \<Rightarrow> Thrown f (cork_destruct setup_send disconnect (fst (cork_construct p)) q))"
| "run_actions setup_send disconnect [] p = Returned p"
| "run_actions setup_send disconnect (a # as) p =
     (case run_action setup_send disconnect a p of
        Returned q \<Rightarrow> run_actions setup_send disconnect as q
      | Thrown f q \<Rightarrow> Thrown f q)"

text \<open>The same work with the corks inside it left out.\<close>

fun flatten_action and flatten_actions where
  "flatten_action (Corked body) = flatten_actions body"
| "flatten_action Call_Setup_Send = [Call_Setup_Send]"
| "flatten_action (Work w) = [Work w]"
| "flatten_actions [] = []"
| "flatten_actions (a # as) = flatten_action a @ flatten_actions as"

fun outcome_state :: "send_outcome \<Rightarrow> peer_connection" where
  "outcome_state (Returned q) = q"
| "outcome_state (Thrown f q) = q"

text \<open>
  What the constructor's comment relies on: while the connection is marked as having a send operation
  outstanding, \<open>setup_send\<close> may do anything (throw as well) but issue an \<open>async_send\<close>, and the mark, which
  stands for an operation that has not completed, stays. Other work does not send at all.
\<close>

definition no_send_while_corked :: "(peer_connection \<Rightarrow> send_outcome) \<Rightarrow> bool" where
  "no_send_while_corked f \<longleftrightarrow> (\<forall>p. corked p \<longrightarrow>
     corked (outcome_state (f p)) \<and> async_sends (outcome_state (f p)) = async_sends p)"

fun action_ok and actions_ok where
  "action_ok Call_Setup_Send = True"
| "action_ok (Work w) = no_send_while_corked w"
| "action_ok (Corked body) = actions_ok body"
| "actions_ok [] = True"
| "actions_ok (a # as) = (action_ok a \<and> actions_ok as)"

lemma corked_flag: "corked p \<longleftrightarrow> bit (upload_state p) 2"
  by (simp add: corked_def bw_network_def flag_test_bit)

lemma bit_bw_network: "bit bw_network n \<longleftrightarrow> n = 2"
  by (simp add: bw_network_def bit_flag_bit)

lemma corked_or [simp]: "corked (p\<lparr>upload_state := flag_or (upload_state p) bw_network\<rparr>)"
  by (simp add: corked_flag flag_or_def bit_or_iff bit_bw_network)

lemma corked_or_id: "corked p \<Longrightarrow> p\<lparr>upload_state := flag_or (upload_state p) bw_network\<rparr> = p"
proof -
  assume "corked p"
  then have "flag_or (upload_state p) bw_network = upload_state p"
    by (intro bit_word_eqI) (auto simp: flag_or_def bit_or_iff bit_bw_network corked_flag)
  then show ?thesis by simp
qed

lemma run_actions_append:
  "run_actions setup_send disconnect (as @ bs) p =
     (case run_actions setup_send disconnect as p of
        Returned q \<Rightarrow> run_actions setup_send disconnect bs q
      | Thrown f q \<Rightarrow> Thrown f q)"
  by (induction as arbitrary: p) (simp_all split: send_outcome.split)

lemma run_single: "run_actions setup_send disconnect [a] p = run_action setup_send disconnect a p"
  by (simp split: send_outcome.split)

lemma inner_cork:
  "corked p \<Longrightarrow> run_action setup_send disconnect (Corked body) p = run_actions setup_send disconnect body p"
  by (simp add: cork_construct_def cork_destruct_def split: send_outcome.split)

text \<open>Under a cork, further corks make no difference and nothing is sent.\<close>

lemma inner_corks_vanish:
  assumes "no_send_while_corked setup_send"
  shows "action_ok a \<Longrightarrow> corked p \<Longrightarrow>
      run_action setup_send disconnect a p = run_actions setup_send disconnect (flatten_action a) p \<and>
      corked (outcome_state (run_action setup_send disconnect a p)) \<and>
      async_sends (outcome_state (run_action setup_send disconnect a p)) = async_sends p"
    and "actions_ok as \<Longrightarrow> corked p \<Longrightarrow>
      run_actions setup_send disconnect as p = run_actions setup_send disconnect (flatten_actions as) p \<and>
      corked (outcome_state (run_actions setup_send disconnect as p)) \<and>
      async_sends (outcome_state (run_actions setup_send disconnect as p)) = async_sends p"
proof (induction a and as arbitrary: p and p rule: action_ok_actions_ok.induct)
  case 1
  then show ?case using assms by (simp add: no_send_while_corked_def run_single del: run_actions.simps(2))
next
  case (2 w)
  then show ?case by (simp add: no_send_while_corked_def run_single del: run_actions.simps(2))
next
  case (3 body)
  from 3(2) have "actions_ok body" by simp
  from 3(1) [OF this 3(3)] show ?case
    unfolding inner_cork [OF 3(3)] flatten_action.simps .
next
  case 4
  then show ?case by simp
next
  case (5 a as)
  then have ok: "action_ok a" "actions_ok as" by simp_all
  note a = 5(1) [OF ok(1) 5(4)]
  show ?case
  proof (cases "run_action setup_send disconnect a p")
    case (Returned q)
    with a have "corked q" by simp
    from 5(2) [OF ok(2) this] a Returned show ?thesis
      by (auto simp: run_actions_append split: send_outcome.split dest: sym)
  next
    case (Thrown f q)
    with a show ?thesis by (auto simp: run_actions_append dest: sym)
  qed
qed


text \<open>
  The witness: a \<open>setup_send\<close> that counts the sends it starts and then fails, in a function that writes,
  calls one that holds a cork too, and then throws.
\<close>

definition counting_setup_send :: "peer_connection \<Rightarrow> send_outcome" where
  "counting_setup_send p =
     (if corked p then Returned p else Thrown (System_Error 32) (p\<lparr>async_sends := Suc (async_sends p)\<rparr>))"

definition note_barrier :: "int \<Rightarrow> peer_connection \<Rightarrow> send_outcome" where
  "note_barrier n p = Returned (p\<lparr>m_send_barrier := n\<rparr>)"


end
