(* ===== verification/Session_State.thy ===== *)
theory Session_State
  imports Proxy_Stream Settings_Pack Flags
begin

text \<open>
  The inline part of the session (\<open>aux_/session_impl.hpp\<close>, with \<open>aux_/listen_socket_handle.hpp\<close> and
  \<open>udp_socket.hpp\<close>) and of the manager of uTP sockets (\<open>aux_/utp_socket_manager.hpp\<close>): which ports are
  published, sending through a handle of a listen socket that may be gone, the time of the session,
  and the limits of uTP sockets. A listen socket is shared: a handle is a weak reference, here the
  number of the socket, and \<open>m_listen_sockets\<close> holds those that are alive.
\<close>

section \<open>Listen sockets\<close>

type_synonym listen_socket_flags_t = byte

definition accept_incoming :: listen_socket_flags_t where "accept_incoming = flag_bit 0"
definition local_network :: listen_socket_flags_t where "local_network = flag_bit 1"
definition was_expanded :: listen_socket_flags_t where "was_expanded = flag_bit 2"
definition proxy_flag :: listen_socket_flags_t where "proxy_flag = flag_bit 3"

datatype transport = plaintext | ssl_transport

record listen_port_mapping =
  mapping :: int
  map_port :: int

definition listen_port_mapping_init :: listen_port_mapping where
  "listen_port_mapping_init = \<lparr>mapping = - 1, map_port = 0\<rparr>"

text \<open>The local endpoint of an open UDP socket is what the system answers.\<close>

record udp_socket =
  m_bind_port :: int
  m_udp_abort :: bool
  system_endpoint :: endpoint

definition udp_is_open :: "udp_socket \<Rightarrow> bool" where
  "udp_is_open s \<longleftrightarrow> m_udp_abort s = False"

definition udp_is_closed :: "udp_socket \<Rightarrow> bool" where
  "udp_is_closed s = m_udp_abort s"

definition udp_local_port :: "udp_socket \<Rightarrow> int" where
  "udp_local_port s = m_bind_port s"

record listen_socket_t =
  local_endpoint :: endpoint
  netmask :: address
  device :: bytes
  original_port :: int
  tcp_port_mapping :: "listen_port_mapping list"
  udp_port_mapping :: "listen_port_mapping list"
  ls_ssl :: transport
  ls_flags :: listen_socket_flags_t
  udp_sock :: "udp_socket option"
  incoming_connection :: bool

definition get_local_endpoint :: "listen_socket_t \<Rightarrow> endpoint" where
  "get_local_endpoint s =
     (case udp_sock s of
        Some u \<Rightarrow> system_endpoint u
      | None \<Rightarrow> \<lparr>ep_address = ep_address (local_endpoint s), ep_port = ep_port (local_endpoint s)\<rparr>)"

fun mapped_port :: "listen_port_mapping list \<Rightarrow> int option" where
  "mapped_port [] = None"
| "mapped_port (m # ms) = (if map_port m \<noteq> 0 then Some (map_port m) else mapped_port ms)"

definition tcp_external_port :: "listen_socket_t \<Rightarrow> int" where
  "tcp_external_port s =
     (case mapped_port (tcp_port_mapping s) of
        Some p \<Rightarrow> p | None \<Rightarrow> uint (ep_port (local_endpoint s)))"

definition udp_external_port :: "listen_socket_t \<Rightarrow> int" where
  "udp_external_port s =
     (case mapped_port (udp_port_mapping s) of
        Some p \<Rightarrow> p
      | None \<Rightarrow> (case udp_sock s of Some u \<Rightarrow> udp_local_port u | None \<Rightarrow> 0))"

record listen_endpoint_t =
  le_addr :: address
  le_netmask :: address
  le_port :: int
  le_device :: bytes
  le_ssl :: transport
  le_flags :: listen_socket_flags_t

definition listen_endpoint_equal :: "listen_endpoint_t \<Rightarrow> listen_endpoint_t \<Rightarrow> bool" where
  "listen_endpoint_equal l r \<longleftrightarrow> le_addr l = le_addr r \<and> le_port l = le_port r \<and>
     le_device l = le_device r \<and> le_ssl l = le_ssl r \<and> le_flags l = le_flags r"

section \<open>The session\<close>

text \<open>A handle is \<open>None\<close> when it never referred to a socket.\<close>

type_synonym listen_socket_handle = "nat option"

record session_impl =
  m_listen_sockets :: "(nat \<times> listen_socket_t) list"
  m_created :: int
  m_unchoke_time_scaler :: int
  m_optimistic_unchoke_time_scaler :: int
  m_boost_connections :: int
  m_num_torrents :: nat
  m_session_paused :: bool
  m_abort :: bool
  udp_sent :: "(nat \<times> endpoint \<times> bytes) list"

definition handle_get :: "session_impl \<Rightarrow> listen_socket_handle \<Rightarrow> listen_socket_t option" where
  "handle_get ses h = Option.bind h (map_of (m_listen_sockets ses))"

definition handle_bool :: "session_impl \<Rightarrow> listen_socket_handle \<Rightarrow> bool" where
  "handle_bool ses h \<longleftrightarrow> handle_get ses h \<noteq> None"

text \<open>Two handles are equal when they share the owner, alive or not.\<close>

definition handle_equal :: "listen_socket_handle \<Rightarrow> listen_socket_handle \<Rightarrow> bool" where
  "handle_equal a b \<longleftrightarrow> a = b"

text \<open>
  \<open>send_udp_packet_listen\<close> and \<open>send_udp_packet_hostname_listen\<close>; \<open>send\<close> is \<open>send_udp_packet\<close>
  (\<open>send_udp_packet_hostname\<close>) of the prebuilt library, for a socket that is alive.
\<close>

definition send_udp_packet_listen ::
    "(nat \<Rightarrow> 'a \<Rightarrow> bytes \<Rightarrow> session_impl \<Rightarrow> error_code \<times> session_impl) \<Rightarrow> listen_socket_handle \<Rightarrow> 'a \<Rightarrow>
     bytes \<Rightarrow> session_impl \<Rightarrow> error_code \<times> session_impl" where
  "send_udp_packet_listen send h ep p ses =
     (case (h, handle_get ses h) of
        (Some n, Some s) \<Rightarrow> send n ep p ses
      | _ \<Rightarrow> (Other_Error 9, ses))"

definition announce_dht :: "session_impl \<Rightarrow> bool" where
  "announce_dht ses \<longleftrightarrow> m_listen_sockets ses \<noteq> []"

definition for_each_listen_socket :: "('s \<Rightarrow> listen_socket_handle \<Rightarrow> 's) \<Rightarrow> session_impl \<Rightarrow> 's \<Rightarrow> 's" where
  "for_each_listen_socket f ses s = foldl (\<lambda>s n. f s (Some n)) s (map fst (m_listen_sockets ses))"

text \<open>\<open>total_seconds\<close> of a difference of nanoseconds rounds towards zero.\<close>

definition session_time :: "int \<Rightarrow> session_impl \<Rightarrow> u16" where
  "session_time time_now ses =
     (let ret = (time_now - m_created ses) sdiv 1000000000 + 1
      in if ret > 65535 then 65535 else of_int ret)"

definition trigger_unchoke :: "session_impl \<Rightarrow> session_impl" where
  "trigger_unchoke ses = ses\<lparr>m_unchoke_time_scaler := 0\<rparr>"

definition trigger_optimistic_unchoke :: "session_impl \<Rightarrow> session_impl" where
  "trigger_optimistic_unchoke ses = ses\<lparr>m_optimistic_unchoke_time_scaler := 0\<rparr>"

definition inc_boost_connections :: "session_impl \<Rightarrow> session_impl option" where
  "inc_boost_connections ses =
     map_option (\<lambda>n. ses\<lparr>m_boost_connections := n\<rparr>) (c_int (m_boost_connections ses + 1))"

section \<open>Limits of uTP sockets\<close>

definition int_setting_value :: "settings_store \<Rightarrow> string \<Rightarrow> int option" where
  "int_setting_value sett n =
     (case get_setting sett (IntKey n) of Some (VInt v) \<Rightarrow> Some v | _ \<Rightarrow> None)"

definition gain_factor :: "settings_store \<Rightarrow> int option" where
  "gain_factor sett = int_setting_value sett ''utp_gain_factor''"
definition target_delay :: "settings_store \<Rightarrow> int option" where
  "target_delay sett = Option.bind (int_setting_value sett ''utp_target_delay'') (\<lambda>v. c_int (v * 1000))"
definition syn_resends :: "settings_store \<Rightarrow> int option" where
  "syn_resends sett = int_setting_value sett ''utp_syn_resends''"
definition fin_resends :: "settings_store \<Rightarrow> int option" where
  "fin_resends sett = int_setting_value sett ''utp_fin_resends''"
definition num_resends :: "settings_store \<Rightarrow> int option" where
  "num_resends sett = int_setting_value sett ''utp_num_resends''"
definition connect_timeout :: "settings_store \<Rightarrow> int option" where
  "connect_timeout sett = int_setting_value sett ''utp_connect_timeout''"
definition min_timeout :: "settings_store \<Rightarrow> int option" where
  "min_timeout sett = int_setting_value sett ''utp_min_timeout''"
definition loss_multiplier :: "settings_store \<Rightarrow> int option" where
  "loss_multiplier sett = int_setting_value sett ''utp_loss_multiplier''"
definition cwnd_reduce_timer :: "settings_store \<Rightarrow> int option" where
  "cwnd_reduce_timer sett = int_setting_value sett ''utp_cwnd_reduce_timer''"

text \<open>The last three restrictions of the MTU: an array of three and the next index to overwrite.\<close>

record mtu_window =
  m_restrict_mtu :: "int list"
  m_mtu_idx :: nat

definition restrict_mtu :: "int \<Rightarrow> mtu_window \<Rightarrow> mtu_window" where
  "restrict_mtu mtu w =
     w\<lparr>m_restrict_mtu := (m_restrict_mtu w)[m_mtu_idx w := mtu],
       m_mtu_idx := Suc (m_mtu_idx w) mod length (m_restrict_mtu w)\<rparr>"

definition restricted_mtu :: "mtu_window \<Rightarrow> int" where
  "restricted_mtu w = Max (set (m_restrict_mtu w))"

section \<open>Properties\<close>

lemma mapped_port_find: "mapped_port ms = map_option map_port (find (\<lambda>m. map_port m \<noteq> 0) ms)"
  by (induction ms) auto

text \<open>What the MTU window holds, from the oldest restriction to the newest.\<close>

definition recent_mtus :: "mtu_window \<Rightarrow> int list" where
  "recent_mtus w = rotate (m_mtu_idx w) (m_restrict_mtu w)"

definition mtu_wf :: "mtu_window \<Rightarrow> bool" where
  "mtu_wf w \<longleftrightarrow> m_mtu_idx w < length (m_restrict_mtu w)"

lemma restrict_mtu_shifts:
  assumes "mtu_wf w"
  shows "mtu_wf (restrict_mtu mtu w) \<and>
    length (m_restrict_mtu (restrict_mtu mtu w)) = length (m_restrict_mtu w) \<and>
    recent_mtus (restrict_mtu mtu w) = tl (recent_mtus w) @ [mtu]"
proof -
  let ?l = "m_restrict_mtu w" and ?i = "m_mtu_idx w"
  have i: "?i < length ?l" using assms by (simp add: mtu_wf_def)
  have old: "rotate ?i ?l = ?l ! ?i # drop (Suc ?i) ?l @ take ?i ?l"
    using i by (simp add: rotate_drop_take Cons_nth_drop_Suc)
  have upd: "?l[?i := mtu] = take ?i ?l @ mtu # drop (Suc ?i) ?l"
    using i by (rule upd_conv_take_nth_drop)
  have "rotate (Suc ?i mod length ?l) (?l[?i := mtu]) = rotate (Suc ?i) (?l[?i := mtu])"
    using rotate_conv_mod [of "Suc ?i" "?l[?i := mtu]"] by simp
  also have "\<dots> = rotate1 (rotate ?i (?l[?i := mtu]))" by simp
  also have "rotate ?i (?l[?i := mtu]) = mtu # drop (Suc ?i) ?l @ take ?i ?l"
    using i by (simp add: upd rotate_drop_take)
  finally show ?thesis
    using i old by (auto simp: mtu_wf_def restrict_mtu_def recent_mtus_def intro!: mod_less_divisor)
qed

lemma restrict_mtus:
  "mtu_wf w \<Longrightarrow> mtu_wf (foldl (\<lambda>w m. restrict_mtu m w) w ms) \<and>
    recent_mtus (foldl (\<lambda>w m. restrict_mtu m w) w ms) = drop (length ms) (recent_mtus w @ ms)"
proof (induction ms arbitrary: w)
  case (Cons m ms)
  from restrict_mtu_shifts [OF Cons.prems, of m] Cons.IH [of "restrict_mtu m w"]
  have "mtu_wf (foldl (\<lambda>w m. restrict_mtu m w) (restrict_mtu m w) ms)"
    "recent_mtus (foldl (\<lambda>w m. restrict_mtu m w) (restrict_mtu m w) ms) =
      drop (length ms) (tl (recent_mtus w) @ m # ms)" by simp_all
  moreover have "recent_mtus w \<noteq> []"
    using Cons.prems by (auto simp: mtu_wf_def recent_mtus_def)
  ultimately show ?case by (cases "recent_mtus w") simp_all
qed simp

definition utp_getters :: "(string \<times> (settings_store \<Rightarrow> int option)) list" where
  "utp_getters = [(''utp_gain_factor'', gain_factor), (''utp_syn_resends'', syn_resends),
     (''utp_fin_resends'', fin_resends), (''utp_num_resends'', num_resends),
     (''utp_connect_timeout'', connect_timeout), (''utp_min_timeout'', min_timeout),
     (''utp_loss_multiplier'', loss_multiplier), (''utp_cwnd_reduce_timer'', cwnd_reduce_timer)]"

lemma utp_setting_names:
  "n \<in> fst ` set utp_getters \<or> n = ''utp_target_delay'' \<Longrightarrow> int_name n"
  by (auto simp: utp_getters_def int_name_iff int_types_1_def int_types_2_def int_types_3_def
      int_types_4_def int_types_5_def int_types_6_def int_types_7_def int_types_8_def)

lemma utp_getter_value: "(n, g) \<in> set utp_getters \<Longrightarrow> g sett = int_setting_value sett n"
  by (auto simp: utp_getters_def gain_factor_def syn_resends_def fin_resends_def num_resends_def
      connect_timeout_def min_timeout_def loss_multiplier_def cwnd_reduce_timer_def)

text \<open>
  The limits of uTP sockets follow the settings and the network. After a pack of valid settings is
  applied, every limit is the value the pack set last for its setting, or what it was; the target
  delay is this value in microseconds, as long as it fits. After any sequence of restrictions the MTU
  limit is the largest of the last three, the initial ones included.
\<close>

lemma utp_limits_follow:
  assumes "store_inv s" "list_all (\<lambda>(k, v). valid_setting k v) pack" "mtu_wf w"
    and "length (m_restrict_mtu w) = 3"
  shows "\<exists>s'. apply_pack pack s = Some s' \<and>
    (\<forall>(n, g) \<in> set utp_getters. \<forall>v. map_of (rev pack) (IntKey n) = Some (VInt v) \<longrightarrow> g s' = Some v) \<and>
    (\<forall>(n, g) \<in> set utp_getters. map_of (rev pack) (IntKey n) = None \<longrightarrow> g s' = g s) \<and>
    (\<forall>v. map_of (rev pack) (IntKey ''utp_target_delay'') = Some (VInt v) \<longrightarrow>
      target_delay s' = (if in_int32 (v * 1000) then Some (v * 1000) else None)) \<and>
    restricted_mtu (foldl (\<lambda>w m. restrict_mtu m w) w ms) =
      Max (set (drop (length ms) (recent_mtus w @ ms))) \<and>
    length (drop (length ms) (recent_mtus w @ ms)) = 3"
proof -
  from settings.set_many_get [OF assms(1,2)] obtain s' where s': "apply_pack pack s = Some s'"
    "\<forall>k. valid_key k \<longrightarrow> get_setting s' k =
      (case map_of (rev pack) k of Some v \<Rightarrow> Some v | None \<Rightarrow> get_setting s k)"
    by (auto simp only: apply_pack_def)
  have get: "get_setting s' (IntKey n) =
      (case map_of (rev pack) (IntKey n) of Some v \<Rightarrow> Some v | None \<Rightarrow> get_setting s (IntKey n))"
    if "n \<in> fst ` set utp_getters \<or> n = ''utp_target_delay''" for n
    using s'(2) utp_setting_names [OF that] by (metis valid_key.simps(2))
  have set: "g s' = Some v" if "(n, g) \<in> set utp_getters" "map_of (rev pack) (IntKey n) = Some (VInt v)" for n g v
    using get [of n] that utp_getter_value [OF that(1), of s']
    by (simp add: int_setting_value_def image_iff del: get_setting.simps) (metis fst_conv option.simps(5) setting_value.simps(11))
  have unset: "g s' = g s" if "(n, g) \<in> set utp_getters" "map_of (rev pack) (IntKey n) = None" for n g
    using get [of n] that utp_getter_value [OF that(1)]
    by (simp add: int_setting_value_def del: get_setting.simps) (metis fst_conv image_eqI option.simps(4))
  have delay: "target_delay s' = (if in_int32 (v * 1000) then Some (v * 1000) else None)"
    if "map_of (rev pack) (IntKey ''utp_target_delay'') = Some (VInt v)" for v
    using get [of "''utp_target_delay''"] that
    by (simp add: target_delay_def int_setting_value_def c_int_def del: get_setting.simps)
  let ?w = "foldl (\<lambda>w m. restrict_mtu m w) w ms"
  have "set (m_restrict_mtu ?w) = set (recent_mtus ?w)" by (simp add: recent_mtus_def)
  then have "restricted_mtu ?w = Max (set (drop (length ms) (recent_mtus w @ ms)))"
    using restrict_mtus [OF assms(3), of ms] by (simp add: restricted_mtu_def)
  moreover have "length (recent_mtus w) = 3" by (simp add: recent_mtus_def assms(4))
  ultimately show ?thesis using s'(1) set unset delay by (intro exI [of _ s']) auto
qed

text \<open>
  What the session publishes. The external port of a listen socket is the first mapped port that
  is not 0, NAT-PMP before UPnP, and otherwise the local port (0 for UDP without a socket). A send
  through a handle whose socket is gone reports \<open>bad_descriptor\<close> and sends nothing. The session time
  is never 0, grows with the clock, counts the seconds from 1 on, and stays at 65535 once it is there.
\<close>

lemma session_publishes:
  assumes "m_created ses \<le> now" "now \<le> later"
  shows "tcp_external_port s =
      (case find (\<lambda>m. map_port m \<noteq> 0) (tcp_port_mapping s) of
         Some m \<Rightarrow> map_port m | None \<Rightarrow> uint (ep_port (local_endpoint s))) \<and>
    (udp_external_port s = 0 \<longleftrightarrow> (\<forall>m \<in> set (udp_port_mapping s). map_port m = 0) \<and>
      (\<forall>u. udp_sock s = Some u \<longrightarrow> m_bind_port u = 0)) \<and>
    (\<not> handle_bool ses h \<longrightarrow> send_udp_packet_listen send h ep p ses = (Other_Error 9, ses)) \<and>
    uint (session_time now ses) = min 65535 ((now - m_created ses) div 1000000000 + 1) \<and>
    1 \<le> session_time now ses \<and> session_time now ses \<le> session_time later ses"
proof -
  have time: "uint (session_time t ses) = min 65535 ((t - m_created ses) div 1000000000 + 1)"
    if "m_created ses \<le> t" for t
  proof -
    let ?q = "(t - m_created ses) div 1000000000"
    have q: "0 \<le> ?q" "(t - m_created ses) sdiv 1000000000 = ?q"
      using that by (simp_all add: signed_divide_int_def sgn_if)
    have "uint (word_of_int (?q + 1) :: u16) = ?q + 1" if "?q + 1 \<le> 65535"
      unfolding uint_word_of_int using q(1) that by simp
    then show ?thesis using q by (simp add: session_time_def Let_def del: of_int_add)
  qed
  have "0 \<le> (now - m_created ses) div 1000000000" using assms(1) by simp
  then have "1 \<le> session_time now ses"
    using time [OF assms(1)] by (simp add: word_le_def)
  moreover have "(now - m_created ses) div 1000000000 \<le> (later - m_created ses) div 1000000000"
    using assms(2) by (simp add: zdiv_mono1)
  then have "session_time now ses \<le> session_time later ses"
    using time [OF assms(1)] time [of later] assms by (simp add: word_le_def)
  moreover have "tcp_external_port s =
      (case find (\<lambda>m. map_port m \<noteq> 0) (tcp_port_mapping s) of
         Some m \<Rightarrow> map_port m | None \<Rightarrow> uint (ep_port (local_endpoint s)))"
    by (simp add: tcp_external_port_def mapped_port_find split: option.splits)
  moreover have "udp_external_port s = 0 \<longleftrightarrow> (\<forall>m \<in> set (udp_port_mapping s). map_port m = 0) \<and>
      (\<forall>u. udp_sock s = Some u \<longrightarrow> m_bind_port u = 0)"
    by (auto simp: udp_external_port_def mapped_port_find udp_local_port_def find_None_iff
        find_Some_iff split: option.splits)
  moreover have "\<not> handle_bool ses h \<longrightarrow> send_udp_packet_listen send h ep p ses = (Other_Error 9, ses)"
    by (auto simp: handle_bool_def send_udp_packet_listen_def split: option.splits)
  ultimately show ?thesis using time [OF assms(1)] by blast
qed

end
