(* ===== verification/Owners.thy ===== *)
theory Owners
  imports Getzy_Prelude "HOL-Library.Multiset"
begin

text \<open>
  The classes that own a resource and give it up exactly once: \<open>storage_holder\<close>
  (\<open>disk_interface.hpp\<close>), \<open>aux::buffer\<close> (\<open>aux_/buffer.hpp\<close>), \<open>string_ptr\<close>
  (\<open>aux_/string_ptr.hpp\<close>), \<open>file_pointer\<close> and \<open>file_descriptor\<close> (\<open>aux_/file_pointer.hpp\<close>,
  \<open>aux_/file_descriptor.hpp\<close>), and \<open>scope_end_impl\<close> (\<open>aux_/scope_end.hpp\<close>), which runs a function
  when it is destroyed. A class is its constructors, move constructor, move assignment, destructor,
  and \<open>reset\<close> and \<open>swap\<close> where it has them (\<open>owner_class\<close>); what they release is a list of resources.
  What an object acquires is what the caller hands to its constructor, and is read off the arguments
  (\<open>storage_taken\<close> and its like), not off the class. The interface \<open>owner\<close> says what an owning class
  promises, and the client is any program that creates, moves, assigns, resets, swaps and destroys
  objects.
\<close>

section \<open>Owning classes\<close>

text \<open>
  \<open>move_obj\<close> returns the new object and what is left in the old one. The flag of \<open>assign_obj\<close> says
  whether both sides are the same object; a class may have no move assignment, \<open>reset\<close> or \<open>swap\<close>.
\<close>

record ('a, 'c, 'r) owner_class =
  make_obj :: "'a \<Rightarrow> 'c"
  move_obj :: "'c \<Rightarrow> 'c \<times> 'c"
  assign_obj :: "(bool \<Rightarrow> 'c \<Rightarrow> 'c \<Rightarrow> 'c \<times> 'c \<times> 'r list) option"
  destroy_obj :: "'c \<Rightarrow> 'r list"
  reset_obj :: "('c \<Rightarrow> 'c \<times> 'r list) option"
  swap_obj :: "('c \<Rightarrow> 'c \<Rightarrow> 'c \<times> 'c) option"

subsection \<open>storage_holder\<close>

text \<open>The resource is a storage of a disk interface: its number and the index.\<close>

record storage_holder =
  m_disk_io :: "nat option"
  m_idx :: nat

definition default_storage_holder :: storage_holder where
  "default_storage_holder = \<lparr>m_disk_io = None, m_idx = 0\<rparr>"

definition make_storage_holder :: "nat \<times> nat \<Rightarrow> storage_holder" where
  "make_storage_holder = (\<lambda>(idx, disk_io). \<lparr>m_disk_io = Some disk_io, m_idx = idx\<rparr>)"

definition remove_storage :: "storage_holder \<Rightarrow> (nat \<times> nat) list" where
  "remove_storage h = (case m_disk_io h of Some d \<Rightarrow> [(m_idx h, d)] | None \<Rightarrow> [])"

definition storage_holder_bool :: "storage_holder \<Rightarrow> bool" where
  "storage_holder_bool h \<longleftrightarrow> m_disk_io h \<noteq> None"

definition storage_holder_index :: "storage_holder \<Rightarrow> nat" where
  "storage_holder_index h = m_idx h"

definition reset_storage_holder :: "storage_holder \<Rightarrow> storage_holder \<times> (nat \<times> nat) list" where
  "reset_storage_holder h = (h\<lparr>m_disk_io := None\<rparr>, remove_storage h)"

definition move_storage_holder :: "storage_holder \<Rightarrow> storage_holder \<times> storage_holder" where
  "move_storage_holder rhs =
     (\<lparr>m_disk_io = m_disk_io rhs, m_idx = m_idx rhs\<rparr>, rhs\<lparr>m_disk_io := None\<rparr>)"

definition assign_storage_holder ::
    "bool \<Rightarrow> storage_holder \<Rightarrow> storage_holder \<Rightarrow> storage_holder \<times> storage_holder \<times> (nat \<times> nat) list" where
  "assign_storage_holder same lhs rhs =
     (if same then (lhs, rhs, [])
      else (lhs\<lparr>m_disk_io := m_disk_io rhs, m_idx := m_idx rhs\<rparr>, rhs\<lparr>m_disk_io := None\<rparr>,
            remove_storage lhs))"

text \<open>No argument is the default constructor. The caller hands over the storage it names.\<close>

definition storage_holder_class :: "((nat \<times> nat) option, storage_holder, nat \<times> nat) owner_class" where
  "storage_holder_class =
     \<lparr>make_obj = case_option default_storage_holder make_storage_holder, move_obj = move_storage_holder,
      assign_obj = Some assign_storage_holder, destroy_obj = remove_storage,
      reset_obj = Some reset_storage_holder, swap_obj = None\<rparr>"

definition storage_taken :: "(nat \<times> nat) option \<Rightarrow> (nat \<times> nat) list" where
  "storage_taken a = (case a of None \<Rightarrow> [] | Some (idx, disk_io) \<Rightarrow> [(idx, disk_io)])"

subsection \<open>aux::buffer\<close>

text \<open>
  A buffer is the address of its allocation and its size; on Android the size is the requested one
  rounded up to a multiple of 8. The constructor is given the size, within \<open>ptrdiff_t\<close>, and the
  address \<open>malloc\<close> returned (when it returns none, \<open>bad_alloc\<close> is thrown and there is no object).
\<close>

record char_buffer =
  m_begin :: "nat option"
  m_size :: int

definition round_up_8 :: "int \<Rightarrow> int" where
  "round_up_8 n = (n + 7) AND NOT 7"

definition make_buffer :: "int \<times> nat \<Rightarrow> char_buffer" where
  "make_buffer = (\<lambda>(n, p).
     if n = 0 then \<lparr>m_begin = None, m_size = 0\<rparr>
     else \<lparr>m_begin = Some p, m_size = round_up_8 n\<rparr>)"

definition move_buffer :: "char_buffer \<Rightarrow> char_buffer \<times> char_buffer" where
  "move_buffer b = (b, \<lparr>m_begin = None, m_size = 0\<rparr>)"

definition free_buffer :: "char_buffer \<Rightarrow> nat list" where
  "free_buffer b = (case m_begin b of Some p \<Rightarrow> [p] | None \<Rightarrow> [])"

definition assign_buffer ::
    "bool \<Rightarrow> char_buffer \<Rightarrow> char_buffer \<Rightarrow> char_buffer \<times> char_buffer \<times> nat list" where
  "assign_buffer same lhs b =
     (if same then (lhs, b, [])
      else (b, \<lparr>m_begin = None, m_size = 0\<rparr>, free_buffer lhs))"

definition buffer_empty :: "char_buffer \<Rightarrow> bool" where
  "buffer_empty b \<longleftrightarrow> m_size b = 0"

definition swap_buffer :: "char_buffer \<Rightarrow> char_buffer \<Rightarrow> char_buffer \<times> char_buffer" where
  "swap_buffer a b =
     (\<lparr>m_begin = m_begin b, m_size = m_size b\<rparr>, \<lparr>m_begin = m_begin a, m_size = m_size a\<rparr>)"

definition buffer_class :: "(int \<times> nat, char_buffer, nat) owner_class" where
  "buffer_class =
     \<lparr>make_obj = make_buffer, move_obj = move_buffer, assign_obj = Some assign_buffer, destroy_obj = free_buffer,
      reset_obj = None, swap_obj = Some swap_buffer\<rparr>"

text \<open>A buffer of a size other than 0 takes the address that \<open>malloc\<close> returned.\<close>

definition buffer_taken :: "int \<times> nat \<Rightarrow> nat list" where
  "buffer_taken = (\<lambda>(n, p). if n = 0 then [] else [p])"

text \<open>The bytes of the buffer built from an initial range, over what \<open>malloc\<close> left in it.\<close>

definition init_buffer :: "int \<Rightarrow> bytes \<Rightarrow> bytes \<Rightarrow> bytes" where
  "init_buffer sz initialize fresh =
     (let n = min (length initialize) (nat sz) in take n initialize @ drop n fresh)"

subsection \<open>string_ptr\<close>

text \<open>\<open>new char[n]\<close> returned the address; null after a move, and deleting null does nothing.\<close>

definition make_string_ptr :: "nat \<Rightarrow> nat option" where
  "make_string_ptr p = Some p"

definition string_ptr_bytes :: "bytes \<Rightarrow> bytes" where
  "string_ptr_bytes str = str @ [0]"

definition move_string_ptr :: "nat option \<Rightarrow> nat option \<times> nat option" where
  "move_string_ptr rhs = (rhs, None)"

definition delete_string_ptr :: "nat option \<Rightarrow> nat list" where
  "delete_string_ptr p = (case p of Some a \<Rightarrow> [a] | None \<Rightarrow> [])"

definition assign_string_ptr ::
    "bool \<Rightarrow> nat option \<Rightarrow> nat option \<Rightarrow> nat option \<times> nat option \<times> nat list" where
  "assign_string_ptr same lhs rhs =
     (if same then (lhs, rhs, []) else (rhs, None, delete_string_ptr lhs))"

definition string_ptr_class :: "(nat, nat option, nat) owner_class" where
  "string_ptr_class =
     \<lparr>make_obj = make_string_ptr, move_obj = move_string_ptr, assign_obj = Some assign_string_ptr,
      destroy_obj = delete_string_ptr, reset_obj = None, swap_obj = None\<rparr>"

definition string_taken :: "nat \<Rightarrow> nat list" where
  "string_taken p = [p]"

subsection \<open>file_pointer and file_descriptor\<close>

text \<open>\<open>file_pointer\<close> swaps when it is assigned; a \<open>file_pointer\<close> may be made of a null pointer.\<close>

definition make_file_pointer :: "nat option \<Rightarrow> nat option" where
  "make_file_pointer p = p"

definition move_file_pointer :: "nat option \<Rightarrow> nat option \<times> nat option" where
  "move_file_pointer f = (f, None)"

definition close_file_pointer :: "nat option \<Rightarrow> nat list" where
  "close_file_pointer p = (case p of Some a \<Rightarrow> [a] | None \<Rightarrow> [])"

definition assign_file_pointer ::
    "bool \<Rightarrow> nat option \<Rightarrow> nat option \<Rightarrow> nat option \<times> nat option \<times> nat list" where
  "assign_file_pointer same lhs f = (f, lhs, [])"

definition file_pointer_class :: "(nat option, nat option, nat) owner_class" where
  "file_pointer_class =
     \<lparr>make_obj = make_file_pointer, move_obj = move_file_pointer, assign_obj = Some assign_file_pointer,
      destroy_obj = close_file_pointer, reset_obj = None, swap_obj = None\<rparr>"

definition file_taken :: "nat option \<Rightarrow> nat list" where
  "file_taken p = (if p = None then [] else [the p])"

text \<open>A descriptor below 0 is no descriptor. There is no move assignment.\<close>

definition make_file_descriptor :: "int \<Rightarrow> int" where
  "make_file_descriptor fd = fd"

definition move_file_descriptor :: "int \<Rightarrow> int \<times> int" where
  "move_file_descriptor rhs = (rhs, - 1)"

definition close_file_descriptor :: "int \<Rightarrow> int list" where
  "close_file_descriptor fd = (if fd \<ge> 0 then [fd] else [])"

definition file_descriptor_class :: "(int, int, int) owner_class" where
  "file_descriptor_class =
     \<lparr>make_obj = make_file_descriptor, move_obj = move_file_descriptor, assign_obj = None,
      destroy_obj = close_file_descriptor, reset_obj = None, swap_obj = None\<rparr>"

text \<open>Every descriptor the system hands out, 0 included, is the caller's to close; a negative one is an error.\<close>

definition descriptor_taken :: "int \<Rightarrow> int list" where
  "descriptor_taken fd = (if fd < 0 then [] else [fd])"

subsection \<open>scope_end\<close>

text \<open>
  The object is its function and \<open>m_armed\<close>; the defaulted moves move the function, which leaves a
  lambda as it was, and copy the flag.
\<close>

record scope_end =
  m_fun :: nat
  m_armed :: bool

definition make_scope_end :: "nat \<Rightarrow> scope_end" where
  "make_scope_end f = \<lparr>m_fun = f, m_armed = True\<rparr>"

definition disarm :: "scope_end \<Rightarrow> scope_end" where
  "disarm s = s\<lparr>m_armed := False\<rparr>"

definition move_scope_end :: "scope_end \<Rightarrow> scope_end \<times> scope_end" where
  "move_scope_end s = (s, s)"

definition run_scope_end :: "scope_end \<Rightarrow> nat list" where
  "run_scope_end s = (if m_armed s then [m_fun s] else [])"

definition scope_end_class :: "(nat, scope_end, nat) owner_class" where
  "scope_end_class =
     \<lparr>make_obj = make_scope_end, move_obj = move_scope_end, assign_obj = None, destroy_obj = run_scope_end,
      reset_obj = None, swap_obj = None\<rparr>"

section \<open>Programs\<close>

text \<open>
  A program has variables, each of which holds an object or not; it only does what the language
  allows with them, other steps have no effect. The state also lists what was released.
\<close>

datatype 'a owner_call =
    Make nat 'a
  | Move_Construct nat nat
  | Move_Assign nat nat
  | Destroy nat
  | Reset nat
  | Swap nat nat

type_synonym ('c, 'r) owner_state = "(nat \<Rightarrow> 'c option) \<times> 'r list"

definition owner_init :: "('c, 'r) owner_state" where
  "owner_init = (\<lambda>v. None, [])"

fun owner_step ::
    "('a, 'c, 'r) owner_class \<Rightarrow> ('c, 'r) owner_state \<Rightarrow> 'a owner_call \<Rightarrow> ('c, 'r) owner_state" where
  "owner_step K (vars, rel) (Make v a) =
     (case vars v of None \<Rightarrow> (vars(v \<mapsto> make_obj K a), rel) | Some c \<Rightarrow> (vars, rel))"
| "owner_step K (vars, rel) (Move_Construct v w) =
     (case (vars v, vars w) of
        (None, Some c) \<Rightarrow> (let (new, old) = move_obj K c in (vars(v \<mapsto> new, w \<mapsto> old), rel))
      | _ \<Rightarrow> (vars, rel))"
| "owner_step K (vars, rel) (Move_Assign v w) =
     (case (vars v, vars w, assign_obj K) of
        (Some c, Some d, Some f) \<Rightarrow>
          (let (lhs, rhs, r) = f (v = w) c d in (vars(w \<mapsto> rhs, v \<mapsto> lhs), rel @ r))
      | _ \<Rightarrow> (vars, rel))"
| "owner_step K (vars, rel) (Destroy v) =
     (case vars v of None \<Rightarrow> (vars, rel) | Some c \<Rightarrow> (vars(v := None), rel @ destroy_obj K c))"
| "owner_step K (vars, rel) (Reset v) =
     (case (vars v, reset_obj K) of
        (Some c, Some f) \<Rightarrow> (let (c', r) = f c in (vars(v \<mapsto> c'), rel @ r))
      | _ \<Rightarrow> (vars, rel))"
| "owner_step K (vars, rel) (Swap v w) =
     (case (vars v, vars w, swap_obj K) of
        (Some c, Some d, Some f) \<Rightarrow> (let (lhs, rhs) = f c d in (vars(w \<mapsto> rhs, v \<mapsto> lhs), rel))
      | _ \<Rightarrow> (vars, rel))"

definition owner_run :: "('a, 'c, 'r) owner_class \<Rightarrow> 'a owner_call list \<Rightarrow> ('c, 'r) owner_state" where
  "owner_run K cs = foldl (owner_step K) owner_init cs"

text \<open>What the constructor calls of a program are handed; \<open>taken\<close> reads it off their arguments.\<close>

fun acquired ::
    "('a \<Rightarrow> 'r list) \<Rightarrow> ('a, 'c, 'r) owner_class \<Rightarrow> ('c, 'r) owner_state \<Rightarrow> 'a owner_call list \<Rightarrow>
     'r multiset" where
  "acquired taken K s [] = {#}"
| "acquired taken K s (c # cs) =
     (case c of
        Make v a \<Rightarrow> (if fst s v = None then mset (taken a) else {#})
      | _ \<Rightarrow> {#}) + acquired taken K (owner_step K s c) cs"

text \<open>The variables a program mentions.\<close>

fun call_vars :: "'a owner_call \<Rightarrow> nat set" where
  "call_vars (Make v a) = {v}"
| "call_vars (Move_Construct v w) = {v, w}"
| "call_vars (Move_Assign v w) = {v, w}"
| "call_vars (Destroy v) = {v}"
| "call_vars (Reset v) = {v}"
| "call_vars (Swap v w) = {v, w}"

text \<open>What destroying the objects that a set of variables still holds would release.\<close>

definition owned :: "('a, 'c, 'r) owner_class \<Rightarrow> (nat \<Rightarrow> 'c option) \<Rightarrow> nat set \<Rightarrow> 'r multiset" where
  "owned K vars V = (\<Sum>v\<in>V. case vars v of None \<Rightarrow> {#} | Some c \<Rightarrow> mset (destroy_obj K c))"

text \<open>
  What was released and what is still owned is what was handed over, as often as it was; once no object
  is left, everything was released.
\<close>

definition releases_once ::
    "('a \<Rightarrow> 'r list) \<Rightarrow> ('a, 'c, 'r) owner_class \<Rightarrow> nat set \<Rightarrow> 'a owner_call list \<Rightarrow> bool" where
  "releases_once taken K V cs \<longleftrightarrow>
     (let vars = fst (owner_run K cs); released = mset (snd (owner_run K cs)) in
      owned K vars V + released = acquired taken K owner_init cs \<and>
      ((\<forall>v \<in> V. vars v = None) \<longrightarrow> released = acquired taken K owner_init cs))"

section \<open>What an owning class promises\<close>

text \<open>
  A new object owns what it was handed. Moving an object moves what it owns; assigning releases what
  the left side owned or leaves it in the right side; an object assigned to or swapped with itself keeps
  what it owns.
\<close>

lemma cancel_released:
  fixes A B C L R :: "'r multiset"
  assumes "A + C = B + L" "L + R = C"
  shows "A + R = B"
proof -
  have "A + R + L = B + L" using assms by (simp add: ac_simps)
  then show ?thesis by simp
qed

lemma combine_updates:
  fixes X Y B :: "'r multiset"
  assumes "X + C = Y + L" "Y + D = B + R"
  shows "X + (C + D) = B + (L + R)"
proof -
  have "X + (C + D) = (X + C) + D" by (simp add: ac_simps)
  also have "\<dots> = (Y + L) + D" by (simp only: assms(1))
  also have "\<dots> = (Y + D) + L" by (simp add: ac_simps)
  also have "\<dots> = (B + R) + L" by (simp only: assms(2))
  also have "\<dots> = B + (L + R)" by (simp add: ac_simps)
  finally show ?thesis .
qed

locale owner =
  fixes K :: "('a, 'c, 'r) owner_class" and taken :: "'a \<Rightarrow> 'r list"
  assumes make_owns: "mset (destroy_obj K (make_obj K a)) = mset (taken a)"
    and move_owns: "move_obj K c = (new, old) \<Longrightarrow>
      mset (destroy_obj K new) + mset (destroy_obj K old) = mset (destroy_obj K c)"
    and assign_owns: "assign_obj K = Some f \<Longrightarrow> f False c d = (lhs, rhs, r) \<Longrightarrow>
      mset (destroy_obj K lhs) + mset (destroy_obj K rhs) + mset r =
      mset (destroy_obj K c) + mset (destroy_obj K d)"
    and self_assign_owns: "assign_obj K = Some f \<Longrightarrow> f True c c = (lhs, rhs, r) \<Longrightarrow>
      mset (destroy_obj K lhs) + mset r = mset (destroy_obj K c)"
    and reset_owns: "reset_obj K = Some g \<Longrightarrow> g c = (c', r) \<Longrightarrow>
      mset (destroy_obj K c') + mset r = mset (destroy_obj K c)"
    and swap_owns: "swap_obj K = Some h \<Longrightarrow> h c d = (lhs, rhs) \<Longrightarrow>
      mset (destroy_obj K lhs) + mset (destroy_obj K rhs) = mset (destroy_obj K c) + mset (destroy_obj K d)"
    and self_swap_owns: "swap_obj K = Some h \<Longrightarrow> h c c = (lhs, rhs) \<Longrightarrow>
      mset (destroy_obj K lhs) = mset (destroy_obj K c)"
begin

definition cell :: "'c option \<Rightarrow> 'r multiset" where
  "cell c = (case c of None \<Rightarrow> {#} | Some c \<Rightarrow> mset (destroy_obj K c))"

lemma cell_simps [simp]: "cell None = {#}" "cell (Some c) = mset (destroy_obj K c)"
  by (simp_all add: cell_def)

lemma owned_cells: "owned K vars V = (\<Sum>v\<in>V. cell (vars v))"
  by (simp add: owned_def cell_def)

lemma owned_upd:
  "finite V \<Longrightarrow> v \<in> V \<Longrightarrow> owned K (vars(v := x)) V + cell (vars v) = owned K vars V + cell x"
  by (simp add: owned_cells sum.remove [of V v] sum.remove [of V v "\<lambda>v. cell (vars v)"] ac_simps)

lemma owned_one:
  assumes "finite V" "v \<in> V" "vars v = Some c" "mset (destroy_obj K c') + mset r = mset (destroy_obj K c)"
  shows "owned K (vars(v \<mapsto> c')) V + mset r = owned K vars V"
  using owned_upd [OF assms(1,2), of vars "Some c'"] assms(3,4) by (auto intro: cancel_released)

lemma owned_two:
  assumes "finite V" "v \<in> V" "w \<in> V" "vars v = Some c" "vars w = Some d" "v \<noteq> w"
    and "mset (destroy_obj K lhs) + mset (destroy_obj K rhs) + mset r =
      mset (destroy_obj K c) + mset (destroy_obj K d)"
  shows "owned K (vars(w \<mapsto> rhs, v \<mapsto> lhs)) V + mset r = owned K vars V"
proof -
  have "owned K (vars(w \<mapsto> rhs, v \<mapsto> lhs)) V + mset (destroy_obj K c) =
      owned K (vars(w \<mapsto> rhs)) V + mset (destroy_obj K lhs)"
    using owned_upd [of V v "vars(w \<mapsto> rhs)" "Some lhs"] assms(1,2,4,6) by simp
  moreover have "owned K (vars(w \<mapsto> rhs)) V + mset (destroy_obj K d) = owned K vars V + mset (destroy_obj K rhs)"
    using owned_upd [of V w vars "Some rhs"] assms(1,3,5) by simp
  ultimately have "owned K (vars(w \<mapsto> rhs, v \<mapsto> lhs)) V + (mset (destroy_obj K c) + mset (destroy_obj K d)) =
      owned K vars V + (mset (destroy_obj K lhs) + mset (destroy_obj K rhs))"
    by (rule combine_updates)
  then show ?thesis using assms(7) by (rule cancel_released)
qed

lemma move_conserves:
  assumes "finite V" "v \<in> V" "w \<in> V" "vars v = None" "vars w = Some c" "move_obj K c = (new, old)"
  shows "owned K (vars(v \<mapsto> new, w \<mapsto> old)) V = owned K vars V"
proof -
  have "v \<noteq> w" using assms(4,5) by auto
  then have "owned K (vars(v \<mapsto> new)) V = owned K vars V + mset (destroy_obj K new)"
    "owned K (vars(v \<mapsto> new, w \<mapsto> old)) V + mset (destroy_obj K c) =
      owned K (vars(v \<mapsto> new)) V + mset (destroy_obj K old)"
    using owned_upd [of V v vars "Some new"] owned_upd [of V w "vars(v \<mapsto> new)" "Some old"] assms(1-5)
    by simp_all
  with move_owns [OF assms(6)] show ?thesis by (metis add.assoc add_right_cancel)
qed

lemma assign_conserves:
  assumes "finite V" "v \<in> V" "w \<in> V" "vars v = Some c" "vars w = Some d" "assign_obj K = Some f"
    and "f (v = w) c d = (lhs, rhs, r)"
  shows "owned K (vars(w \<mapsto> rhs, v \<mapsto> lhs)) V + mset r = owned K vars V"
proof (cases "v = w")
  case True
  then show ?thesis
    using assms owned_one [of V v vars c lhs r] self_assign_owns [OF assms(6), of c lhs rhs r] by simp
next
  case False
  then show ?thesis
    using assms owned_two [of V v w vars c d lhs rhs r] assign_owns [OF assms(6), of c d lhs rhs r] by simp
qed

lemma swap_conserves:
  assumes "finite V" "v \<in> V" "w \<in> V" "vars v = Some c" "vars w = Some d" "swap_obj K = Some f"
    and "f c d = (lhs, rhs)"
  shows "owned K (vars(w \<mapsto> rhs, v \<mapsto> lhs)) V = owned K vars V"
proof (cases "v = w")
  case True
  then show ?thesis
    using assms owned_one [of V v vars c lhs "[]"] self_swap_owns [OF assms(6), of c lhs rhs] by simp
next
  case False
  then show ?thesis
    using assms owned_two [of V v w vars c d lhs rhs "[]"] swap_owns [OF assms(6), of c d lhs rhs] by simp
qed

lemma step_conserves:
  assumes "finite V" "call_vars c \<subseteq> V"
  shows "owned K (fst (owner_step K s c)) V + mset (snd (owner_step K s c)) =
    owned K (fst s) V + mset (snd s) + acquired taken K s [c]"
proof -
  obtain vars rel where s: "s = (vars, rel)" by (cases s)
  show ?thesis
  proof (cases c)
    case (Make v a)
    with assms owned_upd [of V v vars "Some (make_obj K a)"] show ?thesis
      by (cases "vars v") (simp_all add: s make_owns)
  next
    case (Move_Construct v w)
    with assms show ?thesis
      by (auto simp: s move_conserves split: option.split prod.split)
  next
    case (Move_Assign v w)
    show ?thesis
    proof (cases "vars v \<noteq> None \<and> vars w \<noteq> None \<and> assign_obj K \<noteq> None")
      case True
      then obtain c' d f where d: "vars v = Some c'" "vars w = Some d" "assign_obj K = Some f" by auto
      obtain lhs rhs r where f: "f (v = w) c' d = (lhs, rhs, r)" by (cases "f (v = w) c' d")
      from assign_conserves [of V v w vars, OF _ _ _ d f] assms Move_Assign d f show ?thesis
        by (simp add: s ac_simps)
    qed (auto simp: s Move_Assign split: option.splits)
  next
    case (Destroy v)
    with assms owned_upd [of V v vars None] show ?thesis
      by (cases "vars v") (simp_all add: s add.commute)
  next
    case (Reset v)
    show ?thesis
    proof (cases "vars v \<noteq> None \<and> reset_obj K \<noteq> None")
      case True
      then obtain c' f where d: "vars v = Some c'" "reset_obj K = Some f" by auto
      obtain c'' r where f: "f c' = (c'', r)" by (cases "f c'")
      from owned_one [of V v vars c' c'' r] reset_owns [OF d(2) f] assms Reset d f show ?thesis
        by (simp add: s ac_simps)
    qed (auto simp: s Reset split: option.splits)
  next
    case (Swap v w)
    with assms show ?thesis
      by (auto simp: s swap_conserves split: option.split prod.split)
  qed
qed

end

context owner
begin

lemma run_conserves:
  "finite V \<Longrightarrow> \<forall>c\<in>set cs. call_vars c \<subseteq> V \<Longrightarrow>
    owned K (fst (foldl (owner_step K) s cs)) V + mset (snd (foldl (owner_step K) s cs)) =
    owned K (fst s) V + mset (snd s) + acquired taken K s cs"
proof (induction cs arbitrary: s)
  case (Cons c cs)
  then have "call_vars c \<subseteq> V" by simp
  from step_conserves [OF Cons.prems(1) this, of s] Cons show ?case
    by (simp add: add.assoc)
qed simp

lemma run_balanced:
  assumes "\<forall>c\<in>set cs. call_vars c \<subseteq> V" "finite V"
  shows "releases_once taken K V cs"
proof -
  have "owned K vars V = {#}" if "\<forall>v \<in> V. vars v = None" for vars
    using that by (simp add: owned_def)
  then show ?thesis
    using run_conserves [OF assms(2, 1), of owner_init]
    by (auto simp: releases_once_def owner_run_def owner_init_def Let_def owned_def)
qed

end

section \<open>The classes keep the promise\<close>

interpretation storages: owner storage_holder_class storage_taken
  by unfold_locales
    (auto simp: storage_holder_class_def move_storage_holder_def assign_storage_holder_def
      remove_storage_def reset_storage_holder_def make_storage_holder_def default_storage_holder_def
      storage_taken_def split: option.split)

interpretation buffers: owner buffer_class buffer_taken
  by unfold_locales
    (auto simp: buffer_class_def move_buffer_def assign_buffer_def free_buffer_def make_buffer_def
      swap_buffer_def buffer_taken_def split: option.split if_splits)

interpretation strings: owner string_ptr_class string_taken
  by unfold_locales
    (auto simp: string_ptr_class_def move_string_ptr_def assign_string_ptr_def
      delete_string_ptr_def make_string_ptr_def string_taken_def split: option.split)

interpretation files: owner file_pointer_class file_taken
  by unfold_locales
    (auto simp: file_pointer_class_def move_file_pointer_def assign_file_pointer_def
      close_file_pointer_def make_file_pointer_def file_taken_def split: option.split)

interpretation descriptors: owner file_descriptor_class descriptor_taken
  by unfold_locales
    (auto simp: file_descriptor_class_def move_file_descriptor_def close_file_descriptor_def
      make_file_descriptor_def descriptor_taken_def)

text \<open>
  \<open>scope_end_impl\<close> does not: a moved-from object is still armed, so that the function runs at the
  end of both scopes.
\<close>

lemma moved_scope_end_runs_twice:
  "snd (owner_run scope_end_class [Make 0 f, Move_Construct 1 0, Destroy 0, Destroy 1]) = [f, f]"
  by (simp add: owner_run_def owner_init_def scope_end_class_def make_scope_end_def
      move_scope_end_def run_scope_end_def)

lemma round_up_8:
  assumes "0 \<le> n"
  shows "n \<le> round_up_8 n" "round_up_8 n < n + 8" "8 dvd round_up_8 n"
proof -
  have seven: "NOT 7 = (NOT (mask 3) :: int)" by (simp add: mask_eq_exp_minus_1)
  have "(n + 7) AND NOT (mask 3) = push_bit 3 (drop_bit 3 (n + 7))"
    by (rule bit_eqI) (auto simp: bit_simps)
  then have r: "round_up_8 n = push_bit 3 (drop_bit 3 (n + 7))"
    unfolding round_up_8_def seven .
  have "round_up_8 n + (n + 7) mod 8 = n + 7"
    using bits_ident [of 3 "n + 7"] by (simp add: r take_bit_eq_mod)
  moreover have "8 dvd round_up_8 n" by (simp add: r push_bit_eq_mult)
  moreover have "0 \<le> (n + 7) mod 8" "(n + 7) mod 8 < 8" by simp_all
  ultimately show "n \<le> round_up_8 n" "round_up_8 n < n + 8" "8 dvd round_up_8 n"
    by linarith+
qed

section \<open>Property\<close>

text \<open>
  C24. What is acquired is released exactly once. In any program that makes, moves, assigns (also to
  itself), resets, swaps and destroys objects of \<open>storage_holder\<close>, \<open>aux::buffer\<close>, \<open>string_ptr\<close>,
  \<open>file_pointer\<close> and \<open>file_descriptor\<close>, as far as the class has the operation, what was released together
  with what destroying the live objects would release is what the callers handed to the constructors
  (the storages, the addresses of the allocations, the open files, the descriptors from 0 on), with the
  same multiplicities: nothing is released twice, lost, or released while an object still owns it. When no
  object is left, everything was released.
\<close>

theorem owners_release_once:
  assumes "finite V" "\<forall>c\<in>set hs. call_vars c \<subseteq> V" "\<forall>c\<in>set bs. call_vars c \<subseteq> V"
    "\<forall>c\<in>set ss. call_vars c \<subseteq> V" "\<forall>c\<in>set fs. call_vars c \<subseteq> V" "\<forall>c\<in>set ds. call_vars c \<subseteq> V"
  shows "releases_once storage_taken storage_holder_class V hs \<and>
    releases_once buffer_taken buffer_class V bs \<and>
    releases_once string_taken string_ptr_class V ss \<and>
    releases_once file_taken file_pointer_class V fs \<and>
    releases_once descriptor_taken file_descriptor_class V ds"
  using storages.run_balanced [OF assms(2, 1)] buffers.run_balanced [OF assms(3, 1)]
    strings.run_balanced [OF assms(4, 1)] files.run_balanced [OF assms(5, 1)]
    descriptors.run_balanced [OF assms(6, 1)] by blast

theorem owners_release_once_witness:
  "releases_once storage_taken storage_holder_class {0, 1, 2}
      [Make 0 (Some (5, 1)), Make 1 (Some (6, 1)), Move_Assign 1 0, Move_Construct 2 1, Reset 2, Destroy 1] \<and>
    snd (owner_run storage_holder_class
      [Make 0 (Some (5, 1)), Make 1 (Some (6, 1)), Move_Assign 1 0, Move_Construct 2 1, Reset 2, Destroy 1]) =
      [(6, 1), (5, 1)] \<and>
    releases_once descriptor_taken file_descriptor_class {0, 1, 2} [Make 0 0, Move_Construct 1 0, Destroy 0, Destroy 1] \<and>
    snd (owner_run file_descriptor_class [Make 0 0, Move_Construct 1 0, Destroy 0, Destroy 1]) = [0]"
proof -
  let ?hs = "[Make 0 (Some (5, 1)), Make 1 (Some (6, 1)), Move_Assign 1 0, Move_Construct 2 1, Reset 2, Destroy 1]"
  let ?ds = "[Make 0 0, Move_Construct 1 0, Destroy 0, Destroy 1]"
  have "snd (owner_run storage_holder_class ?hs) = [(6, 1), (5, 1)]"
    "snd (owner_run file_descriptor_class ?ds) = [0]"
    by code_simp+
  then show ?thesis
    using owners_release_once [of "{0, 1, 2}" ?hs "[]" "[]" "[]" ?ds] by simp
qed

end
