(* ===== verification/Send_Buffer.thy ===== *)
theory Send_Buffer
  imports Byte_IO Owners "HOL-Library.Monad_Syntax"
begin

text \<open>
  What a connection sends: the chain of buffers (\<open>aux_/chained_buffer.hpp\<close>), the choice of
  \<open>bt_peer_connection\<close> (\<open>bt_peer_connection.hpp\<close>, \<open>pe_crypto.hpp\<close>) whether a constant buffer may be
  queued as it is or must be copied because it will be encrypted in place, and the messages of
  \<open>send_message\<close>. Buffers are blocks of memory, numbered, and several holders can refer to one
  block. The functions that consume and encrypt the chain are in the prebuilt library. An overflow of
  \<open>int\<close> and a copy from outside a block is \<open>None\<close>.
\<close>

section \<open>The chain\<close>

record buffer_t =
  bt_buf :: "nat option"
  bt_size :: int
  bt_used :: int

record chained_buffer =
  m_vec :: "buffer_t list"
  m_bytes :: int
  m_capacity :: int

definition chained_buffer_init :: chained_buffer where
  "chained_buffer_init = \<lparr>m_vec = [], m_bytes = 0, m_capacity = 0\<rparr>"

definition chain_empty :: "chained_buffer \<Rightarrow> bool" where
  "chain_empty c \<longleftrightarrow> m_bytes c = 0"

definition chain_size :: "chained_buffer \<Rightarrow> int" where
  "chain_size c = m_bytes c"

definition chain_capacity :: "chained_buffer \<Rightarrow> int" where
  "chain_capacity c = m_capacity c"

text \<open>The new entry goes to one end of the deque; then the counters are updated.\<close>

definition init_buffer_entry ::
    "(buffer_t \<Rightarrow> buffer_t list \<Rightarrow> buffer_t list) \<Rightarrow> nat option \<Rightarrow> int \<Rightarrow> int \<Rightarrow> chained_buffer \<Rightarrow> chained_buffer option" where
  "init_buffer_entry put data sz used c =
     do {
       n \<leftarrow> c_int (m_bytes c + used);
       k \<leftarrow> c_int (m_capacity c + to_int32 sz);
       Some \<lparr>m_vec = put \<lparr>bt_buf = data, bt_size = to_int32 sz, bt_used = used\<rparr> (m_vec c),
         m_bytes = n, m_capacity = k\<rparr>
     }"

definition append_buffer :: "nat option \<Rightarrow> int \<Rightarrow> int \<Rightarrow> chained_buffer \<Rightarrow> chained_buffer option" where
  "append_buffer = init_buffer_entry (\<lambda>b v. v @ [b])"

definition prepend_buffer :: "nat option \<Rightarrow> int \<Rightarrow> int \<Rightarrow> chained_buffer \<Rightarrow> chained_buffer option" where
  "prepend_buffer = init_buffer_entry (\<lambda>b v. b # v)"

section \<open>Encryption\<close>

text \<open>The \<open>next\<close> counts of \<open>m_send_barriers\<close>, front first.\<close>

definition is_send_plaintext :: "int list \<Rightarrow> bool" where
  "is_send_plaintext barriers \<longleftrightarrow> barriers = [] \<or> last barriers \<noteq> 2147483647"

record send_state =
  blocks :: "bytes list"
  chain :: chained_buffer

definition block_data :: "bytes list \<Rightarrow> nat option \<Rightarrow> bytes" where
  "block_data bs p = (case p of None \<Rightarrow> [] | Some i \<Rightarrow> if i < length bs then bs ! i else [])"

text \<open>
  \<open>append_send_buffer(std::move(holder), size)\<close> for a holder that refers to block \<open>p\<close>, and
  \<open>append_const_send_buffer\<close>; \<open>junk\<close> is what \<open>malloc\<close> left in the new block.
\<close>

definition append_send_buffer :: "nat option \<Rightarrow> int \<Rightarrow> send_state \<Rightarrow> send_state option" where
  "append_send_buffer p sz s =
     map_option (\<lambda>c. s\<lparr>chain := c\<rparr>)
       (append_buffer p (int (length (block_data (blocks s) p))) sz (chain s))"

definition append_const_send_buffer ::
    "int list \<Rightarrow> bytes \<Rightarrow> nat option \<Rightarrow> int \<Rightarrow> send_state \<Rightarrow> send_state option" where
  "append_const_send_buffer barriers junk p sz s =
     (if \<not> is_send_plaintext barriers then
        (if sz < 0 \<or> sz > int (length (block_data (blocks s) p)) then None
         else
           (let b = make_buffer (sz, length (blocks s));
                fresh = take (nat (m_size b)) (junk @ replicate (nat (m_size b)) 0);
                s1 = s\<lparr>blocks := blocks s @
                  [init_buffer (m_size b) (take (nat sz) (block_data (blocks s) p)) fresh]\<rparr>
            in append_send_buffer (m_begin b) sz s1))
      else append_send_buffer p sz s)"

section \<open>Messages\<close>

text \<open>
  \<open>send_message\<close> builds an array of \<open>5 + 4 n\<close> bytes and writes the arguments through a pointer; the
  bytes are handed to \<open>send_buffer\<close>. The length must fit a \<open>char\<close>.
\<close>

fun write_args :: "u32 list \<Rightarrow> cursor \<Rightarrow> cursor option" where
  "write_args [] p = Some p"
| "write_args (a # as) p = Option.bind (write_uint32 put_ptr a p) (write_args as)"

definition send_message :: "byte \<Rightarrow> u32 list \<Rightarrow> bytes option" where
  "send_message type args =
     map_option cbuf
       (write_args args
         \<lparr>cbuf = [0, 0, 0, of_nat (1 + length args * 4), type] @ replicate (4 * length args) 0, cpos = 5\<rparr>)"

section \<open>Properties: messages\<close>

text \<open>The wire format: a length, a type and the arguments.\<close>

definition parse_message :: "bytes \<Rightarrow> ((byte \<times> u32 list) \<times> bytes) option" where
  "parse_message inp =
     do {
       (len, r) \<leftarrow> read_uint32 inp;
       (type, r) \<leftarrow> read_uint8 r;
       (args, r) \<leftarrow> u32c.dec_many ((unat len - 1) div 4) r;
       Some ((type, args), r)
     }"

fun parse_messages :: "nat \<Rightarrow> bytes \<Rightarrow> ((byte \<times> u32 list) list \<times> bytes) option" where
  "parse_messages 0 inp = Some ([], inp)"
| "parse_messages (Suc n) inp =
     do { (m, r) \<leftarrow> parse_message inp; (ms, r) \<leftarrow> parse_messages n r; Some (m # ms, r) }"

lemma write_args_string: "write_args as c = write_string put_ptr (concat (map (be_bytes 4) as)) c"
proof (induction as arbitrary: c)
  case (Cons a as)
  from Cons.IH have "write_args as = write_string put_ptr (concat (map (be_bytes 4) as))" by (rule ext)
  then show ?case
    by (simp add: write_string_append write_uint_strings del: be_bytes.simps)
qed simp

lemma length_args: "length (concat (map (be_bytes 4) as)) = 4 * length as"
  by (induction as) (simp_all del: be_bytes.simps)

lemma send_message_bytes:
  assumes "length args \<le> 31"
  shows "send_message type args =
    Some (be_bytes 4 (of_nat (1 + 4 * length args) :: u32) @ [type] @ concat (map (be_bytes 4) args))"
proof -
  let ?h = "[0, 0, 0, of_nat (1 + length args * 4), type] :: bytes" and ?cs = "concat (map (be_bytes 4) args)"
  let ?c = "\<lparr>cbuf = ?h @ replicate (4 * length args) 0, cpos = 5\<rparr>"
  have "croom ?c (length ?cs + 0)" by (simp add: croom_def length_args)
  from ptr.write_string_writes [OF this] obtain c' where
    c': "write_string put_ptr ?cs ?c = Some c'" "cwritten c' = cwritten ?c @ ?cs" by blast
  from write_string_ptr_length [OF c'(1)] c'(2) have "cbuf c' = ?h @ ?cs"
    by (simp add: cwritten_def length_args)
  moreover have "be_bytes 4 (of_nat (1 + 4 * n) :: u32) = [0, 0, 0, of_nat (1 + n * 4)]" if "n \<le> 31" for n
  proof -
    have "n \<in> set [0..<32]" using that by simp
    moreover have "\<forall>n \<in> set [0..<32]. be_bytes 4 (of_nat (1 + 4 * n) :: u32) = [0, 0, 0, of_nat (1 + n * 4)]"
      by code_simp
    ultimately show ?thesis by blast
  qed
  ultimately show ?thesis using assms c'(1)
    by (simp add: send_message_def write_args_string del: be_bytes.simps)
qed

lemma be_byte_single: "be_bytes 1 (b :: byte) = [b]"
  by (simp only: One_nat_def be_bytes_1)

lemma parse_sent_message:
  assumes "length args \<le> 31" "send_message type args = Some bs"
  shows "parse_message (bs @ r) = Some ((type, args), r) \<and> length bs = 5 + 4 * length args"
proof -
  let ?len = "of_nat (1 + 4 * length args) :: u32" and ?cs = "concat (map (be_bytes 4) args)"
  have bs: "bs = be_bytes 4 ?len @ be_bytes 1 type @ ?cs"
    using send_message_bytes [OF assms(1), of type] assms(2) by (simp del: be_bytes.simps add: be_byte_single)
  have "unat ?len = 1 + 4 * length args"
    using assms(1) by (subst unat_of_nat) (simp add: take_bit_nat_eq_self)
  then have n: "(unat ?len - 1) div 4 = length args" by simp
  have "read_uint32 (bs @ r) = Some (?len, be_bytes 1 type @ ?cs @ r)"
    using u32c.dec_enc [of ?len "be_bytes 1 type @ ?cs @ r"] by (simp only: bs append_assoc)
  moreover have "read_uint8 (be_bytes 1 type @ ?cs @ r) = Some (type, ?cs @ r)"
    by (rule u8c.dec_enc)
  moreover have "u32c.dec_many (length args) (?cs @ r) = Some (args, r)"
    by (rule u32c.dec_many_enc)
  ultimately have "parse_message (bs @ r) = Some ((type, args), r)"
    by (simp only: parse_message_def Option.bind.simps prod.case n)
  then show ?thesis by (simp only: bs length_append length_be_bytes length_args) simp
qed

text \<open>
  C18. Messages are framed. The bytes that \<open>send_message\<close> makes of any sequence of messages, each with at
  most 31 arguments, are read back as exactly these messages, with their arguments in network order
  and each length that of the bytes that follow it, whatever comes behind them.
\<close>

theorem messages_framed:
  assumes "list_all (\<lambda>(type, args). length args \<le> 31) ms"
  shows "\<exists>bss. those (map (\<lambda>(type, args). send_message type args) ms) = Some bss \<and>
    parse_messages (length ms) (concat bss @ r) = Some (ms, r) \<and>
    map length bss = map (\<lambda>(type, args). 5 + 4 * length args) ms"
  using assms
proof (induction ms)
  case (Cons m ms)
  obtain type args where m: "m = (type, args)" by fastforce
  with Cons.prems have le: "length args \<le> 31" by simp
  obtain bs where bs: "send_message type args = Some bs" using send_message_bytes [OF le] by blast
  from Cons obtain bss where IH: "those (map (\<lambda>(type, args). send_message type args) ms) = Some bss"
    "parse_messages (length ms) (concat bss @ r) = Some (ms, r)"
    "map length bss = map (\<lambda>(type, args). 5 + 4 * length args) ms" by auto
  from parse_sent_message [OF le bs, of "concat bss @ r"] IH show ?case
    by (intro exI [of _ "bs # bss"]) (simp add: m bs)
qed simp

theorem messages_framed_witness:
  "\<exists>bss. those (map (\<lambda>(type, args). send_message type args) [(6, [1, 2, 3]), (4, [7]), (2, [])]) = Some bss \<and>
     parse_messages 3 (concat bss @ [9]) = Some ([(6, [1, 2, 3]), (4, [7]), (2, [])], [9])"
  using messages_framed [of "[(6, [1, 2, 3]), (4, [7]), (2, [])]" "[9]"]
  by (simp del: parse_messages.simps) (metis numeral_3_eq_3)

text \<open>
  With 32 arguments the length, 129, is negative as a \<open>char\<close>: the compiler refuses the initializer, and
  no message of the protocol has so many.
\<close>

section \<open>Properties: the chain\<close>

text \<open>
  Calls on the chain: a holder appended or put first, and a constant buffer queued under the barriers
  and with the fresh memory that the call finds. A block is named with the number of bytes to send.
\<close>

datatype send_op =
    Append_Holder "nat option" int
  | Prepend_Holder "nat option" int
  | Append_Const "int list" bytes "nat option" int

fun send_step :: "send_state \<Rightarrow> send_op \<Rightarrow> send_state option" where
  "send_step s (Append_Holder p n) = append_send_buffer p n s"
| "send_step s (Prepend_Holder p n) =
     map_option (\<lambda>c. s\<lparr>chain := c\<rparr>)
       (prepend_buffer p (int (length (block_data (blocks s) p))) n (chain s))"
| "send_step s (Append_Const barriers junk p n) = append_const_send_buffer barriers junk p n s"

fun send_run :: "send_state \<Rightarrow> send_op list \<Rightarrow> send_state option" where
  "send_run s [] = Some s"
| "send_run s (op # ops) = Option.bind (send_step s op) (\<lambda>s'. send_run s' ops)"

fun op_block :: "send_op \<Rightarrow> nat option" where
  "op_block (Append_Holder p n) = p"
| "op_block (Prepend_Holder p n) = p"
| "op_block (Append_Const barriers junk p n) = p"

fun op_used :: "send_op \<Rightarrow> int" where
  "op_used (Append_Holder p n) = n"
| "op_used (Prepend_Holder p n) = n"
| "op_used (Append_Const barriers junk p n) = n"

definition op_data :: "bytes list \<Rightarrow> send_op \<Rightarrow> bytes" where
  "op_data bs op = take (nat (op_used op)) (block_data bs (op_block op))"

fun queue_data :: "bytes list \<Rightarrow> bytes \<Rightarrow> send_op \<Rightarrow> bytes" where
  "queue_data bs d (Prepend_Holder p n) = op_data bs (Prepend_Holder p n) @ d"
| "queue_data bs d op = d @ op_data bs op"

definition op_ok :: "bytes list \<Rightarrow> send_op \<Rightarrow> bool" where
  "op_ok bs op \<longleftrightarrow> 0 \<le> op_used op \<and> op_used op \<le> int (length (block_data bs (op_block op))) \<and>
     (\<forall>i. op_block op = Some i \<longrightarrow> i < length bs)"

definition op_cost :: "bytes list \<Rightarrow> send_op \<Rightarrow> int" where
  "op_cost bs op = int (length (block_data bs (op_block op))) + 8"

definition entry_data :: "bytes list \<Rightarrow> buffer_t \<Rightarrow> bytes" where
  "entry_data bs e = take (nat (bt_used e)) (block_data bs (bt_buf e))"

definition contents :: "send_state \<Rightarrow> bytes" where
  "contents s = concat (map (entry_data (blocks s)) (m_vec (chain s)))"

definition entry_ok :: "bytes list \<Rightarrow> buffer_t \<Rightarrow> bool" where
  "entry_ok bs e \<longleftrightarrow> 0 \<le> bt_used e \<and> bt_used e \<le> int (length (block_data bs (bt_buf e))) \<and>
     bt_size e = int (length (block_data bs (bt_buf e))) \<and> (\<forall>i. bt_buf e = Some i \<longrightarrow> i < length bs)"

definition chain_ok :: "send_state \<Rightarrow> bool" where
  "chain_ok s \<longleftrightarrow> list_all (entry_ok (blocks s)) (m_vec (chain s)) \<and>
     m_bytes (chain s) = sum_list (map bt_used (m_vec (chain s))) \<and>
     m_capacity (chain s) = sum_list (map bt_size (m_vec (chain s))) \<and>
     0 \<le> m_bytes (chain s) \<and> m_bytes (chain s) \<le> m_capacity (chain s)"

lemma block_data_append:
  "(\<And>i. p = Some i \<Longrightarrow> i < length bs) \<Longrightarrow> block_data (bs @ cs) p = block_data bs p"
  by (auto simp: block_data_def nth_append split: option.splits)

lemma entry_append:
  assumes "entry_ok bs e"
  shows "entry_ok (bs @ cs) e" "entry_data (bs @ cs) e = entry_data bs e"
  using assms block_data_append [of "bt_buf e" bs cs] by (auto simp: entry_ok_def entry_data_def)

lemma chain_append:
  assumes "chain_ok s"
  shows "chain_ok (s\<lparr>blocks := blocks s @ cs\<rparr>)" "contents (s\<lparr>blocks := blocks s @ cs\<rparr>) = contents s"
  using assms entry_append
  by (auto simp: chain_ok_def contents_def list_all_iff intro!: arg_cong [of _ _ concat])

lemma init_entry_some:
  assumes "chain_ok s" "0 \<le> n" "n \<le> int (length (block_data (blocks s) p))"
    and "m_capacity (chain s) + int (length (block_data (blocks s) p)) \<le> 2147483647"
  shows "init_buffer_entry put p (int (length (block_data (blocks s) p))) n (chain s) =
    Some \<lparr>m_vec = put \<lparr>bt_buf = p, bt_size = int (length (block_data (blocks s) p)), bt_used = n\<rparr> (m_vec (chain s)),
      m_bytes = m_bytes (chain s) + n,
      m_capacity = m_capacity (chain s) + int (length (block_data (blocks s) p))\<rparr>"
proof -
  have "0 \<le> m_bytes (chain s)" "m_bytes (chain s) \<le> m_capacity (chain s)"
    using assms(1) by (simp_all add: chain_ok_def)
  then have "in_int32 (m_bytes (chain s) + n)" "in_int32 (int (length (block_data (blocks s) p)))"
      "in_int32 (m_capacity (chain s) + int (length (block_data (blocks s) p)))"
    using assms(2-4) by (simp_all add: in_int32_def)
  then show ?thesis by (simp add: init_buffer_entry_def to_int32_id c_int_def)
qed

lemma append_holder_ok:
  assumes "chain_ok s" "0 \<le> n" "n \<le> int (length (block_data (blocks s) p))"
    and "m_capacity (chain s) + int (length (block_data (blocks s) p)) \<le> 2147483647"
    and "\<And>i. p = Some i \<Longrightarrow> i < length (blocks s)"
  shows "\<exists>s'. append_send_buffer p n s = Some s' \<and> chain_ok s' \<and> blocks s' = blocks s \<and>
    contents s' = contents s @ take (nat n) (block_data (blocks s) p) \<and>
    m_vec (chain s') = m_vec (chain s) @ [\<lparr>bt_buf = p, bt_size = int (length (block_data (blocks s) p)), bt_used = n\<rparr>] \<and>
    m_capacity (chain s') = m_capacity (chain s) + int (length (block_data (blocks s) p))"
  using assms by (auto simp: append_send_buffer_def append_buffer_def init_entry_some chain_ok_def
      contents_def entry_ok_def entry_data_def)

lemma prepend_holder_ok:
  assumes "chain_ok s" "0 \<le> n" "n \<le> int (length (block_data (blocks s) p))"
    and "m_capacity (chain s) + int (length (block_data (blocks s) p)) \<le> 2147483647"
    and "\<And>i. p = Some i \<Longrightarrow> i < length (blocks s)"
  shows "\<exists>s'. send_step s (Prepend_Holder p n) = Some s' \<and> chain_ok s' \<and> blocks s' = blocks s \<and>
    contents s' = take (nat n) (block_data (blocks s) p) @ contents s \<and>
    m_capacity (chain s') = m_capacity (chain s) + int (length (block_data (blocks s) p))"
  using assms by (auto simp: prepend_buffer_def init_entry_some chain_ok_def contents_def
      entry_ok_def entry_data_def)

text \<open>The copy: at least as long as what is copied, and beginning with it.\<close>

lemma init_buffer_copies:
  "length xs \<le> nat sz \<Longrightarrow> init_buffer sz xs fresh = xs @ drop (length xs) fresh"
  by (simp add: init_buffer_def Let_def min_absorb1)

lemma copied_block:
  assumes "0 \<le> n" "n \<le> int (length d)"
  shows "length (init_buffer (round_up_8 n) (take (nat n) d)
      (take (nat (round_up_8 n)) (junk @ replicate (nat (round_up_8 n)) 0))) = nat (round_up_8 n)"
    and "take (nat n) (init_buffer (round_up_8 n) (take (nat n) d)
      (take (nat (round_up_8 n)) (junk @ replicate (nat (round_up_8 n)) 0))) = take (nat n) d"
proof -
  have l: "length (take (nat n) d) = nat n" using assms by simp
  have le: "nat n \<le> nat (round_up_8 n)" using round_up_8(1) [OF assms(1)] by simp
  have f: "length (take m (junk @ replicate m 0)) = m" for m by simp
  show "length (init_buffer (round_up_8 n) (take (nat n) d)
      (take (nat (round_up_8 n)) (junk @ replicate (nat (round_up_8 n)) 0))) = nat (round_up_8 n)"
    using l le f by (simp only: init_buffer_copies length_append length_drop)
  show "take (nat n) (init_buffer (round_up_8 n) (take (nat n) d)
      (take (nat (round_up_8 n)) (junk @ replicate (nat (round_up_8 n)) 0))) = take (nat n) d"
    using l le by (simp only: init_buffer_copies take_append) simp
qed

lemma append_const_ok:
  assumes "chain_ok s" "0 \<le> n" "n \<le> int (length (block_data (blocks s) p))"
    and "m_capacity (chain s) + int (length (block_data (blocks s) p)) + 8 \<le> 2147483647"
    and "\<And>i. p = Some i \<Longrightarrow> i < length (blocks s)"
  shows "\<exists>s' cs. append_const_send_buffer barriers junk p n s = Some s' \<and> chain_ok s' \<and>
    blocks s' = blocks s @ cs \<and>
    contents s' = contents s @ take (nat n) (block_data (blocks s) p) \<and>
    m_capacity (chain s') \<le> m_capacity (chain s) + int (length (block_data (blocks s) p)) + 8 \<and>
    (\<not> is_send_plaintext barriers \<longrightarrow>
       (\<forall>i. bt_buf (last (m_vec (chain s'))) = Some i \<longrightarrow> length (blocks s) \<le> i))"
proof (cases "is_send_plaintext barriers")
  case True
  with append_holder_ok [OF assms(1-3) _ assms(5)] assms(4) show ?thesis
    by (fastforce simp: append_const_send_buffer_def)
next
  case False
  define b where "b = make_buffer (n, length (blocks s))"
  define new where "new = init_buffer (m_size b) (take (nat n) (block_data (blocks s) p))
      (take (nat (m_size b)) (junk @ replicate (nat (m_size b)) 0))"
  define s1 where "s1 = s\<lparr>blocks := blocks s @ [new]\<rparr>"
  have run: "append_const_send_buffer barriers junk p n s = append_send_buffer (m_begin b) n s1"
    using False assms(2,3) by (simp add: append_const_send_buffer_def Let_def s1_def new_def b_def)
  have s1: "chain_ok s1" "contents s1 = contents s" "blocks s1 = blocks s @ [new]" "chain s1 = chain s"
    using chain_append [OF assms(1), of "[new]"] by (simp_all add: s1_def)
  have data: "n \<le> int (length (block_data (blocks s1) (m_begin b)))"
      "int (length (block_data (blocks s1) (m_begin b))) \<le> int (length (block_data (blocks s) p)) + 8"
      "take (nat n) (block_data (blocks s1) (m_begin b)) = take (nat n) (block_data (blocks s) p)"
  proof -
    have "b = (if n = 0 then \<lparr>m_begin = None, m_size = 0\<rparr>
        else \<lparr>m_begin = Some (length (blocks s)), m_size = round_up_8 n\<rparr>)"
      by (simp add: b_def make_buffer_def)
    then have "block_data (blocks s1) (m_begin b) = (if n = 0 then [] else new)"
      by (simp add: s1(3) block_data_def)
    moreover have "length new = nat (round_up_8 n) \<and> take (nat n) new = take (nat n) (block_data (blocks s) p)"
      if "n \<noteq> 0"
      using copied_block [OF assms(2,3), of junk] that by (simp add: new_def b_def make_buffer_def)
    ultimately show "n \<le> int (length (block_data (blocks s1) (m_begin b)))"
      "int (length (block_data (blocks s1) (m_begin b))) \<le> int (length (block_data (blocks s) p)) + 8"
      "take (nat n) (block_data (blocks s1) (m_begin b)) = take (nat n) (block_data (blocks s) p)"
      using round_up_8 [OF assms(2)] assms(2,3) by auto
  qed
  have valid: "i < length (blocks s1) \<and> length (blocks s) \<le> i" if "m_begin b = Some i" for i
    using that by (auto simp: b_def s1(3) make_buffer_def split: if_splits)
  have cap: "m_capacity (chain s1) + int (length (block_data (blocks s1) (m_begin b))) \<le> 2147483647"
    using data(2) assms(4) by (simp add: s1(4))
  from append_holder_ok [OF s1(1) assms(2) data(1) cap] valid obtain s' where
    s': "append_send_buffer (m_begin b) n s1 = Some s'" "chain_ok s'" "blocks s' = blocks s1"
      "contents s' = contents s1 @ take (nat n) (block_data (blocks s1) (m_begin b))"
      "m_vec (chain s') = m_vec (chain s1) @
         [\<lparr>bt_buf = m_begin b, bt_size = int (length (block_data (blocks s1) (m_begin b))), bt_used = n\<rparr>]"
      "m_capacity (chain s') = m_capacity (chain s1) + int (length (block_data (blocks s1) (m_begin b)))"
    by blast
  have "m_capacity (chain s') \<le> m_capacity (chain s) + int (length (block_data (blocks s) p)) + 8"
    using s'(6) data(2) by (simp add: s1(4))
  moreover have "blocks s' = blocks s @ [new]" "contents s' = contents s @ take (nat n) (block_data (blocks s) p)"
    using s'(3,4) data(3) s1(2,3) by simp_all
  moreover have "\<forall>i. bt_buf (last (m_vec (chain s'))) = Some i \<longrightarrow> length (blocks s) \<le> i"
    using valid by (simp add: s'(5))
  ultimately show ?thesis using s'(1,2) run by (intro exI [of _ s'] exI [of _ "[new]"]) simp
qed

lemma op_in_larger_store:
  assumes "op_ok bs op"
  shows "block_data (bs @ cs) (op_block op) = block_data bs (op_block op)"
    "op_ok (bs @ cs) op" "op_data (bs @ cs) op = op_data bs op" "op_cost (bs @ cs) op = op_cost bs op"
proof -
  show eq: "block_data (bs @ cs) (op_block op) = block_data bs (op_block op)"
    using assms by (intro block_data_append) (simp add: op_ok_def)
  then show "op_ok (bs @ cs) op" "op_data (bs @ cs) op = op_data bs op" "op_cost (bs @ cs) op = op_cost bs op"
    using assms by (auto simp: op_ok_def op_data_def op_cost_def)
qed

lemma send_step_ok:
  assumes "chain_ok s" "op_ok (blocks s) op" "m_capacity (chain s) + op_cost (blocks s) op \<le> 2147483647"
  shows "\<exists>s' cs. send_step s op = Some s' \<and> chain_ok s' \<and> blocks s' = blocks s @ cs \<and>
    contents s' = queue_data (blocks s) (contents s) op \<and>
    m_capacity (chain s') \<le> m_capacity (chain s) + op_cost (blocks s) op"
proof (cases op)
  case (Append_Holder p n)
  with append_holder_ok [OF assms(1), of n p] assms(2,3) show ?thesis
    by (auto simp: op_ok_def op_cost_def op_data_def)
next
  case (Prepend_Holder p n)
  with prepend_holder_ok [OF assms(1), of n p] assms(2,3) show ?thesis
    by (auto simp: op_ok_def op_cost_def op_data_def)
next
  case (Append_Const barriers junk p n)
  with append_const_ok [OF assms(1), of n p barriers junk] assms(2,3) show ?thesis
    by (fastforce simp: op_ok_def op_cost_def op_data_def)
qed

lemma queue_data_larger:
  "op_ok bs op \<Longrightarrow> queue_data (bs @ cs) d op = queue_data bs d op"
  using op_in_larger_store(3) [of bs op cs] by (cases op) simp_all

lemma send_run_ok:
  "chain_ok s \<Longrightarrow> list_all (op_ok (blocks s)) ops \<Longrightarrow>
    m_capacity (chain s) + sum_list (map (op_cost (blocks s)) ops) \<le> 2147483647 \<Longrightarrow>
    \<exists>s' cs. send_run s ops = Some s' \<and> chain_ok s' \<and> blocks s' = blocks s @ cs \<and>
      contents s' = foldl (queue_data (blocks s)) (contents s) ops"
proof (induction ops arbitrary: s)
  case (Cons op ops)
  have cost: "0 \<le> sum_list (map (op_cost (blocks s)) ops)"
    by (rule sum_list_nonneg) (auto simp: op_cost_def)
  with Cons.prems send_step_ok [of s op] obtain s1 cs where s1: "send_step s op = Some s1" "chain_ok s1"
      "blocks s1 = blocks s @ cs" "contents s1 = queue_data (blocks s) (contents s) op"
      "m_capacity (chain s1) \<le> m_capacity (chain s) + op_cost (blocks s) op" by auto
  have ops: "list_all (op_ok (blocks s)) ops" using Cons.prems(2) by simp
  then have same: "list_all (op_ok (blocks s1)) ops"
      "map (op_cost (blocks s1)) ops = map (op_cost (blocks s)) ops"
    using op_in_larger_store by (auto simp: list_all_iff s1(3))
  have fold: "foldl (queue_data (blocks s1)) d ops = foldl (queue_data (blocks s)) d ops" for d
    using ops queue_data_larger by (intro foldl_cong) (auto simp: list_all_iff s1(3))
  have "m_capacity (chain s1) + sum_list (map (op_cost (blocks s1)) ops) \<le> 2147483647"
    using Cons.prems(3) s1(5) unfolding same(2) by simp
  from Cons.IH [OF s1(2) same(1) this] s1 show ?case
    unfolding fold by auto
qed simp

lemma contents_size:
  assumes "chain_ok s"
  shows "chain_size (chain s) = int (length (contents s))"
proof -
  have "list_all (entry_ok bs) v \<Longrightarrow> sum_list (map bt_used v) = int (length (concat (map (entry_data bs) v)))"
    for bs v by (induction v) (auto simp: entry_ok_def entry_data_def min_def)
  then show ?thesis using assms by (simp add: chain_ok_def chain_size_def contents_def)
qed

text \<open>
  C17. The chain sends what was queued, in order, and encryption touches nothing else. Starting with an
  empty chain, any sequence of holders appended or put first and of constant buffers queued, in
  plain text or encrypted, is defined as long as all blocks together (rounded up) fit an \<open>int\<close>: the
  chain then holds exactly the queued bytes in order, \<open>size()\<close> is their number, \<open>empty()\<close> says
  whether there are none, \<open>size() \<le> capacity()\<close>, and no block that existed before was changed. A
  constant buffer queued while the connection encrypts is a copy in a new block: whatever is written
  into the block of its entry later, the bytes of every block that existed before stay as they are.
\<close>

theorem send_buffer_sound:
  assumes "chain s = chained_buffer_init" "list_all (op_ok (blocks s)) ops"
    and "sum_list (map (op_cost (blocks s)) ops) \<le> 2147483647"
  shows "\<exists>s'. send_run s ops = Some s' \<and>
    contents s' = foldl (queue_data (blocks s)) [] ops \<and>
    chain_size (chain s') = int (length (contents s')) \<and>
    (chain_empty (chain s') \<longleftrightarrow> contents s' = []) \<and>
    chain_size (chain s') \<le> chain_capacity (chain s') \<and>
    take (length (blocks s)) (blocks s') = blocks s \<and>
    (\<forall>barriers junk p n t i e. op_ok (blocks s') (Append_Const barriers junk p n) \<longrightarrow>
      m_capacity (chain s') + op_cost (blocks s') (Append_Const barriers junk p n) \<le> 2147483647 \<longrightarrow>
      \<not> is_send_plaintext barriers \<longrightarrow> append_const_send_buffer barriers junk p n s' = Some t \<longrightarrow>
      bt_buf (last (m_vec (chain t))) = Some i \<longrightarrow>
      take (length (blocks s')) ((blocks t)[i := e]) = blocks s')"
proof -
  have init: "chain_ok s" "contents s = []" "m_capacity (chain s) = 0"
    by (simp_all add: assms(1) chain_ok_def contents_def chained_buffer_init_def)
  from send_run_ok [OF init(1) assms(2)] assms(3) obtain s' cs where
    s': "send_run s ops = Some s'" "chain_ok s'" "blocks s' = blocks s @ cs"
      "contents s' = foldl (queue_data (blocks s)) [] ops" by (auto simp: init(2,3))
  have fresh_copy: "take (length (blocks s')) ((blocks t)[i := e]) = blocks s'"
    if "op_ok (blocks s') (Append_Const barriers junk p n)"
      "m_capacity (chain s') + op_cost (blocks s') (Append_Const barriers junk p n) \<le> 2147483647"
      "\<not> is_send_plaintext barriers" "append_const_send_buffer barriers junk p n s' = Some t"
      "bt_buf (last (m_vec (chain t))) = Some i" for barriers junk p n t i e
    using append_const_ok [OF s'(2), of n p barriers junk] that
    by (auto simp: op_ok_def op_cost_def)
  have "chain_size (chain s') \<le> chain_capacity (chain s')"
    using s'(2) by (simp add: chain_ok_def chain_size_def chain_capacity_def)
  then show ?thesis
    using s' contents_size [OF s'(2)] fresh_copy
    by (intro exI [of _ s']) (auto simp: chain_empty_def chain_size_def)
qed

theorem send_buffer_sound_witness:
  "\<exists>s'. send_run \<lparr>blocks = [[1, 2, 3], [4, 5]], chain = chained_buffer_init\<rparr>
       [Append_Holder (Some 0) 2, Append_Const [5, 2147483647] [] (Some 1) 2, Prepend_Holder (Some 1) 1] = Some s' \<and>
     contents s' = [4, 1, 2, 4, 5] \<and> chain_size (chain s') = 5"
proof -
  let ?s = "\<lparr>blocks = [[1, 2, 3], [4, 5]], chain = chained_buffer_init\<rparr>"
  let ?ops = "[Append_Holder (Some 0) 2, Append_Const [5, 2147483647] [] (Some 1) 2, Prepend_Holder (Some 1) 1]"
  have pre: "list_all (op_ok (blocks ?s)) ?ops" "sum_list (map (op_cost (blocks ?s)) ?ops) \<le> 2147483647"
    by (simp_all add: op_ok_def op_cost_def block_data_def)
  from send_buffer_sound [OF _ pre] obtain s' where
    "send_run ?s ?ops = Some s'" "contents s' = foldl (queue_data (blocks ?s)) [] ?ops"
    "chain_size (chain s') = int (length (contents s'))" by auto
  then show ?thesis by (auto simp: op_data_def block_data_def)
qed

end
