(* ===== verification/Link_List.thy ===== *)
theory Link_List
  imports Getzy_Prelude
begin

text \<open>
  \<open>link.hpp\<close>: the lists in which the session keeps torrents. Each torrent has, for each list, a
  \<open>link\<close> with its position in the list, or -1; removing a torrent moves the last one into its
  place. Torrents and lists are numbered. The state holds every list, and the \<open>index\<close> of every
  torrent's link to it: the code changes the links of other torrents through the pointers in the
  list. An access outside a list is \<open>None\<close>.
\<close>

section \<open>State and operations\<close>

record link_state =
  lists :: "nat \<Rightarrow> nat list"
  link_index :: "nat \<Rightarrow> nat \<Rightarrow> int"

definition link_init :: link_state where
  "link_init = \<lparr>lists = (\<lambda>k. []), link_index = (\<lambda>t k. - 1)\<rparr>"

definition in_list :: "nat \<Rightarrow> nat \<Rightarrow> link_state \<Rightarrow> bool" where
  "in_list k t s \<longleftrightarrow> link_index s t k \<ge> 0"

definition set_index :: "nat \<Rightarrow> nat \<Rightarrow> int \<Rightarrow> link_state \<Rightarrow> link_state" where
  "set_index k t i s = s\<lparr>link_index := (link_index s)(t := (link_index s t)(k := i))\<rparr>"

definition link_clear :: "nat \<Rightarrow> nat \<Rightarrow> link_state \<Rightarrow> link_state" where
  "link_clear k t s = set_index k t (- 1) s"

definition set_list :: "nat \<Rightarrow> nat list \<Rightarrow> link_state \<Rightarrow> link_state" where
  "set_list k l s = s\<lparr>lists := (lists s)(k := l)\<rparr>"

definition link_unlink :: "nat \<Rightarrow> nat \<Rightarrow> link_state \<Rightarrow> link_state option" where
  "link_unlink k t s =
     (let l = lists s k; i = link_index s t k in
      if i = - 1 then Some s
      else
        (let last = int (length l) - 1 in
         if i < last then
           (if i < 0 then None
            else Some (set_index k t (- 1)
              (set_list k (butlast (l[nat i := l ! nat last]))
                (set_index k (l ! nat last) i s))))
         else if last < 0 then None
         else Some (set_index k t (- 1) (set_list k (butlast l) s))))"

definition link_insert :: "nat \<Rightarrow> nat \<Rightarrow> link_state \<Rightarrow> link_state" where
  "link_insert k self s =
     (if link_index s self k \<ge> 0 then s
      else set_index k self (int (length (lists s k))) (set_list k (lists s k @ [self]) s))"

datatype link_call = Insert nat nat | Unlink nat nat

fun link_step :: "link_state \<Rightarrow> link_call \<Rightarrow> link_state option" where
  "link_step s (Insert k t) = Some (link_insert k t s)"
| "link_step s (Unlink k t) = link_unlink k t s"

fun link_run :: "link_state \<Rightarrow> link_call list \<Rightarrow> link_state option" where
  "link_run s [] = Some s"
| "link_run s (c # cs) = Option.bind (link_step s c) (\<lambda>t. link_run t cs)"

section \<open>Specification\<close>

text \<open>The members of a list, as a set.\<close>

fun member_step :: "(nat \<Rightarrow> nat set) \<Rightarrow> link_call \<Rightarrow> nat \<Rightarrow> nat set" where
  "member_step M (Insert k t) = M(k := insert t (M k))"
| "member_step M (Unlink k t) = M(k := M k - {t})"

definition members :: "link_call list \<Rightarrow> nat \<Rightarrow> nat set" where
  "members cs = foldl member_step (\<lambda>k. {}) cs"

definition link_inv :: "link_state \<Rightarrow> bool" where
  "link_inv s \<longleftrightarrow> (\<forall>k. distinct (lists s k) \<and>
     (\<forall>t. link_index s t k = - 1 \<and> t \<notin> set (lists s k) \<or>
       (\<exists>i < length (lists s k). link_index s t k = int i \<and> lists s k ! i = t)))"

definition list_members :: "link_state \<Rightarrow> nat \<Rightarrow> nat set" where
  "list_members s k = set (lists s k)"

section \<open>Facts\<close>

lemma link_simps [simp]:
  "lists (set_index k t i s) = lists s" "link_index (set_list k l s) = link_index s"
  "lists (set_list k l s) k' = (if k' = k then l else lists s k')"
  "link_index (set_index k t i s) t' k' = (if t' = t \<and> k' = k then i else link_index s t' k')"
  by (simp_all add: set_index_def set_list_def)

lemma link_inv_index:
  assumes "link_inv s"
  shows "link_index s t k = - 1 \<longleftrightarrow> t \<notin> set (lists s k)"
    and "t \<in> set (lists s k) \<Longrightarrow> \<exists>i < length (lists s k). link_index s t k = int i \<and> lists s k ! i = t"
proof -
  have "link_index s t k = - 1 \<and> t \<notin> set (lists s k) \<or>
      (\<exists>i < length (lists s k). link_index s t k = int i \<and> lists s k ! i = t)"
    using assms by (simp add: link_inv_def)
  then show "link_index s t k = - 1 \<longleftrightarrow> t \<notin> set (lists s k)"
    "t \<in> set (lists s k) \<Longrightarrow> \<exists>i < length (lists s k). link_index s t k = int i \<and> lists s k ! i = t"
    by auto
qed

text \<open>A change of one list and of links to it keeps what holds of the other lists.\<close>

lemma link_invI:
  assumes "link_inv s" "\<And>k'. k' \<noteq> k \<Longrightarrow> lists s' k' = lists s k'"
    "\<And>t k'. k' \<noteq> k \<Longrightarrow> link_index s' t k' = link_index s t k'" "distinct (lists s' k)"
    "\<And>t. link_index s' t k = - 1 \<and> t \<notin> set (lists s' k) \<or>
       (\<exists>i < length (lists s' k). link_index s' t k = int i \<and> lists s' k ! i = t)"
  shows "link_inv s'"
  unfolding link_inv_def
proof (rule allI)
  fix k'
  show "distinct (lists s' k') \<and> (\<forall>t. link_index s' t k' = - 1 \<and> t \<notin> set (lists s' k') \<or>
      (\<exists>i < length (lists s' k'). link_index s' t k' = int i \<and> lists s' k' ! i = t))"
    using assms unfolding link_inv_def by (cases "k' = k") auto
qed

lemma insert_inv:
  assumes "link_inv s"
  shows "link_inv (link_insert k t s)"
    and "list_members (link_insert k t s) = member_step (list_members s) (Insert k t)"
proof -
  have idx: "link_index s t k \<ge> 0 \<longleftrightarrow> t \<in> set (lists s k)" for t
    using link_inv_index [OF assms, of t k] by (cases "t \<in> set (lists s k)") auto
  show "list_members (link_insert k t s) = member_step (list_members s) (Insert k t)"
    by (auto simp: list_members_def link_insert_def idx fun_eq_iff)
  show "link_inv (link_insert k t s)"
  proof (cases "t \<in> set (lists s k)")
    case True
    then show ?thesis using assms by (simp add: link_insert_def idx)
  next
    case False
    have old: "link_index s u k = - 1 \<and> u \<notin> set (lists s k) \<or>
        (\<exists>i < length (lists s k). link_index s u k = int i \<and> lists s k ! i = u)" for u
      using assms by (simp add: link_inv_def)
    show ?thesis
    proof (rule link_invI [OF assms, where k = k])
      show "distinct (lists (link_insert k t s) k)"
        using False assms by (simp add: link_insert_def idx link_inv_def)
      fix u
      show "link_index (link_insert k t s) u k = - 1 \<and> u \<notin> set (lists (link_insert k t s) k) \<or>
        (\<exists>i < length (lists (link_insert k t s) k). link_index (link_insert k t s) u k = int i \<and>
          lists (link_insert k t s) k ! i = u)"
        using False old [of u]
        by (cases "u = t") (auto simp: link_insert_def idx nth_append intro: less_SucI)
    qed (simp_all add: link_insert_def)
  qed
qed

text \<open>Moving the last element into the place of the removed one.\<close>

definition swap_out :: "nat \<Rightarrow> 'a list \<Rightarrow> 'a list" where
  "swap_out i l = butlast (l[i := last l])"

lemma swap_out:
  assumes "distinct l" "i < length l"
  shows "distinct (swap_out i l)" "set (swap_out i l) = set l - {l ! i}"
    "length (swap_out i l) = length l - 1"
    "j < length l - 1 \<Longrightarrow> swap_out i l ! j = (if j = i then last l else l ! j)"
proof -
  from assms(2) obtain ys y where l: "l = ys @ [y]" by (cases l rule: rev_cases) auto
  show "length (swap_out i l) = length l - 1" by (simp add: swap_out_def)
  show "j < length l - 1 \<Longrightarrow> swap_out i l ! j = (if j = i then last l else l ! j)"
    using assms(2) by (simp add: swap_out_def nth_butlast nth_list_update)
  have out: "swap_out i l = (if i < length ys then ys[i := y] else ys)"
    using assms(2) by (auto simp: swap_out_def l list_update_append butlast_append less_Suc_eq
        split: nat.split)
  show "distinct (swap_out i l)"
    using assms(1) unfolding out by (auto simp: l intro: distinct_list_update)
  show "set (swap_out i l) = set l - {l ! i}"
    using assms unfolding out by (auto simp: l nth_append set_update_distinct less_Suc_eq)
qed

lemma unlink_linked:
  assumes "link_inv s" "link_index s t k = int i" "i < length (lists s k)" "lists s k ! i = t"
  shows "link_unlink k t s = Some (set_index k t (- 1) (set_list k (swap_out i (lists s k))
    (set_index k (last (lists s k)) (int i) s)))"
proof -
  let ?l = "lists s k"
  have ne: "?l \<noteq> []" using assms(3) by auto
  note l = ne last_conv_nth [OF ne]
  show ?thesis
  proof (cases "int i < int (length ?l) - 1")
    case True
    then show ?thesis
      using assms(2) l by (simp add: link_unlink_def swap_out_def Let_def nat_diff_distrib)
  next
    case False
    then have i: "i = length ?l - 1" using assms(3) by linarith
    then have t: "last ?l = t" using l assms(4) by simp
    have same: "?l[i := last ?l] = ?l" using list_update_id [of ?l i] assms(4) t by simp
    have "set_index k t (- 1) (set_list k l (set_index k (last ?l) j s)) = set_index k t (- 1) (set_list k l s)" for l j
      unfolding t by (simp add: set_index_def set_list_def fun_upd_def fun_eq_iff)
    then show ?thesis
      using False assms(2, 3) same ne by (simp add: link_unlink_def swap_out_def Let_def)
  qed
qed

lemma unlink_inv:
  assumes "link_inv s"
  obtains s' where "link_unlink k t s = Some s'" "link_inv s'"
    "list_members s' = member_step (list_members s) (Unlink k t)"
proof (cases "t \<in> set (lists s k)")
  case False
  then have "link_unlink k t s = Some s"
    using link_inv_index(1) [OF assms] by (simp add: link_unlink_def)
  with False assms that show ?thesis by (auto simp: list_members_def fun_eq_iff)
next
  case True
  let ?l = "lists s k"
  from link_inv_index(2) [OF assms True] obtain i where
    i: "i < length ?l" "link_index s t k = int i" "?l ! i = t" by blast
  let ?s = "set_index k t (- 1) (set_list k (swap_out i ?l) (set_index k (last ?l) (int i) s))"
  have dis: "distinct ?l" using assms by (simp add: link_inv_def)
  note so = swap_out [OF dis i(1)]
  have ne: "?l \<noteq> []" using i(1) by auto
  note last = last_conv_nth [OF ne]
  have old: "link_index s u k = - 1 \<and> u \<notin> set ?l \<or>
      (\<exists>j < length ?l. link_index s u k = int j \<and> ?l ! j = u)" for u
    using assms by (simp add: link_inv_def)
  have "link_inv ?s"
  proof (rule link_invI [OF assms, where k = k])
    fix u
    show "link_index ?s u k = - 1 \<and> u \<notin> set (lists ?s k) \<or>
        (\<exists>j < length (lists ?s k). link_index ?s u k = int j \<and> lists ?s k ! j = u)"
    proof (cases "u = t")
      case True
      then show ?thesis using so(2) i by simp
    next
      case u: False
      show ?thesis
      proof (cases "u = last ?l")
        case True
        with u i last have "i < length ?l - 1" by (cases "i = length ?l - 1") auto
        with True u so show ?thesis by (auto intro!: exI [of _ i])
      next
        case False
        have "j < length ?l - 1 \<and> j \<noteq> i" if "j < length ?l" "?l ! j = u" for j
          using that False last u i by (cases "j = length ?l - 1") auto
        with old [of u] u False so show ?thesis by (auto 0 4)
      qed
    qed
  qed (use so in auto)
  moreover have "list_members ?s = member_step (list_members s) (Unlink k t)"
    using so(2) i by (simp add: list_members_def fun_eq_iff)
  ultimately show ?thesis
    using that [of ?s] unlink_linked [OF assms i(2, 1, 3)] by blast
qed

lemma step_inv:
  assumes "link_inv s"
  obtains s' where "link_step s c = Some s'" "link_inv s'"
    "list_members s' = member_step (list_members s) c"
proof (cases c)
  case (Insert k t)
  then show ?thesis using that insert_inv [OF assms, of k t] by simp
next
  case (Unlink k t)
  then show ?thesis using that unlink_inv [OF assms, of k t] by (metis link_step.simps(2))
qed

lemma run_inv:
  "link_inv s \<Longrightarrow> \<exists>s'. link_run s cs = Some s' \<and> link_inv s' \<and>
    list_members s' = foldl member_step (list_members s) cs"
proof (induction cs arbitrary: s)
  case (Cons c cs)
  from step_inv [OF Cons.prems, of c] obtain s1 where
    "link_step s c = Some s1" "link_inv s1" "list_members s1 = member_step (list_members s) c" .
  with Cons.IH [of s1] show ?case by simp
qed simp

section \<open>Property\<close>

text \<open>
  C22. The intrusive lists are sets. Whatever sequence of insertions and removals is done on the
  session's lists, no position outside a list is accessed; each list holds exactly the torrents
  inserted into it and not removed since, each once; \<open>in_list\<close> answers membership, and the link of
  every member is its position, also of the torrents that a removal moved.
\<close>

theorem link_lists_are_sets:
  "\<exists>s. link_run link_init cs = Some s \<and>
     (\<forall>k. distinct (lists s k) \<and> set (lists s k) = members cs k \<and>
       (\<forall>t. in_list k t s \<longleftrightarrow> t \<in> members cs k) \<and>
       (\<forall>i < length (lists s k). link_index s (lists s k ! i) k = int i))"
proof -
  have "link_inv link_init" "list_members link_init = (\<lambda>k. {})"
    by (simp_all add: link_inv_def link_init_def list_members_def [abs_def] fun_eq_iff)
  with run_inv [of link_init cs] obtain s where
    s: "link_run link_init cs = Some s" "link_inv s" "list_members s = members cs"
    by (auto simp: members_def)
  have "set (lists s k) = members cs k" for k
    using s(3) by (metis list_members_def)
  moreover have "in_list k t s \<longleftrightarrow> t \<in> set (lists s k)" for k t
    using link_inv_index [OF s(2), of t k] by (cases "t \<in> set (lists s k)") (auto simp: in_list_def)
  moreover have "link_index s (lists s k ! i) k = int i" if "i < length (lists s k)" for k i
  proof -
    have "distinct (lists s k)" using s(2) by (simp add: link_inv_def)
    with link_inv_index(2) [OF s(2), of "lists s k ! i" k] that show ?thesis
      by (auto simp: nth_eq_iff_index_eq)
  qed
  moreover have "distinct (lists s k)" for k using s(2) by (simp add: link_inv_def)
  ultimately show ?thesis using s(1) by auto
qed

theorem link_lists_are_sets_witness:
  "\<exists>s. link_run link_init [Insert 0 7, Insert 0 8, Insert 0 9, Insert 1 8, Unlink 0 7] = Some s \<and>
     lists s 0 = [9, 8] \<and> link_index s 9 0 = 0"
  using link_lists_are_sets [of "[Insert 0 7, Insert 0 8, Insert 0 9, Insert 1 8, Unlink 0 7]"]
  by (auto simp: link_unlink_def link_insert_def link_init_def set_index_def set_list_def)

end
