(* ===== verification/Storage_Slots.thy ===== *)
theory Storage_Slots
  imports Getzy_Prelude
begin

text \<open>
  Two structures the disk back-ends keep. \<open>aux_/storage_free_list.hpp\<close> hands out the indices of
  the slots that torrents take in the table of storages; \<open>aux_/store_buffer.hpp\<close> finds the blocks
  that are queued for writing and not on disk yet. An index is a natural number here
  (\<open>storage_index_t\<close> is an unsigned 32-bit number, far above the number of torrents).
\<close>

section \<open>The free list\<close>

text \<open>The vector and the number of elements it has reserved room for.\<close>

record storage_free_list =
  m_free_slots :: "nat list"
  free_capacity :: nat

definition free_list_init :: storage_free_list where
  "free_list_init = \<lparr>m_free_slots = [], free_capacity = 0\<rparr>"

definition free_pop :: "storage_free_list \<Rightarrow> (nat \<times> storage_free_list) option" where
  "free_pop f =
     (if m_free_slots f = [] then None
      else Some (last (m_free_slots f), f\<lparr>m_free_slots := butlast (m_free_slots f)\<rparr>))"

definition new_index :: "nat \<Rightarrow> storage_free_list \<Rightarrow> (nat \<times> storage_free_list) option" where
  "new_index next_index f =
     (let f1 = f\<lparr>free_capacity := max (free_capacity f) (next_index + 1)\<rparr> in
      if m_free_slots f1 = [] then Some (next_index, f1) else free_pop f1)"

text \<open>
  \<open>push_back\<close> allocates when the room is used up, growing it (by any amount); the flag says
  whether it did.
\<close>

definition free_add :: "nat \<Rightarrow> nat \<Rightarrow> storage_free_list \<Rightarrow> bool \<times> storage_free_list" where
  "free_add growth i f =
     (let full = (length (m_free_slots f) \<ge> free_capacity f) in
      (full, f\<lparr>m_free_slots := m_free_slots f @ [i],
        free_capacity := (if full then Suc (length (m_free_slots f)) + growth else free_capacity f)\<rparr>))"

definition free_size :: "storage_free_list \<Rightarrow> nat" where
  "free_size f = length (m_free_slots f)"

section \<open>A client of the free list\<close>

text \<open>
  The disk back-ends are in the prebuilt library. The client here is any user of the list that
  does what its comments ask for: it has a table of slots, passes the end of the table as \<open>next\<close>
  when it needs an index, and gives an index back when the slot becomes empty. The property below
  is about the indices the list gives to such a client.
\<close>

record slot_table =
  slots :: "nat option list"
  free_list :: storage_free_list

definition table_init :: slot_table where
  "table_init = \<lparr>slots = [], free_list = free_list_init\<rparr>"

definition new_torrent :: "nat \<Rightarrow> slot_table \<Rightarrow> (nat \<times> slot_table) option" where
  "new_torrent t s =
     (case new_index (length (slots s)) (free_list s) of
        None \<Rightarrow> None
      | Some (i, f) \<Rightarrow>
          (if i = length (slots s) then Some (i, \<lparr>slots = slots s @ [Some t], free_list = f\<rparr>)
           else if i < length (slots s) then Some (i, \<lparr>slots = (slots s)[i := Some t], free_list = f\<rparr>)
           else None))"

definition remove_torrent :: "nat \<Rightarrow> slot_table \<Rightarrow> bool \<times> slot_table" where
  "remove_torrent i s =
     (let (grew, f) = free_add 0 i (free_list s) in
      (grew, \<lparr>slots = (slots s)[i := None], free_list = f\<rparr>))"

datatype slot_call = New nat | Remove nat

text \<open>A slot is given back by the torrent that has it; other removals are not made.\<close>

fun slot_step :: "slot_table \<Rightarrow> slot_call \<Rightarrow> slot_table option" where
  "slot_step s (New t) = map_option snd (new_torrent t s)"
| "slot_step s (Remove i) =
     (if i < length (slots s) \<and> slots s ! i \<noteq> None
      then (case remove_torrent i s of (grew, s') \<Rightarrow> if grew then None else Some s') else Some s)"

fun slot_run :: "slot_table \<Rightarrow> slot_call list \<Rightarrow> slot_table option" where
  "slot_run s [] = Some s"
| "slot_run s (c # cs) = Option.bind (slot_step s c) (\<lambda>s'. slot_run s' cs)"

definition table_inv :: "slot_table \<Rightarrow> bool" where
  "table_inv s \<longleftrightarrow> distinct (m_free_slots (free_list s)) \<and>
     set (m_free_slots (free_list s)) = {i. i < length (slots s) \<and> slots s ! i = None} \<and>
     length (slots s) \<le> free_capacity (free_list s)"

section \<open>Facts\<close>

lemma table_inv_init: "table_inv table_init"
  by (simp add: table_inv_def table_init_def free_list_init_def)

lemma new_torrent_inv:
  assumes "table_inv s"
  obtains i s' where "new_torrent t s = Some (i, s')" "table_inv s'" "slots s' ! i = Some t"
    "i < length (slots s')" "i < length (slots s) \<longrightarrow> slots s ! i = None"
    "\<forall>j. j \<noteq> i \<longrightarrow> j < length (slots s) \<longrightarrow> slots s' ! j = slots s ! j"
    "length (slots s') = max (length (slots s)) (Suc i)"
proof (cases "m_free_slots (free_list s) = []")
  case True
  let ?s = "\<lparr>slots = slots s @ [Some t],
    free_list = (free_list s)\<lparr>free_capacity := max (free_capacity (free_list s)) (length (slots s) + 1)\<rparr>\<rparr>"
  have "new_torrent t s = Some (length (slots s), ?s)"
    using True by (simp add: new_torrent_def new_index_def)
  moreover have "table_inv ?s"
    using assms True by (auto simp: table_inv_def nth_append less_Suc_eq)
  ultimately show ?thesis using that [of "length (slots s)" ?s] by (simp add: nth_append)
next
  case False
  let ?f = "m_free_slots (free_list s)"
  obtain fs i where f: "?f = fs @ [i]" using False by (cases ?f rule: rev_cases) auto
  have i: "i < length (slots s)" "slots s ! i = None"
    using assms f by (auto simp: table_inv_def)
  let ?s = "\<lparr>slots = (slots s)[i := Some t], free_list = (free_list s)\<lparr>m_free_slots := fs,
    free_capacity := max (free_capacity (free_list s)) (length (slots s) + 1)\<rparr>\<rparr>"
  have "new_torrent t s = Some (i, ?s)"
    using f i by (simp add: new_torrent_def new_index_def free_pop_def)
  moreover have "table_inv ?s"
  proof -
    have "set (fs @ [i]) = {j. j < length (slots s) \<and> slots s ! j = None}" "distinct (fs @ [i])"
      using assms f by (simp_all add: table_inv_def)
    then have "set fs = {j. j < length (slots s) \<and> slots s ! j = None} - {i}" by auto
    also have "\<dots> = {j. j < length (slots s) \<and> (slots s)[i := Some t] ! j = None}"
      using i by (auto simp: nth_list_update)
    finally show ?thesis using assms f by (simp add: table_inv_def)
  qed
  ultimately show ?thesis using that [of i ?s] i by (simp add: max_def)
qed

lemma remove_torrent_inv:
  assumes "table_inv s" "i < length (slots s)" "slots s ! i \<noteq> None"
  shows "\<not> fst (remove_torrent i s)" "table_inv (snd (remove_torrent i s))"
    "slots (snd (remove_torrent i s)) = (slots s)[i := None]"
proof -
  let ?f = "m_free_slots (free_list s)"
  have free: "set ?f = {j. j < length (slots s) \<and> slots s ! j = None}" "distinct ?f"
    using assms(1) by (simp_all add: table_inv_def)
  have "set ?f \<subseteq> {..<length (slots s)} - {i}"
    unfolding free(1) using assms(3) by (auto simp del: not_None_eq)
  then have "card (set ?f) \<le> card ({..<length (slots s)} - {i})" by (intro card_mono) simp_all
  then have "card (set ?f) < length (slots s)" using assms(2) by simp
  then have room: "length ?f < free_capacity (free_list s)"
    using assms(1) free distinct_card [of ?f] by (simp add: table_inv_def)
  show "\<not> fst (remove_torrent i s)" "slots (snd (remove_torrent i s)) = (slots s)[i := None]"
    using room by (simp_all add: remove_torrent_def free_add_def)
  have "insert i (set ?f) = {j. j < length (slots s) \<and> (slots s)[i := None] ! j = None}"
    using assms(2) free(1) by (auto simp: nth_list_update)
  moreover have "i \<notin> set ?f" using assms(3) free(1) by simp
  ultimately show "table_inv (snd (remove_torrent i s))"
    using assms(1) room by (simp add: table_inv_def remove_torrent_def free_add_def)
qed

lemma slot_step_inv: "table_inv s \<Longrightarrow> \<exists>s'. slot_step s c = Some s' \<and> table_inv s'"
proof (cases c)
  case (New t)
  assume "table_inv s"
  then obtain i s' where "new_torrent t s = Some (i, s')" "table_inv s'" by (rule new_torrent_inv)
  with New show ?thesis by simp
next
  case (Remove i)
  assume "table_inv s"
  show ?thesis
  proof (cases "i < length (slots s) \<and> slots s ! i \<noteq> None")
    case True
    moreover obtain g s' where "remove_torrent i s = (g, s')" by (cases "remove_torrent i s")
    ultimately show ?thesis
      using Remove \<open>table_inv s\<close> remove_torrent_inv [of s i] by simp
  next
    case False
    with Remove \<open>table_inv s\<close> show ?thesis by auto
  qed
qed

lemma slot_run_inv: "table_inv s \<Longrightarrow> \<exists>s'. slot_run s cs = Some s' \<and> table_inv s'"
proof (induction cs arbitrary: s)
  case (Cons c cs)
  from slot_step_inv [OF Cons.prems, of c] obtain s1 where "slot_step s c = Some s1" "table_inv s1"
    by blast
  with Cons.IH [of s1] show ?case by simp
qed simp

section \<open>The store buffer\<close>

record torrent_location =
  loc_torrent :: nat
  loc_piece :: int
  loc_offset :: int

text \<open>
  A buffer is its (non-null) address; \<open>get\<close> and \<open>get2\<close> are given what the callback returns.
  Erasing a location that is not there is undefined.
\<close>

type_synonym store_buffer = "torrent_location \<rightharpoonup> nat"

definition store_buffer_get :: "store_buffer \<Rightarrow> torrent_location \<Rightarrow> (nat \<Rightarrow> 'a) \<Rightarrow> bool \<times> 'a option" where
  "store_buffer_get m loc f =
     (case m loc of Some buf \<Rightarrow> (True, Some (f buf)) | None \<Rightarrow> (False, None))"

definition store_get2 ::
    "store_buffer \<Rightarrow> torrent_location \<Rightarrow> torrent_location \<Rightarrow> (nat option \<Rightarrow> nat option \<Rightarrow> int) \<Rightarrow> int" where
  "store_get2 m loc1 loc2 f =
     (let buf1 = m loc1; buf2 = m loc2 in
      if buf1 = None \<and> buf2 = None then 0 else f buf1 buf2)"

text \<open>\<open>unordered_map::insert\<close> keeps an element that is there.\<close>

definition store_insert :: "torrent_location \<Rightarrow> nat \<Rightarrow> store_buffer \<Rightarrow> store_buffer" where
  "store_insert loc buf m = (case m loc of Some b \<Rightarrow> m | None \<Rightarrow> m(loc \<mapsto> buf))"

definition store_erase :: "torrent_location \<Rightarrow> store_buffer \<Rightarrow> store_buffer option" where
  "store_erase loc m = (case m loc of None \<Rightarrow> None | Some b \<Rightarrow> Some (m(loc := None)))"

definition store_size :: "store_buffer \<Rightarrow> nat" where
  "store_size m = card (dom m)"

lemma store_size_insert:
  "finite (dom m) \<Longrightarrow> store_size (store_insert loc buf m) = (if m loc = None then Suc (store_size m) else store_size m)"
  by (auto simp: store_size_def store_insert_def domIff card_insert_disjoint split: option.split)

lemma store_block_lifetime:
  assumes "m loc = None" "loc' \<noteq> loc"
  shows "store_buffer_get (store_insert loc buf m) loc f = (True, Some (f buf))"
    and "store_buffer_get (store_insert loc buf m) loc' f = store_buffer_get m loc' f"
    and "store_erase loc (store_insert loc buf m) = Some m"
  using assms by (simp_all add: store_buffer_get_def store_insert_def store_erase_def fun_upd_idem)

section \<open>Property\<close>

text \<open>
  C23. Storage indices are unique and removing a torrent never allocates. Starting with an empty
  table, whatever torrents are added and removed: the free list is exactly the set of empty slots,
  without repetition; a new torrent gets a slot that no torrent has, every other slot keeps its
  torrent, and the table grows only when every slot is taken; and the room reserved by
  \<open>new_index\<close> is always enough for the \<open>add\<close> of a removal.
\<close>

theorem storage_indices_unique:
  "\<exists>s. slot_run table_init cs = Some s \<and>
     distinct (m_free_slots (free_list s)) \<and>
     set (m_free_slots (free_list s)) = {i. i < length (slots s) \<and> slots s ! i = None} \<and>
     (\<exists>i s'. new_torrent t s = Some (i, s') \<and> slots s' ! i = Some t \<and>
        (if None \<in> set (slots s) then i < length (slots s) \<and> slots s ! i = None \<and>
             length (slots s') = length (slots s)
         else i = length (slots s)) \<and>
        (\<forall>j < length (slots s). j \<noteq> i \<longrightarrow> slots s' ! j = slots s ! j)) \<and>
     (\<forall>i < length (slots s). slots s ! i \<noteq> None \<longrightarrow> \<not> fst (remove_torrent i s))"
proof -
  from slot_run_inv [OF table_inv_init, of cs] obtain s where
    s: "slot_run table_init cs = Some s" "table_inv s" by blast
  from new_torrent_inv [OF s(2), of t] obtain i s' where
    n: "new_torrent t s = Some (i, s')" "slots s' ! i = Some t" "i < length (slots s')"
      "i < length (slots s) \<longrightarrow> slots s ! i = None"
      "\<forall>j. j \<noteq> i \<longrightarrow> j < length (slots s) \<longrightarrow> slots s' ! j = slots s ! j"
      "length (slots s') = max (length (slots s)) (Suc i)" by metis
  have free: "set (m_free_slots (free_list s)) = {i. i < length (slots s) \<and> slots s ! i = None}"
    using s(2) by (simp add: table_inv_def)
  have where_new: "if None \<in> set (slots s) then i < length (slots s) else i = length (slots s)"
  proof (cases "m_free_slots (free_list s) = []")
    case True
    with free have "None \<notin> set (slots s)" by (auto simp: in_set_conv_nth)
    with True n(1) show ?thesis by (auto simp: new_torrent_def new_index_def split: if_splits)
  next
    case False
    then have l: "last (m_free_slots (free_list s)) \<in> set (m_free_slots (free_list s))" by simp
    with free have "None \<in> set (slots s)" by (force simp: in_set_conv_nth)
    moreover have "i = last (m_free_slots (free_list s))"
      using False n(1) by (auto simp: new_torrent_def new_index_def free_pop_def split: if_splits)
    ultimately show ?thesis using l free by simp
  qed
  have "\<forall>i < length (slots s). slots s ! i \<noteq> None \<longrightarrow> \<not> fst (remove_torrent i s)"
    using remove_torrent_inv(1) [OF s(2)] by blast
  moreover have "distinct (m_free_slots (free_list s))" using s(2) by (simp add: table_inv_def)
  ultimately show ?thesis
    using s(1) n where_new free by (auto split: if_splits)
qed

theorem storage_indices_unique_witness:
  "\<exists>s. slot_run table_init [New 5, New 6, New 7, Remove 1, Remove 0] = Some s \<and>
     map_option fst (new_torrent 8 s) = Some 0"
  using storage_indices_unique [of "[New 5, New 6, New 7, Remove 1, Remove 0]" 8]
  by (auto simp: table_init_def free_list_init_def new_torrent_def new_index_def free_pop_def
      remove_torrent_def free_add_def)

end
