(* ===== verification/Socket_Options.thy ===== *)
theory Socket_Options
  imports Proxy_Stream
begin

text \<open>
  \<open>aux_/set_socket_buffer.hpp\<close>: setting the buffer sizes of a new socket from the session's
  settings. The socket is of a type \<open>'s\<close>; its \<open>get_option\<close> and \<open>set_option\<close> are arguments. The
  result is the socket and the error code the caller is left with.
\<close>

section \<open>The code\<close>

datatype socket_option = Tcp_Notsent_Lowat | Send_Buffer_Size | Receive_Buffer_Size

record 's socket_ops =
  get_option :: "socket_option \<Rightarrow> 's \<Rightarrow> int \<times> error_code"
  set_option :: "socket_option \<Rightarrow> int \<Rightarrow> 's \<Rightarrow> 's \<times> error_code"

text \<open>One of the two blocks; the flag says that the function returned in it.\<close>

definition set_buffer_size ::
    "'s socket_ops \<Rightarrow> socket_option \<Rightarrow> int \<Rightarrow> 's \<times> error_code \<Rightarrow> bool \<times> 's \<times> error_code" where
  "set_buffer_size ops opt sz st =
     (case st of (s, ec) \<Rightarrow>
        if sz = 0 then (False, s, ec)
        else (let (prev, ec1) = get_option ops opt s in
          if \<not> failed ec1 \<and> prev \<noteq> sz
          then (let (s1, ec2) = set_option ops opt sz s in
            if failed ec2
            then (let (s2, ec3) = set_option ops opt prev s1 in (True, s2, ec3))
            else (False, s1, ec2))
          else (False, s, ec1)))"

definition set_socket_buffer_size ::
    "'s socket_ops \<Rightarrow> int \<Rightarrow> int \<Rightarrow> int \<Rightarrow> 's \<Rightarrow> error_code \<Rightarrow> 's \<times> error_code" where
  "set_socket_buffer_size ops low_watermark snd_size recv_size s ec =
     (let s0 = (if low_watermark = 0 then s else fst (set_option ops Tcp_Notsent_Lowat low_watermark s));
          (stop, s1, ec1) = set_buffer_size ops Send_Buffer_Size snd_size (s0, ec)
      in if stop then (s1, ec1)
         else (let (stop, s2, ec2) = set_buffer_size ops Receive_Buffer_Size recv_size (s1, ec1) in (s2, ec2)))"

section \<open>A socket that remembers\<close>

text \<open>
  What the options of a socket promise: a successful \<open>set_option\<close> makes \<open>get_option\<close> return the
  value, without touching the other options, and a failing one changes nothing.
\<close>

definition options_contract :: "'s socket_ops \<Rightarrow> bool" where
  "options_contract ops \<longleftrightarrow>
     (\<forall>opt v s s' ec. set_option ops opt v s = (s', ec) \<longrightarrow>
        (if failed ec then s' = s
         else fst (get_option ops opt s') = v \<and> (\<forall>o'. o' \<noteq> opt \<longrightarrow> get_option ops o' s' = get_option ops o' s)))"

text \<open>
  When the new size is refused, the previous one stays or is set again; the error code the caller
  gets is the one of the second call.
\<close>

lemma refused_size_restored:
  assumes "options_contract ops" "set_buffer_size ops opt sz (s, ec) = (True, s', ec')"
  shows "fst (get_option ops opt s') = fst (get_option ops opt s)"
    and "\<exists>ec2. set_option ops opt sz s = (s, ec2) \<and> failed ec2"
    and "set_option ops opt (fst (get_option ops opt s)) s = (s', ec')"
proof -
  obtain prev ec1 where g: "get_option ops opt s = (prev, ec1)" by (cases "get_option ops opt s")
  obtain s1 ec2 where c: "set_option ops opt sz s = (s1, ec2)" by (cases "set_option ops opt sz s")
  obtain s2 ec3 where r: "set_option ops opt prev s1 = (s2, ec3)" by (cases "set_option ops opt prev s1")
  have f: "failed ec2" "s2 = s'" "ec3 = ec'"
    using assms(2) by (auto simp: set_buffer_size_def g c r split: if_splits)
  then have "s1 = s" using assms(1) c by (auto simp: options_contract_def)
  with c r f g show "\<exists>ec2. set_option ops opt sz s = (s, ec2) \<and> failed ec2"
    "set_option ops opt (fst (get_option ops opt s)) s = (s', ec')" by simp_all
  show "fst (get_option ops opt s') = fst (get_option ops opt s)"
  proof (cases "failed ec'")
    case True
    then have "s' = s" using assms(1) r f \<open>s1 = s\<close> by (auto simp: options_contract_def)
    then show ?thesis by simp
  next
    case False
    then have "fst (get_option ops opt s') = prev"
      using assms(1) r f \<open>s1 = s\<close> unfolding options_contract_def by metis
    then show ?thesis by (simp add: g)
  qed
qed

text \<open>A refused size is therefore reported as success when the previous one can be set.\<close>

lemma refused_size_not_reported:
  assumes "get_option ops Send_Buffer_Size s = (prev, Success)" "snd_size \<noteq> 0" "prev \<noteq> snd_size"
    "set_option ops Send_Buffer_Size snd_size s = (s, e)" "failed e"
    "set_option ops Send_Buffer_Size prev s = (s, Success)"
  shows "set_socket_buffer_size ops 0 snd_size recv_size s ec = (s, Success)"
  using assms by (simp add: set_socket_buffer_size_def set_buffer_size_def)

end
