(* ===== verification/Enumerations.thy ===== *)
theory Enumerations
  imports Getzy_Prelude
begin

text \<open>
  The large enumerations of the library: the statistics counters and gauges
  (\<open>performance_counters.hpp\<close>), the error codes (\<open>error_code.hpp\<close>) and the operations an error is
  reported for (\<open>operations.hpp\<close>), with the enumerators of \<open>TORRENT_ABI_VERSION\<close> 1. An enumeration
  is a list of runs: the value of the first enumerator and the names that follow it, each one
  higher. \<open>enumerators\<close> lists the pairs of value and name.
\<close>

definition enumerators :: "(int \<times> string list) list \<Rightarrow> (int \<times> string) list" where
  "enumerators runs =
     concat (map (\<lambda>(b, names). zip (map (\<lambda>i. b + int i) [0..<length names]) names) runs)"

section \<open>Tables\<close>

definition stats_counters_1 :: "(int \<times> string list) list" where
  "stats_counters_1 = [
     (0, [''error_peers'', ''disconnected_peers'', ''eof_peers'', ''connreset_peers'',
        ''connrefused_peers'', ''connaborted_peers'', ''notconnected_peers'', ''perm_peers'',
        ''buffer_peers'', ''unreachable_peers'', ''broken_pipe_peers'', ''addrinuse_peers'',
        ''no_access_peers'', ''invalid_arg_peers'', ''aborted_peers'', ''piece_requests'',
        ''max_piece_requests'', ''invalid_piece_requests'', ''choked_piece_requests'',
        ''cancelled_piece_requests'', ''piece_rejects'', ''error_incoming_peers'',
        ''error_outgoing_peers'', ''error_rc4_peers'', ''error_encrypted_peers'',
        ''error_tcp_peers'', ''error_utp_peers'', ''reject_piece_picks'',
        ''unchoke_piece_picks'', ''incoming_redundant_piece_picks'', ''incoming_piece_picks'',
        ''end_game_piece_picks'', ''snubbed_piece_picks'', ''interesting_piece_picks'',
        ''hash_fail_piece_picks'', ''piece_picker_partial_loops'',
        ''piece_picker_suggest_loops'', ''piece_picker_sequential_loops'',
        ''piece_picker_reverse_rare_loops'', ''piece_picker_rare_loops'',
        ''piece_picker_rand_start_loops'', ''piece_picker_rand_loops'',
        ''piece_picker_busy_loops'', ''connect_timeouts'', ''uninteresting_peers'',
        ''timeout_peers'', ''no_memory_peers'', ''too_many_peers'',
        ''transport_timeout_peers'', ''num_banned_peers'', ''banned_for_hash_failure'',
        ''connection_attempts'', ''connection_attempt_loops'', ''boost_connection_attempts'',
        ''missed_connection_attempts'', ''no_peer_connection_attempts'',
        ''incoming_connections'', ''on_read_counter'', ''on_write_counter'',
        ''on_tick_counter'', ''on_lsd_counter'', ''on_lsd_peer_counter'', ''on_udp_counter'',
        ''on_accept_counter'', ''on_disk_queue_counter'', ''on_disk_counter'',
        ''num_incoming_choke'', ''num_incoming_unchoke'', ''num_incoming_interested'',
        ''num_incoming_not_interested'', ''num_incoming_have'', ''num_incoming_bitfield'',
        ''num_incoming_request'', ''num_incoming_piece'', ''num_incoming_cancel'',
        ''num_incoming_dht_port'', ''num_incoming_suggest'', ''num_incoming_have_all'',
        ''num_incoming_have_none'', ''num_incoming_reject'', ''num_incoming_allowed_fast'',
        ''num_incoming_ext_handshake'', ''num_incoming_pex'', ''num_incoming_metadata'',
        ''num_incoming_extended'', ''num_outgoing_choke''])]"

definition stats_counters_2 :: "(int \<times> string list) list" where
  "stats_counters_2 = [
     (86, [''num_outgoing_unchoke'', ''num_outgoing_interested'', ''num_outgoing_not_interested'',
        ''num_outgoing_have'', ''num_outgoing_bitfield'', ''num_outgoing_request'',
        ''num_outgoing_piece'', ''num_outgoing_cancel'', ''num_outgoing_dht_port'',
        ''num_outgoing_suggest'', ''num_outgoing_have_all'', ''num_outgoing_have_none'',
        ''num_outgoing_reject'', ''num_outgoing_allowed_fast'', ''num_outgoing_ext_handshake'',
        ''num_outgoing_pex'', ''num_outgoing_metadata'', ''num_outgoing_extended'',
        ''num_outgoing_hash_request'', ''num_outgoing_hashes'', ''num_outgoing_hash_reject'',
        ''num_piece_passed'', ''num_piece_failed'', ''num_have_pieces'',
        ''num_total_pieces_added'', ''num_blocks_written'', ''num_blocks_read'',
        ''num_blocks_hashed'', ''num_write_ops'', ''num_read_ops'', ''num_read_back'',
        ''disk_read_time'', ''disk_write_time'', ''disk_hash_time'', ''disk_job_time'',
        ''waste_piece_timed_out'', ''waste_piece_cancelled'', ''waste_piece_unknown'',
        ''waste_piece_seed'', ''waste_piece_end_game'', ''waste_piece_closing'',
        ''sent_payload_bytes'', ''sent_bytes'', ''sent_ip_overhead_bytes'',
        ''sent_tracker_bytes'', ''recv_payload_bytes'', ''recv_bytes'',
        ''recv_ip_overhead_bytes'', ''recv_tracker_bytes'', ''recv_failed_bytes'',
        ''recv_redundant_bytes'', ''dht_messages_in'', ''dht_messages_in_dropped'',
        ''dht_messages_out'', ''dht_messages_out_dropped'', ''dht_bytes_in'',
        ''dht_bytes_out'', ''dht_ping_in'', ''dht_ping_out'', ''dht_find_node_in'',
        ''dht_find_node_out'', ''dht_get_peers_in'', ''dht_get_peers_out'',
        ''dht_announce_peer_in'', ''dht_announce_peer_out'', ''dht_get_in'', ''dht_get_out'',
        ''dht_put_in'', ''dht_put_out'', ''dht_sample_infohashes_in'',
        ''dht_sample_infohashes_out'', ''dht_invalid_announce'', ''dht_invalid_get_peers'',
        ''dht_invalid_find_node'', ''dht_invalid_put'', ''dht_invalid_get'',
        ''dht_invalid_sample_infohashes'', ''utp_packet_loss'', ''utp_timeout'',
        ''utp_packets_in'', ''utp_packets_out'', ''utp_fast_retransmit'',
        ''utp_packet_resend'', ''utp_samples_above_target'', ''utp_samples_below_target'',
        ''utp_payload_pkts_in'', ''utp_payload_pkts_out'', ''utp_invalid_pkts_in'',
        ''utp_redundant_pkts_in'', ''socket_send_size3'', ''socket_send_size4'',
        ''socket_send_size5'', ''socket_send_size6'', ''socket_send_size7'',
        ''socket_send_size8'', ''socket_send_size9'', ''socket_send_size10'',
        ''socket_send_size11'', ''socket_send_size12'', ''socket_send_size13''])]"

definition stats_counters_3 :: "(int \<times> string list) list" where
  "stats_counters_3 = [
     (186, [''socket_send_size14'', ''socket_send_size15'', ''socket_send_size16'',
        ''socket_send_size17'', ''socket_send_size18'', ''socket_send_size19'',
        ''socket_send_size20'', ''socket_recv_size3'', ''socket_recv_size4'',
        ''socket_recv_size5'', ''socket_recv_size6'', ''socket_recv_size7'',
        ''socket_recv_size8'', ''socket_recv_size9'', ''socket_recv_size10'',
        ''socket_recv_size11'', ''socket_recv_size12'', ''socket_recv_size13'',
        ''socket_recv_size14'', ''socket_recv_size15'', ''socket_recv_size16'',
        ''socket_recv_size17'', ''socket_recv_size18'', ''socket_recv_size19'',
        ''socket_recv_size20'', ''num_stats_counters''])]"

definition stats_counters :: "(int \<times> string list) list" where
  "stats_counters = stats_counters_1 @ stats_counters_2 @ stats_counters_3"

definition stats_gauges_1 :: "(int \<times> string list) list" where
  "stats_gauges_1 = [
     (211, [''num_checking_torrents'', ''num_stopped_torrents'', ''num_upload_only_torrents'',
        ''num_downloading_torrents'', ''num_seeding_torrents'',
        ''num_queued_seeding_torrents'', ''num_queued_download_torrents'',
        ''num_error_torrents'', ''non_filter_torrents'', ''num_tcp_peers'',
        ''num_socks5_peers'', ''num_http_proxy_peers'', ''num_utp_peers'', ''num_i2p_peers'',
        ''num_ssl_peers'', ''num_ssl_socks5_peers'', ''num_ssl_http_proxy_peers'',
        ''num_ssl_utp_peers'', ''num_peers_half_open'', ''num_peers_connected'',
        ''num_peers_up_interested'', ''num_peers_down_interested'',
        ''num_peers_up_unchoked_all'', ''num_peers_up_unchoked_optimistic'',
        ''num_peers_up_unchoked'', ''num_peers_down_unchoked'', ''num_peers_up_requests'',
        ''num_peers_down_requests'', ''num_peers_up_disk'', ''num_peers_down_disk'',
        ''num_peers_end_game'', ''request_latency'', ''disk_blocks_in_use'',
        ''queued_disk_jobs'', ''num_running_disk_jobs'', ''num_read_jobs'', ''num_write_jobs'',
        ''num_jobs'', ''num_writing_threads'', ''num_running_threads'', ''blocked_disk_jobs'',
        ''queued_write_bytes'', ''num_unchoke_slots'', ''num_fenced_read'',
        ''num_fenced_write'', ''num_fenced_hash'', ''num_fenced_move_storage'',
        ''num_fenced_release_files'', ''num_fenced_delete_files'',
        ''num_fenced_check_fastresume'', ''num_fenced_save_resume_data'',
        ''num_fenced_rename_file'', ''num_fenced_stop_torrent'', ''num_fenced_flush_piece'',
        ''num_fenced_flush_hashed'', ''num_fenced_flush_storage'',
        ''num_fenced_file_priority'', ''num_fenced_load_torrent'', ''num_fenced_clear_piece'',
        ''num_fenced_tick_storage'', ''dht_nodes'', ''dht_node_cache'', ''dht_torrents'',
        ''dht_peers'', ''dht_immutable_data'', ''dht_mutable_data'',
        ''dht_allocated_observers'', ''has_incoming_connections'', ''limiter_up_queue'',
        ''limiter_down_queue'', ''limiter_up_bytes'', ''limiter_down_bytes'', ''num_utp_idle'',
        ''num_utp_syn_sent'', ''num_utp_connected'', ''num_utp_fin_sent'',
        ''num_utp_close_wait'', ''num_utp_deleted''])]"

definition stats_gauges_2 :: "(int \<times> string list) list" where
  "stats_gauges_2 = [
     (289, [''num_outstanding_accept'', ''num_queued_tracker_announces'', ''num_counters'']),
     (80, [''num_gauges_counters''])]"

definition stats_gauges :: "(int \<times> string list) list" where
  "stats_gauges = stats_gauges_1 @ stats_gauges_2"

definition error_codes_1 :: "(int \<times> string list) list" where
  "error_codes_1 = [
     (0, [''no_error'', ''file_collision'', ''failed_hash_check'', ''torrent_is_no_dict'',
        ''torrent_missing_info'', ''torrent_info_no_dict'', ''torrent_missing_piece_length'',
        ''torrent_missing_name'', ''torrent_invalid_name'', ''torrent_invalid_length'',
        ''torrent_file_parse_failed'', ''torrent_missing_pieces'', ''torrent_invalid_hashes'',
        ''too_many_pieces_in_torrent'', ''invalid_swarm_metadata'', ''invalid_bencoding'',
        ''no_files_in_torrent'', ''invalid_escaped_string'', ''session_is_closing'',
        ''duplicate_torrent'', ''invalid_torrent_handle'', ''invalid_entry_type'',
        ''missing_info_hash_in_uri'', ''file_too_short'', ''unsupported_url_protocol'',
        ''url_parse_error'', ''peer_sent_empty_piece'', ''parse_failed'', ''invalid_file_tag'',
        ''missing_info_hash'', ''mismatching_info_hash'', ''invalid_hostname'',
        ''invalid_port'', ''port_blocked'', ''expected_close_bracket_in_address'',
        ''destructing_torrent'', ''timed_out'', ''upload_upload_connection'',
        ''uninteresting_upload_peer'', ''invalid_info_hash'', ''torrent_paused'',
        ''invalid_have'', ''invalid_bitfield_size'', ''too_many_requests_when_choked'',
        ''invalid_piece'', ''no_memory'', ''torrent_aborted'', ''self_connection'',
        ''invalid_piece_size'', ''timed_out_no_interest'', ''timed_out_inactivity''])]"

definition error_codes_2 :: "(int \<times> string list) list" where
  "error_codes_2 = [
     (51, [''timed_out_no_handshake'', ''timed_out_no_request'', ''invalid_choke'',
        ''invalid_unchoke'', ''invalid_interested'', ''invalid_not_interested'',
        ''invalid_request'', ''invalid_hash_list'', ''invalid_hash_piece'', ''invalid_cancel'',
        ''invalid_dht_port'', ''invalid_suggest'', ''invalid_have_all'', ''invalid_have_none'',
        ''invalid_reject'', ''invalid_allow_fast'', ''invalid_extended'', ''invalid_message'',
        ''sync_hash_not_found'', ''invalid_encryption_constant'', ''no_plaintext_mode'',
        ''no_rc4_mode'', ''unsupported_encryption_mode'',
        ''unsupported_encryption_mode_selected'', ''invalid_pad_size'',
        ''invalid_encrypt_handshake'', ''no_incoming_encrypted'', ''no_incoming_regular'',
        ''duplicate_peer_id'', ''torrent_removed'', ''packet_too_large'', ''reserved'',
        ''http_error'', ''missing_location'', ''invalid_redirection'', ''redirecting'',
        ''invalid_range'', ''no_content_length'', ''banned_by_ip_filter'',
        ''too_many_connections'', ''peer_banned'', ''stopping_torrent'',
        ''too_many_corrupt_pieces'', ''torrent_not_ready'', ''peer_not_constructed'',
        ''session_closing'', ''optimistic_disconnect'', ''torrent_finished'', ''no_router'',
        ''metadata_too_large'', ''invalid_metadata_request'', ''invalid_metadata_size'',
        ''invalid_metadata_offset'', ''invalid_metadata_message'', ''pex_message_too_large''])]"

definition error_codes_3 :: "(int \<times> string list) list" where
  "error_codes_3 = [
     (106, [''invalid_pex_message'', ''invalid_lt_tracker_message'', ''too_frequent_pex'',
        ''no_metadata'', ''invalid_dont_have'', ''requires_ssl_connection'',
        ''invalid_ssl_cert'', ''not_an_ssl_torrent'', ''banned_by_port_filter'',
        ''invalid_session_handle'', ''invalid_listen_socket'', ''invalid_hash_request'',
        ''invalid_hashes'', ''invalid_hash_reject'', ''unsupported_protocol_version'',
        ''natpmp_not_authorized'', ''network_failure'', ''no_resources'',
        ''unsupported_opcode'']),
     (130, [''missing_file_sizes'', ''no_files_in_resume_data'', ''missing_pieces'',
        ''mismatching_number_of_files'', ''mismatching_file_size'',
        ''mismatching_file_timestamp'', ''not_a_dictionary'', ''invalid_blocks_per_piece'',
        ''missing_slots'', ''too_many_slots'', ''invalid_slot_list'', ''invalid_piece_index'',
        ''pieces_need_reorder'', ''resume_data_not_modified'', ''invalid_save_path'']),
     (150, [''http_parse_error'', ''http_missing_location'', ''http_failed_decompress'']),
     (160, [''no_i2p_router'', ''no_i2p_endpoint'']),
     (170, [''scrape_not_available'', ''invalid_tracker_response''])]"

definition error_codes_4 :: "(int \<times> string list) list" where
  "error_codes_4 = [
     (172, [''invalid_peer_dict'', ''tracker_failure'', ''invalid_files_entry'',
        ''invalid_hash_entry'', ''invalid_peers_entry'', ''invalid_tracker_response_length'',
        ''invalid_tracker_transaction_id'', ''invalid_tracker_action'', ''announce_skipped'']),
     (190, [''expected_string'', ''expected_colon'', ''unexpected_eof'', ''expected_value'',
        ''depth_exceeded'', ''limit_exceeded'', ''overflow'']),
     (200, [''no_entropy'', ''ssrf_mitigation'', ''blocked_by_idna'']),
     (210, [''torrent_unknown_version'', ''torrent_missing_file_tree'',
        ''torrent_missing_meta_version'', ''torrent_inconsistent_files'',
        ''torrent_missing_piece_layer'', ''torrent_invalid_piece_layer'',
        ''torrent_missing_pieces_root'', ''torrent_inconsistent_hashes'',
        ''torrent_invalid_pad_file'', ''error_code_max''])]"

definition error_codes :: "(int \<times> string list) list" where
  "error_codes = error_codes_1 @ error_codes_2 @ error_codes_3 @ error_codes_4"

definition http_errors :: "(int \<times> string list) list" where
  "http_errors = [
     (100, [''cont'']),
     (200, [''ok'', ''created'', ''accepted'']),
     (204, [''no_content'']),
     (300, [''multiple_choices'', ''moved_permanently'', ''moved_temporarily'']),
     (304, [''not_modified'']),
     (400, [''bad_request'', ''unauthorized'']),
     (403, [''forbidden'', ''not_found'']),
     (500, [''internal_server_error'', ''not_implemented'', ''bad_gateway'',
        ''service_unavailable''])]"

definition operations_1 :: "(int \<times> string list) list" where
  "operations_1 = [
     (0, [''unknown'', ''bittorrent'', ''iocontrol'', ''getpeername'', ''getname'',
        ''alloc_recvbuf'', ''alloc_sndbuf'', ''file_write'', ''file_read'', ''file'',
        ''sock_write'', ''sock_read'', ''sock_open'', ''sock_bind'', ''available'',
        ''encryption'', ''connect'', ''ssl_handshake'', ''get_interface'', ''sock_listen'',
        ''sock_bind_to_device'', ''sock_accept'', ''parse_address'', ''enum_if'',
        ''file_stat'', ''file_copy'', ''file_fallocate'', ''file_hard_link'', ''file_remove'',
        ''file_rename'', ''file_open'', ''mkdir'', ''check_resume'', ''exception'',
        ''alloc_cache_piece'', ''partfile_move'', ''partfile_read'', ''partfile_write'',
        ''hostname_lookup''])]"

definition operations_2 :: "(int \<times> string list) list" where
  "operations_2 = [
     (39, [''symlink'', ''handshake'', ''sock_option'', ''enum_route'', ''file_seek'', ''timer'',
        ''file_mmap'', ''file_truncate''])]"

definition operations :: "(int \<times> string list) list" where
  "operations = operations_1 @ operations_2"

section \<open>Facts\<close>

lemma enumerator_bounds:
  "(v, n) \<in> set (enumerators runs) \<Longrightarrow>
    \<exists>(b, names) \<in> set runs. b \<le> v \<and> v < b + int (length names) \<and> n \<in> set names"
proof -
  assume "(v, n) \<in> set (enumerators runs)"
  then obtain b names where run: "(b, names) \<in> set runs"
    and vn: "(v, n) \<in> set (zip (map (\<lambda>i. b + int i) [0..<length names]) names)"
    by (auto simp: enumerators_def)
  then obtain i where "i < length names" "v = b + int i" "n = names ! i"
    by (auto simp: in_set_zip)
  with run show ?thesis by (intro bexI [of _ "(b, names)"]) auto
qed

text \<open>
  The counters are numbered from 0 without a gap up to their number, 211, where the gauges start:
  every gauge has a higher index than every counter, which the code relies on.
\<close>

lemma counters_before_gauges:
  "list_all (\<lambda>(b, names). 0 \<le> b \<and> b + int (length names) \<le> 212) stats_counters"
  "last (snd (last stats_counters)) = ''num_stats_counters''"
  "sum_list (map (length \<circ> snd) stats_counters) = 212" "fst (hd stats_gauges) = 211"
  by (simp_all add: stats_counters_def stats_counters_1_def stats_counters_2_def stats_counters_3_def
      stats_gauges_def stats_gauges_1_def)

end
