(* ===== verification/I2P_Connection.thy ===== *)
theory I2P_Connection
  imports I2P_Stream
begin

text \<open>
  \<open>i2p_connection\<close> of \<open>libtorrent/i2p_stream.hpp\<close>: the session with an I2P SAM bridge. It opens one
  \<open>i2p_stream\<close>, creates a session on it, asks for its own name, and then looks up names, one at a
  time; requests that come in between wait in a queue. Every stream object that was created keeps
  its place in a list, \<open>shared_ptr\<close>s are positions of it; with each stream goes the continuation
  that its outstanding operation was given. The streams are those of \<open>I2P_Stream\<close>, driven by their
  events; what is undefined for a stream (\<open>Wild\<close>) is undefined for the connection, whose value is then
  \<open>None\<close>. The random bytes of a session identifier come with the event, their text is the parameter
  \<open>to_hex\<close>; a new stream and \<open>split_string\<close> are parameters as well. Handlers of the user are called
  last by each function and do not call back while a stream reports an error to them. A stream keeps a
  copy of the session identifier; in the code it points into \<open>m_session_id\<close>, which a later \<open>open\<close> overwrites.
  The two are told apart only by a stream that still has an operation outstanding then.
\<close>

section \<open>State\<close>

datatype sam_state = Sam_Connecting | Sam_Name_Lookup | Sam_Idle

text \<open>The handlers of the user are numbers: of a call of \<open>open\<close>, and of a call of \<open>async_name_lookup\<close>.\<close>

datatype lookup_handler = User_Lookup nat | Set_Local_Endpoint nat

datatype sam_handler = On_Sam_Connect nat | On_Name_Lookup lookup_handler

record i2p_connection =
  ic_streams :: "(i2p_stream \<times> sam_handler option) list"
  m_sam_socket :: "nat option"
  ic_hostname :: bytes
  ic_port :: int
  m_i2p_local_endpoint :: bytes
  m_session_id :: bytes
  lookup_queue :: "(bytes \<times> lookup_handler) list"
  sam_state :: sam_state
  opened :: "(nat \<times> error_code) list"
  looked_up :: "(nat \<times> error_code \<times> bytes option) list"

record connection_lib =
  cl_split :: splitter
  cl_to_hex :: "bytes \<Rightarrow> bytes"
  cl_new_stream :: i2p_stream

definition current_stream :: "i2p_connection \<Rightarrow> i2p_stream option" where
  "current_stream c = map_option (\<lambda>i. fst (ic_streams c ! i)) (m_sam_socket c)"

definition ic_is_open :: "i2p_connection \<Rightarrow> bool" where
  "ic_is_open c \<longleftrightarrow>
     (case current_stream c of None \<Rightarrow> False | Some s \<Rightarrow> sock_open s) \<and> sam_state c \<noteq> Sam_Connecting"

definition set_stream :: "nat \<Rightarrow> i2p_stream \<Rightarrow> sam_handler option \<Rightarrow> i2p_connection \<Rightarrow> i2p_connection" where
  "set_stream i s h c = c\<lparr>ic_streams := (ic_streams c)[i := (s, h)]\<rparr>"

section \<open>Operations\<close>

text \<open>
  Starting an operation on a stream that has one outstanding would run two compositions of writes
  and reads on one socket, which \<open>asio\<close> forbids; this, a null pointer, and a command that outlives its
  array are undefined.
\<close>

definition do_name_lookup :: "bytes \<Rightarrow> lookup_handler \<Rightarrow> i2p_connection \<Rightarrow> i2p_connection option" where
  "do_name_lookup name h c =
     (let c1 = c\<lparr>sam_state := Sam_Name_Lookup\<rparr> in
      case m_sam_socket c1 of None \<Rightarrow> None
      | Some i \<Rightarrow>
          (case ic_streams c1 ! i of (s, busy) \<Rightarrow>
             if finished s
             then (let s' = send_name_lookup (set_name_lookup (bytes_c_str name) s)
                   in if pending s' = Wild then None
                      else Some (set_stream i s' (Some (On_Name_Lookup h)) c1))
             else None))"

definition ic_async_name_lookup :: "bytes \<Rightarrow> nat \<Rightarrow> i2p_connection \<Rightarrow> i2p_connection option" where
  "ic_async_name_lookup name h c =
     (if sam_state c = Sam_Idle \<and> lookup_queue c = [] \<and> ic_is_open c
      then do_name_lookup name (User_Lookup h) c
      else Some (c\<lparr>lookup_queue := lookup_queue c @ [(name, User_Lookup h)]\<rparr>))"

text \<open>Whether \<open>open\<close> opens, or returns at once because the same connection is open or being opened.\<close>

definition ic_opens :: "bytes \<Rightarrow> int \<Rightarrow> i2p_connection \<Rightarrow> bool" where
  "ic_opens hostname port c \<longleftrightarrow>
     \<not> (ic_hostname c = hostname \<and> ic_port c = port \<and> m_sam_socket c \<noteq> None \<and>
        (ic_is_open c \<or> sam_state c = Sam_Connecting)) \<and> hostname \<noteq> []"

definition ic_open ::
    "connection_lib \<Rightarrow> bytes \<Rightarrow> int \<Rightarrow> i2p_session_options \<Rightarrow> bytes \<Rightarrow> nat \<Rightarrow> i2p_connection \<Rightarrow> i2p_connection" where
  "ic_open lib hostname port opts tmp h c =
     (if ic_hostname c = hostname \<and> ic_port c = port \<and> m_sam_socket c \<noteq> None
         \<and> (ic_is_open c \<or> sam_state c = Sam_Connecting) then c
      else (let c1 = c\<lparr>ic_hostname := hostname, ic_port := port\<rparr> in
        if hostname = [] then c1
        else (let id = cl_to_hex lib tmp;
                  s = set_session_options opts (set_session_id id (i2p_set_command cmd_create_session
                        (set_proxy hostname port (cl_new_stream lib))))
          in c1\<lparr>sam_state := Sam_Connecting, m_session_id := id,
               m_sam_socket := Some (length (ic_streams c1)),
               ic_streams := ic_streams c1 @ [(i2p_async_connect s, Some (On_Sam_Connect h))]\<rparr>)))"

text \<open>The functions that the streams complete with, and \<open>set_local_endpoint\<close>.\<close>

definition set_local_endpoint :: "error_code \<Rightarrow> bytes option \<Rightarrow> nat \<Rightarrow> i2p_connection \<Rightarrow> i2p_connection" where
  "set_local_endpoint ec dst h c =
     (let d = (case dst of Some d \<Rightarrow> if failed ec then [] else d | None \<Rightarrow> []) in
      c\<lparr>m_i2p_local_endpoint := d, opened := opened c @ [(h, ec)]\<rparr>)"

fun call_lookup_handler :: "lookup_handler \<Rightarrow> error_code \<Rightarrow> bytes option \<Rightarrow> i2p_connection \<Rightarrow> i2p_connection" where
  "call_lookup_handler (User_Lookup h) ec dst c = c\<lparr>looked_up := looked_up c @ [(h, ec, dst)]\<rparr>"
| "call_lookup_handler (Set_Local_Endpoint h) ec dst c = set_local_endpoint ec dst h c"

definition on_sam_connect :: "error_code \<Rightarrow> nat \<Rightarrow> i2p_connection \<Rightarrow> i2p_connection option" where
  "on_sam_connect ec h c =
     (let c1 = c\<lparr>sam_state := Sam_Idle\<rparr> in
      if failed ec then Some (c1\<lparr>opened := opened c1 @ [(h, ec)]\<rparr>)
      else do_name_lookup (ascii ''ME'') (Set_Local_Endpoint h) c1)"

definition on_name_lookup :: "error_code \<Rightarrow> lookup_handler \<Rightarrow> i2p_connection \<Rightarrow> i2p_connection option" where
  "on_name_lookup ec h c =
     (let c1 = c\<lparr>sam_state := Sam_Idle\<rparr> in
      case current_stream c1 of None \<Rightarrow> None
      | Some s \<Rightarrow>
          (let name = m_name_lookup s;
               c2 = (case lookup_queue c1 of [] \<Rightarrow> Some c1
                     | (n, k) # q \<Rightarrow>
                         map_option (\<lambda>c. c\<lparr>lookup_queue := tl (lookup_queue c)\<rparr>) (do_name_lookup n k c1))
           in map_option (call_lookup_handler h ec (if failed ec then None else Some (bytes_c_str name))) c2))"

fun call_sam_handler :: "sam_handler \<Rightarrow> error_code \<Rightarrow> i2p_connection \<Rightarrow> i2p_connection option" where
  "call_sam_handler (On_Sam_Connect h) ec c = on_sam_connect ec h c"
| "call_sam_handler (On_Name_Lookup h) ec c = on_name_lookup ec h c"

section \<open>Events\<close>

datatype connection_event =
    Open bytes int i2p_session_options bytes nat
  | Lookup bytes nat
  | Stream_Event nat stream_event

text \<open>A stream whose outstanding operation completes calls its continuation.\<close>

definition stream_event :: "connection_lib \<Rightarrow> nat \<Rightarrow> stream_event \<Rightarrow> i2p_connection \<Rightarrow> i2p_connection option" where
  "stream_event lib i ev c =
     (if i < length (ic_streams c)
      then (case ic_streams c ! i of (s, h) \<Rightarrow>
        let s' = i2p_step (cl_split lib) s ev in
        if pending s' = Wild then None
        else case h of None \<Rightarrow> Some (set_stream i s' None c)
        | Some k \<Rightarrow>
            if finished s' then call_sam_handler k (last (completions s')) (set_stream i s' None c)
            else Some (set_stream i s' h c))
      else Some c)"

fun connection_step :: "connection_lib \<Rightarrow> i2p_connection \<Rightarrow> connection_event \<Rightarrow> i2p_connection option" where
  "connection_step lib c (Open host port opts tmp h) = Some (ic_open lib host port opts tmp h c)"
| "connection_step lib c (Lookup name h) = ic_async_name_lookup name h c"
| "connection_step lib c (Stream_Event i ev) = stream_event lib i ev c"

fun connection_run :: "connection_lib \<Rightarrow> i2p_connection \<Rightarrow> connection_event list \<Rightarrow> i2p_connection option" where
  "connection_run lib c [] = Some c"
| "connection_run lib c (e # es) = connection_step lib c e \<bind> (\<lambda>c'. connection_run lib c' es)"

section \<open>Streams that stay defined\<close>

text \<open>
  A session's stream is calm when its environment takes every command at once, its session id and options
  print to few enough characters, and it waits for one of the three replies that a session's stream asks
  for. It stays calm as long as the replies can be read: whenever the first two words are the expected
  ones, every word after them has a name, an equals sign and a character after it.
\<close>

definition options_ok :: "i2p_session_options \<Rightarrow> bool" where
  "options_ok opts \<longleftrightarrow> in_int32 (m_inbound_quantity opts) \<and> in_int32 (m_outbound_quantity opts) \<and>
     in_int32 (m_inbound_length opts) \<and> in_int32 (m_outbound_length opts)"

definition calm_setup :: "i2p_stream \<Rightarrow> bool" where
  "calm_setup s \<longleftrightarrow> (\<forall>k. 1024 \<le> socket_takes s k) \<and> i2p_command s = cmd_create_session \<and>
     (\<exists>i. m_id s = Some i \<and> length i = 40) \<and> options_ok (m_session_options s)"

definition asked :: "i2p_stream \<Rightarrow> bool" where
  "asked s \<longleftrightarrow> i2p_state s \<noteq> read_connect_response \<and> i2p_state s \<noteq> read_accept_response"

definition stream_calm :: "i2p_stream \<Rightarrow> bool" where
  "stream_calm s \<longleftrightarrow> calm_setup s \<and>
     (case pending s of Wild \<Rightarrow> False | Write b k \<Rightarrow> asked s | Read off n k \<Rightarrow> asked s | _ \<Rightarrow> True)"

definition reply_readable :: "splitter \<Rightarrow> i2p_state \<Rightarrow> bytes \<Rightarrow> bool" where
  "reply_readable split st line =
     (case split line 32 of (word1, rest1) \<Rightarrow> (case split rest1 32 of (word2, rest2) \<Rightarrow>
        (if (word1, word2) = expected_tokens st
         then fst (fields_loop split (Suc (length rest2)) rest2 (i2p_no_error, [], [])) \<noteq> Fields_Wild
         else True)))"

definition line_readable :: "splitter \<Rightarrow> i2p_stream \<Rightarrow> stream_event \<Rightarrow> bool" where
  "line_readable split s ev =
     (case (pending s, ev) of
        (Read off n k, ReadDone e bs) \<Rightarrow>
          failed e \<or> bs \<noteq> [10] \<or> reply_readable split (i2p_state s) (butlast (m_buffer s))
      | _ \<Rightarrow> True)"

lemma calm_setup_frame [simp]:
  "calm_setup (s\<lparr>m_buffer := b\<rparr>) = calm_setup s" "calm_setup (s\<lparr>sent := t\<rparr>) = calm_setup s"
  "calm_setup (s\<lparr>m_name_lookup := n\<rparr>) = calm_setup s" "calm_setup (s\<lparr>m_dest := d\<rparr>) = calm_setup s"
  "calm_setup (s\<lparr>pending := p\<rparr>) = calm_setup s" "calm_setup (s\<lparr>i2p_state := x\<rparr>) = calm_setup s"
  "calm_setup (s\<lparr>sock_open := y\<rparr>) = calm_setup s" "calm_setup (complete e s) = calm_setup s"
  "calm_setup (proxy_close s) = calm_setup s" "calm_setup (set_name_lookup n s) = calm_setup s"
  by (simp_all add: calm_setup_def complete_def proxy_close_def set_name_lookup_def)

lemma calm_done [simp]:
  "stream_calm (complete e s) = calm_setup s" "stream_calm ((complete e s)\<lparr>m_buffer := b\<rparr>) = calm_setup s"
  "stream_calm (proxy_close (complete e s)) = calm_setup s" "stream_calm (invalid_response s) = calm_setup s"
  by (simp_all add: stream_calm_def invalid_response_def)

lemma calm_error: "calm_setup s \<Longrightarrow> (\<not> failed e \<Longrightarrow> stream_calm (k s)) \<Longrightarrow> stream_calm (handle_error e k s)"
  by (simp add: handle_error_def)

lemma length_ascii: "length (ascii t) = length t"
  by (simp add: ascii_def)

lemma session_create_short:
  assumes "options_ok opts" "length i \<le> 40"
  shows "length (session_create_text i opts) < 400"
  using assms length_int_str32 [of "m_inbound_quantity opts"] length_int_str32 [of "m_outbound_quantity opts"]
    length_int_str32 [of "m_inbound_length opts"] length_int_str32 [of "m_outbound_length opts"]
  by (simp add: session_create_text_def length_ascii options_ok_def)

lemma calm_session_create: "calm_setup s \<Longrightarrow> stream_calm (send_session_create s)"
proof -
  assume s: "calm_setup s"
  then obtain i where i: "m_id s = Some i" "length i = 40" by (auto simp: calm_setup_def)
  have "length (bytes_c_str i) \<le> 40" using i(2) by (simp add: bytes_c_str_def length_takeWhile_le [of _ i, simplified i(2)])
  with s have "length (session_create_text (bytes_c_str i) (m_session_options s)) < 400"
    by (intro session_create_short) (simp_all add: calm_setup_def)
  moreover have "1024 \<le> socket_takes s (length (sent s))" using s by (simp add: calm_setup_def)
  ultimately show ?thesis
    using s i by (simp add: send_session_create_def Let_def with_id_def send_printed_fits stream_calm_def asked_def)
qed

lemma calm_name_lookup:
  "calm_setup s \<Longrightarrow> length (bytes_c_str (m_name_lookup s)) < 1004 \<Longrightarrow> stream_calm (send_name_lookup s)"
proof -
  assume s: "calm_setup s" "length (bytes_c_str (m_name_lookup s)) < 1004"
  have "1024 \<le> socket_takes s (length (sent s))" using s by (simp add: calm_setup_def)
  with s show ?thesis
    by (simp add: send_name_lookup_def Let_def send_printed_fits length_ascii stream_calm_def asked_def)
qed

lemma fields_fuel:
  "length r < fuel \<Longrightarrow> fst (fields_loop split_at_sep fuel r vals) \<noteq> Fields_Fuel"
proof (induction fuel arbitrary: r vals)
  case (Suc fuel)
  have short: "length (snd (split_at_sep r sep)) \<le> length r" for r sep
    using length_dropWhile_le [of "\<lambda>b. b \<noteq> sep" r] by (simp add: split_at_sep_def)
  obtain name r1 where n: "split_at_sep r 61 = (name, r1)" by fastforce
  show ?case
  proof (cases r1)
    case (Cons c rest)
    have "length r1 \<le> length r" using short [of r 61] n by simp
    then have r: "length rest < fuel" "length (c # rest) \<le> Suc fuel - 1"
      using Cons Suc.prems by simp_all
    have r1: "length r1 < length r" if "name \<noteq> []"
      using n that by (auto simp: split_at_sep_def) (metis length_append length_greater_0_conv less_add_same_cancel2 takeWhile_dropWhile_id le_less_trans diff_le_self length_tl)
    obtain v2 x2 where 2: "split_at_sep rest 34 = (v2, x2)" by fastforce
    obtain v3 x3 where 3: "split_at_sep (c # rest) 32 = (v3, x3)" by fastforce
    have "fst (fields_loop split_at_sep fuel x2 (set_field name (butlast v2) vals)) \<noteq> Fields_Fuel"
      using short [of rest 34] r 2 by (intro Suc.IH) simp
    moreover have "fst (fields_loop split_at_sep fuel x3 (set_field name v3 vals)) \<noteq> Fields_Fuel"
      if "name \<noteq> []"
      using short [of r1 32] r1 [OF that] Suc.prems 3 Cons by (intro Suc.IH) simp
    ultimately show ?thesis
      using n Cons 2 3 by simp
  qed (simp add: n)
qed simp

lemma fields_values: "fst (fields_loop split fuel r v) = fst (fields_loop split fuel r w)"
proof (induction fuel arbitrary: r v w)
  case (Suc fuel)
  show ?case by (auto split: prod.split list.split intro: Suc.IH)
qed simp

lemma calm_parse:
  assumes "split_spec split" "calm_setup s" "asked s" "reply_readable split (i2p_state s) (butlast (m_buffer s))"
  shows "stream_calm (parse_reply split s)"
proof -
  have sp: "split = split_at_sep" using assms(1) by (simp add: split_spec_def)
  obtain e1 e2 where e: "expected_tokens (i2p_state s) = (e1, e2)" by fastforce
  obtain t1 r1 where 1: "split_at_sep (butlast (m_buffer s)) 32 = (t1, r1)" by fastforce
  obtain t2 r2 where 2: "split_at_sep r1 32 = (t2, r2)" by fastforce
  obtain r result nl dest where 3: "fields_loop split_at_sep (Suc (length r2)) r2
      (i2p_no_error, m_name_lookup s, m_dest s) = (r, result, nl, dest)"
    by (metis prod_cases4)
  have ok: "stream_calm (reply_ok ec (s\<lparr>m_name_lookup := nl, m_dest := dest\<rparr>))" for ec
    using assms(2,3) calm_session_create [of "s\<lparr>m_name_lookup := nl, m_dest := dest\<rparr>"]
    by (cases "i2p_state s") (simp_all add: reply_ok_def asked_def calm_setup_def [of s])
  have r: "r \<noteq> Fields_Wild \<and> r \<noteq> Fields_Fuel" if "t1 = e1" "t2 = e2"
  proof
    show "r \<noteq> Fields_Wild"
      using assms(4) that 3 fields_values [of split_at_sep "Suc (length r2)" r2 "(i2p_no_error, [], [])"
          "(i2p_no_error, m_name_lookup s, m_dest s)"]
      by (simp add: reply_readable_def sp e 1 2 del: fields_loop.simps)
    show "r \<noteq> Fields_Fuel"
      using fields_fuel [of r2 "Suc (length r2)" "(i2p_no_error, m_name_lookup s, m_dest s)"] 3
      by (simp del: fields_loop.simps)
  qed
  show ?thesis
    using r ok assms(2)
    by (cases r) (auto simp: parse_reply_def sp e 1 2 3 Let_def simp del: fields_loop.simps)
qed

lemma calm_read_line:
  assumes "split_spec split" "calm_setup s" "asked s" "m_buffer s \<noteq> []"
    and "last (m_buffer s) = 10 \<Longrightarrow> reply_readable split (i2p_state s) (butlast (m_buffer s))"
  shows "stream_calm (read_line split e s)"
  unfolding read_line_def
proof (rule calm_error [OF assms(2)])
  let ?n = "length (m_buffer s)"
  have l: "m_buffer s ! (?n - 1) = last (m_buffer s)" using assms(4) by (simp add: last_conv_nth)
  have b: "butlast ((m_buffer s)[?n - 1 := 0]) = butlast (m_buffer s)"
    by (simp add: butlast_list_update)
  have c: "i2p_command s \<noteq> cmd_incoming" using assms(2) by (simp add: calm_setup_def)
  have more: "stream_calm (read_buffer ?n 1 Read_Line (s\<lparr>m_buffer := vec_resize (?n + 1) (m_buffer s)\<rparr>))"
    using assms(2,3) by (simp add: read_buffer_def stream_calm_def asked_def)
  have parse: "stream_calm (parse_reply split (s\<lparr>m_buffer := (m_buffer s)[?n - 1 := 0]\<rparr>))"
    if "last (m_buffer s) = 10"
    using assms(1-3,5) that b by (intro calm_parse) (simp_all add: asked_def)
  show "stream_calm (let read_pos = ?n
      in if m_buffer s = [] then s\<lparr>pending := Wild\<rparr>
         else if m_buffer s ! (read_pos - 1) \<noteq> 10
         then read_buffer read_pos 1 Read_Line (s\<lparr>m_buffer := vec_resize (read_pos + 1) (m_buffer s)\<rparr>)
         else (let s1 = s\<lparr>m_buffer := (m_buffer s)[read_pos - 1 := 0]\<rparr>
               in if i2p_command s1 = cmd_incoming
                  then (complete e (s1\<lparr>m_dest := bytes_c_str (m_buffer s1)\<rparr>))\<lparr>m_buffer := []\<rparr>
                  else parse_reply split s1))"
    using assms(4) c more parse unfolding Let_def l by simp
qed

lemma calm_step:
  assumes "split_spec split" "stream_calm s" "i2p_op_ok s" "line_readable split s ev"
  shows "stream_calm (i2p_step split s ev)"
proof (cases "answers (pending s) ev")
  case False
  with assms(2) show ?thesis by (simp add: i2p_step_def deliver_ignored)
next
  case True
  have ready: "calm_setup s" using assms(2) by (simp add: stream_calm_def)
  show ?thesis
  proof (cases "pending s")
    case Resolve
    then obtain e ips oec where "ev = Resolved e ips oec" using True by (cases ev) (simp_all add: answers_def)
    with Resolve ready show ?thesis
      by (simp add: i2p_step_def deliver_def do_connect_def split: list.split) (simp add: stream_calm_def)
  next
    case (Connect ep)
    then obtain e where "ev = Connected e" using True by (cases ev) (simp_all add: answers_def)
    with Connect ready show ?thesis
      by (auto simp: i2p_step_def deliver_def i2p_connected_def intro!: calm_error)
        (simp add: stream_calm_def asked_def)
  next
    case (Write b k)
    then obtain e where e: "ev = Written e" using True by (cases ev) (simp_all add: answers_def)
    have "asked s" "k = Start_Read_Line" using assms(2,3) Write by (simp_all add: stream_calm_def i2p_op_ok_def)
    then have "stream_calm (start_read_line e (s\<lparr>sent := t\<rparr>))" for t
      using ready unfolding start_read_line_def
      by (intro calm_error) (simp_all add: read_buffer_def stream_calm_def asked_def)
    with Write e \<open>k = Start_Read_Line\<close> show ?thesis by (simp add: i2p_step_def deliver_def)
  next
    case (Read off n k)
    then obtain e bs where e: "ev = ReadDone e bs" using True by (cases ev) (simp_all add: answers_def)
    have r: "asked s" "k = Read_Line" "n = 1" "length (m_buffer s) = off + 1"
      using assms(2,3) Read by (simp_all add: stream_calm_def i2p_op_ok_def)
    show ?thesis
    proof (cases "failed e")
      case True
      with ready Read e r(2) show ?thesis
        by (auto simp: i2p_step_def deliver_def read_line_def intro: calm_error)
    next
      case False
      with True Read e r(3) obtain b where b: "bs = [b]"
        by (auto simp: answers_def length_Suc_conv)
      let ?b = "store_at off bs (m_buffer s)"
      have sb: "store_at off [x] (m_buffer s) = butlast (m_buffer s) @ [x]" for x
        using r(4) by (simp add: store_at_def butlast_conv_take)
      have "reply_readable split (i2p_state s) (butlast ?b)" if "last ?b = 10"
        using that assms(4) False b Read e by (simp add: line_readable_def sb)
      then have "stream_calm (read_line split e (s\<lparr>m_buffer := ?b\<rparr>))"
        using assms(1) ready r(1) b sb by (intro calm_read_line) (simp_all add: asked_def)
      with False Read e r(2,3) b show ?thesis by (simp add: i2p_step_def deliver_def)
    qed
  qed (use True assms(2) in \<open>simp_all add: answers_def stream_calm_def\<close>)
qed

section \<open>The invariant\<close>

text \<open>
  A stream has an operation outstanding exactly when it has a continuation. Only the current stream
  has one, of the kind that the state says; the queue holds lookups of the user, whose names fit the
  array they are printed into. All streams are calm.
\<close>

definition socket_ok :: "i2p_stream \<times> sam_handler option \<Rightarrow> bool" where
  "socket_ok x \<longleftrightarrow> i2p_op_ok (fst x) \<and> stream_calm (fst x) \<and> (finished (fst x) \<longleftrightarrow> snd x = None)"

definition no_outstanding :: "i2p_connection \<Rightarrow> bool" where
  "no_outstanding c \<longleftrightarrow> (\<forall>x \<in> set (ic_streams c). snd x = None)"

fun state_of :: "sam_handler option \<Rightarrow> sam_state" where
  "state_of None = Sam_Idle"
| "state_of (Some (On_Sam_Connect h)) = Sam_Connecting"
| "state_of (Some (On_Name_Lookup h)) = Sam_Name_Lookup"

definition current_handler :: "i2p_connection \<Rightarrow> sam_handler option" where
  "current_handler c = (case m_sam_socket c of None \<Rightarrow> None | Some i \<Rightarrow> snd (ic_streams c ! i))"

lemma current_handler_frame [simp]:
  "current_handler (c\<lparr>sam_state := x\<rparr>) = current_handler c"
  "current_handler (c\<lparr>lookup_queue := q\<rparr>) = current_handler c"
  "current_handler (c\<lparr>opened := o'\<rparr>) = current_handler c"
  "current_handler (c\<lparr>looked_up := l\<rparr>) = current_handler c"
  "current_handler (c\<lparr>m_i2p_local_endpoint := d\<rparr>) = current_handler c"
  by (simp_all add: current_handler_def split: option.split)

definition short_name :: "bytes \<Rightarrow> bool" where
  "short_name n \<longleftrightarrow> length (bytes_c_str n) < 1004"

definition connection_ok :: "i2p_connection \<Rightarrow> bool" where
  "connection_ok c \<longleftrightarrow>
     (\<forall>x \<in> set (ic_streams c). socket_ok x) \<and>
     (\<forall>i. m_sam_socket c = Some i \<longrightarrow> i < length (ic_streams c)) \<and>
     (\<forall>j < length (ic_streams c). m_sam_socket c \<noteq> Some j \<longrightarrow> snd (ic_streams c ! j) = None) \<and>
     sam_state c = state_of (current_handler c) \<and>
     (\<forall>x \<in> set (lookup_queue c). (\<exists>h. snd x = User_Lookup h) \<and> short_name (fst x))"

text \<open>The user's lookups: answered, outstanding and waiting.\<close>

fun flight_of :: "sam_handler option \<Rightarrow> nat list" where
  "flight_of (Some (On_Name_Lookup (User_Lookup h))) = [h]"
| "flight_of k = []"

fun user_lookup :: "lookup_handler \<Rightarrow> nat list" where
  "user_lookup (User_Lookup h) = [h]"
| "user_lookup (Set_Local_Endpoint h) = []"

definition answered :: "i2p_connection \<Rightarrow> nat list" where
  "answered c = map fst (looked_up c)"

definition outstanding :: "i2p_connection \<Rightarrow> nat list" where
  "outstanding c = flight_of (current_handler c)"

definition queued_lookups :: "i2p_connection \<Rightarrow> nat list" where
  "queued_lookups c = concat (map (user_lookup \<circ> snd) (lookup_queue c))"

definition lookups :: "i2p_connection \<Rightarrow> nat list" where
  "lookups c = answered c @ outstanding c @ queued_lookups c"

lemma flight_of_lookup: "flight_of (Some (On_Name_Lookup k)) = user_lookup k"
  by (cases k) simp_all

lemma i2p_op_ok_lookup:
  "i2p_op_ok (send_name_lookup s)" "\<not> finished (send_name_lookup s)"
  by (auto simp: send_name_lookup_def send_printed_def Let_def i2p_op_ok_def finished_def)

lemma calm_lookup:
  assumes "stream_calm s" "short_name n"
  shows "stream_calm (send_name_lookup (set_name_lookup (bytes_c_str n) s))"
proof -
  have "bytes_c_str (bytes_c_str n) = bytes_c_str n"
    by (auto simp: bytes_c_str_def takeWhile_eq_all_conv dest: set_takeWhileD)
  with assms show ?thesis
    by (intro calm_name_lookup) (simp_all add: stream_calm_def short_name_def set_name_lookup_def)
qed

lemma stream_calm_not_wild: "stream_calm s \<Longrightarrow> pending s \<noteq> Wild"
  by (auto simp: stream_calm_def)

lemma do_name_lookup_ok:
  assumes "connection_ok c" "no_outstanding c" "m_sam_socket c = Some i" "short_name n"
  shows "\<exists>d. do_name_lookup n k c = Some d \<and> connection_ok d \<and> outstanding d = user_lookup k \<and>
    queued_lookups d = queued_lookups c \<and> looked_up d = looked_up c \<and> lookup_queue d = lookup_queue c"
proof -
  have i: "i < length (ic_streams c)" using assms(1,3) by (simp add: connection_ok_def)
  obtain s h where s: "ic_streams c ! i = (s, h)" by (cases "ic_streams c ! i")
  have "(s, h) \<in> set (ic_streams c)" using nth_mem [OF i] by (simp add: s)
  with assms(1,2) have s': "finished s" "stream_calm s"
    by (auto simp: connection_ok_def socket_ok_def no_outstanding_def)
  note calm = calm_lookup [OF s'(2) assms(4)]
  have "socket_ok x" if "x \<in> set ((ic_streams c)[i := (t, Some l)])"
    "i2p_op_ok t" "\<not> finished t" "stream_calm t" for x t l
    using that assms(1) set_update_subset_insert [of "ic_streams c" i "(t, Some l)"]
    by (auto simp: connection_ok_def socket_ok_def)
  then show ?thesis
    using assms i s' calm stream_calm_not_wild [OF calm] by (simp add: do_name_lookup_def s Let_def set_stream_def connection_ok_def
        outstanding_def current_handler_def queued_lookups_def no_outstanding_def nth_list_update
        flight_of_lookup i2p_op_ok_lookup)
qed

lemma idle_no_outstanding:
  assumes "connection_ok c" "sam_state c = Sam_Idle"
  shows "no_outstanding c"
proof -
  have "snd (ic_streams c ! j) = None" if "j < length (ic_streams c)" for j
  proof (cases "m_sam_socket c = Some j")
    case True
    with assms have "state_of (snd (ic_streams c ! j)) = Sam_Idle"
      by (simp add: connection_ok_def current_handler_def)
    then show ?thesis by (cases "snd (ic_streams c ! j)" rule: state_of.cases) simp_all
  next
    case False
    with assms(1) that show ?thesis by (simp add: connection_ok_def)
  qed
  then show ?thesis unfolding no_outstanding_def by (metis in_set_conv_nth)
qed

lemma idle_no_handler: "connection_ok c \<Longrightarrow> no_outstanding c \<Longrightarrow> current_handler c = None"
  by (auto simp: current_handler_def connection_ok_def no_outstanding_def split: option.split)

lemma async_name_lookup_ok:
  assumes "connection_ok c" "short_name n"
  shows "\<exists>d. ic_async_name_lookup n h c = Some d \<and> connection_ok d \<and> lookups d = lookups c @ [h]"
proof (cases "sam_state c = Sam_Idle \<and> lookup_queue c = [] \<and> ic_is_open c")
  case True
  then obtain i where i: "m_sam_socket c = Some i"
    by (auto simp: ic_is_open_def current_stream_def split: option.splits)
  have idle: "no_outstanding c" using assms True by (intro idle_no_outstanding) simp_all
  have "outstanding c = []" using idle_no_handler [OF assms(1) idle] by (simp add: outstanding_def)
  moreover from do_name_lookup_ok [OF assms(1) idle i assms(2), of "User_Lookup h"] obtain d where
    "do_name_lookup n (User_Lookup h) c = Some d" "connection_ok d" "outstanding d = [h]"
    "queued_lookups d = queued_lookups c" "looked_up d = looked_up c" by auto
  ultimately show ?thesis
    using True by (simp add: ic_async_name_lookup_def lookups_def answered_def queued_lookups_def)
next
  case False
  then have "ic_async_name_lookup n h c = Some (c\<lparr>lookup_queue := lookup_queue c @ [(n, User_Lookup h)]\<rparr>)"
    by (auto simp: ic_async_name_lookup_def)
  with assms show ?thesis
    by (auto simp: lookups_def answered_def outstanding_def queued_lookups_def connection_ok_def)
qed

lemma on_sam_connect_ok:
  assumes "connection_ok (c\<lparr>sam_state := Sam_Idle\<rparr>)" "m_sam_socket c = Some i"
  shows "\<exists>d. on_sam_connect ec h c = Some d \<and> connection_ok d \<and> answered d = answered c \<and>
    outstanding d = [] \<and> queued_lookups d = queued_lookups c"
proof -
  let ?c = "c\<lparr>sam_state := Sam_Idle\<rparr>"
  have idle: "no_outstanding ?c" using assms(1) by (intro idle_no_outstanding) simp_all
  from idle_no_handler [OF assms(1) this] have none: "current_handler c = None" by simp
  show ?thesis
  proof (cases "failed ec")
    case True
    with assms(1) none show ?thesis
      by (auto simp: on_sam_connect_def Let_def connection_ok_def answered_def outstanding_def
          queued_lookups_def)
  next
    case False
    have me: "short_name (ascii ''ME'')" by (simp add: short_name_def bytes_c_str_def ascii_def)
    from do_name_lookup_ok [OF assms(1) idle, of i "ascii ''ME''" "Set_Local_Endpoint h"] assms(2) me
    obtain d where "do_name_lookup (ascii ''ME'') (Set_Local_Endpoint h) ?c = Some d" "connection_ok d"
      "outstanding d = []" "queued_lookups d = queued_lookups c" "looked_up d = looked_up c"
      by (auto simp: queued_lookups_def)
    with False show ?thesis by (simp add: on_sam_connect_def answered_def)
  qed
qed

lemma call_lookup_handler_ok:
  "connection_ok (call_lookup_handler k ec dst c) = connection_ok c"
  "answered (call_lookup_handler k ec dst c) = answered c @ user_lookup k"
  "outstanding (call_lookup_handler k ec dst c) = outstanding c"
  "queued_lookups (call_lookup_handler k ec dst c) = queued_lookups c"
  by (cases k; simp add: connection_ok_def answered_def outstanding_def queued_lookups_def
      set_local_endpoint_def Let_def)+

lemma on_name_lookup_ok:
  assumes "connection_ok (c\<lparr>sam_state := Sam_Idle\<rparr>)" "m_sam_socket c = Some i"
  shows "\<exists>d. on_name_lookup ec k c = Some d \<and> connection_ok d \<and>
    lookups d = answered c @ user_lookup k @ queued_lookups c"
proof -
  let ?c = "c\<lparr>sam_state := Sam_Idle\<rparr>"
  have idle: "no_outstanding ?c" using assms(1) by (intro idle_no_outstanding) simp_all
  from idle_no_handler [OF assms(1) this] have none: "current_handler c = None" by simp
  show ?thesis
  proof (cases "lookup_queue c")
    case Nil
    with assms none show ?thesis
      by (simp add: on_name_lookup_def Let_def current_stream_def lookups_def call_lookup_handler_ok)
        (simp add: answered_def outstanding_def queued_lookups_def)
  next
    case (Cons x q)
    obtain n l where x: "x = (n, l)" by (cases x)
    have "short_name n" using assms(1) Cons x by (simp add: connection_ok_def)
    with do_name_lookup_ok [OF assms(1) idle, of i n l] assms(2) obtain d where
      d: "do_name_lookup n l ?c = Some d" "connection_ok d" "outstanding d = user_lookup l"
      "looked_up d = looked_up c" "lookup_queue d = lookup_queue c" by auto
    let ?d = "d\<lparr>lookup_queue := tl (lookup_queue d)\<rparr>"
    have "connection_ok ?d" "outstanding ?d = user_lookup l" "answered ?d = answered c"
      "user_lookup l @ queued_lookups ?d = queued_lookups c"
      using d Cons x by (simp_all add: connection_ok_def outstanding_def answered_def
          queued_lookups_def)
    with assms(2) d(1) Cons x show ?thesis
      by (simp add: on_name_lookup_def Let_def current_stream_def lookups_def call_lookup_handler_ok)
  qed
qed

lemma set_stream_ok:
  assumes "connection_ok c" "m_sam_socket c = Some i" "socket_ok (s, h)"
  shows "connection_ok ((set_stream i s h c)\<lparr>sam_state := state_of h\<rparr>)"
    and "current_handler (set_stream i s h c) = h"
proof -
  have i: "i < length (ic_streams c)" using assms(1,2) by (simp add: connection_ok_def)
  show "current_handler (set_stream i s h c) = h"
    using i assms(2) by (simp add: current_handler_def set_stream_def)
  then have "current_handler ((set_stream i s h c)\<lparr>sam_state := state_of h\<rparr>) = h" by simp
  moreover have "socket_ok x" if "x \<in> set ((ic_streams c)[i := (s, h)])" for x
    using that assms(1,3) set_update_subset_insert [of "ic_streams c" i "(s, h)"]
    by (auto simp: connection_ok_def)
  ultimately show "connection_ok ((set_stream i s h c)\<lparr>sam_state := state_of h\<rparr>)"
    using assms by (simp add: connection_ok_def set_stream_def nth_list_update)
qed

lemma stream_event_ok:
  assumes "connection_ok c" "split_spec (cl_split lib)"
    and "i < length (ic_streams c) \<Longrightarrow> line_readable (cl_split lib) (fst (ic_streams c ! i)) ev"
  shows "\<exists>d. stream_event lib i ev c = Some d \<and> connection_ok d \<and> lookups d = lookups c"
proof (cases "i < length (ic_streams c)")
  case False
  with assms show ?thesis by (simp add: stream_event_def)
next
  case True
  obtain s h where s: "ic_streams c ! i = (s, h)" by (cases "ic_streams c ! i")
  then have sock: "i2p_op_ok s" "finished s \<longleftrightarrow> h = None" "stream_calm s"
    using assms nth_mem [OF True] by (auto simp: connection_ok_def socket_ok_def)
  let ?s = "i2p_step (cl_split lib) s ev"
  have calm: "stream_calm ?s"
    using calm_step [OF assms(2) sock(3,1), of ev] assms(3) True s by simp
  note wild = stream_calm_not_wild [OF this]
  show ?thesis
  proof (cases h)
    case None
    then have "?s = s" using sock by (intro i2p.finished_step) simp_all
    then have "set_stream i ?s None c = c"
      using list_update_id [of "ic_streams c" i] by (simp add: set_stream_def s None)
    with assms True wild show ?thesis by (simp add: stream_event_def s None)
  next
    case (Some k)
    then have cur: "m_sam_socket c = Some i" using assms True s by (force simp: connection_ok_def)
    then have k: "sam_state c = state_of h" "outstanding c = flight_of h"
      using assms by (simp_all add: connection_ok_def current_handler_def outstanding_def s)
    have op: "i2p_op_ok ?s" using sock(1) by (rule i2p.step_inv)
    have frame: "answered (set_stream i t l c) = answered c" "queued_lookups (set_stream i t l c) = queued_lookups c"
      "m_sam_socket (set_stream i t l c) = Some i" "sam_state (set_stream i t l c) = sam_state c" for t l
      using cur by (simp_all add: set_stream_def answered_def queued_lookups_def)
    show ?thesis
    proof (cases "finished ?s")
      case False
      with op calm have "socket_ok (?s, h)" by (simp add: socket_ok_def Some)
      note set = set_stream_ok [OF assms(1) cur this]
      have "(set_stream i ?s h c)\<lparr>sam_state := state_of h\<rparr> = set_stream i ?s h c"
        using k(1) by (simp add: set_stream_def)
      with set(1) have "connection_ok (set_stream i ?s h c)" by (simp only:)
      with set(2) frame k True False wild show ?thesis
        by (simp add: stream_event_def s Some Let_def lookups_def outstanding_def)
    next
      case fin: True
      with op calm have "socket_ok (?s, None)" by (simp add: socket_ok_def)
      note set = set_stream_ok [OF assms(1) cur this, simplified]
      show ?thesis
      proof (cases k)
        case (On_Sam_Connect x)
        from on_sam_connect_ok [OF set(1) frame(3), of "last (completions ?s)" x] frame k True fin wild
        show ?thesis by (auto simp: stream_event_def s Some On_Sam_Connect Let_def lookups_def)
      next
        case (On_Name_Lookup x)
        from on_name_lookup_ok [OF set(1) frame(3), of "last (completions ?s)" x] frame k True fin wild
        show ?thesis
          by (auto simp: stream_event_def s Some On_Name_Lookup Let_def lookups_def flight_of_lookup)
      qed
    qed
  qed
qed

text \<open>
  An orderly run. \<open>open\<close> abandons the stream it had: it may only do so while that stream has nothing
  outstanding; its options are \<open>int\<close>s and its session identifier is made of 20 bytes. A name that is
  looked up is shorter than what is left of the 1024 characters it is printed into. Every reply can be
  read. Of the library: \<open>split_string\<close> and \<open>to_hex\<close> do what their headers say, and the socket takes every
  command of a new stream at once.
\<close>

definition orderly_event :: "connection_lib \<Rightarrow> i2p_connection \<Rightarrow> connection_event \<Rightarrow> bool" where
  "orderly_event lib c e =
     (case e of
        Open host port opts tmp h \<Rightarrow>
          \<not> ic_opens host port c \<or> no_outstanding c \<and> options_ok opts \<and> length tmp = 20
      | Lookup n h \<Rightarrow> short_name n
      | Stream_Event i ev \<Rightarrow>
          length (ic_streams c) \<le> i \<or> line_readable (cl_split lib) (fst (ic_streams c ! i)) ev)"

fun orderly_run :: "connection_lib \<Rightarrow> i2p_connection \<Rightarrow> connection_event list \<Rightarrow> bool" where
  "orderly_run lib c [] = True"
| "orderly_run lib c (e # es) =
     (orderly_event lib c e \<and>
      (case connection_step lib c e of None \<Rightarrow> True | Some d \<Rightarrow> orderly_run lib d es))"

definition lib_ok :: "connection_lib \<Rightarrow> bool" where
  "lib_ok lib \<longleftrightarrow> split_spec (cl_split lib) \<and> (\<forall>bs. length (cl_to_hex lib bs) = 2 * length bs) \<and>
     (\<forall>k. 1024 \<le> socket_takes (cl_new_stream lib) k)"

lemma open_ok:
  assumes "connection_ok c" "orderly_event lib c (Open host port opts tmp h)" "lib_ok lib"
  shows "connection_ok (ic_open lib host port opts tmp h c) \<and>
    lookups (ic_open lib host port opts tmp h c) = lookups c"
proof (cases "ic_opens host port c")
  case False
  then have "ic_open lib host port opts tmp h c = c \<or>
      ic_open lib host port opts tmp h c = c\<lparr>ic_hostname := host, ic_port := port\<rparr>"
    by (auto simp: ic_opens_def ic_open_def Let_def)
  moreover have "current_handler (c\<lparr>ic_hostname := host, ic_port := port\<rparr>) = current_handler c"
    by (simp add: current_handler_def split: option.split)
  ultimately show ?thesis
    using assms(1) by (auto simp: connection_ok_def lookups_def answered_def outstanding_def queued_lookups_def)
next
  case True
  let ?d = "ic_open lib host port opts tmp h c"
  from True assms have quiet: "no_outstanding c" and args: "options_ok opts" "length tmp = 20"
    by (simp_all add: orderly_event_def)
  have empty: "outstanding c = []" using idle_no_handler [OF assms(1) quiet] by (simp add: outstanding_def)
  let ?s = "set_session_options opts (set_session_id (cl_to_hex lib tmp) (i2p_set_command cmd_create_session
    (set_proxy host port (cl_new_stream lib))))"
  have d: "ic_streams ?d = ic_streams c @ [(i2p_async_connect ?s, Some (On_Sam_Connect h))]"
    "m_sam_socket ?d = Some (length (ic_streams c))" "sam_state ?d = Sam_Connecting"
    "lookup_queue ?d = lookup_queue c" "looked_up ?d = looked_up c"
    using True by (auto simp: ic_opens_def ic_open_def Let_def)
  then have cur: "current_handler ?d = Some (On_Sam_Connect h)" by (simp add: current_handler_def)
  have "stream_calm (i2p_async_connect ?s)"
    using args assms(3) by (simp add: i2p_async_connect_def stream_calm_def calm_setup_def lib_ok_def
        set_session_options_def set_session_id_def i2p_set_command_def set_proxy_def)
  then have "socket_ok (i2p_async_connect ?s, Some (On_Sam_Connect h))"
    by (simp add: socket_ok_def i2p_async_connect_def i2p_op_ok_def finished_def)
  moreover have "snd (ic_streams c ! j) = None" if "j < length (ic_streams c)" for j
    using quiet nth_mem [OF that] by (simp add: no_outstanding_def)
  ultimately have "connection_ok ?d"
    using assms(1) cur by (auto simp: connection_ok_def d nth_append less_Suc_eq)
  with empty cur d show ?thesis by (simp add: lookups_def answered_def outstanding_def queued_lookups_def)
qed

definition requested :: "connection_event list \<Rightarrow> nat list" where
  "requested es = concat (map (\<lambda>e. case e of Lookup n h \<Rightarrow> [h] | _ \<Rightarrow> []) es)"

text \<open>What the constructor leaves.\<close>

definition connection_new :: "i2p_connection \<Rightarrow> bool" where
  "connection_new c \<longleftrightarrow> ic_streams c = [] \<and> m_sam_socket c = None \<and> lookup_queue c = [] \<and>
     sam_state c = Sam_Idle \<and> looked_up c = []"

lemma connection_run_ok:
  "connection_ok c \<Longrightarrow> lib_ok lib \<Longrightarrow> orderly_run lib c es \<Longrightarrow>
    \<exists>d. connection_run lib c es = Some d \<and> connection_ok d \<and> lookups d = lookups c @ requested es"
proof (induction es arbitrary: c)
  case Nil
  then show ?case by (simp add: requested_def)
next
  case (Cons e es)
  have "\<exists>d. connection_step lib c e = Some d \<and> connection_ok d \<and> lookups d = lookups c @ requested [e]"
  proof (cases e)
    case (Open host port opts tmp h)
    with Cons.prems open_ok [OF Cons.prems(1), of lib host port opts tmp h] show ?thesis
      by (simp add: requested_def)
  next
    case (Lookup n h)
    with async_name_lookup_ok [OF Cons.prems(1), of n h] Cons.prems(3) show ?thesis
      by (simp add: requested_def orderly_event_def)
  next
    case (Stream_Event i ev)
    with stream_event_ok [OF Cons.prems(1), of lib i ev] Cons.prems(2,3) show ?thesis
      by (auto simp: requested_def orderly_event_def lib_ok_def)
  qed
  then obtain d where d: "connection_step lib c e = Some d" "connection_ok d"
    "lookups d = lookups c @ requested [e]" by blast
  with Cons.prems(3) have "orderly_run lib d es" by simp
  from Cons.IH [OF d(2) Cons.prems(2) this] d show ?case by (auto simp: requested_def)
qed

section \<open>Lookups are answered in order\<close>

text \<open>
  C19. No name lookup is lost, repeated or overtaken. Let the socket take every command at once, before
  the array it is printed into is gone, and let \<open>split_string\<close> and \<open>to_hex\<close> do what their headers say. In
  a run in which \<open>open\<close> only replaces a stream that has nothing outstanding, every name looked up prints to
  fewer than 1004 characters, and no reply has a word without an equals sign and a value where a field is
  expected, nothing undefined happens: no operation is started on a stream that has one outstanding, or
  without a stream, no command is cut off or outlives its array, no reply is read past its end. The lookups
  of the user that were answered, then the one that is outstanding, then the queued ones are exactly the
  lookups that were requested, in their order, each once.
\<close>

theorem i2p_lookups_in_order:
  assumes "connection_new c" "lib_ok lib" "orderly_run lib c es"
  shows "\<exists>d. connection_run lib c es = Some d \<and>
    (\<forall>x \<in> set (ic_streams d). pending (fst x) \<noteq> Wild) \<and>
    answered d @ outstanding d @ queued_lookups d = requested es"
proof -
  have "connection_ok c" "lookups c = []"
    using assms(1) by (simp_all add: connection_new_def connection_ok_def current_handler_def lookups_def
        answered_def outstanding_def queued_lookups_def)
  with connection_run_ok [OF this(1) assms(2,3)] obtain d where
    d: "connection_run lib c es = Some d" "connection_ok d" "lookups d = requested es" by auto
  from d(2) have "\<forall>x \<in> set (ic_streams d). pending (fst x) \<noteq> Wild"
    using stream_calm_not_wild unfolding connection_ok_def socket_ok_def by blast
  with d show ?thesis by (auto simp: lookups_def)
qed

section \<open>A lookup and its answer\<close>

lemma read_some_bytes:
  "10 \<notin> set line \<Longrightarrow> \<exists>y. foldl (i2p_step split) (i2p_waiting s buf x)
     (map (\<lambda>b. ReadDone Success [b]) line) = i2p_waiting s (buf @ line) y"
proof (induction line arbitrary: buf x)
  case (Cons b line)
  then show ?case using Cons.IH [of "buf @ [b]" 0] by (simp add: i2p_step_more)
qed auto

lemma exchange_unfinished:
  assumes "pending s = Write b Start_Read_Line" "10 \<notin> set line"
  shows "\<not> finished (foldl (i2p_step split) s (butlast (exchange line)))"
proof -
  obtain x where x: "vec_resize (Suc 0) (m_buffer s) = [x]" using vec_resize_1 [of "m_buffer s"] by auto
  have "i2p_step split s (Written Success) = i2p_waiting (s\<lparr>sent := sent s @ [b]\<rparr>) [] x"
    using assms(1) x
    by (simp add: i2p_step_def deliver_def start_read_line_def handle_error_def read_buffer_def i2p_waiting_def)
  moreover have "butlast (exchange line) = Written Success # map (\<lambda>b. ReadDone Success [b]) line"
    by (simp add: exchange_def line_events_def butlast_append)
  moreover from read_some_bytes [OF assms(2), of split "s\<lparr>sent := sent s @ [b]\<rparr>" "[]" x] obtain y where
    "foldl (i2p_step split) (i2p_waiting (s\<lparr>sent := sent s @ [b]\<rparr>) [] x)
       (map (\<lambda>b. ReadDone Success [b]) line) = i2p_waiting (s\<lparr>sent := sent s @ [b]\<rparr>) ([] @ line) y" ..
  ultimately show ?thesis by (simp add: finished_def i2p_waiting_def)
qed

text \<open>Until it completes, the events of a stream only change the stream.\<close>

lemma stream_events_unfinished:
  "i < length (ic_streams c) \<Longrightarrow> ic_streams c ! i = (s, Some k) \<Longrightarrow> i2p_op_ok s \<Longrightarrow>
    \<not> finished (foldl (i2p_step (cl_split lib)) s evs) \<Longrightarrow>
    pending (foldl (i2p_step (cl_split lib)) s evs) \<noteq> Wild \<Longrightarrow>
    connection_run lib c (map (Stream_Event i) evs) =
      Some (set_stream i (foldl (i2p_step (cl_split lib)) s evs) (Some k) c)"
proof (induction evs arbitrary: c s)
  case Nil
  then show ?case using list_update_id [of "ic_streams c" i] by (simp add: set_stream_def)
next
  case (Cons e evs)
  let ?s = "i2p_step (cl_split lib) s e"
  have ok: "i2p_op_ok ?s" using Cons.prems(3) by (rule i2p.step_inv)
  have "\<not> finished ?s" using Cons.prems(4) i2p.finished_run [OF ok, of "cl_split lib" evs] by auto
  moreover have "pending ?s \<noteq> Wild" using Cons.prems(5) wild_stays [of ?s "cl_split lib" evs] by auto
  moreover from \<open>\<not> finished ?s\<close> have "connection_run lib (set_stream i ?s (Some k) c) (map (Stream_Event i) evs) =
      Some (set_stream i (foldl (i2p_step (cl_split lib)) ?s evs) (Some k) (set_stream i ?s (Some k) c))"
    using Cons.prems ok by (intro Cons.IH) (simp_all add: set_stream_def)
  ultimately show ?case using Cons.prems(1,2) by (simp add: stream_event_def) (simp add: set_stream_def)
qed

lemma connection_run_append:
  "connection_run lib c (es @ fs) = connection_run lib c es \<bind> (\<lambda>d. connection_run lib d fs)"
  by (induction es arbitrary: c) (simp_all add: Option.bind_assoc)

lemma stream_events_complete:
  assumes "i < length (ic_streams c)" "ic_streams c ! i = (s, Some k)" "i2p_op_ok s" "evs \<noteq> []"
    and "\<not> finished (foldl (i2p_step (cl_split lib)) s (butlast evs))"
    and "finished (foldl (i2p_step (cl_split lib)) s evs)"
  shows "connection_run lib c (map (Stream_Event i) evs) =
    (let t = foldl (i2p_step (cl_split lib)) s evs in
     call_sam_handler k (last (completions t)) (set_stream i t None c))"
proof -
  let ?u = "foldl (i2p_step (cl_split lib)) s (butlast evs)"
  have evs: "evs = butlast evs @ [last evs]" using assms(4) by simp
  have step: "i2p_step (cl_split lib) ?u (last evs) = foldl (i2p_step (cl_split lib)) s evs"
    by (subst (3) evs) simp
  have fin: "pending (foldl (i2p_step (cl_split lib)) s evs) \<noteq> Wild"
    using assms(6) by (auto simp: finished_def)
  have "pending ?u \<noteq> Wild"
    using wild_stays [of ?u "cl_split lib" "[last evs]"] assms(6) step by (auto simp: finished_def)
  then have "connection_run lib c (map (Stream_Event i) (butlast evs)) = Some (set_stream i ?u (Some k) c)"
    by (rule stream_events_unfinished [OF assms(1-3,5)])
  then have "connection_run lib c (map (Stream_Event i) evs) =
      connection_run lib (set_stream i ?u (Some k) c) [Stream_Event i (last evs)]"
    by (subst evs) (simp add: connection_run_append)
  also have "\<dots> = stream_event lib i (last evs) (set_stream i ?u (Some k) c)" by simp
  also have "\<dots> = (let t = foldl (i2p_step (cl_split lib)) s evs in
     call_sam_handler k (last (completions t)) (set_stream i t None c))"
    using assms(1,6) fin by (simp add: stream_event_def step Let_def) (simp add: set_stream_def step)
  finally show ?thesis .
qed

text \<open>
  A name lookup and its answer. When the connection is open and idle and no lookup waits,
  \<open>async_name_lookup\<close> sends \<open>NAMING LOOKUP\<close> with the name; when the bridge answers with \<open>RESULT=OK\<close>,
  however the reply arrives byte by byte, the handler of that lookup is called once, without an
  error and with the value the reply gives for the name, and the connection is open and idle again.
\<close>

lemma i2p_name_looked_up:
  assumes "split_spec (cl_split lib)" "connection_ok c" "sam_state c = Sam_Idle" "lookup_queue c = []"
    and "m_sam_socket c = Some i" "ic_streams c ! i = (s, None)" "sock_open s" "i2p_command s \<noteq> cmd_incoming"
    and "length name < 1004" "0 \<notin> set name" "accepted_fields fs read_name_lookup_response"
  shows "\<exists>d. connection_run lib c (Lookup name h #
        map (Stream_Event i) (exchange (reply_line read_name_lookup_response fs))) = Some d \<and>
      looked_up d = looked_up c @
        [(h, I2P i2p_no_error, Some (bytes_c_str (fst (snd (set_fields fs (i2p_no_error, name, m_dest s))))))] \<and>
      (\<exists>t. ic_streams d ! i = (t, None) \<and> sent t = sent s @ [ascii ''NAMING LOOKUP NAME='' @ name @ [10]]) \<and>
      sam_state d = Sam_Idle \<and> ic_is_open d"
proof -
  let ?text = "ascii ''NAMING LOOKUP NAME='' @ name @ [10]" and ?line = "reply_line read_name_lookup_response fs"
  let ?s = "s\<lparr>m_name_lookup := name, i2p_state := read_name_lookup_response,
    pending := Write ?text Start_Read_Line\<rparr>"
  let ?k = "On_Name_Lookup (User_Lookup h)"
  let ?c = "set_stream i ?s (Some ?k) (c\<lparr>sam_state := Sam_Name_Lookup\<rparr>)"
  have sp: "cl_split lib = split_at_sep" using assms(1) by (simp add: split_spec_def)
  have i: "i < length (ic_streams c)" using assms(2,5) by (simp add: connection_ok_def)
  have fin: "finished s" using assms(2,6) nth_mem [OF i] by (auto simp: connection_ok_def socket_ok_def)
  have name: "bytes_c_str name = name" using assms(10) by (auto simp: bytes_c_str_def takeWhile_eq_all_conv)
  have "\<forall>k. 1024 \<le> socket_takes s k"
    using assms(2,6) nth_mem [OF i] by (auto simp: connection_ok_def socket_ok_def stream_calm_def calm_setup_def)
  then have "length ?text \<le> socket_takes s (length (sent s))" "length ?text < 1024"
    using assms(9) by (auto simp: length_ascii intro: order_trans [of _ 1024])
  then have "send_name_lookup (set_name_lookup (bytes_c_str name) s) = ?s"
    using name by (simp add: send_name_lookup_def set_name_lookup_def Let_def send_printed_fits)
  then have start: "connection_step lib c (Lookup name h) = Some ?c"
    using assms(3-7) fin by (simp add: ic_async_name_lookup_def ic_is_open_def current_stream_def
        do_name_lookup_def Let_def)
  obtain buf p nl dest where ex:
    "foldl (i2p_step split_at_sep) ?s (exchange ?line) = reply_ok (I2P i2p_no_error)
       (?s\<lparr>sent := sent s @ [?text], m_buffer := buf, pending := p, m_name_lookup := nl, m_dest := dest\<rparr>)"
    "set_fields fs (i2p_no_error, name, m_dest s) = (i2p_no_error, nl, dest)"
    using exchange_accepted [of ?s ?text fs] assms(8,11) by auto
  let ?t = "(complete (I2P i2p_no_error) (?s\<lparr>sent := sent s @ [?text], m_buffer := buf, pending := p,
      m_name_lookup := nl, m_dest := dest\<rparr>))\<lparr>m_buffer := []\<rparr>"
  have t: "foldl (i2p_step split_at_sep) ?s (exchange ?line) = ?t"
    unfolding ex(1) by (simp add: reply_ok_def)
  let ?d = "(set_stream i ?t None (c\<lparr>sam_state := Sam_Idle\<rparr>))
    \<lparr>looked_up := looked_up c @ [(h, I2P i2p_no_error, Some (bytes_c_str nl))]\<rparr>"
  have "connection_run lib ?c (map (Stream_Event i) (exchange ?line)) =
      call_sam_handler ?k (last (completions ?t)) (set_stream i ?t None ?c)"
    using stream_events_complete [of i ?c ?s ?k "exchange ?line" lib] i t sp
      exchange_unfinished [of ?s ?text ?line split_at_sep] assms(11)
    by (simp add: set_stream_def i2p_op_ok_def accepted_fields_def finished_def Let_def)
      (simp add: exchange_def)
  also have "\<dots> = Some ?d"
    using assms(4,5) i
    by (cases c) (simp add: on_name_lookup_def Let_def current_stream_def set_stream_def complete_def)
  finally have run: "connection_run lib c (Lookup name h # map (Stream_Event i) (exchange ?line)) = Some ?d"
    using start by simp
  have "ic_is_open ?d"
    using assms(5,7) i by (simp add: ic_is_open_def current_stream_def set_stream_def complete_def)
  then show ?thesis
    unfolding run using i ex(2) by (simp add: set_stream_def)
qed

section \<open>Lookups that are never answered\<close>

text \<open>
  When the bridge refuses the session with an error of its own, the stream stays open. If lookups wait
  by then, the connection is idle and open with a queue that only a completed lookup would shorten:
  from then on every lookup joins the queue, and opening the same connection again does nothing.
\<close>

definition stuck :: "i2p_connection \<Rightarrow> bool" where
  "stuck c \<longleftrightarrow> connection_ok c \<and> sam_state c = Sam_Idle \<and> lookup_queue c \<noteq> [] \<and> ic_is_open c"

lemma refused_session_stuck:
  assumes "connection_ok (c\<lparr>sam_state := Sam_Idle\<rparr>)" "m_sam_socket c = Some i" "failed ec"
    "sock_open (fst (ic_streams c ! i))" "lookup_queue c \<noteq> []"
  shows "\<exists>d. call_sam_handler (On_Sam_Connect h) ec c = Some d \<and> stuck d"
  using assms
  by (auto simp: on_sam_connect_def Let_def stuck_def connection_ok_def ic_is_open_def current_stream_def)

fun opens_same :: "bytes \<Rightarrow> int \<Rightarrow> connection_event \<Rightarrow> bool" where
  "opens_same host port (Open host' port' opts tmp h) \<longleftrightarrow> host' = host \<and> port' = port"
| "opens_same host port (Lookup n h) \<longleftrightarrow> short_name n"
| "opens_same host port (Stream_Event i ev) = True"

lemma stuck_forever:
  "stuck c \<Longrightarrow> list_all (opens_same (ic_hostname c) (ic_port c)) es \<Longrightarrow>
    \<exists>d. connection_run lib c es = Some d \<and> stuck d \<and> looked_up d = looked_up c \<and> opened d = opened c"
proof (induction es arbitrary: c)
  case (Cons e es)
  have "\<exists>d. connection_step lib c e = Some d \<and> stuck d \<and> looked_up d = looked_up c \<and> opened d = opened c \<and>
      ic_hostname d = ic_hostname c \<and> ic_port d = ic_port c"
  proof (cases e)
    case (Open host port opts tmp h)
    with Cons.prems have "ic_open lib host port opts tmp h c = c"
      by (auto simp: ic_open_def stuck_def ic_is_open_def current_stream_def)
    with Open Cons.prems(1) show ?thesis by simp
  next
    case (Lookup n h)
    have "ic_is_open (c\<lparr>lookup_queue := q\<rparr>) = ic_is_open c" for q
      by (simp add: ic_is_open_def current_stream_def split: option.split)
    with Lookup Cons.prems show ?thesis
      by (auto simp: ic_async_name_lookup_def stuck_def connection_ok_def)
  next
    case (Stream_Event i ev)
    show ?thesis
    proof (cases "i < length (ic_streams c)")
      case True
      obtain s h where s: "ic_streams c ! i = (s, h)" by (cases "ic_streams c ! i")
      have mem: "(s, h) \<in> set (ic_streams c)" using nth_mem [OF True] by (simp add: s)
      have "no_outstanding c" "socket_ok (s, h)"
        using Cons.prems(1) idle_no_outstanding [of c] mem by (auto simp: stuck_def connection_ok_def)
      moreover from this(1) have "h = None" using mem unfolding no_outstanding_def by fastforce
      ultimately have "h = None" "finished s" "i2p_op_ok s" by (simp_all add: socket_ok_def)
      then have "connection_step lib c (Stream_Event i ev) = Some c"
        using True s i2p.finished_step [of s "cl_split lib" ev] list_update_id [of "ic_streams c" i]
        by (simp add: stream_event_def set_stream_def finished_def)
      with Stream_Event Cons.prems(1) show ?thesis by simp
    next
      case False
      with Stream_Event Cons.prems(1) show ?thesis by (simp add: stream_event_def)
    qed
  qed
  then obtain d where d: "connection_step lib c e = Some d" "stuck d" "looked_up d = looked_up c"
    "opened d = opened c" "ic_hostname d = ic_hostname c" "ic_port d = ic_port c" by blast
  with Cons.IH [OF d(2)] Cons.prems(2) show ?case by simp
qed simp

text \<open>
  Opening another connection while the first is still connecting: the old stream completes, the
  connection takes itself for idle, and a lookup is sent on the new stream while that one connects.
\<close>

definition example_stream :: i2p_stream where
  "example_stream = \<lparr>m_hostname = [], m_port = 0, m_remote_endpoint = default_endpoint, sock_open = False,
     m_buffer = [], pending = Idle, sent = [], completions = [], m_id = None, m_dest = [], m_local = [],
     m_name_lookup = [], m_session_options = default_session_options, i2p_command = cmd_none,
     i2p_state = read_hello_response, socket_takes = (\<lambda>k. 1500)\<rparr>"

definition example_lib :: connection_lib where
  "example_lib = \<lparr>cl_split = split_at_sep, cl_to_hex = (\<lambda>bs. concat (map (\<lambda>b. [b div 16 + 97, b mod 16 + 97]) bs)),
     cl_new_stream = example_stream\<rparr>"

definition example_connection :: i2p_connection where
  "example_connection = \<lparr>ic_streams = [], m_sam_socket = None, ic_hostname = [], ic_port = 0,
     m_i2p_local_endpoint = [], m_session_id = [], lookup_queue = [], sam_state = Sam_Idle,
     opened = [], looked_up = []\<rparr>"

lemmas connection_eval = example_lib_def example_connection_def example_stream_def ic_open_def
  ic_is_open_def current_stream_def set_stream_def ic_async_name_lookup_def do_name_lookup_def Let_def
  stream_event_def i2p_step_def deliver_def do_connect_def finished_def i2p_async_connect_def
  set_session_options_def set_session_id_def i2p_set_command_def set_proxy_def complete_def
  proxy_close_def on_sam_connect_def

lemma reopened_connection_overlaps:
  "connection_run example_lib example_connection
     [Open [97] 7656 default_session_options [1] 0, Open [98] 7656 default_session_options [2] 1,
      Stream_Event 1 (Resolved Success [default_endpoint] Success),
      Stream_Event 0 (Resolved (Asio operation_aborted) [] Success), Lookup [110] 5] = None"
  by (simp add: connection_eval)

section \<open>Witnesses\<close>

text \<open>The queue keeps the lookups that come before the session is there.\<close>

theorem i2p_lookups_in_order_witness:
  "\<exists>d. connection_run example_lib example_connection
       [Lookup [110] 5, Open [97] 7656 default_session_options (replicate 20 1) 0,
        Stream_Event 0 (Resolved Success [default_endpoint] Success), Lookup [111] 6,
        Stream_Event 0 (Connected Success)] = Some d \<and>
     answered d @ outstanding d @ queued_lookups d = [5, 6]"
proof -
  let ?es = "[Lookup [110] 5, Open [97] 7656 default_session_options (replicate 20 1) 0,
        Stream_Event 0 (Resolved Success [default_endpoint] Success), Lookup [111] 6,
        Stream_Event 0 (Connected Success)]"
  have "connection_new example_connection" by (simp add: connection_new_def example_connection_def)
  moreover have "length (concat (map (\<lambda>b. [b div 16 + 97, b mod 16 + 97 :: byte]) bs)) = 2 * length bs" for bs
    by (induction bs) simp_all
  then have "lib_ok example_lib"
    by (simp add: lib_ok_def split_spec_def example_lib_def example_stream_def)
  moreover have "orderly_run example_lib example_connection ?es"
    by (simp add: connection_eval orderly_event_def no_outstanding_def options_ok_def
        default_session_options_def in_int32_def short_name_def bytes_c_str_def line_readable_def
        i2p_connected_def handle_error_def)
  ultimately show ?thesis
    using i2p_lookups_in_order [of example_connection example_lib ?es] by (auto simp: requested_def)
qed

end
