(* ===== verification/Handlers.thy ===== *)
theory Handlers
  imports Getzy_Prelude "HOL-Library.Monad_Syntax"
begin

text \<open>
  \<open>aux_/allocating_handler.hpp\<close> and \<open>aux_/deferred_handler.hpp\<close>: how the library hands its
  completion handlers to \<open>boost::asio\<close>. A handler brings the memory for its operation with it, a slot
  for one handler (\<open>handler_storage\<close>), and turns exceptions into calls of an error handler; a
  \<open>deferred_handler\<close> posts at most one handler at a time. An \<open>io_context\<close> is the queue of the
  handlers posted to it; what is used of it is documented: \<open>post\<close> gets memory from the allocator
  of the handler, and a handler is called after its memory has been given back.
\<close>

section \<open>Storage\<close>

text \<open>The constants of a build that is not for Windows, without SSL, fuzzing and debug iterators.\<close>

datatype handler_name = Write_Handler | Read_Handler | Udp_Handler | Tick_Handler | Abort_Handler |
  Defer_Handler | Utp_Handler | Submit_Handler

definition write_handler_max_size :: nat where "write_handler_max_size = 0 + 0 + 0 + 0 + 176"
definition read_handler_max_size :: nat where "read_handler_max_size = 0 + 0 + 0 + 0 + 176"
definition udp_handler_max_size :: nat where "udp_handler_max_size = 0 + 168"
definition utp_handler_max_size :: nat where "utp_handler_max_size = 0 + 192"
definition abort_handler_max_size :: nat where "abort_handler_max_size = 0 + 72"
definition submit_handler_max_size :: nat where "submit_handler_max_size = 0 + 72"
definition deferred_handler_max_size :: nat where "deferred_handler_max_size = 0 + 80"
definition tick_handler_max_size :: nat where "tick_handler_max_size = 0 + 136"

text \<open>
  A storage is its size, its name, and whether its bytes hold an object; two allocators are equal
  when they share the storage. \<open>allocate\<close> hands out the bytes of the slot, whether they are in use
  or not: the second object would overwrite the first one, which is undefined. \<open>rebind\<close> only
  compiles for objects that fit.
\<close>

record handler_storage =
  storage_size :: nat
  storage_name :: handler_name
  slot_used :: bool

definition handler_storage_init :: "nat \<Rightarrow> handler_name \<Rightarrow> handler_storage" where
  "handler_storage_init n k = \<lparr>storage_size = n, storage_name = k, slot_used = False\<rparr>"

definition rebind_fits :: "nat \<Rightarrow> handler_storage \<Rightarrow> bool" where
  "rebind_fits required s \<longleftrightarrow> required \<le> storage_size s"

definition same_allocator :: "nat \<Rightarrow> nat \<Rightarrow> bool" where
  "same_allocator lhs rhs \<longleftrightarrow> lhs = rhs"

definition handler_allocate :: "handler_storage \<Rightarrow> handler_storage option" where
  "handler_allocate s = (if slot_used s then None else Some (s\<lparr>slot_used := True\<rparr>))"

definition handler_deallocate :: "handler_storage \<Rightarrow> handler_storage" where
  "handler_deallocate s = s\<lparr>slot_used := False\<rparr>"

section \<open>Exceptions\<close>

text \<open>
  A handler returns or throws one of the three kinds of exceptions that are told apart. The class
  \<open>handler\<close> calls two member functions of its object in the place of the interface.
\<close>

datatype thrown = Sys_Error int | Std_Exception string | Other_Thrown

datatype 's handled = Normal 's | Exceptional thrown 's

record 's error_handler =
  on_error :: "int \<Rightarrow> 's \<Rightarrow> 's"
  on_exception :: "string \<Rightarrow> 's \<Rightarrow> 's"

definition allocating_handler_call :: "'s error_handler \<Rightarrow> ('s \<Rightarrow> 's handled) \<Rightarrow> 's \<Rightarrow> 's" where
  "allocating_handler_call eh h s =
     (case h s of
        Normal s' \<Rightarrow> s'
      | Exceptional (Sys_Error e) s' \<Rightarrow> on_error eh e s'
      | Exceptional (Std_Exception w) s' \<Rightarrow> on_exception eh w s'
      | Exceptional Other_Thrown s' \<Rightarrow> on_exception eh ''unknown exception'' s')"

definition member_handler_call ::
  "('s \<Rightarrow> 's handled) \<Rightarrow> (int \<Rightarrow> 's \<Rightarrow> 's) \<Rightarrow> (string \<Rightarrow> 's \<Rightarrow> 's) \<Rightarrow> 's \<Rightarrow> 's" where
  "member_handler_call h error_fun except_fun s =
     (case h s of
        Normal s' \<Rightarrow> s'
      | Exceptional (Sys_Error e) s' \<Rightarrow> error_fun e s'
      | Exceptional (Std_Exception w) s' \<Rightarrow> except_fun w s'
      | Exceptional Other_Thrown s' \<Rightarrow> except_fun ''unknown exception'' s')"

lemma member_handler_is_allocating_handler:
  "member_handler_call h f g = allocating_handler_call \<lparr>on_error = f, on_exception = g\<rparr> h"
  by (rule ext) (simp add: member_handler_call_def allocating_handler_call_def
      split: handled.split thrown.split)

section \<open>Deferred handlers\<close>

text \<open>
  What a posted handler does, as far as it matters here: it posts handlers through the same object,
  and may end with an exception. The error handler keeps a list of its calls. The state is the flag
  of the \<open>deferred_handler\<close>, its storage and the queue; \<open>accepted\<close> and \<open>ran\<close> remember, for the
  statements, which handlers were queued and which were called.
\<close>

datatype script = Script "script list" "thrown option"

datatype report = On_Error int | On_Exception string

record deferral =
  m_in_flight :: bool
  storage :: handler_storage
  queue :: "script list"
  reports :: "report list"
  accepted :: "script list"
  ran :: "script list"

definition deferral_init :: deferral where
  "deferral_init = \<lparr>m_in_flight = False,
     storage = handler_storage_init deferred_handler_max_size Defer_Handler,
     queue = [], reports = [], accepted = [], ran = []\<rparr>"

text \<open>\<open>post\<close> of the \<open>io_context\<close>, and the function of \<open>deferred_handler\<close> that guards it.\<close>

definition asio_post :: "script \<Rightarrow> deferral \<Rightarrow> deferral option" where
  "asio_post h d = do {
     s \<leftarrow> handler_allocate (storage d);
     Some (d\<lparr>storage := s, queue := queue d @ [h], accepted := accepted d @ [h]\<rparr>)
   }"

definition post_deferred :: "script \<Rightarrow> deferral \<Rightarrow> deferral option" where
  "post_deferred h d = (if m_in_flight d then Some d else asio_post h (d\<lparr>m_in_flight := True\<rparr>))"

fun post_all :: "script list \<Rightarrow> deferral \<Rightarrow> deferral option" where
  "post_all [] d = Some d"
| "post_all (h # hs) d = post_deferred h d \<bind> post_all hs"

text \<open>
  A handler of the queue: the \<open>handler_wrapper\<close> clears the flag and calls the allocating handler it
  wraps, whose error handler appends to the reports. A step that ran into undefined behaviour keeps
  being undefined.
\<close>

definition script_body :: "script \<Rightarrow> deferral option \<Rightarrow> deferral option handled" where
  "script_body h d =
     (case h of Script posts t \<Rightarrow>
        (case t of None \<Rightarrow> Normal (d \<bind> post_all posts)
         | Some x \<Rightarrow> Exceptional x (d \<bind> post_all posts)))"

definition report_to :: "deferral option error_handler" where
  "report_to = \<lparr>on_error = (\<lambda>e. map_option (\<lambda>d. d\<lparr>reports := reports d @ [On_Error e]\<rparr>)),
     on_exception = (\<lambda>w. map_option (\<lambda>d. d\<lparr>reports := reports d @ [On_Exception w]\<rparr>))\<rparr>"

definition handler_wrapper_call :: "script \<Rightarrow> deferral \<Rightarrow> deferral option" where
  "handler_wrapper_call h d =
     allocating_handler_call report_to (script_body h) (Some (d\<lparr>m_in_flight := False\<rparr>))"

definition run_one :: "deferral \<Rightarrow> deferral option" where
  "run_one d =
     (case queue d of [] \<Rightarrow> Some d
      | h # hs \<Rightarrow> handler_wrapper_call h
          (d\<lparr>storage := handler_deallocate (storage d), queue := hs, ran := ran d @ [h]\<rparr>))"

datatype deferral_event = Post script | Run_One

fun deferral_step :: "deferral option \<Rightarrow> deferral_event \<Rightarrow> deferral option" where
  "deferral_step s (Post h) = s \<bind> post_deferred h"
| "deferral_step s Run_One = s \<bind> run_one"

section \<open>The invariant\<close>

text \<open>The calls of the error handler that a handler causes.\<close>

fun reports_of :: "script \<Rightarrow> report list" where
  "reports_of (Script posts None) = []"
| "reports_of (Script posts (Some (Sys_Error e))) = [On_Error e]"
| "reports_of (Script posts (Some (Std_Exception w))) = [On_Exception w]"
| "reports_of (Script posts (Some Other_Thrown)) = [On_Exception ''unknown exception'']"

text \<open>Everything but what the reports say about the handler that is being called.\<close>

definition flight_ok :: "deferral \<Rightarrow> bool" where
  "flight_ok d \<longleftrightarrow> length (queue d) = (if m_in_flight d then 1 else 0) \<and>
     slot_used (storage d) = m_in_flight d \<and> accepted d = ran d @ queue d"

definition deferral_ok :: "deferral \<Rightarrow> bool" where
  "deferral_ok d \<longleftrightarrow> flight_ok d \<and> reports d = concat (map reports_of (ran d))"

lemma post_deferred_ok:
  assumes "flight_ok d"
  shows "\<exists>e. post_deferred h d = Some e \<and> flight_ok e \<and> m_in_flight e \<and> ran e = ran d \<and>
    reports e = reports d"
  using assms
  by (auto simp: post_deferred_def asio_post_def handler_allocate_def flight_ok_def)

lemma post_all_ok:
  "flight_ok d \<Longrightarrow>
    \<exists>e. post_all hs d = Some e \<and> flight_ok e \<and> ran e = ran d \<and> reports e = reports d"
proof (induction hs arbitrary: d)
  case (Cons h hs)
  from post_deferred_ok [OF Cons.prems, of h] obtain e where
    e: "post_deferred h d = Some e" "flight_ok e" "ran e = ran d" "reports e = reports d" by blast
  from Cons.IH [OF e(2)] e show ?case by simp
qed simp

lemma handler_wrapper_call_ok:
  assumes "flight_ok (d\<lparr>m_in_flight := False\<rparr>)"
  shows "\<exists>e. handler_wrapper_call h d = Some e \<and> flight_ok e \<and> ran e = ran d \<and>
    reports e = reports d @ reports_of h"
proof -
  obtain posts t where h: "h = Script posts t" by (cases h)
  from post_all_ok [OF assms, of posts] obtain e where
    e: "post_all posts (d\<lparr>m_in_flight := False\<rparr>) = Some e" "flight_ok e" "ran e = ran d"
    "reports e = reports d" by auto
  show ?thesis
  proof (cases t)
    case None
    with e show ?thesis
      by (simp add: handler_wrapper_call_def allocating_handler_call_def script_body_def h)
  next
    case (Some x)
    with e show ?thesis
      by (cases x) (simp_all add: handler_wrapper_call_def allocating_handler_call_def script_body_def
          h report_to_def flight_ok_def)
  qed
qed

lemma run_one_ok:
  assumes "deferral_ok d"
  shows "\<exists>e. run_one d = Some e \<and> deferral_ok e"
proof (cases "queue d")
  case Nil
  with assms show ?thesis by (simp add: run_one_def)
next
  case (Cons h hs)
  let ?d = "d\<lparr>storage := handler_deallocate (storage d), queue := hs, ran := ran d @ [h]\<rparr>"
  have "flight_ok (?d\<lparr>m_in_flight := False\<rparr>)" "reports d = concat (map reports_of (ran d))"
    using assms Cons by (auto simp: deferral_ok_def flight_ok_def handler_deallocate_def split: if_splits)
  from handler_wrapper_call_ok [OF this(1), of h] this(2) show ?thesis
    by (auto simp: run_one_def Cons deferral_ok_def)
qed

interpretation deferrals: invariant_machine deferral_step
  "\<lambda>s. case s of None \<Rightarrow> False | Some d \<Rightarrow> deferral_ok d"
proof
  fix s e assume "case s of None \<Rightarrow> False | Some d \<Rightarrow> deferral_ok d"
  then obtain d where d: "s = Some d" "deferral_ok d" by (cases s) auto
  show "case deferral_step s e of None \<Rightarrow> False | Some d \<Rightarrow> deferral_ok d"
  proof (cases e)
    case (Post h)
    with d post_deferred_ok [of d h] show ?thesis by (auto simp: deferral_ok_def)
  next
    case Run_One
    with d run_one_ok [OF d(2)] show ?thesis by auto
  qed
qed

section \<open>Properties\<close>

text \<open>
  C16. A deferred handler never shares its storage. Whatever handlers are posted from outside and by
  the handlers themselves, whenever the queue runs and whatever is thrown, the one slot is never
  handed out while it is in use; at most one handler is queued, exactly while \<open>m_in_flight\<close> is
  set; the handlers that were accepted are called once each, in their order, apart from the one that
  is still queued; and every exception is reported once, to the function for its kind.
\<close>

theorem deferred_handler_sound:
  "\<exists>d. foldl deferral_step (Some deferral_init) es = Some d \<and>
     slot_used (storage d) = m_in_flight d \<and> length (queue d) = (if m_in_flight d then 1 else 0) \<and>
     accepted d = ran d @ queue d \<and> reports d = concat (map reports_of (ran d))"
proof -
  have "case Some deferral_init of None \<Rightarrow> False | Some d \<Rightarrow> deferral_ok d"
    by (simp add: deferral_init_def deferral_ok_def flight_ok_def handler_storage_init_def)
  from deferrals.inv_run [OF this, of es] obtain d where
    "foldl deferral_step (Some deferral_init) es = Some d" "deferral_ok d"
    by (cases "foldl deferral_step (Some deferral_init) es") simp_all
  then show ?thesis unfolding deferral_ok_def flight_ok_def by blast
qed

text \<open>
  The guard is needed: two handlers posted without it would be given the same bytes. A handler that
  was called can be posted again at once, also by itself.
\<close>

lemma unguarded_posts_overlap: "asio_post h d = Some e \<Longrightarrow> asio_post k e = None"
  by (auto simp: asio_post_def handler_allocate_def split: if_splits)

lemma handler_posts_itself_again:
  "map_option queue (foldl deferral_step (Some deferral_init)
     [Post (Script [h, k] (Some (Sys_Error 5))), Post k, Run_One]) = Some [h]"
  by (simp add: deferral_init_def post_deferred_def asio_post_def handler_allocate_def
      handler_storage_init_def run_one_def handler_wrapper_call_def allocating_handler_call_def
      script_body_def report_to_def handler_deallocate_def)

end
