(* ===== verification/Dht_Requests.thy ===== *)
theory Dht_Requests
  imports Sort_Orders Flags Bencode "HOL-Library.Multiset"
begin

text \<open>
  The distributed hash table, as far as its headers define it (\<open>kademlia/\<close>): requests that are made
  directly to a node (\<open>observer.hpp\<close>, \<open>direct_request.hpp\<close>, \<open>rpc_manager.hpp\<close>), the queries of
  the routing table and its set of addresses (\<open>routing_table.hpp\<close>, \<open>node.hpp\<close>), items
  (\<open>item.hpp\<close>) and the limits of the guard against floods (\<open>dos_blocker.hpp\<close>). Lookups, the
  messages and the table itself are in the prebuilt library.
\<close>

section \<open>Observers\<close>

definition flag_queried :: byte where "flag_queried = flag_bit 0"
definition flag_initial :: byte where "flag_initial = flag_bit 1"
definition flag_no_id :: byte where "flag_no_id = flag_bit 2"
definition flag_short_timeout :: byte where "flag_short_timeout = flag_bit 3"
definition flag_failed :: byte where "flag_failed = flag_bit 4"
definition flag_ipv6_address :: byte where "flag_ipv6_address = flag_bit 5"
definition flag_alive :: byte where "flag_alive = flag_bit 6"
definition flag_done :: byte where "flag_done = flag_bit 7"

definition has_short_timeout :: "byte \<Rightarrow> bool" where
  "has_short_timeout flags = flag_test (flag_and flags flag_short_timeout)"

text \<open>
  A message is a decoded node (\<open>None\<close> when it is default constructed) and where it came from. A
  direct request joins the observer and its traversal: the flags and the target of the one, the
  callback of the other, with the calls of the callback and of \<open>done\<close> as a history. The callback
  does not come back into the request it was given to.
\<close>

record dht_msg =
  msg_node :: "bytes option"
  msg_addr :: endpoint

record direct_request =
  observer_flags :: byte
  target_ep :: endpoint
  m_cb :: bool
  cb_calls :: "dht_msg list"
  done_calls :: nat

definition direct_traversal_init :: "byte \<Rightarrow> endpoint \<Rightarrow> bool \<Rightarrow> direct_request" where
  "direct_traversal_init fl ep cb =
     \<lparr>observer_flags = fl, target_ep = ep, m_cb = cb, cb_calls = [], done_calls = 0\<rparr>"

definition invoke_cb :: "dht_msg \<Rightarrow> direct_request \<Rightarrow> direct_request" where
  "invoke_cb m r =
     (if m_cb r
      then r\<lparr>cb_calls := cb_calls r @ [m], m_cb := False, done_calls := Suc (done_calls r)\<rparr>
      else r)"

definition direct_reply :: "dht_msg \<Rightarrow> direct_request \<Rightarrow> direct_request" where
  "direct_reply m r = invoke_cb m (r\<lparr>observer_flags := flag_or (observer_flags r) flag_done\<rparr>)"

definition direct_timeout :: "direct_request \<Rightarrow> direct_request" where
  "direct_timeout r =
     (if flag_test (flag_and (observer_flags r) flag_done) then r
      else invoke_cb \<lparr>msg_node = None, msg_addr = target_ep r\<rparr>
        (r\<lparr>observer_flags := flag_or (observer_flags r) flag_done\<rparr>))"

text \<open>The observer that ignores replies only takes note of them.\<close>

definition null_reply :: "dht_msg \<Rightarrow> byte \<Rightarrow> byte" where
  "null_reply m flags = flag_or flags flag_done"

datatype direct_event = Reply dht_msg | Timeout

fun direct_step :: "direct_request \<Rightarrow> direct_event \<Rightarrow> direct_request" where
  "direct_step r (Reply m) = direct_reply m r"
| "direct_step r Timeout = direct_timeout r"

section \<open>The routing table\<close>

datatype udp_protocol = Udp_V4 | Udp_V6

fun endpoint_protocol :: "endpoint \<Rightarrow> udp_protocol" where
  "endpoint_protocol ep = (if is_v4 (ep_address ep) then Udp_V4 else Udp_V6)"

record ip_set =
  m_ip4s :: "u32 multiset"
  m_ip6s :: "bytes multiset"

definition ip_set_clear :: "ip_set \<Rightarrow> ip_set" where
  "ip_set_clear s = s\<lparr>m_ip4s := {#}, m_ip6s := {#}\<rparr>"

definition ip_set_equal :: "ip_set \<Rightarrow> ip_set \<Rightarrow> bool" where
  "ip_set_equal s rh \<longleftrightarrow> m_ip4s s = m_ip4s rh \<and> m_ip6s s = m_ip6s rh"

definition ip_set_size :: "ip_set \<Rightarrow> nat" where
  "ip_set_size s = size (m_ip4s s) + size (m_ip6s s)"

record routing_table_node =
  replacements :: "node_entry list"
  live_nodes :: "node_entry list"

text \<open>The settings, the log and the times and depth of the last refresh are left out.\<close>

record routing_table =
  m_buckets :: "routing_table_node list"
  m_id :: bytes
  m_protocol :: udp_protocol
  m_router_nodes :: "endpoint list"
  m_ips :: ip_set
  m_bucket_size :: int

text \<open>An index below 0 would move the iterator in front of the first bucket, which is undefined.\<close>

definition bucket_size_at :: "int \<Rightarrow> routing_table \<Rightarrow> int option" where
  "bucket_size_at bucket t =
     (let num_buckets = to_int32 (int (length (m_buckets t))) in
      if num_buckets = 0 then Some 0
      else let b = (if num_buckets \<le> bucket then num_buckets - 1 else bucket) in
        if b < 0 then None
        else Some (to_int32 (int (length (live_nodes (m_buckets t ! nat b))))))"

definition num_active_buckets :: "routing_table \<Rightarrow> int" where
  "num_active_buckets t = to_int32 (int (length (m_buckets t)))"

definition table_native_address :: "address \<Rightarrow> routing_table \<Rightarrow> bool" where
  "table_native_address a t \<longleftrightarrow>
     is_v4 a \<and> m_protocol t = Udp_V4 \<or> \<not> is_v4 a \<and> m_protocol t = Udp_V6"

definition table_native_endpoint :: "endpoint \<Rightarrow> routing_table \<Rightarrow> bool" where
  "table_native_endpoint ep t \<longleftrightarrow> endpoint_protocol ep = m_protocol t"

text \<open>The same questions to the node that owns the table.\<close>

definition node_native_endpoint :: "udp_protocol \<Rightarrow> endpoint \<Rightarrow> bool" where
  "node_native_endpoint p ep \<longleftrightarrow> endpoint_protocol ep = p"

definition node_native_address :: "udp_protocol \<Rightarrow> address \<Rightarrow> bool" where
  "node_native_address p a \<longleftrightarrow> is_v4 a \<and> p = Udp_V4 \<or> \<not> is_v4 a \<and> p = Udp_V6"

section \<open>Items and limits\<close>

record dht_item =
  m_value :: entry
  m_salt :: bytes
  m_pk :: bytes
  m_sig :: bytes
  m_seq :: int
  m_mutable :: bool

definition item_clear :: "dht_item \<Rightarrow> dht_item" where
  "item_clear i = i\<lparr>m_value := Undefined\<rparr>"

definition item_empty :: "dht_item \<Rightarrow> bool" where
  "item_empty i \<longleftrightarrow> m_value i = Undefined"

record dos_blocker =
  m_message_rate_limit :: int
  m_block_timeout :: int

definition set_rate_limit :: "int \<Rightarrow> dos_blocker \<Rightarrow> dos_blocker" where
  "set_rate_limit l b = b\<lparr>m_message_rate_limit := max 1 l\<rparr>"

definition set_block_timer :: "int \<Rightarrow> dos_blocker \<Rightarrow> dos_blocker" where
  "set_block_timer t b = b\<lparr>m_block_timeout := max 1 t\<rparr>"

text \<open>What the queries of the table and the node say agrees; the size of a bucket is always defined.\<close>

lemma native_agrees:
  "table_native_endpoint ep t = table_native_address (ep_address ep) t"
  "node_native_endpoint p ep = node_native_address p (ep_address ep)"
  "table_native_address a t = node_native_address (m_protocol t) a"
  by (cases "m_protocol t"; cases p; simp add: table_native_endpoint_def table_native_address_def
      node_native_endpoint_def node_native_address_def)+

lemma bucket_size_defined:
  assumes "length (m_buckets t) \<le> 2147483647" "0 \<le> bucket"
  shows "bucket_size_at bucket t = Some
    (if m_buckets t = [] then 0
     else to_int32 (int (length (live_nodes (m_buckets t ! min (nat bucket) (length (m_buckets t) - 1))))))"
proof -
  have n: "to_int32 (int (length (m_buckets t))) = int (length (m_buckets t))"
    using assms(1) by (intro to_int32_id) (simp add: in_int32_def)
  show ?thesis
  proof (cases "int (length (m_buckets t)) \<le> bucket")
    case True
    then have "nat (int (length (m_buckets t)) - 1) = min (nat bucket) (length (m_buckets t) - 1)"
      by linarith
    with True show ?thesis by (simp add: bucket_size_at_def n Let_def)
  next
    case False
    then have "nat bucket = min (nat bucket) (length (m_buckets t) - 1)" by linarith
    with False assms(2) show ?thesis by (auto simp: bucket_size_at_def n Let_def)
  qed
qed

lemma cleared_item: "item_empty (item_clear i)"
  by (simp add: item_empty_def item_clear_def)

section \<open>A request is answered once\<close>

definition direct_ok :: "direct_request \<Rightarrow> bool" where
  "direct_ok r \<longleftrightarrow> (flag_test (flag_and (observer_flags r) flag_done) \<longleftrightarrow> \<not> m_cb r)"

lemma flag_done_set: "flag_test (flag_and (flag_or f flag_done) flag_done)"
  by (simp add: flag_done_def flag_test_bit flag_or_def bit_or_iff bit_flag_bit)

lemma flag_done_again: "flag_test (flag_and f flag_done) \<Longrightarrow> flag_or f flag_done = f"
  by (rule bit_word_eqI) (auto simp: flag_done_def flag_test_bit flag_or_def bit_or_iff bit_flag_bit)

interpretation direct: one_shot direct_step direct_ok "\<lambda>r. \<not> m_cb r" "\<lambda>r. length (cb_calls r)"
proof
  fix r :: direct_request and e assume ok: "direct_ok r"
  show "direct_ok (direct_step r e)"
    using ok by (cases e) (auto simp: direct_ok_def direct_reply_def direct_timeout_def invoke_cb_def
        flag_done_set)
  show "direct_step r e = r" if "\<not> m_cb r"
    using ok that by (cases e) (auto simp: direct_ok_def direct_reply_def direct_timeout_def
        invoke_cb_def flag_done_again)
  show "length (cb_calls (direct_step r e)) =
      length (cb_calls r) + (if \<not> m_cb (direct_step r e) then 1 else 0)" if "\<not> \<not> m_cb r"
    using ok that by (cases e) (auto simp: direct_ok_def direct_reply_def direct_timeout_def invoke_cb_def)
qed

text \<open>What the callback is told: the reply, or an empty message from the target.\<close>

fun answer :: "direct_request \<Rightarrow> direct_event \<Rightarrow> dht_msg" where
  "answer r (Reply m) = m"
| "answer r Timeout = \<lparr>msg_node = None, msg_addr = target_ep r\<rparr>"

text \<open>
  C32. A direct request is answered exactly once. From a request that has its callback and is not
  done, replies and timeouts may come in any number and order: the first one calls the callback,
  with the reply or with an empty message from the address that was asked, and then ends the
  traversal; after it no event has any effect. A request that was marked as done does not time out.
\<close>

theorem direct_request_answered_once:
  assumes "m_cb r" "\<not> flag_test (flag_and (observer_flags r) flag_done)"
  shows "foldl direct_step r (e # es) =
      r\<lparr>observer_flags := flag_or (observer_flags r) flag_done, m_cb := False,
        cb_calls := cb_calls r @ [answer r e], done_calls := Suc (done_calls r)\<rparr> \<and>
    direct_timeout (r\<lparr>observer_flags := flag_or (observer_flags r) flag_done\<rparr>) =
      r\<lparr>observer_flags := flag_or (observer_flags r) flag_done\<rparr>"
proof -
  have ok: "direct_ok r" using assms by (simp add: direct_ok_def)
  have first: "direct_step r e =
      r\<lparr>observer_flags := flag_or (observer_flags r) flag_done, m_cb := False,
        cb_calls := cb_calls r @ [answer r e], done_calls := Suc (done_calls r)\<rparr>"
    using assms by (cases e) (simp_all add: direct_reply_def direct_timeout_def invoke_cb_def)
  have "direct_ok (direct_step r e)" "\<not> m_cb (direct_step r e)"
    using direct.step_inv [OF ok, of e] first by simp_all
  then have "foldl direct_step (direct_step r e) es = direct_step r e"
    by (rule direct.finished_run)
  with first show ?thesis by (simp add: direct_timeout_def flag_done_set)
qed

theorem direct_request_answered_once_witness:
  "cb_calls (foldl direct_step (direct_traversal_init 0 default_endpoint True)
     [Timeout, Reply \<lparr>msg_node = Some [100, 101], msg_addr = default_endpoint\<rparr>, Timeout]) =
   [\<lparr>msg_node = None, msg_addr = default_endpoint\<rparr>]"
proof -
  let ?r = "direct_traversal_init 0 default_endpoint True"
  have "m_cb ?r" "\<not> flag_test (flag_and (observer_flags ?r) flag_done)"
    by (simp_all add: direct_traversal_init_def flag_test_def flag_and_def)
  from conjunct1 [OF direct_request_answered_once [OF this, of Timeout
    "[Reply \<lparr>msg_node = Some [100, 101], msg_addr = default_endpoint\<rparr>, Timeout]"]]
  show ?thesis by (simp only:) (simp add: direct_traversal_init_def)
qed

end
