(* ===== verification/Peer_List.thy ===== *)
theory Peer_List
  imports Torrent_Peer Sorted_Vector
begin

text \<open>
  \<open>peer_list.hpp\<close>: the list of all known peers of a torrent, as far as the header defines it: its
  sizes and the search for an address. The list is a deque of pointers, kept in the order of
  \<open>Torrent_Peer\<close>; what a pointer points to is read from a store. Adding and removing peers is in the
  prebuilt library.
\<close>

section \<open>Operations\<close>

type_synonym peer_ptr = nat
type_synonym peer_store = "peer_ptr \<Rightarrow> peer"

record peer_list =
  m_peers :: "peer_ptr list"
  m_locked_peer :: "peer_ptr option"
  m_num_seeds :: "31 word"
  m_finished :: bool
  m_round_robin :: int
  m_candidate_cache :: "peer_ptr list"
  m_num_connect_candidates :: int
  m_max_failcount :: int

definition pl_num_peers :: "peer_list \<Rightarrow> int" where
  "pl_num_peers l = to_int32 (int (length (m_peers l)))"

definition pl_num_candidate_cache :: "peer_list \<Rightarrow> int" where
  "pl_num_candidate_cache l = to_int32 (int (length (m_candidate_cache l)))"

definition pl_num_seeds :: "peer_list \<Rightarrow> int" where
  "pl_num_seeds l = uint (m_num_seeds l)"

definition pl_num_connect_candidates :: "peer_list \<Rightarrow> int" where
  "pl_num_connect_candidates l = m_num_connect_candidates l"

text \<open>
  \<open>std::equal_range\<close> with \<open>peer_address_compare\<close>: the lower and the upper bound of the address, as
  positions of the deque.
\<close>

definition equal_range :: "peer_store \<Rightarrow> peer_ptr list \<Rightarrow> address \<Rightarrow> nat \<times> nat" where
  "equal_range st ps a =
     (partition_point (\<lambda>p. less_peer_address (st p) a) ps,
      partition_point (\<lambda>p. \<not> less_address_peer a (st p)) ps)"

text \<open>The two overloads: the first, on a list that may be changed, knows the address of I2P peers.\<close>

definition find_peers :: "peer_store \<Rightarrow> peer_list \<Rightarrow> address \<Rightarrow> nat \<times> nat" where
  "find_peers st l a =
     (if a = ep_address default_endpoint then (length (m_peers l), length (m_peers l))
      else equal_range st (m_peers l) a)"

definition find_peers_const :: "peer_store \<Rightarrow> peer_list \<Rightarrow> address \<Rightarrow> nat \<times> nat" where
  "find_peers_const st l a = equal_range st (m_peers l) a"

section \<open>The search\<close>

definition peers_sorted :: "peer_store \<Rightarrow> peer_list \<Rightarrow> bool" where
  "peers_sorted st l = sorted_wrt (\<lambda>p q. \<not> peer_less (st q) (st p)) (m_peers l)"

text \<open>The pointers between two positions.\<close>

definition between :: "nat \<times> nat \<Rightarrow> 'a list \<Rightarrow> 'a list" where
  "between r xs = take (snd r - fst r) (drop (fst r) xs)"

definition has_address :: "peer_store \<Rightarrow> address \<Rightarrow> peer_ptr \<Rightarrow> bool" where
  "has_address st a p \<longleftrightarrow> \<not> is_i2p_addr (st p) \<and> peer_address (st p) = a"

lemma has_address_key: "has_address st a p \<longleftrightarrow> key_of (st p) = Ip_Key a"
  by (cases "st p") (simp_all add: has_address_def)

lemma equal_range_sections:
  fixes a :: address
  assumes "sorted_wrt (\<lambda>p q. \<not> peer_less (st q) (st p)) ps"
  defines "below \<equiv> filter (\<lambda>p. less_peer_address (st p) a) ps"
  shows "equal_range st ps a = (length below, length below + length (filter (has_address st a) ps))"
    and "ps = below @ filter (has_address st a) ps @ filter (\<lambda>p. less_address_peer a (st p)) ps"
proof -
  let ?at = "filter (has_address st a) ps" and ?above = "filter (\<lambda>p. less_address_peer a (st p)) ps"
  have "sorted_wrt (\<lambda>p q. key_of (st p) \<le> key_of (st q)) ps"
    using assms(1) by (simp add: compares_keys not_less)
  moreover have "has_address st a = (\<lambda>p. key_of (st p) = Ip_Key a)"
    by (simp add: fun_eq_iff has_address_key)
  ultimately show split: "ps = below @ ?at @ ?above"
    using sections [of "\<lambda>p. key_of (st p)" ps "Ip_Key a"] by (simp only: below_def compares_keys)
  have lower: "partition_point (\<lambda>p. less_peer_address (st p) a) (below @ (?at @ ?above)) = length below"
    by (rule partition_point_append) (auto simp: below_def has_address_key compares_keys)
  have upper: "partition_point (\<lambda>p. \<not> less_address_peer a (st p)) ((below @ ?at) @ ?above) =
      length (below @ ?at)"
    by (rule partition_point_append) (auto simp: below_def has_address_key compares_keys)
  from lower upper show "equal_range st ps a = (length below, length below + length ?at)"
    by (simp add: equal_range_def split [symmetric])
qed

text \<open>
  C33. Searching the peers of a torrent finds them all. While the list is in the order of its
  comparison, both overloads of \<open>find_peers\<close> return the range that holds exactly the peers of an
  address, in the order of the list, with smaller peers in front of it and greater ones behind; only
  for the address that stands for I2P peers, the overload that may change the list returns the empty
  range at its end.
\<close>

theorem find_peers_complete:
  assumes "peers_sorted st l"
  shows "let r = find_peers_const st l a in
    fst r \<le> snd r \<and> snd r \<le> length (m_peers l) \<and>
    between r (m_peers l) = filter (has_address st a) (m_peers l) \<and>
    (\<forall>p \<in> set (take (fst r) (m_peers l)). less_peer_address (st p) a) \<and>
    (\<forall>p \<in> set (drop (snd r) (m_peers l)). less_address_peer a (st p)) \<and>
    find_peers st l a =
      (if a = ep_address default_endpoint then (length (m_peers l), length (m_peers l)) else r)"
proof -
  let ?ps = "m_peers l"
  let ?below = "filter (\<lambda>p. less_peer_address (st p) a) ?ps" and ?at = "filter (has_address st a) ?ps"
    and ?above = "filter (\<lambda>p. less_address_peer a (st p)) ?ps"
  note s = equal_range_sections [OF assms(1) [unfolded peers_sorted_def], of a]
  have r: "find_peers_const st l a = (length ?below, length ?below + length ?at)"
    using s(1) by (simp add: find_peers_const_def)
  have len: "length ?ps = length ?below + length ?at + length ?above"
    using arg_cong [OF s(2), of length] by simp
  have "take (length ?below) (?below @ ?at @ ?above) = ?below"
    "drop (length ?below) (?below @ ?at @ ?above) = ?at @ ?above"
    "drop (length ?below + length ?at) (?below @ ?at @ ?above) = ?above" by simp_all
  then have "take (length ?below) ?ps = ?below" "drop (length ?below) ?ps = ?at @ ?above"
    "drop (length ?below + length ?at) ?ps = ?above" by (simp_all only: s(2) [symmetric])
  with r len show ?thesis
    by (simp add: Let_def between_def find_peers_def find_peers_const_def)
qed

definition some_peers :: peer_list where
  "some_peers = \<lparr>m_peers = [0, 1, 2], m_locked_peer = None, m_num_seeds = 0, m_finished = False,
     m_round_robin = 0, m_candidate_cache = [], m_num_connect_candidates = 0, m_max_failcount = 3\<rparr>"

theorem find_peers_complete_witness:
  "between (find_peers_const (nth three_peers) some_peers (IPv4 2)) (m_peers some_peers) = [1]"
proof -
  have "peers_sorted (nth three_peers) some_peers"
    by (simp add: peers_sorted_def some_peers_def three_peers_def Let_def compares_keys
        less_peer_key_def less_address_def)
  from find_peers_complete [OF this, of "IPv4 2"] show ?thesis
    by (simp add: some_peers_def three_peers_def Let_def has_address_def)
qed

end
