(* ===== verification/Device_Binding.thy ===== *)
theory Device_Binding
  imports Socket_Options Byte_Text Flags
begin

text \<open>
  \<open>enum_net.hpp\<close>: binding the socket of an outgoing connection to a device, with
  \<open>aux_/bind_to_device.hpp\<close>, and \<open>aux_/set_traffic_class.hpp\<close>. Parsing an address and listing the
  interfaces of the machine are in the prebuilt library and in \<open>boost::asio\<close>; they are fields of a
  record, as are the operations of the socket.
\<close>

section \<open>Interfaces\<close>

definition if_up :: u32 where "if_up = flag_bit 0"
definition if_broadcast :: u32 where "if_broadcast = flag_bit 1"
definition if_loopback :: u32 where "if_loopback = flag_bit 2"
definition if_pointopoint :: u32 where "if_pointopoint = flag_bit 3"
definition if_running :: u32 where "if_running = flag_bit 4"
definition if_noarp :: u32 where "if_noarp = flag_bit 5"
definition if_promisc :: u32 where "if_promisc = flag_bit 6"
definition if_allmulti :: u32 where "if_allmulti = flag_bit 7"
definition if_master :: u32 where "if_master = flag_bit 8"
definition if_slave :: u32 where "if_slave = flag_bit 9"
definition if_multicast :: u32 where "if_multicast = flag_bit 10"
definition if_dynamic :: u32 where "if_dynamic = flag_bit 11"
definition if_lower_up :: u32 where "if_lower_up = flag_bit 12"
definition if_dormant :: u32 where "if_dormant = flag_bit 13"

datatype if_state = State_Up | State_Dormant | State_Lowerlayerdown | State_Down | State_Notpresent |
  State_Testing | State_Unknown

text \<open>The names are arrays of 64, 128 and 128 characters, read up to the first zero.\<close>

record ip_interface =
  interface_address :: address
  netmask :: address
  iface_name :: bytes
  friendly_name :: bytes
  description :: bytes
  preferred :: bool
  iface_flags :: u32
  iface_state :: if_state

definition ip_interface_init :: ip_interface where
  "ip_interface_init = \<lparr>interface_address = ep_address default_endpoint,
     netmask = ep_address default_endpoint, iface_name = replicate 64 0,
     friendly_name = replicate 128 0, description = replicate 128 0, preferred = True,
     iface_flags = if_up, iface_state = State_Unknown\<rparr>"

section \<open>Binding\<close>

datatype tcp_protocol = Tcp_V4 | Tcp_V6

record 's binding_ops =
  sock_bind :: "endpoint \<Rightarrow> 's \<Rightarrow> 's \<times> error_code"
  sock_bind_device :: "bytes \<Rightarrow> 's \<Rightarrow> 's \<times> error_code"
  make_address :: "bytes \<Rightarrow> address \<times> error_code"
  enum_net_interfaces :: "ip_interface list \<times> error_code"

definition address_v4_any :: address where "address_v4_any = IPv4 0"
definition address_v6_any :: address where "address_v6_any = IPv6 (replicate 16 0)"

text \<open>\<open>bind_device\<close> sets the option that names the device, on Linux and Android \<open>SO_BINDTODEVICE\<close>.\<close>

definition bind_device :: "'s binding_ops \<Rightarrow> bytes \<Rightarrow> 's \<Rightarrow> 's \<times> error_code" where
  "bind_device ops device s = sock_bind_device ops device s"

definition no_such_device :: error_code where "no_such_device = Other_Error 19"

definition iface_matches :: "tcp_protocol \<Rightarrow> bytes \<Rightarrow> ip_interface \<Rightarrow> bool" where
  "iface_matches protocol device iface \<longleftrightarrow> bytes_c_str (iface_name iface) = device \<and>
     is_v4 (interface_address iface) = (protocol = Tcp_V4)"

text \<open>The result is the address, the socket and the error code the caller is left with.\<close>

definition bind_socket_to_device ::
    "'s binding_ops \<Rightarrow> tcp_protocol \<Rightarrow> bytes \<Rightarrow> int \<Rightarrow> 's \<Rightarrow> address \<times> 's \<times> error_code" where
  "bind_socket_to_device ops protocol device port s =
     (let bind_to = (\<lambda>a s. (a, sock_bind ops \<lparr>ep_address = a, ep_port = word_of_int port\<rparr> s));
          (ip, ec) = make_address ops device
      in if \<not> failed ec
         then bind_to (if ip = address_v4_any \<and> protocol = Tcp_V6 then address_v6_any else ip) s
         else (let (s, ec) = bind_device ops device s
           in if \<not> failed ec then bind_to address_v4_any s
              else (let (ifs, ec) = enum_net_interfaces ops
                in if failed ec then (address_v4_any, s, ec)
                   else (case find (iface_matches protocol device) ifs of
                       None \<Rightarrow> (address_v4_any, s, no_such_device)
                     | Some iface \<Rightarrow> bind_to (interface_address iface) s))))"

section \<open>Traffic class\<close>

datatype class_option = Traffic_Class | Type_Of_Service

definition set_traffic_class ::
    "('s \<Rightarrow> endpoint \<times> error_code) \<Rightarrow> (class_option \<Rightarrow> int \<Rightarrow> 's \<Rightarrow> 's \<times> error_code) \<Rightarrow>
     int \<Rightarrow> 's \<Rightarrow> 's \<times> error_code" where
  "set_traffic_class local_endpoint set_opt v s =
     (let (ep, ec) = local_endpoint s in
      if \<not> is_v4 (ep_address ep) then set_opt Traffic_Class (and v 0xfc) s
      else if \<not> failed ec then set_opt Type_Of_Service (and v 0xfc) s
      else (s, ec))"

section \<open>What the socket is bound to\<close>

text \<open>
  The addresses a call may bind to: the number that was given, with the unspecified IPv4 address
  read as the one of the protocol; any address, when the device itself was bound; or the first
  interface with the name and an address of the family of the protocol.
\<close>

definition binding_allowed ::
    "'s binding_ops \<Rightarrow> tcp_protocol \<Rightarrow> bytes \<Rightarrow> 's \<Rightarrow> address \<Rightarrow> 's \<Rightarrow> bool" where
  "binding_allowed ops protocol device s a s1 \<longleftrightarrow>
     (let (ip, ec) = make_address ops device; (sd, ecd) = bind_device ops device s;
          (ifs, eci) = enum_net_interfaces ops in
      \<not> failed ec \<and> s1 = s \<and> (a = ip \<or> ip = address_v4_any \<and> protocol = Tcp_V6 \<and> a = address_v6_any) \<and>
        (a = address_v4_any \<longrightarrow> protocol = Tcp_V4) \<or>
      failed ec \<and> s1 = sd \<and> \<not> failed ecd \<and> a = address_v4_any \<or>
      failed ec \<and> s1 = sd \<and> failed ecd \<and> \<not> failed eci \<and> is_v4 a = (protocol = Tcp_V4) \<and>
        (\<exists>before iface after. ifs = before @ iface # after \<and> interface_address iface = a \<and>
           bytes_c_str (iface_name iface) = device \<and>
           \<not> (\<exists>i \<in> set before. bytes_c_str (iface_name i) = device \<and>
               is_v4 (interface_address i) = (protocol = Tcp_V4))))"

text \<open>
  Binding to a device. \<open>bind\<close> of the socket is called at most once; the call succeeds exactly
  when that \<open>bind\<close> does, the address that is returned is then the one the socket is bound to, with
  the given port, and it is one of those above. When \<open>bind\<close> is not called, the caller is told an
  error: the one of the enumeration or, exactly when no interface with the name has an address of the
  family, \<open>no_such_device\<close>.
\<close>

lemma device_binding_sound:
  assumes "bind_socket_to_device ops protocol device port s = (a, s', ec)"
  shows "(\<exists>s1. binding_allowed ops protocol device s a s1 \<and>
      (s', ec) = sock_bind ops \<lparr>ep_address = a, ep_port = word_of_int port\<rparr> s1) \<or>
    a = address_v4_any \<and> failed ec \<and> failed (snd (make_address ops device)) \<and>
      s' = fst (bind_device ops device s) \<and> failed (snd (bind_device ops device s)) \<and>
      (failed (snd (enum_net_interfaces ops)) \<and> ec = snd (enum_net_interfaces ops) \<or>
       \<not> failed (snd (enum_net_interfaces ops)) \<and> ec = no_such_device \<and>
         (\<forall>i \<in> set (fst (enum_net_interfaces ops)). bytes_c_str (iface_name i) = device \<longrightarrow>
            is_v4 (interface_address i) \<noteq> (protocol = Tcp_V4)))"
proof -
  obtain ip ec0 where m: "make_address ops device = (ip, ec0)" by fastforce
  obtain sd ecd where d: "bind_device ops device s = (sd, ecd)" by fastforce
  obtain ifs eci where i: "enum_net_interfaces ops = (ifs, eci)" by fastforce
  note call = assms [unfolded bind_socket_to_device_def Let_def m d i prod.case]
  consider "\<not> failed ec0" | "failed ec0" "\<not> failed ecd" | "failed ec0" "failed ecd" by blast
  then show ?thesis
  proof cases
    case 1
    with call have "binding_allowed ops protocol device s a s"
      by (cases protocol) (auto simp: binding_allowed_def m d i address_v4_any_def address_v6_any_def
          split: if_splits)
    with call 1 show ?thesis by (auto split: if_splits)
  next
    case 2
    with call have "binding_allowed ops protocol device s a sd"
      by (simp add: binding_allowed_def m d i)
    with call 2 show ?thesis by auto
  next
    case 3
    show ?thesis
    proof (cases "failed eci")
      case True
      with call 3 show ?thesis by (simp add: m d i)
    next
      case eci: False
      show ?thesis
      proof (cases "find (iface_matches protocol device) ifs = None")
        case True
        then have "\<forall>i \<in> set ifs. \<not> iface_matches protocol device i" by (auto simp: find_None_iff)
        with call 3 eci True show ?thesis
          by (auto simp: m d i no_such_device_def iface_matches_def)
      next
        case False
        then obtain iface where f: "find (iface_matches protocol device) ifs = Some iface" by auto
        then obtain n where n: "n < length ifs" "iface_matches protocol device (ifs ! n)" "iface = ifs ! n"
          "\<forall>j < n. \<not> iface_matches protocol device (ifs ! j)" by (auto simp: find_Some_iff)
        then have "ifs = take n ifs @ iface # drop (Suc n) ifs" by (simp add: id_take_nth_drop)
        moreover have "\<not> (\<exists>i \<in> set (take n ifs). iface_matches protocol device i)"
          using n(1,4) by (auto simp: in_set_conv_nth)
        ultimately have "binding_allowed ops protocol device s (interface_address iface) sd"
          using 3 eci n(2,3) unfolding binding_allowed_def m d i Let_def prod.case iface_matches_def by blast
        with call 3 eci f show ?thesis by auto
      qed
    qed
  qed
qed

text \<open>
  A socket that remembers what it was bound to, on a machine with two interfaces, without the right
  to bind to a device.
\<close>

definition two_interfaces :: "(endpoint list) binding_ops" where
  "two_interfaces = \<lparr>sock_bind = (\<lambda>ep s. (s @ [ep], Success)), sock_bind_device = (\<lambda>d s. (s, Asio no_permission)),
     make_address = (\<lambda>d. (address_v4_any, Asio operation_not_supported)),
     enum_net_interfaces =
       ([ip_interface_init\<lparr>iface_name := [119, 0, 120], interface_address := IPv6 (replicate 16 1)\<rparr>,
         ip_interface_init\<lparr>iface_name := [119, 0], interface_address := IPv4 7\<rparr>], Success)\<rparr>"

lemma two_interfaces_binding:
  "bind_socket_to_device two_interfaces Tcp_V4 [119] 65537 [] =
    (IPv4 7, [\<lparr>ep_address = IPv4 7, ep_port = 1\<rparr>], Success)"
  by (simp add: bind_socket_to_device_def two_interfaces_def bind_device_def Let_def iface_matches_def
      bytes_c_str_def)

text \<open>
  After the device was bound, the address is the IPv4 one whatever the protocol: a socket of IPv6,
  which refuses it, cannot be bound to a device.
\<close>

lemma device_bound_v6_socket:
  assumes "failed (snd (make_address ops device))" "bind_device ops device s = (s1, Success)"
    and "\<And>a p t. is_v4 a \<Longrightarrow> sock_bind ops \<lparr>ep_address = a, ep_port = p\<rparr> t = (t, Asio address_family_not_supported)"
  shows "bind_socket_to_device ops Tcp_V6 device port s =
    (address_v4_any, s1, Asio address_family_not_supported)"
  using assms by (simp add: bind_socket_to_device_def address_v4_any_def case_prod_unfold)

text \<open>One option is set at most, always to a multiple of 4 below 256.\<close>

lemma traffic_class_value:
  "0 \<le> (and v 0xfc :: int) \<and> (and v 0xfc :: int) \<le> 252 \<and> (and v 0xfc :: int) mod 4 = 0"
proof -
  have "(and v 0xfc :: int) \<le> 252" by (simp add: AND_upper2)
  moreover have "0 \<le> (and v 0xfc :: int)" by simp
  moreover have "take_bit 2 (and v 0xfc :: int) = 0"
    by (rule bit_eqI) (auto simp: bit_simps less_2_cases_iff)
  ultimately show ?thesis by (simp add: take_bit_eq_mod)
qed

end
