(* ===== verification/Bdecode_Token.thy ===== *)
theory Bdecode_Token
  imports Bencode
begin

text \<open>
  \<open>bdecode.hpp\<close>: the tokens of which \<open>bdecode\<close> builds its tree. A token has eight bytes, four
  bit fields: where the node starts in the buffer, its type, how many tokens to skip to the next
  item, and for strings the length of the prefix in front of the characters, of which the part that
  every string has is implied. Parsing is in the prebuilt library.
\<close>

section \<open>Tokens\<close>

datatype token_type = Tok_None | Tok_Dict | Tok_List | Tok_String | Tok_Integer | Tok_Long_String | Tok_End

definition max_offset :: int where "max_offset = push_bit 29 1 - 1"
definition max_next_item :: int where "max_next_item = push_bit 29 1 - 1"
definition short_string_max_header :: int where "short_string_max_header = push_bit 3 1 - 1 + 2"
definition long_string_max_header :: int where "long_string_max_header = 8 + push_bit 3 1 - 1 + 2"

record bdecode_token =
  tok_offset :: "29 word"
  tok_type :: token_type
  next_item :: "29 word"
  tok_header :: "3 word"

text \<open>The two constructors. The header is computed with 32-bit unsigned integers, then cut to its field.\<close>

definition simple_token :: "int \<Rightarrow> token_type \<Rightarrow> bdecode_token" where
  "simple_token off t =
     \<lparr>tok_offset = ucast (word_of_int off :: u32), tok_type = t, next_item = 0, tok_header = 0\<rparr>"

definition make_token :: "int \<Rightarrow> u32 \<Rightarrow> token_type \<Rightarrow> u32 \<Rightarrow> bdecode_token" where
  "make_token off next t header_size =
     (let ty = (if t = Tok_String \<and> uint header_size > short_string_max_header then Tok_Long_String else t) in
      \<lparr>tok_offset = ucast (word_of_int off :: u32), tok_type = ty, next_item = ucast next,
       tok_header = (if ty = Tok_String then ucast (header_size - 2)
         else if ty = Tok_Long_String then ucast (header_size - 8 - 2) else 0)\<rparr>)"

definition start_offset :: "bdecode_token \<Rightarrow> int" where
  "start_offset t = (if tok_type t = Tok_String then uint (tok_header t) + 2 else uint (tok_header t) + 8 + 2)"

section \<open>What a token keeps\<close>

lemma token_limits:
  "max_offset = 536870911" "max_next_item = 536870911"
  "short_string_max_header = 9" "long_string_max_header = 17"
  by (simp_all add: max_offset_def max_next_item_def short_string_max_header_def long_string_max_header_def)

lemma uint_low_bits:
  fixes w :: u32
  shows "uint (ucast w :: 3 word) = uint w mod 8" "uint (ucast w :: 29 word) = uint w mod 536870912"
  by (simp_all add: unsigned_ucast_eq take_bit_eq_mod)

lemma uint_header: "0 \<le> hs \<Longrightarrow> hs \<le> long_string_max_header \<Longrightarrow> uint (word_of_int hs :: u32) = hs"
  by (simp add: uint_word_of_int take_bit_eq_mod token_limits)

lemma header_recovered:
  assumes "2 \<le> hs" "hs \<le> long_string_max_header"
  shows "start_offset (make_token off next Tok_String (word_of_int hs)) = hs"
proof -
  have hs: "2 \<le> hs" "hs \<le> 17" using assms by (simp_all add: token_limits)
  have u: "uint (word_of_int hs :: u32) = hs"
    using assms by (intro uint_header) simp_all
  have s: "uint (word_of_int hs - 2 :: u32) = hs - 2"
    using hs u by (simp add: uint_sub_if_size word_le_def)
  show ?thesis
  proof (cases "hs \<le> 9")
    case True
    with hs show ?thesis by (simp add: make_token_def start_offset_def token_limits u uint_low_bits s)
  next
    case False
    have "(word_of_int hs - 8 - 2 :: u32) = word_of_int hs - 10" by simp
    moreover have "uint (word_of_int hs - 10 :: u32) = hs - 10"
      using hs u False by (simp add: uint_sub_if_size word_le_def)
    ultimately show ?thesis
      using False hs by (simp add: make_token_def start_offset_def token_limits u uint_low_bits Let_def)
  qed
qed

lemma offset_recovered:
  "0 \<le> off \<Longrightarrow> off \<le> max_offset \<Longrightarrow> uint (tok_offset (make_token off next t h)) = off"
  "uint next \<le> max_next_item \<Longrightarrow> uint (next_item (make_token off next t h)) = uint next"
  by (simp_all add: make_token_def Let_def uint_low_bits token_limits uint_word_of_int take_bit_eq_mod)

text \<open>A longer prefix than the limit, or none, would be read back as another one.\<close>

lemma header_lost:
  "start_offset (make_token off next Tok_String 18) = 10"
  "start_offset (make_token off next Tok_String 1) = 9"
  by (simp_all add: make_token_def start_offset_def token_limits uint_low_bits unsigned_minus_1_eq_mask mask_eq_exp_minus_1)

lemma length_nat_str_ge: "10 ^ k \<le> n \<Longrightarrow> Suc k \<le> length (nat_str n)"
proof (induction k arbitrary: n)
  case 0
  then show ?case by (simp add: Suc_le_eq)
next
  case (Suc k)
  then have "10 ^ k \<le> n div 10" "\<not> n < 10"
    by (simp_all add: less_eq_div_iff_mult_less_eq mult.commute)
      (metis One_nat_def le_trans less_le_not_le mult.right_neutral mult_le_mono2 one_le_numeral one_le_power)
  with Suc.IH [of "n div 10"] show ?case by (subst nat_str.simps) simp
qed

section \<open>Property\<close>

text \<open>
  C40. A token finds its string. Wherever a bencoded string stands in a buffer within the limits of
  a token, the token that is made of its offset and of the length of its prefix is of one of the two
  string types, of the long one exactly when the string has a hundred million bytes or more; its
  fields give back the offset and the number of tokens to skip, and together with
  \<open>start_offset\<close> the position of the first character, from which on exactly the string follows.
\<close>

theorem token_finds_string:
  assumes "int (length pre + length s) \<le> max_offset" "uint next \<le> max_next_item"
  shows "let t = make_token (int (length pre)) next Tok_String
        (word_of_int (int (length (sized_bytes s) - length s)));
      first = nat (uint (tok_offset t) + start_offset t) in
    tok_type t = (if 10 ^ 8 \<le> length s then Tok_Long_String else Tok_String) \<and>
    uint (tok_offset t) = int (length pre) \<and> uint (next_item t) = uint next \<and>
    drop first (pre @ sized_bytes s @ post) = s @ post"
proof -
  let ?hs = "int (length (sized_bytes s) - length s)"
  let ?t = "make_token (int (length pre)) next Tok_String (word_of_int ?hs)"
  let ?first = "nat (uint (tok_offset ?t) + start_offset ?t)"
  have hs: "?hs = int (length (nat_str (length s))) + 1"
    by (simp add: sized_bytes_def int_str_def ascii_def)
  have len: "length s < 10 ^ Suc 8" using assms(1) by (simp add: token_limits)
  have digits: "1 \<le> length (nat_str (length s))" "length (nat_str (length s)) \<le> 9"
    using length_nat_str [OF len] by (simp_all add: Suc_le_eq)
  have range: "2 \<le> ?hs" "?hs \<le> long_string_max_header"
    using digits by (simp_all add: hs token_limits)
  have off: "uint (tok_offset ?t) = int (length pre)"
    using assms(1) by (intro offset_recovered) simp_all
  have "?first = length (pre @ ascii (int_str (int (length s))) @ [58])"
    unfolding off header_recovered [OF range] by (simp add: sized_bytes_def int_str_def ascii_def nat_add_distrib)
  then have rest: "drop ?first (pre @ sized_bytes s @ post) = s @ post"
    using append_eq_conv_conj [of "pre @ ascii (int_str (int (length s))) @ [58]" "s @ post"
        "pre @ sized_bytes s @ post"]
    by (simp add: sized_bytes_def)
  have "10 ^ 8 \<le> length s \<longleftrightarrow> 9 \<le> length (nat_str (length s))"
    using length_nat_str [of "length s" 7] length_nat_str_ge [of 8 "length s"] by fastforce
  moreover have "uint (word_of_int ?hs :: u32) = ?hs"
    using range by (intro uint_header) simp_all
  ultimately have "tok_type ?t = (if 10 ^ 8 \<le> length s then Tok_Long_String else Tok_String)"
    by (simp add: make_token_def Let_def token_limits hs)
  with off rest offset_recovered(2) [OF assms(2)] show ?thesis unfolding Let_def by blast
qed

theorem token_finds_string_witness:
  "let t = make_token 1 4 Tok_String 2 in
    drop (nat (uint (tok_offset t) + start_offset t)) ([100] @ sized_bytes [104, 105] @ [101]) =
      [104, 105, 101 :: byte]"
proof -
  have "length (sized_bytes [104, 105]) = 4"
    by (simp add: sized_bytes_def int_str_def nat_str.simps ascii_def)
  with token_finds_string [of "[100]" "[104, 105]" 4 "[101]"] show ?thesis
    by (simp only: token_limits Let_def list.size) (simp, elim conjE, simp)
qed

end
