(* ===== verification/Containers.thy ===== *)
theory Containers
  imports Getzy_Prelude
begin

text \<open>
  The vocabulary of the library: \<open>span.hpp\<close> (a part of an array that somebody else owns),
  \<open>units.hpp\<close> (the strongly typed integers), \<open>index_range.hpp\<close>, \<open>aux_/container_wrapper.hpp\<close> and
  \<open>aux_/range.hpp\<close> (containers with such an index, and loops over the indices). A pointer is an
  address of a memory, \<open>None\<close> where it holds no object; the index types are 32-bit signed integers,
  whose overflow is undefined, \<open>None\<close>.
\<close>

section \<open>span\<close>

type_synonym 'a mem = "int \<Rightarrow> 'a option"

record span =
  m_ptr :: int
  m_len :: int

definition span_empty_init :: span where "span_empty_init = \<lparr>m_ptr = 0, m_len = 0\<rparr>"
definition span_of_one :: "int \<Rightarrow> span" where "span_of_one p = \<lparr>m_ptr = p, m_len = 1\<rparr>"
definition span_of :: "int \<Rightarrow> int \<Rightarrow> span" where "span_of p l = \<lparr>m_ptr = p, m_len = l\<rparr>"
definition span_copy :: "span \<Rightarrow> span" where "span_copy v = \<lparr>m_ptr = m_ptr v, m_len = m_len v\<rparr>"

definition span_size :: "span \<Rightarrow> int" where "span_size s = m_len s"
definition span_empty :: "span \<Rightarrow> bool" where "span_empty s \<longleftrightarrow> m_len s = 0"
definition span_data :: "span \<Rightarrow> int" where "span_data s = m_ptr s"
definition span_begin :: "span \<Rightarrow> int" where "span_begin s = m_ptr s"
definition span_end :: "span \<Rightarrow> int" where "span_end s = m_ptr s + m_len s"

definition span_front :: "'a mem \<Rightarrow> span \<Rightarrow> 'a option" where "span_front mem s = mem (m_ptr s)"
definition span_back :: "'a mem \<Rightarrow> span \<Rightarrow> 'a option" where "span_back mem s = mem (m_ptr s + (m_len s - 1))"
definition span_at :: "'a mem \<Rightarrow> span \<Rightarrow> int \<Rightarrow> 'a option" where "span_at mem s idx = mem (m_ptr s + idx)"

definition span_first :: "int \<Rightarrow> span \<Rightarrow> span" where
  "span_first n s = span_of (span_data s) n"

definition span_last :: "int \<Rightarrow> span \<Rightarrow> span" where
  "span_last n s = span_of (span_data s + span_size s - n) n"

definition subspan_from :: "int \<Rightarrow> span \<Rightarrow> span" where
  "subspan_from off s = span_of (span_data s + off) (span_size s - off)"

definition subspan :: "int \<Rightarrow> int \<Rightarrow> span \<Rightarrow> span" where
  "subspan off cnt s = span_of (span_data s + off) cnt"

text \<open>\<open>std::equal\<close> from \<open>p\<close> and from \<open>q\<close> on, over \<open>n\<close> elements.\<close>

fun mem_equal :: "'a mem \<Rightarrow> nat \<Rightarrow> int \<Rightarrow> int \<Rightarrow> bool" where
  "mem_equal mem 0 p q = True"
| "mem_equal mem (Suc n) p q = (if mem p = mem q then mem_equal mem n (p + 1) (q + 1) else False)"

definition span_equal :: "'a mem \<Rightarrow> span \<Rightarrow> span \<Rightarrow> bool" where
  "span_equal mem l r \<longleftrightarrow> span_size l = span_size r \<and>
     (span_data l = span_data r \<or> mem_equal mem (nat (span_size l)) (span_begin l) (span_begin r))"

definition span_differs :: "'a mem \<Rightarrow> span \<Rightarrow> span \<Rightarrow> bool" where
  "span_differs mem l r \<longleftrightarrow> span_size l \<noteq> span_size r \<or>
     (span_data l \<noteq> span_data r \<and> \<not> mem_equal mem (nat (span_size l)) (span_begin l) (span_begin r))"

section \<open>Typed integers\<close>

definition index_inc :: "int \<Rightarrow> int option" where
  "index_inc v = c_int (v + 1)"

definition index_dec :: "int \<Rightarrow> int option" where
  "index_dec v = c_int (v - 1)"

definition index_plus :: "int \<Rightarrow> int \<Rightarrow> int option" where
  "index_plus l r = c_int (l + r)"

definition index_minus :: "int \<Rightarrow> int \<Rightarrow> int option" where
  "index_minus l r = c_int (l - r)"

definition index_next :: "int \<Rightarrow> int option" where "index_next v = index_inc v"
definition index_prev :: "int \<Rightarrow> int option" where "index_prev v = index_dec v"

section \<open>Ranges of indices\<close>

record index_range =
  range_first :: int
  range_last :: int

text \<open>
  A loop over a range: from \<open>begin()\<close>, while the iterator differs from \<open>end()\<close>, with \<open>++\<close> after each
  round. The result are the indices it visits.
\<close>

function index_loop :: "int \<Rightarrow> int \<Rightarrow> int list option" where
  "index_loop i e =
     (if i = e then Some []
      else if in_int32 (i + 1) then map_option ((#) i) (index_loop (i + 1) e) else None)"
  by pat_completeness auto

termination
  by (relation "measure (\<lambda>(i, e). nat (2147483648 - i))") (auto simp: in_int32_def)

declare index_loop.simps [simp del]

definition loop_over :: "index_range \<Rightarrow> int list option" where
  "loop_over r = index_loop (range_first r) (range_last r)"

section \<open>Containers with a typed index\<close>

definition container_at :: "'a list \<Rightarrow> int \<Rightarrow> 'a option" where
  "container_at c idx = (if 0 \<le> idx \<and> idx < int (length c) then Some (c ! nat idx) else None)"

definition end_index :: "'a list \<Rightarrow> int" where
  "end_index c = to_int32 (int (length c))"

definition container_range :: "'a list \<Rightarrow> index_range" where
  "container_range c = \<lparr>range_first = 0, range_last = end_index c\<rparr>"

text \<open>\<open>aux::range\<close>: the pointers to the elements from one index to another.\<close>

definition vector_range :: "int \<Rightarrow> int \<Rightarrow> int \<Rightarrow> int \<times> int" where
  "vector_range data b e = (data + b, data + e)"

section \<open>What a span shows\<close>

definition elements :: "'a mem \<Rightarrow> span \<Rightarrow> 'a option list" where
  "elements mem s = map (\<lambda>i. mem (m_ptr s + int i)) [0..<nat (m_len s)]"

lemma length_elements [simp]: "length (elements mem s) = nat (m_len s)"
  by (simp add: elements_def)

lemma nth_elements [simp]: "i < nat (m_len s) \<Longrightarrow> elements mem s ! i = mem (m_ptr s + int i)"
  by (simp add: elements_def)

lemma mem_equal_nth: "mem_equal mem n p q \<longleftrightarrow> (\<forall>i < n. mem (p + int i) = mem (q + int i))"
proof (induction n arbitrary: p q)
  case (Suc n)
  have "(\<forall>i < Suc n. mem (p + int i) = mem (q + int i)) \<longleftrightarrow>
      mem p = mem q \<and> (\<forall>i < n. mem (p + 1 + int i) = mem (q + 1 + int i))"
    by (subst All_less_Suc2) (simp add: algebra_simps)
  with Suc show ?case by simp
qed simp

text \<open>
  The parts of a span are the parts of what it shows. Within its size, \<open>first\<close>, \<open>last\<close> and the
  two \<open>subspan\<close> functions show the front, the back and the middle of the elements, never an element
  outside the span, and an element is where its index says; two spans compare equal exactly when
  they show equal elements, wherever they are, and \<open>!=\<close> is the negation of \<open>==\<close>.
\<close>

lemma span_parts:
  assumes "0 \<le> off" "0 \<le> cnt" "off + cnt \<le> m_len s"
  shows "elements mem (span_first off s) = take (nat off) (elements mem s) \<and>
    elements mem (span_last off s) = drop (nat (m_len s - off)) (elements mem s) \<and>
    elements mem (subspan_from off s) = drop (nat off) (elements mem s) \<and>
    elements mem (subspan off cnt s) = take (nat cnt) (drop (nat off) (elements mem s)) \<and>
    (off < m_len s \<longrightarrow> span_at mem s off = elements mem s ! nat off \<and>
       span_front mem s = hd (elements mem s) \<and> span_back mem s = last (elements mem s)) \<and>
    (0 \<le> m_len t \<longrightarrow> span_equal mem s t = (elements mem s = elements mem t)) \<and>
    span_differs mem s t = (\<not> span_equal mem s t)"
proof -
  have len: "0 \<le> m_len s" using assms by simp
  have "span_equal mem s t = (elements mem s = elements mem t)" if "0 \<le> m_len t"
    using that len
    by (auto simp: span_equal_def span_size_def span_data_def span_begin_def mem_equal_nth list_eq_iff_nth_eq)
  moreover have "span_at mem s off = elements mem s ! nat off \<and>
      span_front mem s = hd (elements mem s) \<and> span_back mem s = last (elements mem s)" if "off < m_len s"
  proof -
    have ne: "elements mem s \<noteq> []" using that assms(1) length_elements [of mem s] by force
    from that assms(1) ne show ?thesis
      by (simp add: span_at_def span_front_def span_back_def hd_conv_nth last_conv_nth nat_diff_distrib)
  qed
  ultimately show ?thesis
    using assms
    by (auto simp: list_eq_iff_nth_eq span_first_def span_last_def subspan_from_def subspan_def span_of_def
        span_data_def span_size_def span_differs_def span_equal_def algebra_simps nat_add_distrib [symmetric])
qed

section \<open>Loops over indices\<close>

lemma index_loop_upto:
  "i \<le> e \<Longrightarrow> in_int32 i \<Longrightarrow> in_int32 e \<Longrightarrow> index_loop i e = Some [i..e - 1]"
proof (induction "nat (e - i)" arbitrary: i)
  case 0
  then show ?case by (simp add: index_loop.simps [of i i])
next
  case (Suc n)
  then have "i < e" "in_int32 (i + 1)" by (auto simp: in_int32_def)
  moreover from this Suc have "index_loop (i + 1) e = Some [i + 1..e - 1]"
    by (intro Suc.hyps) simp_all
  ultimately show ?case
    by (simp add: index_loop.simps [of i e] upto_rec1 [of i "e - 1"])
qed

lemma container_elements:
  "map (container_at c) [0..int (length c) - 1] = map Some c"
proof (rule nth_equalityI)
  fix i assume "i < length (map (container_at c) [0..int (length c) - 1])"
  then show "map (container_at c) [0..int (length c) - 1] ! i = map Some c ! i"
    by (simp add: container_at_def)
qed simp

text \<open>
  A loop over the indices of a container ends and visits every element once, in order: when its
  size fits the 32-bit index, the loop over \<open>range()\<close> is defined, without an overflow, and the
  elements at the indices it visits are the elements of the container; the indices of a part, from one
  index to another, give the elements that \<open>aux::range\<close> points to.
\<close>

lemma index_loop_visits_all:
  assumes "int (length c) \<le> 2147483647" "0 \<le> b" "b \<le> e" "e \<le> int (length c)"
  shows "\<exists>is js. loop_over (container_range c) = Some is \<and> map (container_at c) is = map Some c \<and>
    loop_over \<lparr>range_first = b, range_last = e\<rparr> = Some js \<and>
    map (container_at c) js =
      (let (p, q) = vector_range data b e in map (\<lambda>a. container_at c (a - data)) [p..q - 1]) \<and>
    map (container_at c) js = map Some (take (nat (e - b)) (drop (nat b) c))"
proof -
  have "end_index c = int (length c)" using assms(1) by (simp add: end_index_def to_int32_id in_int32_def)
  then have all: "loop_over (container_range c) = Some [0..int (length c) - 1]"
    using assms(1) index_loop_upto [of 0 "int (length c)"]
    by (simp add: loop_over_def container_range_def in_int32_def)
  have part: "loop_over \<lparr>range_first = b, range_last = e\<rparr> = Some [b..e - 1]"
    using assms index_loop_upto [of b e] by (simp add: loop_over_def in_int32_def)
  have pointers: "map (\<lambda>a. container_at c (a - data)) [data + b..data + e - 1] = map (container_at c) [b..e - 1]"
    by (rule nth_equalityI) (simp_all add: algebra_simps)
  have "map (container_at c) [b..e - 1] = map Some (take (nat (e - b)) (drop (nat b) c))"
  proof (rule nth_equalityI)
    fix i assume "i < length (map (container_at c) [b..e - 1])"
    with assms show "map (container_at c) [b..e - 1] ! i = map Some (take (nat (e - b)) (drop (nat b) c)) ! i"
      by (simp add: container_at_def nat_add_distrib)
  qed (use assms in simp)
  with all part pointers container_elements [of c] show ?thesis
    by (simp add: vector_range_def)
qed

text \<open>A range whose end is in front of its beginning runs into the overflow.\<close>

lemma reversed_range_undefined: "e < i \<Longrightarrow> in_int32 i \<Longrightarrow> index_loop i e = None"
proof (induction i e rule: index_loop.induct)
  case (1 i e)
  then show ?case by (cases "in_int32 (i + 1)") (simp_all add: index_loop.simps [of i e])
qed

end
