(* ===== verification/Piece_Counts.thy ===== *)
theory Piece_Counts
  imports Piece_Pos Torrent_State
begin

text \<open>
  \<open>piece_picker.hpp\<close>: the questions the picker answers from its counters, whether it is finished, is
  seeding, and how many pieces it still wants. What the counters count is documented at their
  declarations; that is the predicate \<open>counters_ok\<close>. The functions that keep them are in the prebuilt
  library. Sums of \<open>int\<close> that overflow are undefined, \<open>None\<close>.
\<close>

section \<open>Operations\<close>

text \<open>The members that these functions use.\<close>

record piece_picker =
  m_piece_map :: "piece_pos list"
  m_blocks_in_last_piece :: u16
  m_piece_size :: int
  m_num_filtered :: int
  m_num_have_filtered :: int
  m_cursor :: int
  m_reverse_cursor :: int
  m_num_have :: int

definition max_pieces :: int where "max_pieces = 2147483647 - 1"

definition picker_piece_count :: "piece_picker \<Rightarrow> int" where
  "picker_piece_count k = to_int32 (int (length (m_piece_map k)))"

definition is_downloading :: "int \<Rightarrow> piece_picker \<Rightarrow> bool option" where
  "is_downloading ix k =
     (if 0 \<le> ix \<and> ix < int (length (m_piece_map k)) then Some (downloading (m_piece_map k ! nat ix)) else None)"

definition picker_is_finished :: "piece_picker \<Rightarrow> bool option" where
  "picker_is_finished k =
     map_option (\<lambda>left. left \<le> m_num_have k) (c_int (picker_piece_count k - m_num_filtered k))"

definition picker_is_seeding :: "piece_picker \<Rightarrow> bool" where
  "picker_is_seeding k \<longleftrightarrow> m_num_have k = picker_piece_count k"

definition num_want_left :: "piece_picker \<Rightarrow> int option" where
  "num_want_left k =
     Option.bind (c_int (picker_piece_count k - m_num_have k)) (\<lambda>a.
       Option.bind (c_int (a - m_num_filtered k)) (\<lambda>b. c_int (b + m_num_have_filtered k)))"

definition blocks_in_last_piece :: "piece_picker \<Rightarrow> int" where
  "blocks_in_last_piece k = uint (m_blocks_in_last_piece k)"

definition picker_block_size :: "piece_picker \<Rightarrow> int" where
  "picker_block_size k = min (m_piece_size k) default_block_size"

text \<open>\<open>has_index\<close>, a predicate to find a piece that is being downloaded.\<close>

definition has_index :: "int \<Rightarrow> downloading_piece \<Rightarrow> bool" where
  "has_index i p \<longleftrightarrow> dp_index p = i"

section \<open>What the counters count\<close>

definition num_of :: "(piece_pos \<Rightarrow> bool) \<Rightarrow> piece_picker \<Rightarrow> int" where
  "num_of P k = int (length (filter P (m_piece_map k)))"

text \<open>
  The pieces that passed the check; of the filtered pieces, those that \<open>we don't already have\<close>, and
  those that we have.
\<close>

definition counters_ok :: "piece_picker \<Rightarrow> bool" where
  "counters_ok k \<longleftrightarrow> int (length (m_piece_map k)) \<le> max_pieces \<and>
     m_num_have k = num_of pp_have k \<and>
     m_num_filtered k = num_of (\<lambda>p. filtered p \<and> \<not> pp_have p) k \<and>
     m_num_have_filtered k = num_of (\<lambda>p. filtered p \<and> pp_have p) k"

lemma num_of_split:
  "num_of P k = num_of (\<lambda>p. P p \<and> Q p) k + num_of (\<lambda>p. P p \<and> \<not> Q p) k"
proof -
  have "length (filter P xs) = length (filter (\<lambda>p. P p \<and> Q p) xs) + length (filter (\<lambda>p. P p \<and> \<not> Q p) xs)"
    for xs by (induction xs) auto
  then show ?thesis by (simp add: num_of_def)
qed

lemma num_of_bounds: "0 \<le> num_of P k" "num_of P k \<le> int (length (m_piece_map k))"
  by (simp_all add: num_of_def)

lemma num_of_all: "num_of (\<lambda>p. True) k = int (length (m_piece_map k))"
  by (simp add: num_of_def)

lemma num_of_zero: "num_of P k = 0 \<longleftrightarrow> (\<forall>p \<in> set (m_piece_map k). \<not> P p)"
  by (simp add: num_of_def filter_empty_conv)

text \<open>
  C39. What the picker concludes from its counters. With counters that count what is documented,
  none of the sums overflows; \<open>is_finished\<close> says that we have every piece that is not filtered,
  \<open>is_seeding\<close> that we have every piece. \<open>num_want_left\<close> is the number of pieces that we want and do
  not have, as documented, plus the number of filtered pieces that we have: it is right exactly
  when there are none of these, and a finished picker may report pieces that are left.
\<close>

theorem picker_counts_pieces:
  assumes "counters_ok k"
  shows "picker_is_finished k = Some (\<forall>p \<in> set (m_piece_map k). \<not> filtered p \<longrightarrow> pp_have p) \<and>
    picker_is_seeding k = (\<forall>p \<in> set (m_piece_map k). pp_have p) \<and>
    num_want_left k = Some (num_of (\<lambda>p. \<not> filtered p \<and> \<not> pp_have p) k + num_of (\<lambda>p. filtered p \<and> pp_have p) k) \<and>
    (num_want_left k = Some (num_of (\<lambda>p. \<not> filtered p \<and> \<not> pp_have p) k) \<longleftrightarrow>
      \<not> (\<exists>p \<in> set (m_piece_map k). filtered p \<and> pp_have p))"
proof -
  let ?n = "int (length (m_piece_map k))"
  let ?have = "num_of pp_have k" and ?filtered = "num_of (\<lambda>p. filtered p \<and> \<not> pp_have p) k"
    and ?both = "num_of (\<lambda>p. filtered p \<and> pp_have p) k" and ?left = "num_of (\<lambda>p. \<not> filtered p \<and> \<not> pp_have p) k"
  have n: "picker_piece_count k = ?n"
    using assms by (simp add: picker_piece_count_def counters_ok_def max_pieces_def to_int32_id in_int32_def)
  have missing: "?n = ?have + num_of (\<lambda>p. \<not> pp_have p) k"
    using num_of_split [of "\<lambda>p. True" k pp_have] by (simp add: num_of_all)
  have "num_of (\<lambda>p. \<not> pp_have p) k = ?filtered + ?left"
    using num_of_split [of "\<lambda>p. \<not> pp_have p" k filtered] by (simp add: conj_commute)
  with missing have sum: "?n = ?have + ?filtered + ?left" by simp
  have b: "0 \<le> ?have" "0 \<le> ?filtered" "0 \<le> ?left" "0 \<le> ?both" "?both \<le> ?have" "?n \<le> max_pieces"
    using num_of_bounds(1) [of _ k] num_of_split [of pp_have k filtered] assms
    by (simp_all add: counters_ok_def conj_commute)
  have finished: "picker_is_finished k = Some (?left = 0)"
    using assms b sum by (simp add: picker_is_finished_def counters_ok_def n c_int_def in_int32_def max_pieces_def)
  have seeding: "picker_is_seeding k \<longleftrightarrow> num_of (\<lambda>p. \<not> pp_have p) k = 0"
    using assms missing by (simp add: picker_is_seeding_def counters_ok_def n)
  have left: "num_want_left k = Some (?left + ?both)"
    using assms b sum by (simp add: num_want_left_def counters_ok_def n c_int_def in_int32_def max_pieces_def)
  from finished seeding left show ?thesis by (auto simp: num_of_zero)
qed

text \<open>Two pieces, both of which we have, one of them filtered: nothing is wanted, one piece is left.\<close>

definition two_pieces :: piece_picker where
  "two_pieces = \<lparr>m_piece_map = [set_have (make_piece_pos 0 0), (set_have (make_piece_pos 0 0))\<lparr>piece_priority := 0\<rparr>],
     m_blocks_in_last_piece = 1, m_piece_size = 16384, m_num_filtered = 0, m_num_have_filtered = 1,
     m_cursor = 2, m_reverse_cursor = 0, m_num_have = 2\<rparr>"

theorem picker_counts_pieces_witness:
  "picker_is_finished two_pieces = Some True \<and> picker_is_seeding two_pieces \<and> num_want_left two_pieces = Some 1"
proof -
  have pieces: "set (m_piece_map two_pieces) = {set_have (make_piece_pos 0 0),
      (set_have (make_piece_pos 0 0))\<lparr>piece_priority := 0\<rparr>}" by (simp add: two_pieces_def)
  have eval: "pp_have (set_have p)" "pp_have ((set_have p)\<lparr>piece_priority := x\<rparr>)"
    "filtered (q\<lparr>piece_priority := 0\<rparr>)" "\<not> filtered (set_have (make_piece_pos 0 0))" for p q x
    by (simp_all add: pp_have_def set_have_def filtered_def filter_priority_def make_piece_pos_def
        piece_default_priority_def)
  have "counters_ok two_pieces"
    by (simp add: counters_ok_def two_pieces_def num_of_def max_pieces_def eval)
  from picker_counts_pieces [OF this] show ?thesis
    by (simp add: pieces eval) (simp add: num_of_def two_pieces_def eval)
qed

end
