(* ===== verification/Torrent_Handle.thy ===== *)
theory Torrent_Handle
  imports Getzy_Prelude
begin

text \<open>
  \<open>torrent_handle.hpp\<close> and \<open>session_handle.hpp\<close>: a handle is a \<open>std::weak_ptr\<close>, so that it outlives
  the torrent it was made for. A \<open>weak_ptr\<close> is the address of a control block, 0 when it is empty;
  the block says whether the object still exists and where. Proved is what the operators and \<open>id\<close>
  tell of handles while torrents come and go and memory is reused.
\<close>

section \<open>weak_ptr\<close>

text \<open>A control block: the object it counts, while that exists, and (a ghost) which torrent it was.\<close>

record control_block =
  cb_object :: "nat option"
  cb_serial :: nat

type_synonym weak_ptr = nat
type_synonym blocks = "weak_ptr \<rightharpoonup> control_block"

definition weak_owner_before :: "weak_ptr \<Rightarrow> weak_ptr \<Rightarrow> bool" where
  "weak_owner_before a b \<longleftrightarrow> a < b"

definition weak_expired :: "blocks \<Rightarrow> weak_ptr \<Rightarrow> bool" where
  "weak_expired bs w \<longleftrightarrow> (case bs w of None \<Rightarrow> True | Some k \<Rightarrow> cb_object k = None)"

text \<open>\<open>lock().get()\<close>, the null pointer when the object is gone.\<close>

definition weak_lock :: "blocks \<Rightarrow> weak_ptr \<Rightarrow> nat" where
  "weak_lock bs w = (case Option.bind (bs w) cb_object of None \<Rightarrow> 0 | Some a \<Rightarrow> a)"

section \<open>torrent_handle\<close>

record torrent_handle =
  m_torrent :: weak_ptr

definition handle_default :: torrent_handle where
  "handle_default = \<lparr>m_torrent = 0\<rparr>"

definition handle_of :: "blocks \<Rightarrow> weak_ptr \<Rightarrow> torrent_handle" where
  "handle_of bs t = (if \<not> weak_expired bs t then handle_default\<lparr>m_torrent := t\<rparr> else handle_default)"

definition handle_eq :: "torrent_handle \<Rightarrow> torrent_handle \<Rightarrow> bool" where
  "handle_eq x h \<longleftrightarrow> \<not> weak_owner_before (m_torrent x) (m_torrent h) \<and> \<not> weak_owner_before (m_torrent h) (m_torrent x)"

definition handle_neq :: "torrent_handle \<Rightarrow> torrent_handle \<Rightarrow> bool" where
  "handle_neq x h \<longleftrightarrow> weak_owner_before (m_torrent x) (m_torrent h) \<or> weak_owner_before (m_torrent h) (m_torrent x)"

definition handle_less :: "torrent_handle \<Rightarrow> torrent_handle \<Rightarrow> bool" where
  "handle_less x h \<longleftrightarrow> weak_owner_before (m_torrent x) (m_torrent h)"

definition handle_id :: "blocks \<Rightarrow> torrent_handle \<Rightarrow> u32" where
  "handle_id bs x =
     (let ret = (of_nat (weak_lock bs (m_torrent x)) :: u64)
      in ucast (drop_bit 10 ret))"

section \<open>session_handle\<close>

record session_handle =
  sh_impl :: weak_ptr

definition session_handle_of :: "weak_ptr \<Rightarrow> session_handle" where
  "session_handle_of impl = \<lparr>sh_impl = impl\<rparr>"

definition session_is_valid :: "blocks \<Rightarrow> session_handle \<Rightarrow> bool" where
  "session_is_valid bs s \<longleftrightarrow> \<not> weak_expired bs (sh_impl s)"

definition session_native :: "blocks \<Rightarrow> session_handle \<Rightarrow> nat" where
  "session_native bs s = weak_lock bs (sh_impl s)"

lemma session_valid_native:
  "(\<forall>k. bs (sh_impl s) = Some k \<longrightarrow> cb_object k \<noteq> Some 0) \<Longrightarrow> session_is_valid bs s \<longleftrightarrow> session_native bs s \<noteq> 0"
  by (cases "bs (sh_impl s)") (auto simp: session_is_valid_def session_native_def weak_expired_def weak_lock_def split: option.splits)

section \<open>Handles while torrents come and go\<close>

text \<open>
  What a client, the session and the allocator do. A torrent of \<open>sz\<close> bytes is allocated at an address
  and with a control block that are free; its destruction keeps the control block, which is freed,
  for reuse, when no handle refers to it any more. A handle is made from the pointer to a torrent that
  may be gone already, or copied, or dropped. The ghost of a handle is the torrent it was made for.
  What the allocator or the client cannot do leaves the state as it is.
\<close>

record world =
  w_blocks :: blocks
  w_next :: nat
  w_handles :: "(torrent_handle \<times> nat option) list"

definition start_world :: world where
  "start_world = \<lparr>w_blocks = Map.empty, w_next = 0, w_handles = []\<rparr>"

datatype handle_event =
    Torrent_Made weak_ptr nat
  | Torrent_Destroyed weak_ptr
  | Block_Freed weak_ptr
  | Handle_Made weak_ptr
  | Handle_Copied nat
  | Handle_Dropped nat

definition can_make :: "nat \<Rightarrow> world \<Rightarrow> weak_ptr \<Rightarrow> nat \<Rightarrow> bool" where
  "can_make sz w c a \<longleftrightarrow> c \<noteq> 0 \<and> w_blocks w c = None \<and> 1024 \<le> a \<and>
     (\<forall>d k b. w_blocks w d = Some k \<longrightarrow> cb_object k = Some b \<longrightarrow> a + sz \<le> b \<or> b + sz \<le> a)"

fun handle_step :: "nat \<Rightarrow> world \<Rightarrow> handle_event \<Rightarrow> world" where
  "handle_step sz w (Torrent_Made c a) =
     (if can_make sz w c a
      then w\<lparr>w_blocks := (w_blocks w)(c \<mapsto> \<lparr>cb_object = Some a, cb_serial = w_next w\<rparr>), w_next := w_next w + 1\<rparr>
      else w)"
| "handle_step sz w (Torrent_Destroyed c) =
     w\<lparr>w_blocks := (w_blocks w)(c := map_option (\<lambda>k. k\<lparr>cb_object := None\<rparr>) (w_blocks w c))\<rparr>"
| "handle_step sz w (Block_Freed c) =
     (if weak_expired (w_blocks w) c \<and> (\<forall>(h, s) \<in> set (w_handles w). m_torrent h \<noteq> c)
      then w\<lparr>w_blocks := (w_blocks w)(c := None)\<rparr> else w)"
| "handle_step sz w (Handle_Made c) =
     w\<lparr>w_handles := (handle_of (w_blocks w) c,
         if weak_expired (w_blocks w) c then None else map_option cb_serial (w_blocks w c)) # w_handles w\<rparr>"
| "handle_step sz w (Handle_Copied i) =
     (if i < length (w_handles w) then w\<lparr>w_handles := w_handles w ! i # w_handles w\<rparr> else w)"
| "handle_step sz w (Handle_Dropped i) = w\<lparr>w_handles := take i (w_handles w) @ drop (Suc i) (w_handles w)\<rparr>"

text \<open>The invariant, in two parts: the control blocks, and the handles that refer to them.\<close>

definition blocks_ok :: "nat \<Rightarrow> world \<Rightarrow> bool" where
  "blocks_ok sz w \<longleftrightarrow> w_blocks w 0 = None \<and>
     (\<forall>c k. w_blocks w c = Some k \<longrightarrow> cb_serial k < w_next w \<and> (\<forall>a. cb_object k = Some a \<longrightarrow> 1024 \<le> a)) \<and>
     (\<forall>c k d l. w_blocks w c = Some k \<longrightarrow> w_blocks w d = Some l \<longrightarrow> c \<noteq> d \<longrightarrow>
        cb_serial k \<noteq> cb_serial l \<and>
        (\<forall>a b. cb_object k = Some a \<longrightarrow> cb_object l = Some b \<longrightarrow> a + sz \<le> b \<or> b + sz \<le> a))"

definition refers :: "blocks \<Rightarrow> torrent_handle \<times> nat option \<Rightarrow> bool" where
  "refers bs hs \<longleftrightarrow> (case snd hs of
      None \<Rightarrow> m_torrent (fst hs) = 0
    | Some s \<Rightarrow> \<exists>k. bs (m_torrent (fst hs)) = Some k \<and> cb_serial k = s)"

definition handles_ok :: "nat \<Rightarrow> world \<Rightarrow> bool" where
  "handles_ok sz w \<longleftrightarrow> blocks_ok sz w \<and> (\<forall>hs \<in> set (w_handles w). refers (w_blocks w) hs)"

lemma blocks_ok_step: "blocks_ok sz w \<Longrightarrow> blocks_ok sz (handle_step sz w e)"
proof (cases e)
  case (Torrent_Made c a)
  assume ok: "blocks_ok sz w"
  show ?thesis
  proof (cases "can_make sz w c a")
    case True
    then have new: "c \<noteq> 0" "w_blocks w c = None" "1024 \<le> a"
        "\<And>d k b. w_blocks w d = Some k \<Longrightarrow> cb_object k = Some b \<Longrightarrow> a + sz \<le> b \<or> b + sz \<le> a"
      by (auto simp: can_make_def)
    from ok have old: "\<And>d k. w_blocks w d = Some k \<Longrightarrow> cb_serial k < w_next w"
      by (auto simp: blocks_ok_def)
    from ok True new show ?thesis
      unfolding Torrent_Made blocks_ok_def
      by (auto split: if_splits dest: old new(4) intro: less_SucI)
  qed (use ok Torrent_Made in simp)
next
  case (Torrent_Destroyed c)
  assume "blocks_ok sz w"
  then show ?thesis unfolding Torrent_Destroyed blocks_ok_def by (auto split: if_splits)
next
  case (Block_Freed c)
  assume "blocks_ok sz w"
  then show ?thesis unfolding Block_Freed blocks_ok_def by (auto split: if_splits)
qed (simp_all add: blocks_ok_def)

lemma refers_mono:
  assumes "refers bs hs"
    and "\<And>k. bs (m_torrent (fst hs)) = Some k \<Longrightarrow> \<exists>l. bs' (m_torrent (fst hs)) = Some l \<and> cb_serial l = cb_serial k"
  shows "refers bs' hs"
  using assms by (cases "snd hs") (auto simp: refers_def)

lemma handles_ok_step: "handles_ok sz w \<Longrightarrow> handles_ok sz (handle_step sz w e)"
proof -
  assume ok: "handles_ok sz w"
  then have blocks: "blocks_ok sz (handle_step sz w e)" by (simp add: handles_ok_def blocks_ok_step)
  from ok have refs: "\<And>hs. hs \<in> set (w_handles w) \<Longrightarrow> refers (w_blocks w) hs" and zero: "w_blocks w 0 = None"
    by (auto simp: handles_ok_def blocks_ok_def)
  have "\<forall>hs \<in> set (w_handles (handle_step sz w e)). refers (w_blocks (handle_step sz w e)) hs"
  proof (cases e)
    case (Torrent_Made c a)
    show ?thesis
    proof
      fix hs assume "hs \<in> set (w_handles (handle_step sz w e))"
      then have "refers (w_blocks w) hs" using refs Torrent_Made by (simp split: if_splits)
      then show "refers (w_blocks (handle_step sz w e)) hs"
        by (rule refers_mono) (auto simp: Torrent_Made can_make_def)
    qed
  next
    case (Torrent_Destroyed c)
    then show ?thesis by (auto intro!: refers_mono [OF refs])
  next
    case (Block_Freed c)
    then show ?thesis by (auto intro!: refers_mono [OF refs] split: if_splits)
  next
    case (Handle_Made c)
    then show ?thesis using refs
      by (auto simp: refers_def handle_of_def handle_default_def weak_expired_def split: option.splits)
  next
    case (Handle_Copied i)
    then show ?thesis using refs by auto
  next
    case (Handle_Dropped i)
    then show ?thesis using refs by (auto dest: in_set_takeD in_set_dropD)
  qed
  with blocks show ?thesis by (simp add: handles_ok_def)
qed

interpretation handles: invariant_machine "handle_step sz" "handles_ok sz" for sz
  by unfold_locales (rule handles_ok_step)

lemma start_ok: "handles_ok sz start_world"
  by (simp add: handles_ok_def blocks_ok_def start_world_def)

lemma handle_eq_iff: "handle_eq x y \<longleftrightarrow> m_torrent x = m_torrent y"
  by (auto simp: handle_eq_def weak_owner_before_def)

lemma handle_id_div:
  "weak_lock bs (m_torrent x) < 2 ^ 42 \<Longrightarrow> unat (handle_id bs x) = weak_lock bs (m_torrent x) div 1024"
proof -
  assume b: "weak_lock bs (m_torrent x) < 2 ^ 42"
  then have "unat (of_nat (weak_lock bs (m_torrent x)) :: u64) = weak_lock bs (m_torrent x)"
    by (simp add: unat_of_nat take_bit_nat_eq_self)
  moreover have "weak_lock bs (m_torrent x) div 1024 < 2 ^ 32" using b by (simp add: less_mult_imp_div_less)
  ultimately show ?thesis
    by (simp add: handle_id_def Let_def unsigned_ucast_eq unsigned_drop_bit_eq drop_bit_nat_def
        drop_bit_eq_div unat_div take_bit_nat_eq_self)
qed

lemma div_apart: "a + sz \<le> b \<Longrightarrow> 1024 \<le> sz \<Longrightarrow> a div 1024 < b div (1024 :: nat)"
proof -
  assume "a + sz \<le> b" "1024 \<le> sz"
  then have "a + 1024 \<le> b" by simp
  then have "(a + 1024) div 1024 \<le> b div 1024" by (rule div_le_mono)
  then show ?thesis by simp
qed

text \<open>
  C15. Handles tell torrents apart, also dead ones. Whatever torrents are added and destroyed, memory
  reused, and handles made, copied and dropped: two handles compare equal exactly when they were made
  for the same torrent (or for none), whether or not it still exists; \<open>!=\<close> is the negation, and of
  \<open><\<close>, \<open>==\<close> and \<open>>\<close> exactly one holds. \<open>id\<close> is 0 when the torrent is gone; of torrents that exist,
  when a torrent has at least 1024 bytes and lives below \<open>2 ^ 42\<close>, it is not 0 and equal only for the same.
\<close>

theorem handles_tell_apart:
  assumes "foldl (handle_step sz) start_world es = w" "(x, s) \<in> set (w_handles w)" "(y, t) \<in> set (w_handles w)"
  shows "handle_eq x y = (s = t) \<and> handle_neq x y = (s \<noteq> t) \<and>
    (s = t \<and> \<not> handle_less x y \<and> \<not> handle_less y x \<or> s \<noteq> t \<and> handle_less x y \<noteq> handle_less y x) \<and>
    (weak_expired (w_blocks w) (m_torrent x) \<longrightarrow> handle_id (w_blocks w) x = 0) \<and>
    (\<not> weak_expired (w_blocks w) (m_torrent x) \<longrightarrow> \<not> weak_expired (w_blocks w) (m_torrent y) \<longrightarrow> 1024 \<le> sz \<longrightarrow>
       weak_lock (w_blocks w) (m_torrent x) < 2 ^ 42 \<longrightarrow> weak_lock (w_blocks w) (m_torrent y) < 2 ^ 42 \<longrightarrow>
       handle_id (w_blocks w) x \<noteq> 0 \<and> (handle_id (w_blocks w) x = handle_id (w_blocks w) y) = (s = t))"
proof -
  let ?bs = "w_blocks w"
  have "handles_ok sz w" using handles.inv_run [OF start_ok, of sz es] assms(1) by simp
  then have ok: "blocks_ok sz w" and x: "refers ?bs (x, s)" and y: "refers ?bs (y, t)"
    using assms(2,3) by (auto simp: handles_ok_def)
  from ok have zero: "?bs 0 = None"
    and serials: "\<And>c k d l. ?bs c = Some k \<Longrightarrow> ?bs d = Some l \<Longrightarrow> cb_serial k = cb_serial l \<Longrightarrow> c = d"
    unfolding blocks_ok_def by metis+
  have "\<And>c k. ?bs c = Some k \<Longrightarrow> 0 < c" using zero by (metis gr0I option.distinct(1))
  then have eq: "m_torrent x = m_torrent y \<longleftrightarrow> s = t"
    using x y serials by (auto simp: refers_def split: option.splits)
  have dead: "handle_id ?bs x = 0" if "weak_expired ?bs (m_torrent x)"
    using that by (auto simp: handle_id_def weak_expired_def weak_lock_def split: option.splits)
  have live: "handle_id ?bs x \<noteq> 0 \<and> (handle_id ?bs x = handle_id ?bs y) = (s = t)"
    if l: "\<not> weak_expired ?bs (m_torrent x)" "\<not> weak_expired ?bs (m_torrent y)" "1024 \<le> sz"
      "weak_lock ?bs (m_torrent x) < 2 ^ 42" "weak_lock ?bs (m_torrent y) < 2 ^ 42"
  proof -
    obtain k l a b where objects: "?bs (m_torrent x) = Some k" "cb_object k = Some a"
        "?bs (m_torrent y) = Some l" "cb_object l = Some b"
      using l(1,2) by (auto simp: weak_expired_def split: option.splits)
    then have a: "weak_lock ?bs (m_torrent x) = a" "weak_lock ?bs (m_torrent y) = b" "1024 \<le> a"
      using ok by (auto simp: weak_lock_def blocks_ok_def)
    have ids: "unat (handle_id ?bs x) = a div 1024" "unat (handle_id ?bs y) = b div 1024"
      using handle_id_div [OF l(4)] handle_id_div [OF l(5)] a by simp_all
    have "a div 1024 \<noteq> b div 1024" if "m_torrent x \<noteq> m_torrent y"
    proof -
      from ok objects that have "a + sz \<le> b \<or> b + sz \<le> a" by (auto simp: blocks_ok_def)
      then show ?thesis using div_apart [of a sz b] div_apart [of b sz a] l(3) by auto
    qed
    then have "(handle_id ?bs x = handle_id ?bs y) = (s = t)"
      using ids eq by (cases "m_torrent x = m_torrent y") (auto simp: handle_id_def)
    moreover have "1 \<le> a div 1024" using div_le_mono [OF a(3), of 1024] by simp
    then have "handle_id ?bs x \<noteq> 0" using ids by auto
    ultimately show ?thesis by simp
  qed
  show ?thesis
    using eq dead live
    by (auto simp: handle_eq_iff handle_neq_def handle_less_def weak_owner_before_def)
qed

text \<open>
  A torrent is destroyed while a handle keeps its control block; the next torrent gets the same memory,
  but another control block, and the handles differ.
\<close>

theorem handles_tell_apart_witness:
  "let w = foldl (handle_step 2048) start_world
       [Torrent_Made 8 4096, Handle_Made 8, Torrent_Destroyed 8, Block_Freed 8, Torrent_Made 16 4096, Handle_Made 16]
   in \<not> handle_eq (fst (w_handles w ! 0)) (fst (w_handles w ! 1)) \<and>
      handle_id (w_blocks w) (fst (w_handles w ! 1)) = 0 \<and> handle_id (w_blocks w) (fst (w_handles w ! 0)) \<noteq> 0"
proof -
  let ?es = "[Torrent_Made 8 4096, Handle_Made 8, Torrent_Destroyed 8, Block_Freed 8, Torrent_Made 16 4096, Handle_Made 16]"
  let ?w = "\<lparr>w_blocks = [8 \<mapsto> \<lparr>cb_object = None, cb_serial = 0\<rparr>, 16 \<mapsto> \<lparr>cb_object = Some 4096, cb_serial = 1\<rparr>],
    w_next = 2, w_handles = [(\<lparr>m_torrent = 16\<rparr>, Some 1), (\<lparr>m_torrent = 8\<rparr>, Some 0)]\<rparr>"
  have run: "foldl (handle_step 2048) start_world ?es = ?w"
    by (simp add: start_world_def can_make_def weak_expired_def handle_of_def handle_default_def fun_upd_def fun_eq_iff)
  show ?thesis unfolding run
    using handles_tell_apart [OF run, of "\<lparr>m_torrent = 16\<rparr>" "Some 1" "\<lparr>m_torrent = 8\<rparr>" "Some 0"]
      handles_tell_apart [OF run, of "\<lparr>m_torrent = 8\<rparr>" "Some 0" "\<lparr>m_torrent = 8\<rparr>" "Some 0"]
      handles_tell_apart [OF run, of "\<lparr>m_torrent = 16\<rparr>" "Some 1" "\<lparr>m_torrent = 16\<rparr>" "Some 1"]
    by (simp add: weak_expired_def weak_lock_def)
qed

text \<open>Where addresses have more than 42 bits, as on 64-bit systems, \<open>id\<close> does not tell torrents apart.\<close>

lemma id_not_unique:
  "\<exists>bs x y. \<not> handle_eq x y \<and> \<not> weak_expired bs (m_torrent x) \<and> \<not> weak_expired bs (m_torrent y) \<and>
     weak_lock bs (m_torrent x) < 2 ^ 47 \<and> weak_lock bs (m_torrent y) < 2 ^ 47 \<and> handle_id bs x = handle_id bs y"
proof -
  let ?bs = "[8 \<mapsto> \<lparr>cb_object = Some 4096, cb_serial = 0\<rparr>, 16 \<mapsto> \<lparr>cb_object = Some (2 ^ 42 + 4096), cb_serial = 1\<rparr>]"
  have "handle_id ?bs \<lparr>m_torrent = 8\<rparr> = handle_id ?bs \<lparr>m_torrent = 16\<rparr>"
    by (simp add: handle_id_def weak_lock_def drop_bit_eq_div)
  then show ?thesis
    by (intro exI [of _ ?bs] exI [of _ "\<lparr>m_torrent = 8\<rparr>"] exI [of _ "\<lparr>m_torrent = 16\<rparr>"])
      (simp add: handle_eq_iff weak_expired_def weak_lock_def)
qed

end
