(* ===== verification/Hash_Results.thy ===== *)
theory Hash_Results
  imports Containers
begin

text \<open>
  \<open>hash_picker.hpp\<close>: what setting the hash of a block tells (\<open>set_block_hash_result\<close>), and the pieces
  that it verifies. Blocks are numbered from the first block of the piece the hash was set for; a
  negative number is a block of an earlier piece. Integer division truncates, as in C++.
\<close>

datatype block_hash_status = Result_Success | Result_Unknown | Block_Hash_Failed | Piece_Hash_Failed

record set_block_hash_result =
  status :: block_hash_status
  first_verified_block :: int
  num_verified :: int

definition result_of :: "block_hash_status \<Rightarrow> set_block_hash_result" where
  "result_of s = \<lparr>status = s, first_verified_block = 0, num_verified = 0\<rparr>"

definition result_with :: "block_hash_status \<Rightarrow> int \<Rightarrow> int \<Rightarrow> set_block_hash_result" where
  "result_with st first_block num = \<lparr>status = st, first_verified_block = first_block, num_verified = num\<rparr>"

definition result_success :: "int \<Rightarrow> int \<Rightarrow> set_block_hash_result" where
  "result_success first_block num = result_with Result_Success first_block num"

definition result_unknown :: set_block_hash_result where
  "result_unknown = result_of Result_Unknown"

definition result_block_failed :: set_block_hash_result where
  "result_block_failed = result_of Block_Hash_Failed"

definition result_piece_failed :: "int \<Rightarrow> int \<Rightarrow> set_block_hash_result" where
  "result_piece_failed first_block num = result_with Piece_Hash_Failed first_block num"

text \<open>\<open>/\<close> of \<open>int\<close>, for a positive divisor: towards 0.\<close>

definition c_quot :: "int \<Rightarrow> int \<Rightarrow> int" where
  "c_quot a b = (if 0 \<le> a then a div b else - ((- a) div b))"

definition piece_range :: "int \<Rightarrow> int \<Rightarrow> set_block_hash_result \<Rightarrow> index_range option" where
  "piece_range piece blocks_per_piece r =
     (if blocks_per_piece = 0 then None
      else Option.bind (index_plus piece (c_quot (first_verified_block r) blocks_per_piece)) (\<lambda>start.
        Option.bind (index_plus start (c_quot (num_verified r) blocks_per_piece)) (\<lambda>e.
          Some \<lparr>range_first = start, range_last = e\<rparr>)))"

text \<open>The node of a hash tree.\<close>

record node_index =
  node_file :: int
  node_node :: int

definition node_index_equal :: "node_index \<Rightarrow> node_index \<Rightarrow> bool" where
  "node_index_equal x o' \<longleftrightarrow> node_file x = node_file o' \<and> node_node x = node_node o'"

lemma node_index_equal_iff: "node_index_equal x y \<longleftrightarrow> x = y"
  by (cases x, cases y) (simp add: node_index_equal_def)

record add_hashes_result =
  hashes_valid :: bool
  hash_failed :: "(int \<times> int list) list"
  hash_passed :: "int list"

definition add_hashes_result_of :: "bool \<Rightarrow> add_hashes_result" where
  "add_hashes_result_of v = \<lparr>hashes_valid = v, hash_failed = [], hash_passed = []\<rparr>"

section \<open>The pieces of a range of blocks\<close>

lemma c_quot_multiple: "0 < b \<Longrightarrow> c_quot (k * b) b = k"
proof -
  assume "0 < b"
  then have "(- (k * b)) div b = - k" "k * b div b = k"
    using nonzero_mult_div_cancel_right [of b "- k"] by simp_all
  then show ?thesis by (simp add: c_quot_def)
qed

text \<open>
  All blocks of piece \<open>q\<close> are verified: its blocks, numbered over the whole file, lie between the
  first verified one and the last.
\<close>

definition piece_verified :: "int \<Rightarrow> int \<Rightarrow> set_block_hash_result \<Rightarrow> int \<Rightarrow> bool" where
  "piece_verified piece bpp r q \<longleftrightarrow> (\<forall>k. 0 \<le> k \<and> k < bpp \<longrightarrow>
     piece * bpp + first_verified_block r \<le> q * bpp + k \<and>
     q * bpp + k < piece * bpp + first_verified_block r + num_verified r)"

lemma piece_verified_multiples:
  assumes "0 < bpp" "first_verified_block r = f * bpp" "num_verified r = n * bpp"
  shows "piece_verified piece bpp r q \<longleftrightarrow> piece + f \<le> q \<and> q < piece + f + n"
proof -
  have lower: "piece * bpp + f * bpp \<le> q * bpp \<longleftrightarrow> piece + f \<le> q"
    using assms(1) mult_le_cancel_right [of "piece + f" bpp q] by (simp add: distrib_right)
  have upper: "(q + 1) * bpp \<le> (piece + f + n) * bpp \<longleftrightarrow> q + 1 \<le> piece + f + n"
    using assms(1) by (simp add: mult_le_cancel_right)
  have "piece_verified piece bpp r q \<longleftrightarrow>
      piece * bpp + f * bpp \<le> q * bpp \<and> (q + 1) * bpp \<le> (piece + f + n) * bpp"
  proof
    assume v: "piece_verified piece bpp r q"
    show "piece * bpp + f * bpp \<le> q * bpp \<and> (q + 1) * bpp \<le> (piece + f + n) * bpp"
      using v [unfolded piece_verified_def, rule_format, of 0]
        v [unfolded piece_verified_def, rule_format, of "bpp - 1"] assms
      by (simp add: algebra_simps)
  next
    assume b: "piece * bpp + f * bpp \<le> q * bpp \<and> (q + 1) * bpp \<le> (piece + f + n) * bpp"
    show "piece_verified piece bpp r q"
      unfolding piece_verified_def assms(2,3) using b by (auto simp: algebra_simps)
  qed
  then show ?thesis unfolding lower upper by auto
qed

text \<open>
  C31. The pieces a result reports are the verified ones. When the verified blocks are whole pieces,
  before or behind the piece the hash was set for, and piece indices stay in 32 bits, a loop over
  \<open>piece_range\<close> is defined and visits exactly the pieces all of whose blocks were verified, in
  order, each once; a result without verified blocks gives none.
\<close>

theorem piece_range_verified:
  assumes "0 < bpp" "first_verified_block r = f * bpp" "num_verified r = n * bpp" "0 \<le> n"
    and "in_int32 piece" "in_int32 (piece + f)" "in_int32 (piece + f + n)"
  shows "\<exists>qs. Option.bind (piece_range piece bpp r) loop_over = Some qs \<and>
    set qs = {q. piece_verified piece bpp r q} \<and> sorted qs \<and> distinct qs \<and>
    Option.bind (piece_range piece bpp result_unknown) loop_over = Some []"
proof -
  have range: "piece_range piece bpp r = Some \<lparr>range_first = piece + f, range_last = piece + f + n\<rparr>"
    using assms by (simp add: piece_range_def c_quot_multiple index_plus_def c_int_def)
  then have "Option.bind (piece_range piece bpp r) loop_over = Some [piece + f..piece + f + n - 1]"
    using assms by (simp add: loop_over_def index_loop_upto)
  moreover have "set [piece + f..piece + f + n - 1] = {q. piece_verified piece bpp r q}"
    by (auto simp: piece_verified_multiples [OF assms(1-3)])
  moreover have "Option.bind (piece_range piece bpp result_unknown) loop_over = Some []"
    using assms(1,5) index_loop_upto [of piece piece]
    by (simp add: piece_range_def c_quot_def index_plus_def c_int_def result_unknown_def result_of_def loop_over_def)
  ultimately show ?thesis by simp
qed

text \<open>Pieces of four blocks: eight blocks from the one in front of piece 5 on are the pieces 4 and 5.\<close>

theorem piece_range_verified_witness:
  "\<exists>qs. Option.bind (piece_range 5 4 (result_success (-4) 8)) loop_over = Some qs \<and> set qs = {4, 5}"
proof -
  let ?r = "result_success (-4) 8"
  have fields: "first_verified_block ?r = (-1) * 4" "num_verified ?r = 2 * 4"
    by (simp_all add: result_success_def result_with_def)
  have verified: "piece_verified 5 4 ?r q \<longleftrightarrow> 4 \<le> q \<and> q < 6" for q
    using piece_verified_multiples [OF _ fields, of 5 q] by simp
  have "{q. piece_verified 5 4 ?r q} = {4, 5}" unfolding verified by auto
  moreover have "in_int32 5" "in_int32 (5 + - 1)" "in_int32 (5 + - 1 + 2)" by (simp_all add: in_int32_def)
  ultimately show ?thesis using piece_range_verified [OF _ fields, of 5] by auto
qed

text \<open>A range that does not start with a piece is rounded towards the piece the hash was set for.\<close>

lemma piece_range_unaligned:
  "piece_range 5 4 (result_success 1 4) = Some \<lparr>range_first = 5, range_last = 6\<rparr> \<and>
   \<not> piece_verified 5 4 (result_success 1 4) 5"
proof -
  have "\<not> piece_verified 5 4 (result_success 1 4) 5"
  proof
    assume "piece_verified 5 4 (result_success 1 4) 5"
    from this [unfolded piece_verified_def, rule_format, of 0] show False
      by (simp add: result_success_def result_with_def)
  qed
  then show ?thesis
    by (simp add: piece_range_def result_success_def result_with_def c_quot_def index_plus_def c_int_def in_int32_def)
qed

end
