(* ===== verification/Flag_Sets.thy ===== *)
theory Flag_Sets
  imports Flags
begin

text \<open>
  The sets of flags of the other headers, each a \<open>bitfield_flag\<close> of the width its type has. A flag
  beyond the width would vanish, and two flags of one type with the same bit could not be told
  apart: \<open>flag_set_ok\<close> says that neither happens. Names that stand for the same flag on purpose
  (deprecated ones and \<open>local_connection\<close>) are stated as equations.
\<close>

definition flag_set_ok :: "'a::len word list \<Rightarrow> bool" where
  "flag_set_ok fs \<longleftrightarrow> distinct fs \<and> (\<forall>f \<in> set fs. \<exists>i < LENGTH('a). f = flag_bit i)"

lemma flag_set_okI:
  "fs = map flag_bit is \<Longrightarrow> distinct is \<Longrightarrow> list_all (\<lambda>i. i < LENGTH('a)) is \<Longrightarrow> flag_set_ok (fs :: 'a::len word list)"
  by (auto simp: flag_set_ok_def distinct_flag_bits list_all_iff)

text \<open>What a set of flags that is well-formed gives: each can be tested, set and cleared on its own.\<close>

lemma flag_set_independent:
  assumes "flag_set_ok fs" "f \<in> set fs" "g \<in> set fs"
  shows "flag_test f" "f \<noteq> g \<Longrightarrow> flag_test (flag_and (flag_or w g) f) = flag_test (flag_and w f)"
    "f \<noteq> g \<Longrightarrow> flag_test (flag_and (flag_and w (flag_not g)) f) = flag_test (flag_and w f)"
    "flag_test (flag_and (flag_or w f) f)" "\<not> flag_test (flag_and (flag_and w (flag_not f)) f)"
proof -
  from assms obtain i j where ij: "i < LENGTH('a)" "f = flag_bit i" "j < LENGTH('a)" "g = flag_bit j"
    unfolding flag_set_ok_def by blast
  have "bit f i" using ij by (simp add: bit_flag_bit)
  then show "flag_test f" by (auto simp: flag_test_def)
  show "f \<noteq> g \<Longrightarrow> flag_test (flag_and (flag_or w g) f) = flag_test (flag_and w f)"
    using ij by (auto simp: flag_test_bit flag_or_def bit_or_iff bit_flag_bit)
  show "f \<noteq> g \<Longrightarrow> flag_test (flag_and (flag_and w (flag_not g)) f) = flag_test (flag_and w f)"
    using ij by (auto simp: flag_test_bit flag_and_not_bit)
  show "flag_test (flag_and (flag_or w f) f)"
    using ij by (simp add: flag_test_bit flag_or_def bit_or_iff bit_flag_bit)
  show "\<not> flag_test (flag_and (flag_and w (flag_not f)) f)"
    using ij by (simp add: flag_test_bit flag_and_not_bit)
qed

section \<open>The flags\<close>

type_synonym picker_flags_t = "32 word"
type_synonym disk_job_flags_t = "8 word"
type_synonym open_mode_t = "32 word"
type_synonym resolver_flags_t = "8 word"
type_synonym ip_source_t = "8 word"
type_synonym create_flags_t = "32 word"
type_synonym file_open_mode_t = "8 word"
type_synonym feature_flags_t = "8 word"
type_synonym add_peer_flags_t = "8 word"
type_synonym file_flags_t = "8 word"
type_synonym announce_flags_t = "8 word"
type_synonym find_nodes_flags_t = "8 word"
type_synonym traversal_flags_t = "8 word"
type_synonym request_flags_t = "8 word"
type_synonym peer_flags_t = "32 word"
type_synonym peer_source_flags_t = "8 word"
type_synonym connection_type_t = "8 word"
type_synonym erase_peer_flags_t = "8 word"
type_synonym pex_flags_t = "8 word"
type_synonym save_state_flags_t = "32 word"
type_synonym remove_flags_t = "8 word"
type_synonym session_flags_t = "8 word"
type_synonym reopen_network_flags_t = "8 word"
type_synonym web_seed_flag_t = "8 word"
type_synonym add_piece_flags_t = "8 word"
type_synonym status_flags_t = "32 word"
type_synonym deadline_flags_t = "8 word"
type_synonym file_progress_flags_t = "8 word"
type_synonym pause_flags_t = "8 word"
type_synonym reannounce_flags_t = "8 word"
type_synonym tracker_request_flags_t = "8 word"
type_synonym udp_send_flags_t = "8 word"
type_synonym write_torrent_flags_t = "32 word"

definition pick_partial_ratio :: picker_flags_t where "pick_partial_ratio = flag_bit 0"
definition pick_prioritize_partials :: picker_flags_t where "pick_prioritize_partials = flag_bit 1"
definition pick_rarest_first_partials :: picker_flags_t where "pick_rarest_first_partials = flag_bit 2"
definition pick_rarest_first :: picker_flags_t where "pick_rarest_first = flag_bit 3"
definition pick_reverse_rarest_first :: picker_flags_t where "pick_reverse_rarest_first = flag_bit 4"
definition pick_suggested_pieces :: picker_flags_t where "pick_suggested_pieces = flag_bit 5"
definition pick_prio_sequential_pieces :: picker_flags_t where "pick_prio_sequential_pieces = flag_bit 6"
definition pick_sequential_pieces :: picker_flags_t where "pick_sequential_pieces = flag_bit 7"
definition pick_reverse_pieces :: picker_flags_t where "pick_reverse_pieces = flag_bit 8"
definition pick_time_critical :: picker_flags_t where "pick_time_critical = flag_bit 9"
definition pick_random_pieces :: picker_flags_t where "pick_random_pieces = flag_bit 10"
definition pick_prefer_contiguous :: picker_flags_t where "pick_prefer_contiguous = flag_bit 11"
definition pick_reverse_sequential :: picker_flags_t where "pick_reverse_sequential = flag_bit 12"
definition pick_backup1 :: picker_flags_t where "pick_backup1 = flag_bit 13"
definition pick_backup2 :: picker_flags_t where "pick_backup2 = flag_bit 14"
definition pick_end_game :: picker_flags_t where "pick_end_game = flag_bit 15"
definition pick_extent_affinity :: picker_flags_t where "pick_extent_affinity = flag_bit 16"

definition job_fence :: disk_job_flags_t where "job_fence = flag_bit 1"
definition job_in_progress :: disk_job_flags_t where "job_in_progress = flag_bit 2"
definition job_aborted :: disk_job_flags_t where "job_aborted = flag_bit 6"
definition job_force_copy :: disk_job_flags_t where "job_force_copy = flag_bit 0"
definition job_sequential_access :: disk_job_flags_t where "job_sequential_access = flag_bit 3"
definition job_volatile_read :: disk_job_flags_t where "job_volatile_read = flag_bit 4"
definition job_v1_hash :: disk_job_flags_t where "job_v1_hash = flag_bit 5"
definition job_flush_piece :: disk_job_flags_t where "job_flush_piece = flag_bit 7"

definition om_write :: open_mode_t where "om_write = flag_bit 0"
definition om_no_cache :: open_mode_t where "om_no_cache = flag_bit 1"
definition om_truncate :: open_mode_t where "om_truncate = flag_bit 2"
definition om_no_atime :: open_mode_t where "om_no_atime = flag_bit 3"
definition om_sequential_access :: open_mode_t where "om_sequential_access = flag_bit 4"
definition om_hidden :: open_mode_t where "om_hidden = flag_bit 5"
definition om_sparse :: open_mode_t where "om_sparse = flag_bit 6"
definition om_executable :: open_mode_t where "om_executable = flag_bit 7"
definition om_allow_set_file_valid_data :: open_mode_t where "om_allow_set_file_valid_data = flag_bit 8"
definition om_no_mmap :: open_mode_t where "om_no_mmap = flag_bit 9"

definition rsv_cache_only :: resolver_flags_t where "rsv_cache_only = flag_bit 0"
definition rsv_abort_on_shutdown :: resolver_flags_t where "rsv_abort_on_shutdown = flag_bit 1"

definition ips_source_dht :: ip_source_t where "ips_source_dht = flag_bit 1"
definition ips_source_peer :: ip_source_t where "ips_source_peer = flag_bit 2"
definition ips_source_tracker :: ip_source_t where "ips_source_tracker = flag_bit 3"
definition ips_source_router :: ip_source_t where "ips_source_router = flag_bit 4"

definition cr_optimize_alignment :: create_flags_t where "cr_optimize_alignment = flag_bit 0"
definition cr_optimize :: create_flags_t where "cr_optimize = flag_bit 0"
definition cr_merkle :: create_flags_t where "cr_merkle = flag_bit 1"
definition cr_modification_time :: create_flags_t where "cr_modification_time = flag_bit 2"
definition cr_symlinks :: create_flags_t where "cr_symlinks = flag_bit 3"
definition cr_mutable_torrent_support :: create_flags_t where "cr_mutable_torrent_support = flag_bit 4"
definition cr_v2_only :: create_flags_t where "cr_v2_only = flag_bit 5"
definition cr_v1_only :: create_flags_t where "cr_v1_only = flag_bit 6"
definition cr_canonical_files :: create_flags_t where "cr_canonical_files = flag_bit 7"
definition cr_no_attributes :: create_flags_t where "cr_no_attributes = flag_bit 8"
definition cr_canonical_files_no_tail_padding :: create_flags_t where "cr_canonical_files_no_tail_padding = flag_bit 9"
definition cr_allow_odd_piece_size :: create_flags_t where "cr_allow_odd_piece_size = flag_bit 31"

definition fom_write_only :: file_open_mode_t where "fom_write_only = flag_bit 0"
definition fom_read_write :: file_open_mode_t where "fom_read_write = flag_bit 1"
definition fom_sparse :: file_open_mode_t where "fom_sparse = flag_bit 2"
definition fom_no_atime :: file_open_mode_t where "fom_no_atime = flag_bit 3"
definition fom_random_access :: file_open_mode_t where "fom_random_access = flag_bit 5"
definition fom_locked :: file_open_mode_t where "fom_locked = flag_bit 6"
definition fom_mmapped :: file_open_mode_t where "fom_mmapped = flag_bit 7"

definition feat_optimistic_unchoke_feature :: feature_flags_t where "feat_optimistic_unchoke_feature = flag_bit 1"
definition feat_tick_feature :: feature_flags_t where "feat_tick_feature = flag_bit 2"
definition feat_dht_request_feature :: feature_flags_t where "feat_dht_request_feature = flag_bit 3"
definition feat_alert_feature :: feature_flags_t where "feat_alert_feature = flag_bit 4"
definition feat_unknown_torrent_feature :: feature_flags_t where "feat_unknown_torrent_feature = flag_bit 5"

definition addp_first_time :: add_peer_flags_t where "addp_first_time = flag_bit 1"
definition addp_filtered :: add_peer_flags_t where "addp_filtered = flag_bit 2"

definition ff_pad_file :: file_flags_t where "ff_pad_file = flag_bit 0"
definition ff_attribute_hidden :: file_flags_t where "ff_attribute_hidden = flag_bit 1"
definition ff_attribute_executable :: file_flags_t where "ff_attribute_executable = flag_bit 2"
definition ff_attribute_symlink :: file_flags_t where "ff_attribute_symlink = flag_bit 3"
definition ff_pad_file2 :: file_flags_t where "ff_pad_file2 = flag_bit 0"
definition ff_hidden :: file_flags_t where "ff_hidden = flag_bit 1"
definition ff_executable :: file_flags_t where "ff_executable = flag_bit 2"
definition ff_symlink :: file_flags_t where "ff_symlink = flag_bit 3"

definition ann_seed :: announce_flags_t where "ann_seed = flag_bit 0"
definition ann_implied_port :: announce_flags_t where "ann_implied_port = flag_bit 1"
definition ann_ssl_torrent :: announce_flags_t where "ann_ssl_torrent = flag_bit 2"

definition fn_include_failed :: find_nodes_flags_t where "fn_include_failed = flag_bit 0"

definition tr_short_timeout :: traversal_flags_t where "tr_short_timeout = flag_bit 0"

definition rq_time_critical :: request_flags_t where "rq_time_critical = flag_bit 0"
definition rq_busy :: request_flags_t where "rq_busy = flag_bit 1"

definition peer_interesting :: peer_flags_t where "peer_interesting = flag_bit 0"
definition peer_choked :: peer_flags_t where "peer_choked = flag_bit 1"
definition peer_remote_interested :: peer_flags_t where "peer_remote_interested = flag_bit 2"
definition peer_remote_choked :: peer_flags_t where "peer_remote_choked = flag_bit 3"
definition peer_supports_extensions :: peer_flags_t where "peer_supports_extensions = flag_bit 4"
definition peer_outgoing_connection :: peer_flags_t where "peer_outgoing_connection = flag_bit 5"
definition peer_local_connection :: peer_flags_t where "peer_local_connection = flag_bit 5"
definition peer_handshake :: peer_flags_t where "peer_handshake = flag_bit 6"
definition peer_connecting :: peer_flags_t where "peer_connecting = flag_bit 7"
definition peer_queued :: peer_flags_t where "peer_queued = flag_bit 8"
definition peer_on_parole :: peer_flags_t where "peer_on_parole = flag_bit 9"
definition peer_seed :: peer_flags_t where "peer_seed = flag_bit 10"
definition peer_optimistic_unchoke :: peer_flags_t where "peer_optimistic_unchoke = flag_bit 11"
definition peer_snubbed :: peer_flags_t where "peer_snubbed = flag_bit 12"
definition peer_upload_only :: peer_flags_t where "peer_upload_only = flag_bit 13"
definition peer_endgame_mode :: peer_flags_t where "peer_endgame_mode = flag_bit 14"
definition peer_holepunched :: peer_flags_t where "peer_holepunched = flag_bit 15"
definition peer_i2p_socket :: peer_flags_t where "peer_i2p_socket = flag_bit 16"
definition peer_utp_socket :: peer_flags_t where "peer_utp_socket = flag_bit 17"
definition peer_ssl_socket :: peer_flags_t where "peer_ssl_socket = flag_bit 18"
definition peer_rc4_encrypted :: peer_flags_t where "peer_rc4_encrypted = flag_bit 19"
definition peer_plaintext_encrypted :: peer_flags_t where "peer_plaintext_encrypted = flag_bit 20"

definition source_tracker :: peer_source_flags_t where "source_tracker = flag_bit 0"
definition source_dht :: peer_source_flags_t where "source_dht = flag_bit 1"
definition source_pex :: peer_source_flags_t where "source_pex = flag_bit 2"
definition source_lsd :: peer_source_flags_t where "source_lsd = flag_bit 3"
definition source_resume_data :: peer_source_flags_t where "source_resume_data = flag_bit 4"
definition source_incoming :: peer_source_flags_t where "source_incoming = flag_bit 5"

definition conn_standard_bittorrent :: connection_type_t where "conn_standard_bittorrent = flag_bit 0"
definition conn_web_seed :: connection_type_t where "conn_web_seed = flag_bit 1"
definition conn_http_seed :: connection_type_t where "conn_http_seed = flag_bit 2"

definition ep_force_erase :: erase_peer_flags_t where "ep_force_erase = flag_bit 1"

definition pex_pex_encryption :: pex_flags_t where "pex_pex_encryption = flag_bit 0"
definition pex_pex_seed :: pex_flags_t where "pex_pex_seed = flag_bit 1"
definition pex_pex_utp :: pex_flags_t where "pex_pex_utp = flag_bit 2"
definition pex_pex_holepunch :: pex_flags_t where "pex_pex_holepunch = flag_bit 3"
definition pex_pex_lt_v2 :: pex_flags_t where "pex_pex_lt_v2 = flag_bit 7"

definition save_settings :: save_state_flags_t where "save_settings = flag_bit 0"
definition save_dht_settings :: save_state_flags_t where "save_dht_settings = flag_bit 1"
definition save_dht_state :: save_state_flags_t where "save_dht_state = flag_bit 2"
definition save_encryption_settings :: save_state_flags_t where "save_encryption_settings = flag_bit 3"
definition save_as_map :: save_state_flags_t where "save_as_map = flag_bit 4"
definition save_proxy :: save_state_flags_t where "save_proxy = flag_bit 5"
definition save_i2p_proxy :: save_state_flags_t where "save_i2p_proxy = flag_bit 6"
definition save_dht_proxy :: save_state_flags_t where "save_dht_proxy = flag_bit 7"
definition save_peer_proxy :: save_state_flags_t where "save_peer_proxy = flag_bit 8"
definition save_web_proxy :: save_state_flags_t where "save_web_proxy = flag_bit 9"
definition save_tracker_proxy :: save_state_flags_t where "save_tracker_proxy = flag_bit 10"
definition save_extension_state :: save_state_flags_t where "save_extension_state = flag_bit 11"
definition save_ip_filter :: save_state_flags_t where "save_ip_filter = flag_bit 12"

definition rm_delete_partfile :: remove_flags_t where "rm_delete_partfile = flag_bit 1"

definition ses_add_default_plugins :: session_flags_t where "ses_add_default_plugins = flag_bit 0"
definition ses_start_default_features :: session_flags_t where "ses_start_default_features = flag_bit 1"
definition ses_paused :: session_flags_t where "ses_paused = flag_bit 2"

definition reopen_reopen_map_ports :: reopen_network_flags_t where "reopen_reopen_map_ports = flag_bit 0"

definition ws_ephemeral :: web_seed_flag_t where "ws_ephemeral = flag_bit 0"
definition ws_no_local_ips :: web_seed_flag_t where "ws_no_local_ips = flag_bit 1"

definition ap_overwrite_existing :: add_piece_flags_t where "ap_overwrite_existing = flag_bit 0"

definition st_query_distributed_copies :: status_flags_t where "st_query_distributed_copies = flag_bit 0"
definition st_query_accurate_download_counters :: status_flags_t where "st_query_accurate_download_counters = flag_bit 1"
definition st_query_last_seen_complete :: status_flags_t where "st_query_last_seen_complete = flag_bit 2"
definition st_query_pieces :: status_flags_t where "st_query_pieces = flag_bit 3"
definition st_query_verified_pieces :: status_flags_t where "st_query_verified_pieces = flag_bit 4"
definition st_query_torrent_file :: status_flags_t where "st_query_torrent_file = flag_bit 5"
definition st_query_name :: status_flags_t where "st_query_name = flag_bit 6"
definition st_query_save_path :: status_flags_t where "st_query_save_path = flag_bit 7"

definition dl_alert_when_available :: deadline_flags_t where "dl_alert_when_available = flag_bit 0"

definition fp_piece_granularity :: file_progress_flags_t where "fp_piece_granularity = flag_bit 0"

definition pf_graceful_pause :: pause_flags_t where "pf_graceful_pause = flag_bit 0"
definition pf_clear_disk_cache :: pause_flags_t where "pf_clear_disk_cache = flag_bit 1"

definition ra_ignore_min_interval :: reannounce_flags_t where "ra_ignore_min_interval = flag_bit 0"

definition trk_scrape_request :: tracker_request_flags_t where "trk_scrape_request = flag_bit 0"
definition trk_i2p :: tracker_request_flags_t where "trk_i2p = flag_bit 1"

definition us_peer_connection :: udp_send_flags_t where "us_peer_connection = flag_bit 0"
definition us_tracker_connection :: udp_send_flags_t where "us_tracker_connection = flag_bit 1"
definition us_dont_queue :: udp_send_flags_t where "us_dont_queue = flag_bit 2"
definition us_dont_fragment :: udp_send_flags_t where "us_dont_fragment = flag_bit 3"

definition wt_allow_missing_piece_layer :: write_torrent_flags_t where "wt_allow_missing_piece_layer = flag_bit 0"
definition wt_no_http_seeds :: write_torrent_flags_t where "wt_no_http_seeds = flag_bit 1"
definition wt_include_dht_nodes :: write_torrent_flags_t where "wt_include_dht_nodes = flag_bit 2"

definition fom_read_only :: file_open_mode_t where "fom_read_only = flag_none"

definition fom_rw_mask :: file_open_mode_t where
  "fom_rw_mask = flag_or (flag_or fom_read_only fom_write_only) fom_read_write"

section \<open>They are well-formed\<close>

lemma picker_flags_t_ok:
  "flag_set_ok [pick_partial_ratio, pick_prioritize_partials, pick_rarest_first_partials, pick_rarest_first,
    pick_reverse_rarest_first, pick_suggested_pieces, pick_prio_sequential_pieces,
    pick_sequential_pieces, pick_reverse_pieces, pick_time_critical, pick_random_pieces,
    pick_prefer_contiguous, pick_reverse_sequential, pick_backup1, pick_backup2, pick_end_game,
    pick_extent_affinity]"
  by (rule flag_set_okI [of _ "[0, 1, 2, 3, 4, 5, 6, 7, 8, 9, 10, 11, 12, 13, 14, 15, 16]"])
    (simp_all add: pick_partial_ratio_def pick_prioritize_partials_def pick_rarest_first_partials_def
        pick_rarest_first_def pick_reverse_rarest_first_def pick_suggested_pieces_def
        pick_prio_sequential_pieces_def pick_sequential_pieces_def pick_reverse_pieces_def
        pick_time_critical_def pick_random_pieces_def pick_prefer_contiguous_def
        pick_reverse_sequential_def pick_backup1_def pick_backup2_def pick_end_game_def
        pick_extent_affinity_def)

lemma disk_job_flags_t_ok:
  "flag_set_ok [job_fence, job_in_progress, job_aborted, job_force_copy, job_sequential_access,
    job_volatile_read, job_v1_hash, job_flush_piece]"
  by (rule flag_set_okI [of _ "[1, 2, 6, 0, 3, 4, 5, 7]"])
    (simp_all add: job_fence_def job_in_progress_def job_aborted_def job_force_copy_def
        job_sequential_access_def job_volatile_read_def job_v1_hash_def job_flush_piece_def)

lemma open_mode_t_ok:
  "flag_set_ok [om_write, om_no_cache, om_truncate, om_no_atime, om_sequential_access, om_hidden, om_sparse,
    om_executable, om_allow_set_file_valid_data, om_no_mmap]"
  by (rule flag_set_okI [of _ "[0, 1, 2, 3, 4, 5, 6, 7, 8, 9]"])
    (simp_all add: om_write_def om_no_cache_def om_truncate_def om_no_atime_def om_sequential_access_def
        om_hidden_def om_sparse_def om_executable_def om_allow_set_file_valid_data_def
        om_no_mmap_def)

lemma resolver_flags_t_ok:
  "flag_set_ok [rsv_cache_only, rsv_abort_on_shutdown]"
  by (rule flag_set_okI [of _ "[0, 1]"])
    (simp_all add: rsv_cache_only_def rsv_abort_on_shutdown_def)

lemma ip_source_t_ok:
  "flag_set_ok [ips_source_dht, ips_source_peer, ips_source_tracker, ips_source_router]"
  by (rule flag_set_okI [of _ "[1, 2, 3, 4]"])
    (simp_all add: ips_source_dht_def ips_source_peer_def ips_source_tracker_def ips_source_router_def)

lemma create_flags_t_ok:
  "flag_set_ok [cr_optimize_alignment, cr_merkle, cr_modification_time, cr_symlinks, cr_mutable_torrent_support,
    cr_v2_only, cr_v1_only, cr_canonical_files, cr_no_attributes,
    cr_canonical_files_no_tail_padding, cr_allow_odd_piece_size]"
  by (rule flag_set_okI [of _ "[0, 1, 2, 3, 4, 5, 6, 7, 8, 9, 31]"])
    (simp_all add: cr_optimize_alignment_def cr_merkle_def cr_modification_time_def cr_symlinks_def
        cr_mutable_torrent_support_def cr_v2_only_def cr_v1_only_def cr_canonical_files_def
        cr_no_attributes_def cr_canonical_files_no_tail_padding_def cr_allow_odd_piece_size_def)

lemma file_open_mode_t_ok:
  "flag_set_ok [fom_write_only, fom_read_write, fom_sparse, fom_no_atime, fom_random_access, fom_locked,
    fom_mmapped]"
  by (rule flag_set_okI [of _ "[0, 1, 2, 3, 5, 6, 7]"])
    (simp_all add: fom_write_only_def fom_read_write_def fom_sparse_def fom_no_atime_def
        fom_random_access_def fom_locked_def fom_mmapped_def)

lemma feature_flags_t_ok:
  "flag_set_ok [feat_optimistic_unchoke_feature, feat_tick_feature, feat_dht_request_feature,
    feat_alert_feature, feat_unknown_torrent_feature]"
  by (rule flag_set_okI [of _ "[1, 2, 3, 4, 5]"])
    (simp_all add: feat_optimistic_unchoke_feature_def feat_tick_feature_def feat_dht_request_feature_def
        feat_alert_feature_def feat_unknown_torrent_feature_def)

lemma add_peer_flags_t_ok:
  "flag_set_ok [addp_first_time, addp_filtered]"
  by (rule flag_set_okI [of _ "[1, 2]"])
    (simp_all add: addp_first_time_def addp_filtered_def)

lemma file_flags_t_ok:
  "flag_set_ok [ff_pad_file, ff_hidden, ff_executable, ff_symlink]"
  by (rule flag_set_okI [of _ "[0, 1, 2, 3]"])
    (simp_all add: ff_pad_file_def ff_hidden_def ff_executable_def ff_symlink_def)

lemma announce_flags_t_ok:
  "flag_set_ok [ann_seed, ann_implied_port, ann_ssl_torrent]"
  by (rule flag_set_okI [of _ "[0, 1, 2]"])
    (simp_all add: ann_seed_def ann_implied_port_def ann_ssl_torrent_def)

lemma request_flags_t_ok:
  "flag_set_ok [rq_time_critical, rq_busy]"
  by (rule flag_set_okI [of _ "[0, 1]"])
    (simp_all add: rq_time_critical_def rq_busy_def)

lemma peer_flags_t_ok:
  "flag_set_ok [peer_interesting, peer_choked, peer_remote_interested, peer_remote_choked,
    peer_supports_extensions, peer_outgoing_connection, peer_handshake, peer_connecting,
    peer_queued, peer_on_parole, peer_seed, peer_optimistic_unchoke, peer_snubbed, peer_upload_only,
    peer_endgame_mode, peer_holepunched, peer_i2p_socket, peer_utp_socket, peer_ssl_socket,
    peer_rc4_encrypted, peer_plaintext_encrypted]"
  by (rule flag_set_okI [of _ "[0, 1, 2, 3, 4, 5, 6, 7, 8, 9, 10, 11, 12, 13, 14, 15, 16, 17, 18, 19, 20]"])
    (simp_all add: peer_interesting_def peer_choked_def peer_remote_interested_def peer_remote_choked_def
        peer_supports_extensions_def peer_outgoing_connection_def peer_handshake_def
        peer_connecting_def peer_queued_def peer_on_parole_def peer_seed_def
        peer_optimistic_unchoke_def peer_snubbed_def peer_upload_only_def peer_endgame_mode_def
        peer_holepunched_def peer_i2p_socket_def peer_utp_socket_def peer_ssl_socket_def
        peer_rc4_encrypted_def peer_plaintext_encrypted_def)

lemma peer_source_flags_t_ok:
  "flag_set_ok [source_tracker, source_dht, source_pex, source_lsd, source_resume_data, source_incoming]"
  by (rule flag_set_okI [of _ "[0, 1, 2, 3, 4, 5]"])
    (simp_all add: source_tracker_def source_dht_def source_pex_def source_lsd_def source_resume_data_def
        source_incoming_def)

lemma connection_type_t_ok:
  "flag_set_ok [conn_standard_bittorrent, conn_web_seed, conn_http_seed]"
  by (rule flag_set_okI [of _ "[0, 1, 2]"])
    (simp_all add: conn_standard_bittorrent_def conn_web_seed_def conn_http_seed_def)

lemma pex_flags_t_ok:
  "flag_set_ok [pex_pex_encryption, pex_pex_seed, pex_pex_utp, pex_pex_holepunch, pex_pex_lt_v2]"
  by (rule flag_set_okI [of _ "[0, 1, 2, 3, 7]"])
    (simp_all add: pex_pex_encryption_def pex_pex_seed_def pex_pex_utp_def pex_pex_holepunch_def
        pex_pex_lt_v2_def)

lemma save_state_flags_t_ok:
  "flag_set_ok [save_settings, save_dht_settings, save_dht_state, save_encryption_settings, save_as_map,
    save_proxy, save_i2p_proxy, save_dht_proxy, save_peer_proxy, save_web_proxy, save_tracker_proxy,
    save_extension_state, save_ip_filter]"
  by (rule flag_set_okI [of _ "[0, 1, 2, 3, 4, 5, 6, 7, 8, 9, 10, 11, 12]"])
    (simp_all add: save_settings_def save_dht_settings_def save_dht_state_def save_encryption_settings_def
        save_as_map_def save_proxy_def save_i2p_proxy_def save_dht_proxy_def save_peer_proxy_def
        save_web_proxy_def save_tracker_proxy_def save_extension_state_def save_ip_filter_def)

lemma session_flags_t_ok:
  "flag_set_ok [ses_add_default_plugins, ses_start_default_features, ses_paused]"
  by (rule flag_set_okI [of _ "[0, 1, 2]"])
    (simp_all add: ses_add_default_plugins_def ses_start_default_features_def ses_paused_def)

lemma web_seed_flag_t_ok:
  "flag_set_ok [ws_ephemeral, ws_no_local_ips]"
  by (rule flag_set_okI [of _ "[0, 1]"])
    (simp_all add: ws_ephemeral_def ws_no_local_ips_def)

lemma status_flags_t_ok:
  "flag_set_ok [st_query_distributed_copies, st_query_accurate_download_counters, st_query_last_seen_complete,
    st_query_pieces, st_query_verified_pieces, st_query_torrent_file, st_query_name,
    st_query_save_path]"
  by (rule flag_set_okI [of _ "[0, 1, 2, 3, 4, 5, 6, 7]"])
    (simp_all add: st_query_distributed_copies_def st_query_accurate_download_counters_def
        st_query_last_seen_complete_def st_query_pieces_def st_query_verified_pieces_def
        st_query_torrent_file_def st_query_name_def st_query_save_path_def)

lemma pause_flags_t_ok:
  "flag_set_ok [pf_graceful_pause, pf_clear_disk_cache]"
  by (rule flag_set_okI [of _ "[0, 1]"])
    (simp_all add: pf_graceful_pause_def pf_clear_disk_cache_def)

lemma tracker_request_flags_t_ok:
  "flag_set_ok [trk_scrape_request, trk_i2p]"
  by (rule flag_set_okI [of _ "[0, 1]"])
    (simp_all add: trk_scrape_request_def trk_i2p_def)

lemma udp_send_flags_t_ok:
  "flag_set_ok [us_peer_connection, us_tracker_connection, us_dont_queue, us_dont_fragment]"
  by (rule flag_set_okI [of _ "[0, 1, 2, 3]"])
    (simp_all add: us_peer_connection_def us_tracker_connection_def us_dont_queue_def us_dont_fragment_def)

lemma write_torrent_flags_t_ok:
  "flag_set_ok [wt_allow_missing_piece_layer, wt_no_http_seeds, wt_include_dht_nodes]"
  by (rule flag_set_okI [of _ "[0, 1, 2]"])
    (simp_all add: wt_allow_missing_piece_layer_def wt_no_http_seeds_def wt_include_dht_nodes_def)

lemma flag_aliases:
  "peer_local_connection = peer_outgoing_connection"
  "cr_optimize = cr_optimize_alignment"
  "ff_pad_file2 = ff_pad_file"
  "ff_attribute_hidden = ff_hidden"
  "ff_attribute_executable = ff_executable"
  "ff_attribute_symlink = ff_symlink"
  by (simp_all add: peer_local_connection_def peer_outgoing_connection_def cr_optimize_def cr_optimize_alignment_def ff_pad_file2_def ff_pad_file_def ff_attribute_hidden_def ff_hidden_def ff_attribute_executable_def ff_executable_def ff_attribute_symlink_def ff_symlink_def)

text \<open>
  The eight flags of a disk job, of the interface and of its implementation, take all the bits the
  type has; the modes of opening a file are told apart by their mask.
\<close>

lemma disk_job_flags_all:
  "foldl flag_or flag_none [job_fence, job_in_progress, job_aborted, job_force_copy, job_sequential_access,
     job_volatile_read, job_v1_hash, job_flush_piece] = flag_all"
  by (simp add: job_fence_def job_in_progress_def job_aborted_def job_force_copy_def job_sequential_access_def
      job_volatile_read_def job_v1_hash_def job_flush_piece_def flag_or_def flag_none_def flag_all_def flag_bit_def)

lemma open_modes_by_mask:
  "flag_and fom_read_only fom_rw_mask = fom_read_only" "flag_and fom_write_only fom_rw_mask = fom_write_only"
  "flag_and fom_read_write fom_rw_mask = fom_read_write" "distinct [fom_read_only, fom_write_only, fom_read_write]"
  "m \<in> {fom_sparse, fom_no_atime, fom_random_access, fom_locked, fom_mmapped} \<Longrightarrow> flag_and m fom_rw_mask = flag_none"
  by (auto simp: fom_read_only_def fom_write_only_def fom_read_write_def fom_rw_mask_def fom_sparse_def
      fom_no_atime_def fom_random_access_def fom_locked_def fom_mmapped_def flag_and_def flag_or_def
      flag_none_def flag_bit_def)

end
