(* ===== verification/Copy_Ptr.thy ===== *)
theory Copy_Ptr
  imports Getzy_Prelude
begin

text \<open>
  \<open>copy_ptr.hpp\<close>: an owning pointer that copies what it points to. A \<open>copy_ptr\<close> is its
  \<open>unique_ptr\<close>, the address of an object or null; the objects are in an explicit heap. Allocation may
  throw, which leaves everything as it was. Proved is that a program over such pointers is one over
  values. \<open>client_data.hpp\<close>, a pointer with the tag of its type, is here too.
\<close>

type_synonym ptr = "nat option"

record 'a cp_state =
  cp_heap :: "nat \<rightharpoonup> 'a"
  cp_vars :: "ptr list"

section \<open>Operations\<close>

text \<open>\<open>p.m_ptr ? new T(*p.m_ptr) : nullptr\<close>; \<open>mem\<close> is what the allocator gives, \<open>None\<close> when it throws.\<close>

definition cp_new :: "(nat \<rightharpoonup> 'a) \<Rightarrow> nat option \<Rightarrow> ptr \<Rightarrow> (ptr \<times> (nat \<rightharpoonup> 'a)) option" where
  "cp_new h mem p =
     (case p of None \<Rightarrow> Some (None, h)
      | Some a \<Rightarrow> (case mem of None \<Rightarrow> None | Some b \<Rightarrow> Some (Some b, h(b := h a))))"

text \<open>\<open>unique_ptr\<close>: freeing what is owned, and \<open>reset\<close>, which frees after storing.\<close>

definition cp_free :: "ptr \<Rightarrow> (nat \<rightharpoonup> 'a) \<Rightarrow> (nat \<rightharpoonup> 'a)" where
  "cp_free p h = (case p of None \<Rightarrow> h | Some a \<Rightarrow> h(a := None))"

definition cp_store :: "nat \<Rightarrow> ptr \<Rightarrow> 'a cp_state \<Rightarrow> 'a cp_state" where
  "cp_store i q s = s\<lparr>cp_heap := cp_free (cp_vars s ! i) (cp_heap s), cp_vars := (cp_vars s)[i := q]\<rparr>"

definition cp_default :: "'a cp_state \<Rightarrow> 'a cp_state" where
  "cp_default s = s\<lparr>cp_vars := cp_vars s @ [None]\<rparr>"

definition cp_copy :: "nat \<Rightarrow> nat option \<Rightarrow> 'a cp_state \<Rightarrow> 'a cp_state" where
  "cp_copy j mem s =
     (case cp_new (cp_heap s) mem (cp_vars s ! j) of
        None \<Rightarrow> s
      | Some (q, h) \<Rightarrow> s\<lparr>cp_heap := h, cp_vars := cp_vars s @ [q]\<rparr>)"

definition cp_reset :: "nat \<Rightarrow> (nat \<times> 'a) option \<Rightarrow> 'a cp_state \<Rightarrow> 'a cp_state" where
  "cp_reset i t s =
     (case t of
        None \<Rightarrow> cp_store i None s
      | Some (b, v) \<Rightarrow> cp_store i (Some b) (s\<lparr>cp_heap := (cp_heap s)(b \<mapsto> v)\<rparr>))"

definition cp_assign :: "nat \<Rightarrow> nat \<Rightarrow> nat option \<Rightarrow> 'a cp_state \<Rightarrow> 'a cp_state" where
  "cp_assign i j mem s =
     (if cp_vars s ! i = cp_vars s ! j then s
      else case cp_new (cp_heap s) mem (cp_vars s ! j) of
          None \<Rightarrow> s
        | Some (q, h) \<Rightarrow> cp_store i q (s\<lparr>cp_heap := h\<rparr>))"

text \<open>The defaulted move assignment: \<open>reset(release())\<close>.\<close>

definition cp_move :: "nat \<Rightarrow> nat \<Rightarrow> 'a cp_state \<Rightarrow> 'a cp_state" where
  "cp_move i j s =
     (let q = cp_vars s ! j in cp_store i q (s\<lparr>cp_vars := (cp_vars s)[j := None]\<rparr>))"

definition cp_swap :: "nat \<Rightarrow> nat \<Rightarrow> 'a cp_state \<Rightarrow> 'a cp_state" where
  "cp_swap i j s = s\<lparr>cp_vars := (cp_vars s)[i := cp_vars s ! j, j := cp_vars s ! i]\<rparr>"

text \<open>\<open>operator*\<close> and \<open>operator->\<close>, to read and to write; undefined on null.\<close>

definition cp_deref :: "nat \<Rightarrow> 'a cp_state \<Rightarrow> 'a option" where
  "cp_deref i s = Option.bind (cp_vars s ! i) (cp_heap s)"

definition cp_write :: "nat \<Rightarrow> 'a \<Rightarrow> 'a cp_state \<Rightarrow> 'a cp_state option" where
  "cp_write i v s = map_option (\<lambda>a. s\<lparr>cp_heap := (cp_heap s)(a \<mapsto> v)\<rparr>) (cp_vars s ! i)"

definition cp_bool :: "nat \<Rightarrow> 'a cp_state \<Rightarrow> bool" where
  "cp_bool i s \<longleftrightarrow> cp_vars s ! i \<noteq> None"

text \<open>The last variable goes out of scope.\<close>

definition cp_destroy :: "'a cp_state \<Rightarrow> 'a cp_state" where
  "cp_destroy s = s\<lparr>cp_heap := cp_free (last (cp_vars s)) (cp_heap s), cp_vars := butlast (cp_vars s)\<rparr>"

section \<open>Programs\<close>

datatype 'a cp_op =
    Default_Constructed
  | Copy_Constructed nat "nat option"
  | Was_Reset nat "(nat \<times> 'a) option"
  | Copy_Assigned nat nat "nat option"
  | Move_Assigned nat nat
  | Swapped nat nat
  | Written nat 'a
  | Destroyed

definition start_ptrs :: "'a cp_state" where
  "start_ptrs = \<lparr>cp_heap = Map.empty, cp_vars = []\<rparr>"

text \<open>Variables exist, and the allocator gives memory that is free.\<close>

fun cp_allowed :: "'a cp_state \<Rightarrow> 'a cp_op \<Rightarrow> bool" where
  "cp_allowed s Default_Constructed = True"
| "cp_allowed s (Copy_Constructed j mem) = (j < length (cp_vars s) \<and> (\<forall>b. mem = Some b \<longrightarrow> cp_heap s b = None))"
| "cp_allowed s (Was_Reset i t) = (i < length (cp_vars s) \<and> (\<forall>b v. t = Some (b, v) \<longrightarrow> cp_heap s b = None))"
| "cp_allowed s (Copy_Assigned i j mem) =
     (i < length (cp_vars s) \<and> j < length (cp_vars s) \<and> (\<forall>b. mem = Some b \<longrightarrow> cp_heap s b = None))"
| "cp_allowed s (Move_Assigned i j) = (i < length (cp_vars s) \<and> j < length (cp_vars s))"
| "cp_allowed s (Swapped i j) = (i < length (cp_vars s) \<and> j < length (cp_vars s))"
| "cp_allowed s (Written i v) = (i < length (cp_vars s))"
| "cp_allowed s Destroyed = (cp_vars s \<noteq> [])"

fun cp_step :: "'a cp_state \<Rightarrow> 'a cp_op \<Rightarrow> 'a cp_state option" where
  "cp_step s Default_Constructed = Some (cp_default s)"
| "cp_step s (Copy_Constructed j mem) = Some (cp_copy j mem s)"
| "cp_step s (Was_Reset i t) = Some (cp_reset i t s)"
| "cp_step s (Copy_Assigned i j mem) = Some (cp_assign i j mem s)"
| "cp_step s (Move_Assigned i j) = Some (cp_move i j s)"
| "cp_step s (Swapped i j) = Some (cp_swap i j s)"
| "cp_step s (Written i v) = cp_write i v s"
| "cp_step s Destroyed = Some (cp_destroy s)"

fun cp_run :: "'a cp_state \<Rightarrow> 'a cp_op list \<Rightarrow> 'a cp_state option" where
  "cp_run s [] = Some s"
| "cp_run s (e # es) = (if cp_allowed s e then Option.bind (cp_step s e) (\<lambda>t. cp_run t es) else None)"

text \<open>The same program over values: each variable holds a value of its own, or none.\<close>

fun value_step :: "'a option list \<Rightarrow> 'a cp_op \<Rightarrow> 'a option list" where
  "value_step xs Default_Constructed = xs @ [None]"
| "value_step xs (Copy_Constructed j mem) = (if xs ! j \<noteq> None \<and> mem = None then xs else xs @ [xs ! j])"
| "value_step xs (Was_Reset i t) = xs[i := map_option snd t]"
| "value_step xs (Copy_Assigned i j mem) = (if xs ! j \<noteq> None \<and> mem = None then xs else xs[i := xs ! j])"
| "value_step xs (Move_Assigned i j) = xs[j := None, i := xs ! j]"
| "value_step xs (Swapped i j) = xs[i := xs ! j, j := xs ! i]"
| "value_step xs (Written i v) = xs[i := Some v]"
| "value_step xs Destroyed = butlast xs"

definition cp_values :: "'a cp_state \<Rightarrow> 'a option list" where
  "cp_values s = map (\<lambda>p. Option.bind p (cp_heap s)) (cp_vars s)"

text \<open>Every object has exactly one owner, and nothing else is allocated.\<close>

definition owner :: "ptr list \<Rightarrow> nat \<Rightarrow> nat \<Rightarrow> bool" where
  "owner vs a k \<longleftrightarrow> k < length vs \<and> vs ! k = Some a"

definition cp_owned :: "'a cp_state \<Rightarrow> bool" where
  "cp_owned s \<longleftrightarrow> (\<forall>a. cp_heap s a \<noteq> None \<longleftrightarrow> (\<exists>!k. owner (cp_vars s) a k)) \<and>
     (\<forall>a k. owner (cp_vars s) a k \<longrightarrow> cp_heap s a \<noteq> None)"

section \<open>Ownership\<close>

text \<open>The invariant over a heap and variables, while an object \<open>q\<close> is held by no variable yet.\<close>

definition ptrs_own :: "(nat \<rightharpoonup> 'a) \<Rightarrow> ptr list \<Rightarrow> ptr \<Rightarrow> bool" where
  "ptrs_own h vs q \<longleftrightarrow> (\<forall>a. h a \<noteq> None \<longleftrightarrow> (\<exists>k. owner vs a k) \<or> q = Some a) \<and>
     (\<forall>a k. owner vs a k \<longrightarrow> q \<noteq> Some a) \<and>
     (\<forall>a j k. owner vs a j \<longrightarrow> owner vs a k \<longrightarrow> j = k)"

abbreviation values_of :: "(nat \<rightharpoonup> 'a) \<Rightarrow> ptr list \<Rightarrow> 'a option list" where
  "values_of h vs \<equiv> map (\<lambda>p. Option.bind p h) vs"

lemma ptrs_ownI:
  "(\<And>a. h a \<noteq> None \<longleftrightarrow> (\<exists>k. owner vs a k) \<or> q = Some a) \<Longrightarrow> (\<And>a k. owner vs a k \<Longrightarrow> q \<noteq> Some a) \<Longrightarrow>
   (\<And>a j k. owner vs a j \<Longrightarrow> owner vs a k \<Longrightarrow> j = k) \<Longrightarrow> ptrs_own h vs q"
  unfolding ptrs_own_def by blast

lemma ptrs_ownD:
  assumes "ptrs_own h vs q"
  shows "h a \<noteq> None \<longleftrightarrow> (\<exists>k. owner vs a k) \<or> q = Some a" "owner vs a k \<Longrightarrow> q \<noteq> Some a"
    "owner vs a j \<Longrightarrow> owner vs a k \<Longrightarrow> j = k"
  using assms unfolding ptrs_own_def by blast+

lemma cp_owned_ptrs: "cp_owned s \<longleftrightarrow> ptrs_own (cp_heap s) (cp_vars s) None"
  unfolding cp_owned_def ptrs_own_def by blast

lemma owner_update:
  "i < length vs \<Longrightarrow> owner (vs[i := q]) a k \<longleftrightarrow> k = i \<and> q = Some a \<or> k \<noteq> i \<and> owner vs a k"
  by (auto simp: owner_def nth_list_update)

lemma owner_append:
  "owner (vs @ [q]) a k \<longleftrightarrow> k = length vs \<and> q = Some a \<or> owner vs a k"
  by (auto simp: owner_def nth_append)

lemma owner_butlast: "vs \<noteq> [] \<Longrightarrow> owner (butlast vs) a k \<longleftrightarrow> k < length vs - 1 \<and> owner vs a k"
  by (auto simp: owner_def nth_butlast)

lemma cp_free_at: "cp_free p h a = (if p = Some a then None else h a)"
  by (auto simp: cp_free_def split: option.split)

text \<open>Where the owned objects agree, so do the values.\<close>

lemma values_cong:
  "(\<And>a k. owner vs a k \<Longrightarrow> h' a = h a) \<Longrightarrow> values_of h' vs = values_of h vs"
proof (rule map_cong [OF refl])
  fix p assume h: "\<And>a k. owner vs a k \<Longrightarrow> h' a = h a" and "p \<in> set vs"
  then obtain k where "k < length vs" "vs ! k = p" by (auto simp: in_set_conv_nth)
  with h show "Option.bind p h' = Option.bind p h" by (cases p) (auto simp: owner_def)
qed

lemma ptrs_own_fresh:
  assumes "ptrs_own h vs None" "h b = None"
  shows "ptrs_own (h(b \<mapsto> v)) vs (Some b)" "values_of (h(b \<mapsto> v)) vs = values_of h vs"
proof -
  have b: "\<not> owner vs b k" for k using ptrs_ownD(1) [OF assms(1), of b] assms(2) by auto
  then show "values_of (h(b \<mapsto> v)) vs = values_of h vs" by (intro values_cong) auto
  show "ptrs_own (h(b \<mapsto> v)) vs (Some b)"
  proof (rule ptrs_ownI)
    show "(h(b \<mapsto> v)) a \<noteq> None \<longleftrightarrow> (\<exists>k. owner vs a k) \<or> Some b = Some a" for a
      using ptrs_ownD(1) [OF assms(1), of a] b by auto
    show "owner vs a k \<Longrightarrow> Some b \<noteq> Some a" for a k using b by auto
  qed (rule ptrs_ownD(3) [OF assms(1)])
qed

lemma store_owns:
  assumes own: "ptrs_own h vs q" and i: "i < length vs"
  shows "ptrs_own (cp_free (vs ! i) h) (vs[i := q]) None"
    and "values_of (cp_free (vs ! i) h) (vs[i := q]) = (values_of h vs)[i := Option.bind q h]"
proof -
  have old: "vs ! i = Some a \<longleftrightarrow> owner vs a i" for a using i by (simp add: owner_def)
  show "ptrs_own (cp_free (vs ! i) h) (vs[i := q]) None"
  proof (rule ptrs_ownI)
    show "cp_free (vs ! i) h a \<noteq> None \<longleftrightarrow> (\<exists>k. owner (vs[i := q]) a k) \<or> None = Some a" for a
    proof (cases "owner vs a i")
      case True
      then have "\<not> owner (vs[i := q]) a k" for k
        using ptrs_ownD(2) [OF own True] ptrs_ownD(3) [OF own True, of k] unfolding owner_update [OF i] by blast
      with True show ?thesis by (simp add: cp_free_at old)
    next
      case False
      then have "(\<exists>k. owner (vs[i := q]) a k) \<longleftrightarrow> (\<exists>k. owner vs a k) \<or> q = Some a"
        unfolding owner_update [OF i] by blast
      with False ptrs_ownD(1) [OF own, of a] show ?thesis by (simp add: cp_free_at old)
    qed
    show "owner (vs[i := q]) a j \<Longrightarrow> owner (vs[i := q]) a k \<Longrightarrow> j = k" for a j k
      using ptrs_ownD(2,3) [OF own, of a] unfolding owner_update [OF i] by blast
  qed simp
  have "values_of (cp_free (vs ! i) h) (vs[i := q]) = values_of h (vs[i := q])"
    using ptrs_ownD(2) [OF own] ptrs_ownD(3) [OF own, of _ i]
    by (intro values_cong) (auto simp: owner_update [OF i] cp_free_at old)
  then show "values_of (cp_free (vs ! i) h) (vs[i := q]) = (values_of h vs)[i := Option.bind q h]"
    by (simp add: map_update)
qed

lemma release_owns:
  assumes own: "ptrs_own h vs None" and j: "j < length vs"
  shows "ptrs_own h (vs[j := None]) (vs ! j)"
    and "values_of h (vs[j := None]) = (values_of h vs)[j := None]"
proof -
  have old: "vs ! j = Some a \<longleftrightarrow> owner vs a j" for a using j by (simp add: owner_def)
  show "ptrs_own h (vs[j := None]) (vs ! j)"
  proof (rule ptrs_ownI)
    show "h a \<noteq> None \<longleftrightarrow> (\<exists>k. owner (vs[j := None]) a k) \<or> vs ! j = Some a" for a
      using ptrs_ownD(1) [OF own, of a] unfolding owner_update [OF j] old by auto
    show "owner (vs[j := None]) a k \<Longrightarrow> vs ! j \<noteq> Some a" for a k
      using ptrs_ownD(3) [OF own, of a j k] unfolding owner_update [OF j] old by auto
    show "owner (vs[j := None]) a i \<Longrightarrow> owner (vs[j := None]) a k \<Longrightarrow> i = k" for a i k
      using ptrs_ownD(3) [OF own, of a] unfolding owner_update [OF j] by blast
  qed
  show "values_of h (vs[j := None]) = (values_of h vs)[j := None]" by (simp add: map_update)
qed

lemma append_owns:
  assumes own: "ptrs_own h vs q"
  shows "ptrs_own h (vs @ [q]) None"
proof (rule ptrs_ownI)
  show "h a \<noteq> None \<longleftrightarrow> (\<exists>k. owner (vs @ [q]) a k) \<or> None = Some a" for a
    using ptrs_ownD(1) [OF own, of a] unfolding owner_append by auto
  have "owner vs a k \<Longrightarrow> k < length vs" for a k by (simp add: owner_def)
  then show "owner (vs @ [q]) a j \<Longrightarrow> owner (vs @ [q]) a k \<Longrightarrow> j = k" for a j k
    using ptrs_ownD(2,3) [OF own, of a] unfolding owner_append by blast
qed simp

lemma drop_none_owns:
  assumes own: "ptrs_own h (vs @ [None]) None"
  shows "ptrs_own h vs None"
  using ptrs_ownD [OF own] by (intro ptrs_ownI) (auto simp: owner_append)

lemma owner_swap:
  "i < length vs \<Longrightarrow> j < length vs \<Longrightarrow>
   owner (vs[i := vs ! j, j := vs ! i]) a k \<longleftrightarrow> owner vs a (if k = j then i else if k = i then j else k)"
  by (auto simp: owner_def nth_list_update)

lemma swap_owns:
  assumes own: "ptrs_own h vs None" and ij: "i < length vs" "j < length vs"
  shows "ptrs_own h (vs[i := vs ! j, j := vs ! i]) None"
proof (rule ptrs_ownI)
  let ?p = "\<lambda>k. if k = j then i else if k = i then j else k"
  have p: "?p (?p k) = k" for k by auto
  show "h a \<noteq> None \<longleftrightarrow> (\<exists>k. owner (vs[i := vs ! j, j := vs ! i]) a k) \<or> None = Some a" for a
    using ptrs_ownD(1) [OF own, of a] p unfolding owner_swap [OF ij] by (metis option.distinct(1))
  show "owner (vs[i := vs ! j, j := vs ! i]) a k \<Longrightarrow> owner (vs[i := vs ! j, j := vs ! i]) a l \<Longrightarrow> k = l" for a k l
    using ptrs_ownD(3) [OF own, of a "?p k" "?p l"] p unfolding owner_swap [OF ij] by metis
qed simp

lemma write_owns:
  assumes own: "ptrs_own h vs None" and i: "i < length vs" "vs ! i = Some a"
  shows "ptrs_own (h(a \<mapsto> v)) vs None" "values_of (h(a \<mapsto> v)) vs = (values_of h vs)[i := Some v]"
proof -
  have o: "owner vs a i" using i by (simp add: owner_def)
  then have "h a \<noteq> None" using ptrs_ownD(1) [OF own, of a] by blast
  then show "ptrs_own (h(a \<mapsto> v)) vs None"
    using ptrs_ownD [OF own] by (intro ptrs_ownI) auto
  show "values_of (h(a \<mapsto> v)) vs = (values_of h vs)[i := Some v]"
  proof (rule nth_equalityI)
    fix k assume "k < length (values_of (h(a \<mapsto> v)) vs)"
    then show "values_of (h(a \<mapsto> v)) vs ! k = (values_of h vs)[i := Some v] ! k"
      using i ptrs_ownD(3) [OF own o, of k] by (cases "vs ! k") (auto simp: owner_def nth_list_update)
  qed simp
qed

lemma new_owns:
  assumes own: "ptrs_own h vs None" and j: "j < length vs"
    and new: "cp_new h mem (vs ! j) = Some (q, h')" and fresh: "\<forall>b. mem = Some b \<longrightarrow> h b = None"
  shows "ptrs_own h' vs q" "values_of h' vs = values_of h vs" "Option.bind q h' = Option.bind (vs ! j) h"
proof -
  consider "vs ! j = None" "q = None" "h' = h"
    | a b where "vs ! j = Some a" "q = Some b" "h' = h(b := h a)" "h b = None"
    using new fresh by (auto simp: cp_new_def split: option.splits)
  then have "ptrs_own h' vs q \<and> values_of h' vs = values_of h vs \<and> Option.bind q h' = Option.bind (vs ! j) h"
  proof cases
    case 1
    with own show ?thesis by simp
  next
    case (2 a b)
    then have "owner vs a j" using j by (simp add: owner_def)
    then obtain v where "h a = Some v" using ptrs_ownD(1) [OF own, of a] by blast
    with 2 ptrs_own_fresh [OF own \<open>h b = None\<close>, of v] show ?thesis by simp
  qed
  then show "ptrs_own h' vs q" "values_of h' vs = values_of h vs" "Option.bind q h' = Option.bind (vs ! j) h"
    by blast+
qed

lemma value_present:
  assumes "ptrs_own h vs None" "j < length vs"
  shows "Option.bind (vs ! j) h = None \<longleftrightarrow> vs ! j = None"
proof (cases "vs ! j")
  case (Some a)
  then have "owner vs a j" using assms(2) by (simp add: owner_def)
  then have "h a \<noteq> None" using ptrs_ownD(1) [OF assms(1), of a] by blast
  with Some show ?thesis by simp
qed simp

section \<open>Value semantics\<close>

definition simulates :: "'a cp_state \<Rightarrow> 'a option list \<Rightarrow> bool" where
  "simulates t xs \<longleftrightarrow> cp_owned t \<and> cp_values t = xs"

lemma simulatesI:
  "ptrs_own h vs None \<Longrightarrow> values_of h vs = xs \<Longrightarrow> simulates (s\<lparr>cp_heap := h, cp_vars := vs\<rparr>) xs"
  by (simp add: simulates_def cp_owned_ptrs cp_values_def)

lemma cp_new_failed: "cp_new h mem p = None \<longleftrightarrow> p \<noteq> None \<and> mem = None"
  by (auto simp: cp_new_def split: option.splits)

lemma unchanged: "ptrs_own (cp_heap s) (cp_vars s) None \<Longrightarrow> simulates s (cp_values s)"
  by (simp add: simulates_def cp_owned_ptrs)

lemma copy_simulates:
  assumes own: "ptrs_own (cp_heap s) (cp_vars s) None"
    and j: "j < length (cp_vars s)" and fresh: "\<forall>b. mem = Some b \<longrightarrow> cp_heap s b = None"
  shows "simulates (cp_copy j mem s) (value_step (cp_values s) (Copy_Constructed j mem))"
proof (cases "cp_new (cp_heap s) mem (cp_vars s ! j)")
  case None
  then have "cp_vars s ! j \<noteq> None" "mem = None" by (simp_all add: cp_new_failed)
  with None unchanged [OF own] j value_present [OF own j] show ?thesis
    by (simp add: cp_copy_def cp_values_def)
next
  case (Some r)
  then obtain q h where new: "cp_new (cp_heap s) mem (cp_vars s ! j) = Some (q, h)" by (cases r) auto
  then have "\<not> (cp_vars s ! j \<noteq> None \<and> mem = None)" using cp_new_failed [of "cp_heap s" mem "cp_vars s ! j"] by auto
  moreover note owns = new_owns [OF own j new fresh]
  have "simulates (s\<lparr>cp_heap := h, cp_vars := cp_vars s @ [q]\<rparr>) (cp_values s @ [cp_values s ! j])"
    using append_owns [OF owns(1)] owns(2,3) j by (intro simulatesI) (simp_all add: cp_values_def)
  ultimately show ?thesis using new j value_present [OF own j]
    by (auto simp: cp_copy_def cp_values_def)
qed

lemma reset_simulates:
  assumes own: "ptrs_own (cp_heap s) (cp_vars s) None"
    and i: "i < length (cp_vars s)" and fresh: "\<forall>b v. m = Some (b, v) \<longrightarrow> cp_heap s b = None"
  shows "simulates (cp_reset i m s) (value_step (cp_values s) (Was_Reset i m))"
proof (cases m)
  case None
  with store_owns [OF own i] show ?thesis
    by (auto simp: cp_reset_def cp_store_def cp_values_def intro!: simulatesI)
next
  case (Some bv)
  then obtain b v where m: "m = Some (b, v)" by (cases bv) auto
  then have "cp_heap s b = None" using fresh by simp
  note new = ptrs_own_fresh [OF own this, of v]
  from store_owns [OF new(1) i] new(2) m show ?thesis
    by (auto simp: cp_reset_def cp_store_def cp_values_def intro!: simulatesI)
qed

lemma assign_simulates:
  assumes own: "ptrs_own (cp_heap s) (cp_vars s) None"
    and i: "i < length (cp_vars s)" and j: "j < length (cp_vars s)"
    and fresh: "\<forall>b. mem = Some b \<longrightarrow> cp_heap s b = None"
  shows "simulates (cp_assign i j mem s) (value_step (cp_values s) (Copy_Assigned i j mem))"
proof (cases "cp_vars s ! i = cp_vars s ! j")
  case True
  then have "cp_values s ! i = cp_values s ! j" using i j by (simp add: cp_values_def)
  then have "(cp_values s)[i := cp_values s ! j] = cp_values s" by (metis list_update_id)
  with True unchanged [OF own] show ?thesis by (simp add: cp_assign_def)
next
  case ne: False
  show ?thesis
  proof (cases "cp_new (cp_heap s) mem (cp_vars s ! j)")
    case None
    then have "cp_vars s ! j \<noteq> None" "mem = None" by (simp_all add: cp_new_failed)
    with None ne unchanged [OF own] j value_present [OF own j] show ?thesis
      by (simp add: cp_assign_def cp_values_def)
  next
    case (Some r)
    then obtain q h where new: "cp_new (cp_heap s) mem (cp_vars s ! j) = Some (q, h)" by (cases r) auto
    then have made: "\<not> (cp_vars s ! j \<noteq> None \<and> mem = None)" using cp_new_failed [of "cp_heap s" mem "cp_vars s ! j"] by auto
    note owns = new_owns [OF own j new fresh]
    have "simulates (cp_store i q (s\<lparr>cp_heap := h\<rparr>)) ((cp_values s)[i := cp_values s ! j])"
      using store_owns [OF owns(1) i] owns(2,3) j
      by (auto simp: cp_store_def cp_values_def intro!: simulatesI)
    with made ne new j value_present [OF own j] show ?thesis
      by (auto simp: cp_assign_def cp_values_def)
  qed
qed

lemma move_simulates:
  assumes own: "ptrs_own (cp_heap s) (cp_vars s) None"
    and i: "i < length (cp_vars s)" and j: "j < length (cp_vars s)"
  shows "simulates (cp_move i j s) (value_step (cp_values s) (Move_Assigned i j))"
proof -
  note released = release_owns [OF own j]
  have "i < length ((cp_vars s)[j := None])" using i by simp
  from store_owns [OF released(1) this] released(2) j show ?thesis
    by (auto simp: cp_move_def Let_def cp_store_def cp_values_def intro!: simulatesI)
qed

lemma destroy_simulates:
  assumes own: "ptrs_own (cp_heap s) (cp_vars s) None"
    and ne: "cp_vars s \<noteq> []"
  shows "simulates (cp_destroy s) (value_step (cp_values s) Destroyed)"
proof -
  obtain vs p where vs: "cp_vars s = vs @ [p]" using ne by (metis append_butlast_last_id)
  have "length vs < length (cp_vars s)" by (simp add: vs)
  note emptied = store_owns [OF own this]
  have "values_of (cp_free p (cp_heap s)) vs @ [None] = values_of (cp_heap s) vs @ [None]"
    using emptied(2) by (simp add: vs list_update_append)
  with drop_none_owns [of "cp_free p (cp_heap s)" vs] emptied(1) show ?thesis
    by (auto simp: cp_destroy_def cp_values_def vs intro!: simulatesI)
qed

lemma cp_step_simulates:
  assumes own: "ptrs_own (cp_heap s) (cp_vars s) None"
    and "cp_allowed s e" "cp_step s e = Some t"
  shows "simulates t (value_step (cp_values s) e)"
proof (cases e)
  case Default_Constructed
  with assms append_owns [OF own] show ?thesis
    by (auto simp: cp_default_def cp_values_def simulates_def cp_owned_ptrs)
next
  case (Swapped i j)
  then have ij: "i < length (cp_vars s)" "j < length (cp_vars s)" using assms by simp_all
  from swap_owns [OF own ij] assms Swapped ij show ?thesis
    by (auto simp: cp_swap_def cp_values_def simulates_def cp_owned_ptrs map_update)
next
  case (Written i v)
  then obtain a where a: "cp_vars s ! i = Some a" "t = s\<lparr>cp_heap := (cp_heap s)(a \<mapsto> v)\<rparr>" "i < length (cp_vars s)"
    using assms by (auto simp: cp_write_def)
  with write_owns [OF own a(3,1), of v] Written show ?thesis
    by (auto simp: cp_values_def simulates_def cp_owned_ptrs)
next
  case (Copy_Constructed j mem)
  with assms copy_simulates [OF own, of j mem] show ?thesis by auto
next
  case (Was_Reset i m)
  with assms reset_simulates [OF own, of i m] show ?thesis by auto
next
  case (Copy_Assigned i j mem)
  with assms assign_simulates [OF own, of i j mem] show ?thesis by auto
next
  case (Move_Assigned i j)
  with assms move_simulates [OF own, of i j] show ?thesis by auto
next
  case Destroyed
  with assms destroy_simulates [OF own] show ?thesis by auto
qed

lemma cp_run_simulates:
  "cp_owned s \<Longrightarrow> cp_run s es = Some t \<Longrightarrow> simulates t (foldl value_step (cp_values s) es)"
proof (induction es arbitrary: s)
  case Nil
  then show ?case by (simp add: simulates_def)
next
  case (Cons e es)
  then obtain u where u: "cp_allowed s e" "cp_step s e = Some u" "cp_run u es = Some t"
    by (auto split: if_splits simp: bind_eq_Some_conv)
  with cp_step_simulates [OF _ u(1,2)] Cons.prems(1) have "simulates u (value_step (cp_values s) e)"
    by (simp add: cp_owned_ptrs)
  with Cons.IH [OF _ u(3)] show ?case by (simp add: simulates_def)
qed

text \<open>
  C14. Copying pointers are values. Whatever a program does with \<open>copy_ptr\<close> variables, default and
  copy construction, reset, copy and move assignment, also to itself, swapping, writing through one
  and destruction, with allocations that may fail: each variable holds what it would hold if the
  variables were optional values, so that writing through one never shows through another; every object
  allocated has exactly one owner, none is leaked or used after it was freed, and no step but a write
  through null is undefined.
\<close>

theorem copy_ptr_is_value:
  assumes "cp_run start_ptrs es = Some s"
  shows "cp_values s = foldl value_step [] es \<and> cp_owned s \<and>
    (\<forall>i < length (cp_vars s). cp_bool i s = (cp_deref i s \<noteq> None)) \<and>
    (\<forall>e. cp_allowed s e \<longrightarrow> cp_step s e = None \<longrightarrow> (\<exists>i v. e = Written i v \<and> foldl value_step [] es ! i = None))"
proof -
  have "cp_owned (start_ptrs :: 'a cp_state)" by (simp add: cp_owned_ptrs ptrs_own_def start_ptrs_def owner_def)
  from cp_run_simulates [OF this assms] have sim: "cp_owned s" "cp_values s = foldl value_step [] es"
    by (simp_all add: simulates_def cp_values_def start_ptrs_def)
  then have own: "ptrs_own (cp_heap s) (cp_vars s) None" by (simp add: cp_owned_ptrs)
  have "\<exists>i v. e = Written i v \<and> cp_values s ! i = None" if "cp_allowed s e" "cp_step s e = None" for e
    using that by (cases e) (auto simp: cp_write_def cp_values_def)
  with sim value_present [OF own] show ?thesis by (auto simp: cp_bool_def cp_deref_def)
qed

text \<open>A copy is changed, the original not; memory that was freed is used again.\<close>

theorem copy_ptr_is_value_witness:
  "\<exists>s. cp_run start_ptrs [Default_Constructed, Was_Reset 0 (Some (8, ''a'')), Copy_Constructed 0 (Some 16),
       Written 1 ''b'', Move_Assigned 0 1, Copy_Assigned 1 0 (Some 8), Copy_Assigned 1 1 None] = Some s \<and>
     cp_values s = [Some ''b'', Some ''b''] \<and> cp_owned s"
proof -
  let ?es = "[Default_Constructed, Was_Reset 0 (Some (8, ''a'')), Copy_Constructed 0 (Some 16),
       Written 1 ''b'', Move_Assigned 0 1, Copy_Assigned 1 0 (Some 8), Copy_Assigned 1 1 None]"
  obtain s where run: "cp_run start_ptrs ?es = Some s"
    by (simp add: start_ptrs_def cp_default_def cp_reset_def cp_store_def cp_free_def cp_copy_def cp_new_def
        cp_write_def cp_move_def cp_assign_def)
  from copy_ptr_is_value [OF run] run show ?thesis by simp
qed

section \<open>client_data_t\<close>

text \<open>
  A pointer of the client with the address of a static of its type, different for different types:
  it is given back only as a pointer to that type, never reinterpreted.
\<close>

record client_data =
  m_type_ptr :: nat
  m_client_ptr :: nat

definition client_data_init :: client_data where
  "client_data_init = \<lparr>m_type_ptr = 0, m_client_ptr = 0\<rparr>"

definition client_data_of :: "('t \<Rightarrow> nat) \<Rightarrow> 't \<Rightarrow> nat \<Rightarrow> client_data" where
  "client_data_of type_of T v = \<lparr>m_type_ptr = type_of T, m_client_ptr = v\<rparr>"

definition client_data_assign :: "('t \<Rightarrow> nat) \<Rightarrow> 't \<Rightarrow> nat \<Rightarrow> client_data \<Rightarrow> client_data" where
  "client_data_assign type_of T v d = d\<lparr>m_type_ptr := type_of T, m_client_ptr := v\<rparr>"

definition client_data_get :: "('t \<Rightarrow> nat) \<Rightarrow> 't \<Rightarrow> client_data \<Rightarrow> nat" where
  "client_data_get type_of T d = (if m_type_ptr d \<noteq> type_of T then 0 else m_client_ptr d)"

lemma client_data_typed:
  assumes "inj type_of" "0 \<notin> range type_of"
  shows "client_data_get type_of U (client_data_assign type_of T v d) = (if U = T then v else 0)"
    "client_data_get type_of U (client_data_of type_of T v) = (if U = T then v else 0)"
    "client_data_get type_of U client_data_init = 0"
  using assms by (auto simp: client_data_get_def client_data_assign_def client_data_of_def client_data_init_def
      dest: injD)

end
