(* ===== verification/Receive_Buffer.thy ===== *)
theory Receive_Buffer
  imports Getzy_Prelude
begin

text \<open>
  \<open>aux_/receive_buffer.hpp\<close>: the positions of the buffer a peer connection receives into, and the
  view of it that a connection has whose encryption layer frames packets of its own
  (\<open>crypto_receive_buffer\<close>). The functions that move bytes are in the prebuilt library; \<open>cut\<close> is a
  parameter. The bytes and the average of their use are left out. Overflow of \<open>int\<close> is \<open>None\<close>.
\<close>

section \<open>receive_buffer\<close>

record receive_buffer =
  m_recv_start :: int
  m_recv_end :: int
  m_recv_pos :: int
  m_packet_size :: int
  m_buffer_size :: int

definition receive_buffer_init :: receive_buffer where
  "receive_buffer_init = \<lparr>m_recv_start = 0, m_recv_end = 0, m_recv_pos = 0, m_packet_size = 0, m_buffer_size = 0\<rparr>"

definition rb_packet_size :: "receive_buffer \<Rightarrow> int" where "rb_packet_size b = m_packet_size b"

definition packet_bytes_remaining :: "receive_buffer \<Rightarrow> int option" where
  "packet_bytes_remaining b = c_int (m_packet_size b - m_recv_pos b)"

definition packet_finished :: "receive_buffer \<Rightarrow> bool" where
  "packet_finished b \<longleftrightarrow> m_packet_size b \<le> m_recv_pos b"

definition rb_pos :: "receive_buffer \<Rightarrow> int" where "rb_pos b = m_recv_pos b"

definition rb_capacity :: "receive_buffer \<Rightarrow> int" where "rb_capacity b = to_int32 (m_buffer_size b)"

definition rb_received :: "int \<Rightarrow> receive_buffer \<Rightarrow> receive_buffer option" where
  "rb_received bytes_transferred b =
     map_option (\<lambda>e. b\<lparr>m_recv_end := e\<rparr>) (c_int (m_recv_end b + bytes_transferred))"

definition pos_at_end :: "receive_buffer \<Rightarrow> bool" where
  "pos_at_end b \<longleftrightarrow> m_recv_pos b = m_recv_end b"

definition normalized :: "receive_buffer \<Rightarrow> bool" where
  "normalized b \<longleftrightarrow> m_recv_start b = 0"

text \<open>\<open>check_invariant\<close>.\<close>

definition rb_invariant :: "receive_buffer \<Rightarrow> bool" where
  "rb_invariant b \<longleftrightarrow> m_recv_start b \<le> m_recv_end b \<and> m_recv_end b \<le> to_int32 (m_buffer_size b) \<and>
     m_recv_start b \<le> to_int32 (m_buffer_size b) \<and> m_recv_start b + m_recv_pos b \<le> to_int32 (m_buffer_size b)"

section \<open>crypto_receive_buffer\<close>

record crypto_buffer =
  crypto_recv_pos :: int
  crypto_own_packet_size :: int
  connection_buffer :: receive_buffer

definition crypto_buffer_init :: "receive_buffer \<Rightarrow> crypto_buffer" where
  "crypto_buffer_init next = \<lparr>crypto_recv_pos = 2147483647, crypto_own_packet_size = 0, connection_buffer = next\<rparr>"

definition crypto_packet_finished :: "crypto_buffer \<Rightarrow> bool" where
  "crypto_packet_finished c \<longleftrightarrow> crypto_recv_pos c = 2147483647 \<or> packet_finished (connection_buffer c)"

definition crypto_packet_size :: "crypto_buffer \<Rightarrow> int option" where
  "crypto_packet_size c = c_int (rb_packet_size (connection_buffer c) - crypto_recv_pos c)"

text \<open>\<open>cut (size, packet_size, offset)\<close> of the connection's buffer is the argument.\<close>

definition crypto_cut ::
  "(int \<Rightarrow> int \<Rightarrow> int \<Rightarrow> receive_buffer \<Rightarrow> receive_buffer) \<Rightarrow> int \<Rightarrow> int \<Rightarrow> crypto_buffer \<Rightarrow> crypto_buffer option" where
  "crypto_cut cut_at sz packet_size c =
     map_option (\<lambda>p. c\<lparr>connection_buffer := cut_at sz p (crypto_recv_pos c) (connection_buffer c)\<rparr>)
       (c_int (crypto_recv_pos c + packet_size))"

section \<open>Positions\<close>

lemma receive_keeps_invariant:
  "rb_invariant b \<Longrightarrow> 0 \<le> n \<Longrightarrow> m_recv_end b + n \<le> to_int32 (m_buffer_size b) \<Longrightarrow> - 2147483648 \<le> m_recv_end b \<Longrightarrow>
   \<exists>b'. rb_received n b = Some b' \<and> rb_invariant b' \<and> m_recv_end b' = m_recv_end b + n"
  using to_int32_range [of "m_buffer_size b"]
  by (auto simp: rb_invariant_def rb_received_def c_int_Some in_int32_def)

lemma finished_remaining:
  "rb_invariant b \<Longrightarrow> 0 \<le> m_recv_pos b \<Longrightarrow> 0 \<le> m_packet_size b \<Longrightarrow> m_packet_size b \<le> 2147483647 \<Longrightarrow>
   m_recv_pos b \<le> 2147483647 \<Longrightarrow>
   \<exists>n. packet_bytes_remaining b = Some n \<and> packet_finished b = (n \<le> 0)"
  by (auto simp: packet_bytes_remaining_def packet_finished_def c_int_Some in_int32_def)

text \<open>
  \<open>m_recv_pos\<close> counts from the start of the packet, \<open>m_recv_end\<close> from the start of the buffer: the read
  cursor is at the end exactly when \<open>pos_at_end\<close> says so as long as the buffer is normalized, and never
  when it says so otherwise.
\<close>

lemma pos_at_end_normalized:
  "normalized b \<Longrightarrow> pos_at_end b \<longleftrightarrow> m_recv_start b + m_recv_pos b = m_recv_end b"
  "\<not> normalized b \<Longrightarrow> pos_at_end b \<Longrightarrow> m_recv_start b + m_recv_pos b \<noteq> m_recv_end b"
  by (auto simp: normalized_def pos_at_end_def)

text \<open>
  The encryption layer sees packets of its own size: after \<open>crypto_cut\<close> with a packet size, that is the
  size it reads, when \<open>cut\<close> takes the packet size it is given, and the packet is finished when the
  connection has received that many bytes behind the layer's position.
\<close>

lemma crypto_cut_size:
  assumes "\<And>sz p offset b. m_packet_size (cut_at sz p offset b) = p"
    and "0 \<le> crypto_recv_pos c" "crypto_recv_pos c < 2147483647" "0 \<le> p" "crypto_recv_pos c + p \<le> 2147483647"
  shows "\<exists>c'. crypto_cut cut_at sz p c = Some c' \<and> crypto_packet_size c' = Some p \<and>
    crypto_packet_finished c' = (p \<le> m_recv_pos (connection_buffer c') - crypto_recv_pos c')"
  using assms
  by (auto simp: crypto_cut_def crypto_packet_size_def rb_packet_size_def crypto_packet_finished_def
      packet_finished_def c_int_Some in_int32_def)

lemma crypto_inactive_finished: "crypto_packet_finished (crypto_buffer_init b)"
  by (simp add: crypto_packet_finished_def crypto_buffer_init_def)

end
