(* ===== verification/Upnp_State.thy ===== *)
theory Upnp_State
  imports Getzy_Prelude
begin

text \<open>
  \<open>upnp.hpp\<close>: the states of the parsers of what a router answers. The tags that are open are a stack,
  the innermost last; names are compared by \<open>string_equal_no_case\<close>, which is in the prebuilt library
  and a parameter here.
\<close>

record parse_state =
  in_service :: bool
  tag_stack :: "string list"
  control_url :: string
  service_type :: string
  upnp_model :: string
  url_base :: string

definition parse_state_init :: parse_state where
  "parse_state_init = \<lparr>in_service = False, tag_stack = [], control_url = [], service_type = [],
     upnp_model = [], url_base = []\<rparr>"

text \<open>The reverse iterator, on the reversed stack.\<close>

definition top_tags :: "(string \<Rightarrow> string \<Rightarrow> bool) \<Rightarrow> string \<Rightarrow> string \<Rightarrow> parse_state \<Rightarrow> bool" where
  "top_tags same str1 str2 s =
     (case rev (tag_stack s) of
        [] \<Rightarrow> False
      | t # ts \<Rightarrow>
          if \<not> same t str2 then False
          else (case ts of
              [] \<Rightarrow> False
            | u # us \<Rightarrow> if \<not> same u str1 then False else True))"

record error_code_parse_state =
  in_error_code :: bool
  parse_exit :: bool
  upnp_error_code :: int

definition error_code_parse_init :: error_code_parse_state where
  "error_code_parse_init = \<lparr>in_error_code = False, parse_exit = False, upnp_error_code = -1\<rparr>"

record ip_address_parse_state = error_code_parse_state +
  in_ip_address :: bool
  ip_address :: string

definition ip_address_parse_init :: ip_address_parse_state where
  "ip_address_parse_init = error_code_parse_state.extend error_code_parse_init \<lparr>in_ip_address = False, ip_address = []\<rparr>"

text \<open>
  \<open>top_tags\<close> holds exactly when the parser is directly inside \<open>str2\<close> inside \<open>str1\<close>, at any depth; it
  reads no tag below an empty stack.
\<close>

lemma top_tags_iff:
  "top_tags same str1 str2 s \<longleftrightarrow> (\<exists>ts u t. tag_stack s = ts @ [u, t] \<and> same u str1 \<and> same t str2)"
proof -
  have "top_tags same str1 str2 (s\<lparr>tag_stack := rev xs\<rparr>) \<longleftrightarrow>
      (\<exists>ts u t. rev xs = ts @ [u, t] \<and> same u str1 \<and> same t str2)" for xs
  proof (cases xs)
    case (Cons t ys)
    then show ?thesis by (cases ys) (auto simp: top_tags_def)
  qed (simp add: top_tags_def)
  from this [of "rev (tag_stack s)"] show ?thesis by simp
qed

end
