(* ===== verification/Spec2Isabelle.thy ===== *)
theory Spec2Isabelle
  imports Bridge_Machine Byte_IO Socks5_Stream Http_Stream I2P_Stream Bencode Tail_Queue Torrent_List
    Alert_Manager Packet_Pool Suggest_Piece Piece_Pos Utp_Stream Peer_Class_Filter Transfer_Stat
    Torrent_State Peer_State Session_State Send_Buffer Link_List Storage_Slots Sorted_Vector Pad_Files Owners Sort_Orders Socket_Options Enumerations
    I2P_Connection Handlers Dht_Requests Peer_List Device_Binding Bdecode_Token Containers Piece_Counts
    Torrent_Handle Hash_Results Flag_Sets Copy_Ptr Receive_Buffer Upnp_State
begin

text \<open>
  A verification library for the native part of getzy, a torrent client for Android.

  \<^bold>\<open>The program.\<close> The application (Dart and Kotlin) reaches its torrent engine through one C++
  file, \<open>src/android/libtorrent/jni/torrent_bridge.cpp\<close>: eleven JNI functions over one global
  session pointer, with hand-written JSON reading and writing. The bridge is linked with a prebuilt
  libtorrent 2.0, of which the repository holds the headers
  (\<open>src/android/libtorrent/include/libtorrent\<close>, \<open>libtorrent/\<close> below). The engine's
  code that is under \<open>src/\<close> is therefore the bridge and what the headers define inline or as
  templates. All of the bridge is modelled; of the headers, the classes whose operations are in the
  header. A function that is only declared there is a parameter of the definitions that call it (a record
  field or a function argument), never a made-up definition; what is assumed of a parameter is a premise
  of the theorem and has a witness.

  \<^bold>\<open>Conventions.\<close> A machine integer is a word of its width, or an \<open>int\<close> with the wrap-around
  or the undefined overflow written out; a class is a record, an enumeration a datatype or a table of
  its values; an operation that C++ leaves undefined in some states returns \<open>None\<close> there, so that
  a theorem that ends in \<open>Some\<close> says the behaviour is defined. Errors are values. A callback or an
  asynchronous operation is a value the step returns, and a sequence of events is a list of steps.
  \<open>Getzy_Prelude\<close> holds this vocabulary, the rule collections \<open>c_int_simps\<close>, \<open>step_simps\<close>
  and \<open>inv_intros\<close>, and three interfaces as locales: \<open>codec\<close> (what is written is read back,
  whatever follows), \<open>invariant_machine\<close> (an invariant that every allowed step keeps holds after
  any run) and \<open>one_shot\<close>, which extends it (an asynchronous dialogue calls its handler at most once,
  and only when it finishes). They are interpreted on the models of the code: \<open>one_shot\<close> on the proxy
  streams and on direct requests, \<open>invariant_machine\<close> on the bridge, the packet pool, the peer class filter, the connecting peers, the deferred
  handlers and the handles of torrents.

  \<^bold>\<open>The bridge.\<close>
  \<^item> \<open>Decimal_Text\<close>, \<open>Json_Text\<close>: \<open>jsonEscape\<close>, the \<open>jsonExtract\<close> helpers and the
    \<open>std::string\<close> searches under them. Proved, on an object printed by any printer, whichever escapes
    it chooses (the client's escapes every slash): which member the extractors find, what
    \<open>jsonExtractString\<close> makes of its escapes, and when that is what the literal means, as it is for what
    \<open>jsonEscape\<close> prints without a carriage return or a tabulator.
  \<^item> \<open>Settings_Pack\<close> (\<open>libtorrent/settings_pack.hpp\<close>), \<open>Bridge_Library\<close>,
    \<open>Bridge_Settings\<close>: the setting names, the sorted stores with the locale \<open>keyed_store\<close>,
    interpreted on the pack and its lookup; \<open>nativeApplySettings\<close> as the code has it, with every
    guard. Proved: which value each setting has after a call, and that string values change nothing.
  \<^item> \<open>Bridge\<close>, \<open>Bridge_Status\<close>, \<open>Bridge_Machine\<close>: session life time, add, pause, resume,
    remove, file priorities, status text with the 1536-byte buffer of \<open>snprintf\<close>; the whole bridge as
    a step relation over JNI calls, and an interpretation of \<open>invariant_machine\<close>. Proved: the
    pointer is null exactly outside the life time, no session leaks or is deleted twice, each handler's
    effect (of \<open>aux::to_hex\<close> the documented behaviour \<open>is_hex_of\<close> is assumed), and when the status text
    is the whole object of the torrent's values.

  \<^bold>\<open>Data and wire formats of the library.\<close>
  \<^item> \<open>Byte_IO\<close> (\<open>io.hpp\<close>, \<open>aux_/io.hpp\<close>): big-endian integers through an output
    iterator (locale \<open>output_iterator\<close>: a vector and a pointer) and through a span; four
    interpretations of \<open>codec\<close>. \<open>Byte_Text\<close>: C strings as bytes.
  \<^item> \<open>Digest\<close> (\<open>sha1_hash.hpp\<close>, \<open>info_hash.hpp\<close>), \<open>Flags\<close>
    (\<open>flags.hpp\<close>, \<open>torrent_flags.hpp\<close>, alert categories), \<open>Socket_IO\<close>
    (\<open>socket_io.hpp\<close>), \<open>Bencode\<close> (\<open>bencode.hpp\<close>), \<open>Bitfield\<close>
    (\<open>bitfield.hpp\<close>), \<open>Bdecode_Token\<close> (the tokens of \<open>bdecode.hpp\<close>), \<open>Flag_Sets\<close> (the
    flags of every other header, by type and width), \<open>Enumerations\<close> (\<open>operations.hpp\<close>, \<open>error_code.hpp\<close>,
    \<open>performance_counters.hpp\<close>). Proved: round trips, refinement of lists of bits, independence of
    flags, that the decoder returns on any input and never leaves it except where a finding says so.

  \<^bold>\<open>Containers and bookkeeping.\<close>
  \<^item> \<open>Tail_Queue\<close>, \<open>Torrent_List\<close>, \<open>Hetero_Queue\<close>, \<open>Alert_Types\<close>,
    \<open>Alert_Manager\<close>, \<open>Packet_Pool\<close>, \<open>Suggest_Piece\<close>, \<open>Link_List\<close>,
    \<open>Storage_Slots\<close>, \<open>Sorted_Vector\<close>, \<open>Owners\<close> (the owning handles of five headers under
    one locale \<open>owner\<close>, what they acquire being what their constructors are handed), \<open>Peer_Class_Filter\<close>, \<open>Transfer_Stat\<close>, \<open>Torrent_Peer\<close>,
    \<open>Piece_Pos\<close>, \<open>Sort_Orders\<close>, \<open>Pad_Files\<close>, \<open>Peer_List\<close> (the search for an address,
    on \<open>partition_point\<close> of \<open>Sorted_Vector\<close>). The files are named after the headers.
  \<^item> \<open>Containers\<close> (\<open>span.hpp\<close>, \<open>units.hpp\<close>, \<open>index_range.hpp\<close>, the container wrapper),
    \<open>Hash_Results\<close> on top of it (\<open>hash_picker.hpp\<close>: the pieces a block hash verifies),
    \<open>Copy_Ptr\<close> (\<open>copy_ptr.hpp\<close> over an explicit heap, and \<open>client_data.hpp\<close>), \<open>Torrent_Handle\<close>
    (\<open>torrent_handle.hpp\<close>, \<open>session_handle.hpp\<close> over a model of \<open>weak_ptr\<close>).
    Proved: each structure refines the list, set or map it stands for; every alert is kept or counted
    as dropped; packets and indices are never shared; comparisons are strict weak orders; loops over
    indices end without overflow; copying pointers behave as values; handles tell torrents apart, dead
    ones included.

  \<^bold>\<open>Torrents, peers and the session.\<close> Of these classes the headers define the queries and the small
  updates; what the prebuilt library answers (the picker, the peer list, plugins) is a field of the record.
  \<^item> \<open>Torrent_Content\<close> (\<open>torrent_info.hpp\<close>, \<open>file_storage.hpp\<close>): pieces, their hashes and the
    info section. \<open>Torrent_State\<close> (\<open>torrent.hpp\<close>): pieces, resume data, counters of connecting
    peers. \<open>Piece_Counts\<close> (\<open>piece_picker.hpp\<close>): what is concluded from the counters.
  \<^item> \<open>Peer_State\<close> (\<open>peer_connection.hpp\<close>): times, requested blocks, the rate limit and the cork that delays sending;
    \<open>Send_Buffer\<close> (\<open>aux_/chained_buffer.hpp\<close>, \<open>bt_peer_connection.hpp\<close>): queued bytes and the
    frames of messages; \<open>Receive_Buffer\<close>: positions while receiving. \<open>Session_State\<close>
    (\<open>aux_/session_impl.hpp\<close>, \<open>aux_/utp_socket_manager.hpp\<close>): listen sockets, the ports they
    publish, sending through one that may be gone, the limits of uTP sockets.
  \<^item> \<open>Dht_Requests\<close> (\<open>kademlia/\<close>): direct requests, queries of the routing table.
    \<open>Upnp_State\<close> (\<open>upnp.hpp\<close>): the stack of tags. \<open>Device_Binding\<close> (\<open>enum_net.hpp\<close>,
    \<open>aux_/bind_to_device.hpp\<close>).
  Proved: the queries agree with each other and with the picker; a piece's hash lies in the info section;
  a corked function sends nothing before its end and calls \<open>setup_send\<close> once there (of which is assumed
  what the comment says: no send is issued while one seems to be under way); messages are read back from the bytes sent; counters are the
  numbers they stand for.

  \<^bold>\<open>Asynchronous streams.\<close>
  \<^item> \<open>Proxy_Stream\<close> (\<open>proxy_base.hpp\<close>), \<open>Socks5_Stream\<close>, \<open>Http_Stream\<close>,
    \<open>I2P_Stream\<close>: one operation per member function, one step per completion; every reply byte is
    an input. All three interpret \<open>one_shot\<close>. The commands of an I2P stream are local arrays that are
    gone when the asynchronous write goes on: a field of the stream (\<open>socket_takes\<close>) says how much the
    socket takes before, and what it would read later is undefined (\<open>Wild\<close>). \<open>Utp_Stream\<close> (\<open>aux_/utp_stream.hpp\<close>): the
    packet header and the handlers the stream keeps. \<open>Socket_Options\<close>:
    \<open>aux_/set_socket_buffer.hpp\<close>. \<open>I2P_Connection\<close> (\<open>i2p_stream.hpp\<close>): the session with the
    bridge and its queue of lookups, over the streams. \<open>Handlers\<close> (\<open>aux_/allocating_handler.hpp\<close>,
    \<open>aux_/deferred_handler.hpp\<close>): the storage of completion handlers. Proved: the dialogue with a proxy that follows its protocol, that
    success means the proxy granted, termination, memory safety of the parsers with its exceptions,
    that every handler is called once, lookups are answered in order, and the storage of a handler is
    never used twice. That a lookup is defined is proved for runs in which every command fits its array
    and is taken at once, and every field of a reply has a value.

  \<^bold>\<open>Bounds and fuel.\<close> \<open>bdecode\<close> runs on fuel \<open>2 * length + 1\<close>, enough because every two
  calls consume a byte; the field loop of the I2P replies on \<open>length + 1\<close>, since a field takes at least
  one byte; the bitfield iterator on \<open>size + 1\<close> steps. The loops over the heterogeneous queue and the
  binary search end by a measure. The loop over pad files is a partial function, and its termination a
  theorem. Alerts: a limit of at most 60000 alerts of at most 1024 bytes keeps the queue within
  \<open>int\<close>. Packet pool: three times the capacity within \<open>int\<close>. Sliding average: samples whose
  sixty-fourfold is within \<open>int\<close>. Chained buffers: capacities whose sum is within \<open>int\<close>. A message
  to a peer: at most 31 arguments, so that its length fits a \<open>char\<close>. Tokens: offsets and skips
  within 29 bits. At most 65535 connection attempts at a time. Containers: sizes within 32 bits.

  \<^bold>\<open>Not modelled.\<close> What is in the prebuilt library: the functions that \<open>torrent\<close>,
  \<open>session_impl\<close>, \<open>peer_connection\<close>, \<open>piece_picker\<close>, the DHT, disk input and output, trackers and
  port mapping only declare in their headers, and the calls behind a handle. Declarations and getters of
  a member, which have no behaviour to state. Threads and locks: the operations are sequential, as the
  locks make them. The SSL stream, which the build does not compile in. Wrappers of boost.asio and of
  system calls, platform headers and macros, which have no logic of their own. The Dart and Kotlin code,
  which is not C++; what it sends to the bridge is quoted where a model depends on it.
\<close>

end
